(* ===== verification/PyJson.thy ===== *)
theory PyJson
  imports Prelude
begin

text \<open>
  The Python values a parsed JSON document is made of, and the built-in operations the
  modelled code applies to them: truthiness, \<open>str\<close>, \<open>int\<close>, \<open>str.strip\<close> and
  \<open>dict.get\<close>.  A Python string is a list of characters with code points below 256.
  A float is held as the three observations the code makes of it: whether it is truthy,
  the integer \<open>int()\<close> truncates it to (\<open>None\<close> where \<open>int()\<close> raises, for an infinity
  or a NaN) and its printed form, which has at least one character.
\<close>

datatype json =
    JNull
  | JBool bool
  | JInt int
  | JFloat bool "int option" char string
  | JStr string
  | JList "json list"
  | JDict "(string \<times> json) list"

section \<open>Truthiness and lookup\<close>

fun truthy :: "json \<Rightarrow> bool" where
  "truthy JNull = False"
| "truthy (JBool b) = b"
| "truthy (JInt i) = (i \<noteq> 0)"
| "truthy (JFloat t _ _ _) = t"
| "truthy (JStr s) = (s \<noteq> [])"
| "truthy (JList xs) = (xs \<noteq> [])"
| "truthy (JDict kvs) = (kvs \<noteq> [])"

text \<open>\<open>d.get(k)\<close>: \<open>None\<close>, that is \<open>JNull\<close>, for a key that is absent.\<close>

definition dget :: "(string \<times> json) list \<Rightarrow> string \<Rightarrow> json" where
  "dget kvs k = (case map_of kvs k of None \<Rightarrow> JNull | Some v \<Rightarrow> v)"

text \<open>\<open>d.get(k, default)\<close>.\<close>

definition dget_or :: "(string \<times> json) list \<Rightarrow> string \<Rightarrow> json \<Rightarrow> json" where
  "dget_or kvs k v = (case map_of kvs k of None \<Rightarrow> v | Some w \<Rightarrow> w)"

text \<open>\<open>v or w\<close>.\<close>

definition py_or :: "json \<Rightarrow> json \<Rightarrow> json" where
  "py_or v w = (if truthy v then v else w)"

section \<open>Strings\<close>

definition is_space :: "char \<Rightarrow> bool" where
  "is_space c = (let n = (of_char c :: nat) in
     9 \<le> n \<and> n \<le> 13 \<or> 28 \<le> n \<and> n \<le> 32 \<or> n = 133 \<or> n = 160)"

definition strip :: "string \<Rightarrow> string" where
  "strip s = rev (dropWhile is_space (rev (dropWhile is_space s)))"

lemma strip_Nil [simp]: "strip [] = []"
  by (simp add: strip_def)

lemma dropWhile_hd_idem:
  "(xs = [] \<or> \<not> p (hd xs)) \<Longrightarrow> dropWhile p xs = xs"
  by (cases xs) auto

lemma dropWhile_twice [simp]: "dropWhile p (dropWhile p xs) = dropWhile p xs"
  by (induction xs) auto

lemma hd_strip_aux:
  assumes "xs \<noteq> []" and "\<not> p (hd xs)"
  shows "dropWhile p (rev (dropWhile p (rev xs))) = rev (dropWhile p (rev xs))"
proof -
  let ?t = "takeWhile p (rev xs)" and ?d = "dropWhile p (rev xs)"
  have split: "rev xs = ?t @ ?d" by simp
  have "?d \<noteq> []"
  proof
    assume "?d = []"
    then have "\<forall>x \<in> set (rev xs). p x" by (simp add: dropWhile_eq_Nil_conv)
    with assms show False by auto
  qed
  have "xs = rev ?d @ rev ?t" by (metis rev_append rev_rev_ident split)
  with \<open>?d \<noteq> []\<close> have "hd xs = hd (rev ?d)" by (metis hd_append2 rev_is_Nil_conv)
  with assms show ?thesis by (intro dropWhile_hd_idem) auto
qed

lemma strip_idem [simp]: "strip (strip s) = strip s"
proof -
  let ?a = "dropWhile is_space s"
  let ?b = "dropWhile is_space (rev ?a)"
  have "dropWhile is_space (rev ?b) = rev ?b"
  proof (cases "?a = []")
    case True
    then show ?thesis by (simp del: dropWhile_eq_Nil_conv)
  next
    case False
    then have "\<not> is_space (hd ?a)" by (rule hd_dropWhile)
    with False show ?thesis by (rule hd_strip_aux)
  qed
  then show ?thesis by (simp only: strip_def rev_rev_ident dropWhile_twice)
qed

section \<open>Printing\<close>

definition digit_char :: "nat \<Rightarrow> char" where
  "digit_char d = char_of (48 + d)"

fun dec_nat :: "nat \<Rightarrow> string" where
  "dec_nat n = (if n < 10 then [digit_char n] else dec_nat (n div 10) @ [digit_char (n mod 10)])"

declare dec_nat.simps [simp del]

definition str_int :: "int \<Rightarrow> string" where
  "str_int i = (if i < 0 then CHR ''-'' # dec_nat (nat (- i)) else dec_nat (nat i))"

definition hex_digit :: "nat \<Rightarrow> char" where
  "hex_digit d = (if d < 10 then char_of (48 + d) else char_of (87 + d))"

text \<open>
  \<open>repr\<close> of a string: single quotes unless the text holds one and no double quote; the
  control characters and the unprintable ones of Latin-1 escaped.
\<close>

definition repr_char :: "char \<Rightarrow> char \<Rightarrow> string" where
  "repr_char q c = (let n = (of_char c :: nat) in
     if c = q \<or> n = 92 then [char_of (92 :: nat), c]
     else if n = 10 then [char_of (92 :: nat), CHR ''n'']
     else if n = 13 then [char_of (92 :: nat), CHR ''r'']
     else if n = 9 then [char_of (92 :: nat), CHR ''t'']
     else if n < 32 \<or> 127 \<le> n \<and> n \<le> 160 \<or> n = 173
       then [char_of (92 :: nat), CHR ''x'', hex_digit (n div 16), hex_digit (n mod 16)]
     else [c])"

definition repr_str :: "string \<Rightarrow> string" where
  "repr_str s = (let sq = char_of (39 :: nat); dq = char_of (34 :: nat);
       q = (if sq \<in> set s \<and> dq \<notin> set s then dq else sq)
     in [q] @ concat (map (repr_char q) s) @ [q])"

fun join_with :: "string \<Rightarrow> string list \<Rightarrow> string" where
  "join_with sep [] = []"
| "join_with sep [x] = x"
| "join_with sep (x # y # xs) = x @ sep @ join_with sep (y # xs)"

fun py_repr :: "json \<Rightarrow> string" where
  "py_repr JNull = ''None''"
| "py_repr (JBool b) = (if b then ''True'' else ''False'')"
| "py_repr (JInt i) = str_int i"
| "py_repr (JFloat _ _ c s) = c # s"
| "py_repr (JStr s) = repr_str s"
| "py_repr (JList xs) = ''['' @ join_with '', '' (map py_repr xs) @ '']''"
| "py_repr (JDict kvs) =
     ''{'' @ join_with '', '' (map (\<lambda>kv. repr_str (fst kv) @ '': '' @ py_repr (snd kv)) kvs) @ ''}''"

fun py_str :: "json \<Rightarrow> string" where
  "py_str (JStr s) = s"
| "py_str v = py_repr v"

lemma dec_nat_nonempty [simp]: "dec_nat n \<noteq> []"
  by (subst dec_nat.simps) simp

lemma str_int_nonempty [simp]: "str_int i \<noteq> []"
  by (simp add: str_int_def)

lemma py_str_nonempty: "truthy v \<Longrightarrow> py_str v \<noteq> []"
  by (cases v) auto

section \<open>Integers\<close>

text \<open>
  \<open>int(v)\<close>.  A string is stripped, may carry one sign, and is a run of digits in which
  single underscores may separate digits.  The three ways it raises are told apart.
\<close>

datatype int_error = IntTypeError | IntValueError | IntOverflowError

definition is_digit :: "char \<Rightarrow> bool" where
  "is_digit c = (let n = (of_char c :: nat) in 48 \<le> n \<and> n \<le> 57)"

definition digit_val :: "char \<Rightarrow> int" where
  "digit_val c = int (of_char c :: nat) - 48"

text \<open>\<open>need\<close>: the next character must be a digit (at the start and after an underscore).\<close>

fun parse_digits :: "bool \<Rightarrow> int \<Rightarrow> string \<Rightarrow> int option" where
  "parse_digits need acc [] = (if need then None else Some acc)"
| "parse_digits need acc (c # cs) =
     (if is_digit c then parse_digits False (10 * acc + digit_val c) cs
      else if c = CHR ''_'' \<and> \<not> need then parse_digits True acc cs
      else None)"

definition parse_int :: "string \<Rightarrow> int option" where
  "parse_int s = (case strip s of
       [] \<Rightarrow> None
     | c # cs \<Rightarrow> (if c = CHR ''-'' then map_option uminus (parse_digits True 0 cs)
                 else if c = CHR ''+'' then parse_digits True 0 cs
                 else parse_digits True 0 (c # cs)))"

fun py_int :: "json \<Rightarrow> int_error + int" where
  "py_int (JInt i) = Inr i"
| "py_int (JBool b) = Inr (if b then 1 else 0)"
| "py_int (JFloat _ (Some i) _ _) = Inr i"
| "py_int (JFloat _ None c s) = Inl (if c # s = ''nan'' then IntValueError else IntOverflowError)"
| "py_int (JStr s) = (case parse_int s of None \<Rightarrow> Inl IntValueError | Some i \<Rightarrow> Inr i)"
| "py_int JNull = Inl IntTypeError"
| "py_int (JList _) = Inl IntTypeError"
| "py_int (JDict _) = Inl IntTypeError"

text \<open>\<open>isinstance(v, list) and all(isinstance(x, str) for x in v)\<close>, with the strings.\<close>

fun str_items :: "json list \<Rightarrow> string list option" where
  "str_items [] = Some []"
| "str_items (JStr s # xs) = map_option ((#) s) (str_items xs)"
| "str_items (_ # xs) = None"

lemma str_items_map_JStr [simp]: "str_items (map JStr ss) = Some ss"
  by (induction ss) auto

end
