(* ===== verification/HookEvents.thy ===== *)
theory HookEvents
  imports PyJson "HOL-Library.List_Lexorder" "HOL-Library.Char_ord"
begin

text \<open>
  The vocabulary of the kernel's hook bus: \<^verbatim>\<open>backend/kernel/src/core/hooks/events.py\<close> and
  \<^verbatim>\<open>freeze.py\<close>.  An event carries the session it belongs to and a JSON payload; handlers and
  the runtime answer it with one of six result types.  Payloads are values here, so the
  read-only wrappers of \<^verbatim>\<open>freeze.py\<close> are the values themselves; what the code relies on is
  that a frozen payload compares by Python's \<open>==\<close>, which \<open>py_eq\<close> decides.
\<close>

section \<open>Equality of JSON values\<close>

text \<open>
  Python compares dicts without regard to order, and \<open>True\<close>, \<open>1\<close> and \<open>1.0\<close> are equal.  A
  float is integral when its printed form ends in \<open>.0\<close> or has a positive exponent.  Two
  NaNs count as equal: inside a container Python compares identical objects as equal, and
  a payload's NaN is the same object wherever the payload goes.
\<close>

fun ends_dot_zero :: "string \<Rightarrow> bool" where
  "ends_dot_zero [] = False"
| "ends_dot_zero [c] = False"
| "ends_dot_zero [c, d] = (c = CHR ''.'' \<and> d = CHR ''0'')"
| "ends_dot_zero (c # d # e # s) = ends_dot_zero (d # e # s)"

fun has_big_exponent :: "string \<Rightarrow> bool" where
  "has_big_exponent [] = False"
| "has_big_exponent [c] = False"
| "has_big_exponent (c # d # s) =
     (c = CHR ''e'' \<and> d = CHR ''+'' \<or> has_big_exponent (d # s))"

definition integral_repr :: "string \<Rightarrow> bool" where
  "integral_repr s = (ends_dot_zero s \<or> has_big_exponent s)"

fun norm_json :: "json \<Rightarrow> json" where
  "norm_json JNull = JNull"
| "norm_json (JBool b) = JInt (if b then 1 else 0)"
| "norm_json (JInt i) = JInt i"
| "norm_json (JFloat t (Some i) c s) =
     (if integral_repr (c # s) then JInt i else JFloat t (Some i) c s)"
| "norm_json (JFloat t None c s) = JFloat t None c s"
| "norm_json (JStr s) = JStr s"
| "norm_json (JList xs) = JList (map norm_json xs)"
| "norm_json (JDict kvs) = JDict (sort_key fst (map (\<lambda>(k, v). (k, norm_json v)) kvs))"

definition py_eq :: "json \<Rightarrow> json \<Rightarrow> bool" where
  "py_eq v w = (norm_json v = norm_json w)"

lemma py_eq_refl [simp]: "py_eq v v"
  by (simp add: py_eq_def)

lemma py_eq_sym: "py_eq v w \<Longrightarrow> py_eq w v"
  by (simp add: py_eq_def)

lemma py_eq_trans [trans]: "py_eq u v \<Longrightarrow> py_eq v w \<Longrightarrow> py_eq u w"
  by (simp add: py_eq_def)

lemma py_eq_string [simp]: "py_eq (JStr s) v \<longleftrightarrow> v = JStr s"
  by (cases v rule: norm_json.cases) (auto simp: py_eq_def)

section \<open>Sessions and events\<close>

abbreviation SESSION_START :: string where "SESSION_START \<equiv> ''session.start''"
abbreviation SESSION_END :: string where "SESSION_END \<equiv> ''session.end''"
abbreviation PROMPT_SUBMIT :: string where "PROMPT_SUBMIT \<equiv> ''prompt.submit''"
abbreviation TURN_START :: string where "TURN_START \<equiv> ''turn.start''"
abbreviation TURN_COMPLETE :: string where "TURN_COMPLETE \<equiv> ''turn.complete''"
abbreviation RUNTIME_CHECK :: string where "RUNTIME_CHECK \<equiv> ''runtime.check''"
abbreviation TOOL_CHECK :: string where "TOOL_CHECK \<equiv> ''tool.check''"
abbreviation TOOL_CALL :: string where "TOOL_CALL \<equiv> ''tool.call''"
abbreviation SESSION_COMPACT :: string where "SESSION_COMPACT \<equiv> ''session.compact''"
abbreviation AGENT_SPAWN :: string where "AGENT_SPAWN \<equiv> ''agent.spawn''"
abbreviation COMMAND_RUN :: string where "COMMAND_RUN \<equiv> ''command.run''"

definition event_names :: "string list" where
  "event_names = [SESSION_START, SESSION_END, PROMPT_SUBMIT, TURN_START, TURN_COMPLETE,
     RUNTIME_CHECK, TOOL_CHECK, TOOL_CALL, SESSION_COMPACT, AGENT_SPAWN, COMMAND_RUN]"

type_synonym payload = "(string \<times> json) list"

record session_ref =
  sr_session_id :: session_id
  sr_user_id :: user_id
  sr_runtime_provider :: string
  sr_cwd :: string
  sr_model :: string
  sr_permission_mode :: string
  sr_mode :: string
  sr_model_settings :: payload
  sr_metadata :: payload
  sr_bare :: bool
  sr_tool_bindings :: payload
  sr_execution_message_id :: "string option"
  sr_trusted :: bool

text \<open>The dataclass's generated \<open>==\<close>: field by field.\<close>

definition session_eq :: "session_ref \<Rightarrow> session_ref \<Rightarrow> bool" where
  "session_eq a b = (sr_session_id a = sr_session_id b \<and> sr_user_id a = sr_user_id b
     \<and> sr_runtime_provider a = sr_runtime_provider b \<and> sr_cwd a = sr_cwd b
     \<and> sr_model a = sr_model b \<and> sr_permission_mode a = sr_permission_mode b
     \<and> sr_mode a = sr_mode b \<and> py_eq (JDict (sr_model_settings a)) (JDict (sr_model_settings b))
     \<and> py_eq (JDict (sr_metadata a)) (JDict (sr_metadata b)) \<and> sr_bare a = sr_bare b
     \<and> py_eq (JDict (sr_tool_bindings a)) (JDict (sr_tool_bindings b))
     \<and> sr_execution_message_id a = sr_execution_message_id b \<and> sr_trusted a = sr_trusted b)"

lemma session_eq_refl [simp]: "session_eq s s"
  by (simp add: session_eq_def)

lemma session_eq_sym: "session_eq a b \<Longrightarrow> session_eq b a"
  by (auto simp: session_eq_def intro: py_eq_sym)

lemma session_eq_trans [trans]: "session_eq a b \<Longrightarrow> session_eq b c \<Longrightarrow> session_eq a c"
  by (auto simp: session_eq_def intro: py_eq_trans)

lemma session_eq_mode: "session_eq a b \<Longrightarrow> sr_permission_mode a = sr_permission_mode b"
  by (simp add: session_eq_def)

definition session_to_wire :: "session_ref \<Rightarrow> payload" where
  "session_to_wire s =
     [(''session_id'', JStr (sr_session_id s)), (''user_id'', JStr (sr_user_id s)),
      (''runtime_provider'', JStr (sr_runtime_provider s)), (''cwd'', JStr (sr_cwd s)),
      (''model'', JStr (sr_model s)), (''permission_mode'', JStr (sr_permission_mode s)),
      (''mode'', JStr (sr_mode s)), (''model_settings'', JDict (sr_model_settings s)),
      (''metadata'', JDict (sr_metadata s)), (''bare'', JBool (sr_bare s)),
      (''trusted'', JBool (sr_trusted s))]"

record hook_event =
  he_name :: string
  he_session :: session_ref
  he_data :: payload

definition event_eq :: "hook_event \<Rightarrow> hook_event \<Rightarrow> bool" where
  "event_eq a b = (he_name a = he_name b \<and> session_eq (he_session a) (he_session b)
     \<and> py_eq (JDict (he_data a)) (JDict (he_data b)))"

lemma event_eq_refl [simp]: "event_eq e e"
  by (simp add: event_eq_def)

text \<open>\<open>str.split\<close> at one character.\<close>

fun split_at :: "char \<Rightarrow> string \<Rightarrow> string list" where
  "split_at c [] = [[]]"
| "split_at c (x # xs) = (if x = c then [] # split_at c xs
     else (case split_at c xs of [] \<Rightarrow> [[x]] | p # ps \<Rightarrow> (x # p) # ps))"

text \<open>\<open>HookEvent.get\<close> along the parts of a dotted path; \<open>None\<close> stands for the default.\<close>

fun walk_path :: "json \<Rightarrow> string list \<Rightarrow> json option" where
  "walk_path v [] = Some v"
| "walk_path (JDict kvs) (p # ps) =
     (case map_of kvs p of None \<Rightarrow> None | Some v \<Rightarrow> walk_path v ps)"
| "walk_path _ (p # ps) = None"

definition event_get :: "hook_event \<Rightarrow> string \<Rightarrow> json" where
  "event_get e p = (case walk_path (JDict (he_data e)) (split_at (CHR ''.'') p) of
     None \<Rightarrow> JNull | Some v \<Rightarrow> v)"

text \<open>\<open>dict.update\<close> with one key: in place when present, at the end otherwise.\<close>

fun set_key :: "string \<Rightarrow> json \<Rightarrow> payload \<Rightarrow> payload" where
  "set_key k v [] = [(k, v)]"
| "set_key k v ((k', w) # kvs) = (if k' = k then (k', v) # kvs else (k', w) # set_key k v kvs)"

definition with_data :: "string \<Rightarrow> json \<Rightarrow> hook_event \<Rightarrow> hook_event" where
  "with_data k v e = e\<lparr>he_data := set_key k v (he_data e)\<rparr>"

definition event_to_wire :: "hook_event \<Rightarrow> payload" where
  "event_to_wire e = [(''name'', JStr (he_name e)),
     (''session'', JDict (session_to_wire (he_session e))), (''data'', JDict (he_data e))]"

lemma map_of_set_key: "map_of (set_key k v kvs) = (map_of kvs)(k \<mapsto> v)"
  by (induction k v kvs rule: set_key.induct) auto

lemma with_data_frame [simp]:
  "he_name (with_data k v e) = he_name e"
  "he_session (with_data k v e) = he_session e"
  by (simp_all add: with_data_def)

lemma split_at_plain: "c \<notin> set p \<Longrightarrow> split_at c p = [p]"
  by (induction p) auto

lemma event_get_plain:
  "CHR ''.'' \<notin> set p \<Longrightarrow> event_get e p = dget (he_data e) p"
  by (auto simp: event_get_def split_at_plain dget_def split: option.splits)

lemma event_get_with_data [simp]:
  "event_get (with_data ''input'' v e) ''input'' = v"
  by (simp add: event_get_plain dget_def with_data_def map_of_set_key)

text \<open>Setting a top-level key leaves every path that starts elsewhere alone.\<close>

lemma walk_path_set_key:
  "p \<noteq> k \<Longrightarrow> walk_path (JDict (set_key k v kvs)) (p # ps) = walk_path (JDict kvs) (p # ps)"
  by (simp add: map_of_set_key)

lemma event_get_other_key:
  assumes "split_at (CHR ''.'') q = p # ps" and "p \<noteq> k"
  shows "event_get (with_data k v e) q = event_get e q"
  using assms by (simp add: event_get_def with_data_def walk_path_set_key del: walk_path.simps)

section \<open>Tools\<close>

record tool_ref =
  tr_name :: string
  tr_kind :: string
  tr_source :: string
  tr_server :: "string option"
  tr_path :: "string option"
  tr_command :: "string option"

definition opt_entry :: "string \<Rightarrow> string option \<Rightarrow> payload" where
  "opt_entry k x = (case x of None \<Rightarrow> [] | Some s \<Rightarrow> [(k, JStr s)])"

definition tool_ref_to_dict :: "tool_ref \<Rightarrow> payload" where
  "tool_ref_to_dict t = [(''name'', JStr (tr_name t)), (''kind'', JStr (tr_kind t)),
      (''source'', JStr (tr_source t))]
     @ opt_entry ''server'' (tr_server t) @ opt_entry ''path'' (tr_path t)
     @ opt_entry ''command'' (tr_command t)"

section \<open>Results\<close>

record tool_outcome =
  to_content :: json
  to_is_error :: bool
  to_executed :: bool

datatype behavior = Allow | Deny | Ask

record tool_decision =
  td_behavior :: behavior
  td_reason :: "string option"
  td_updated_input :: "payload option"

type_synonym guard_tokens = "(string \<times> (string \<times> string) list) list"

record runtime_constraints =
  rc_proceed :: bool
  rc_read_only :: bool
  rc_network_off :: bool
  rc_human_review :: bool
  rc_require_tool_guard :: bool
  rc_policy_version :: "int option"
  rc_guard_nonce :: "string option"
  rc_reason :: "string option"
  rc_guard_tokens :: guard_tokens

definition default_constraints :: runtime_constraints where
  "default_constraints = \<lparr>rc_proceed = True, rc_read_only = False, rc_network_off = False,
     rc_human_review = False, rc_require_tool_guard = False, rc_policy_version = None,
     rc_guard_nonce = None, rc_reason = None, rc_guard_tokens = []\<rparr>"

record prompt_decision =
  pd_text :: string
  pd_context :: "string list"
  pd_drop :: "string option"

record compact_decision =
  cd_proceed :: bool
  cd_reason :: "string option"

record command_output =
  co_text :: string
  co_is_error :: bool

text \<open>What a handler or the runtime may return: one of the result types, \<open>None\<close>, or any
  other object, of which only the type's name is seen.\<close>

datatype hook_value =
    HOutcome tool_outcome
  | HDecision tool_decision
  | HConstraints runtime_constraints
  | HPrompt prompt_decision
  | HCompact compact_decision
  | HCommand command_output
  | HNone
  | HOther string

fun type_name :: "hook_value \<Rightarrow> string" where
  "type_name (HOutcome _) = ''ToolOutcome''"
| "type_name (HDecision _) = ''ToolDecision''"
| "type_name (HConstraints _) = ''RuntimeConstraints''"
| "type_name (HPrompt _) = ''PromptDecision''"
| "type_name (HCompact _) = ''CompactDecision''"
| "type_name (HCommand _) = ''CommandOutput''"
| "type_name HNone = ''NoneType''"
| "type_name (HOther t) = t"

fun is_constraints :: "hook_value \<Rightarrow> bool" where
  "is_constraints (HConstraints _) = True"
| "is_constraints _ = False"

fun is_outcome :: "hook_value \<Rightarrow> bool" where
  "is_outcome (HOutcome _) = True"
| "is_outcome _ = False"

fun allows :: "hook_value \<Rightarrow> bool" where
  "allows (HDecision d) = (td_behavior d = Allow)"
| "allows _ = False"

end
