(* ===== verification/HookMatcher.thy ===== *)
theory HookMatcher
  imports HookEvents
begin

text \<open>
  \<^verbatim>\<open>backend/kernel/src/core/hooks/matcher.py\<close>: which events a handler wants.  A pattern is
  an exact name, alternatives separated by \<open>|\<close>, a shell glob, or a regular expression
  between slashes.  Globs are Python's \<^verbatim>\<open>fnmatch\<close>, written out here; regular expressions
  are the parameter \<open>rx\<close>, which says whether a pattern is found in a text, with
  \<open>rx_ok\<close> saying whether it compiles.
\<close>

section \<open>Globs\<close>

text \<open>A class matches the characters its items name; \<open>True\<close> marks a negated class.\<close>

datatype glob_token =
    AnyRun
  | AnyChar
  | Exactly char
  | CharClass bool "(char \<times> char) list"

text \<open>
  The body of a class: \<open>a-z\<close> is a range when a character follows the hyphen, and a range
  whose ends are out of order names nothing.
\<close>

fun class_items :: "string \<Rightarrow> (char \<times> char) list" where
  "class_items (a # h # b # s) =
     (if h = CHR ''-'' then (if (of_char a :: nat) \<le> of_char b then [(a, b)] else []) @ class_items s
      else (a, a) # class_items (h # b # s))"
| "class_items s = map (\<lambda>c. (c, c)) s"

definition in_class :: "(char \<times> char) list \<Rightarrow> char \<Rightarrow> bool" where
  "in_class items c =
     list_ex (\<lambda>(a, b). (of_char a :: nat) \<le> of_char c \<and> (of_char c :: nat) \<le> of_char b) items"

text \<open>
  After a \<open>[\<close>: an optional \<open>!\<close>, then at least one character before the closing bracket.
  Without a closing bracket the \<open>[\<close> stands for itself.
\<close>

definition split_class :: "string \<Rightarrow> (bool \<times> string \<times> string) option" where
  "split_class s = (let (neg, s1) = (case s of CHR ''!'' # t \<Rightarrow> (True, t) | _ \<Rightarrow> (False, s));
       (first, s2) = (case s1 of [] \<Rightarrow> ([], []) | c # t \<Rightarrow> (if c = CHR '']'' then ([c], t) else ([], s1)))
     in (case dropWhile (\<lambda>c. c \<noteq> CHR '']'') s2 of
           [] \<Rightarrow> None
         | _ # rest \<Rightarrow> Some (neg, first @ takeWhile (\<lambda>c. c \<noteq> CHR '']'') s2, rest)))"

lemma split_class_shorter: "split_class s = Some (neg, body, rest) \<Longrightarrow> length rest < length s"
proof -
  have "length (dropWhile p t) \<le> length t" for p :: "char \<Rightarrow> bool" and t
    by (rule length_dropWhile_le)
  note le = this [of "\<lambda>c. c \<noteq> CHR '']''"]
  show "split_class s = Some (neg, body, rest) \<Longrightarrow> length rest < length s"
    unfolding split_class_def Let_def
    using le [of s] le [of "tl s"] le [of "tl (tl s)"]
    by (auto split: list.splits if_splits char.splits bool.splits prod.splits)
qed

function glob_tokens :: "string \<Rightarrow> glob_token list" where
  "glob_tokens [] = []"
| "glob_tokens (c # s) =
     (if c = CHR ''*'' then AnyRun # glob_tokens s
      else if c = CHR ''?'' then AnyChar # glob_tokens s
      else if c = CHR ''['' then
        (case split_class s of
           None \<Rightarrow> Exactly c # glob_tokens s
         | Some (neg, body, rest) \<Rightarrow> CharClass neg (class_items body) # glob_tokens rest)
      else Exactly c # glob_tokens s)"
  by pat_completeness auto
termination
  by (relation "measure length") (auto dest: split_class_shorter)

fun glob_match :: "glob_token list \<Rightarrow> string \<Rightarrow> bool" where
  "glob_match [] s = (s = [])"
| "glob_match (AnyRun # ts) [] = glob_match ts []"
| "glob_match (AnyRun # ts) (c # s) = (glob_match ts (c # s) \<or> glob_match (AnyRun # ts) s)"
| "glob_match (_ # ts) [] = False"
| "glob_match (AnyChar # ts) (c # s) = glob_match ts s"
| "glob_match (Exactly d # ts) (c # s) = (c = d \<and> glob_match ts s)"
| "glob_match (CharClass neg items # ts) (c # s) = (in_class items c \<noteq> neg \<and> glob_match ts s)"

section \<open>Patterns and matchers\<close>

definition is_regex :: "string \<Rightarrow> bool" where
  "is_regex p = (2 \<le> length p \<and> hd p = CHR ''/'' \<and> last p = CHR ''/'')"

definition regex_body :: "string \<Rightarrow> string" where
  "regex_body p = butlast (tl p)"

definition alternatives :: "string \<Rightarrow> string list" where
  "alternatives p = (case filter (\<lambda>s. s \<noteq> []) (split_at (CHR ''|'') p) of
     [] \<Rightarrow> [[]] | a # as \<Rightarrow> a # as)"

definition pattern_matches :: "(string \<Rightarrow> string \<Rightarrow> bool) \<Rightarrow> string \<Rightarrow> json \<Rightarrow> bool" where
  "pattern_matches rx p v = (v \<noteq> JNull \<and>
     (if is_regex p then rx (regex_body p) (py_str v)
      else list_ex (\<lambda>a. glob_match (glob_tokens a) (py_str v)) (alternatives p)))"

text \<open>A matcher maps paths to one pattern or several; the code's dict, in its order.\<close>

datatype matcher_value = Pattern string | Patterns "string list"

type_synonym matcher = "(string \<times> matcher_value) list"

fun patterns_of :: "matcher_value \<Rightarrow> string list" where
  "patterns_of (Pattern p) = [p]"
| "patterns_of (Patterns ps) = ps"

definition shorthand :: "string \<Rightarrow> string" where
  "shorthand k = (if k = ''tool'' then ''tool.name'' else if k = ''command'' then ''name'' else k)"

definition entry_matches :: "(string \<Rightarrow> string \<Rightarrow> bool) \<Rightarrow> hook_event \<Rightarrow> string \<times> matcher_value \<Rightarrow> bool" where
  "entry_matches rx e kv =
     list_ex (\<lambda>p. pattern_matches rx p (event_get e (shorthand (fst kv)))) (patterns_of (snd kv))"

text \<open>No matcher and an empty one match every event.\<close>

definition matches :: "(string \<Rightarrow> string \<Rightarrow> bool) \<Rightarrow> matcher option \<Rightarrow> hook_event \<Rightarrow> bool" where
  "matches rx m e = (case m of None \<Rightarrow> True | Some kvs \<Rightarrow> list_all (entry_matches rx e) kvs)"

text \<open>\<open>validate\<close>: keys are not empty and every pattern compiles.  Globs always do.\<close>

datatype matcher_error = EmptyMatcherKey | BadPattern string

definition compile_ok :: "(string \<Rightarrow> bool) \<Rightarrow> string \<Rightarrow> bool" where
  "compile_ok rx_ok p = (is_regex p \<longrightarrow> rx_ok (regex_body p))"

fun check_patterns :: "(string \<Rightarrow> bool) \<Rightarrow> string list \<Rightarrow> matcher_error + unit" where
  "check_patterns rx_ok [] = Inr ()"
| "check_patterns rx_ok (p # ps) =
     (if compile_ok rx_ok p then check_patterns rx_ok ps else Inl (BadPattern p))"

fun check_entries :: "(string \<Rightarrow> bool) \<Rightarrow> matcher \<Rightarrow> matcher_error + unit" where
  "check_entries rx_ok [] = Inr ()"
| "check_entries rx_ok ((k, v) # kvs) =
     (if k = [] then Inl EmptyMatcherKey
      else rbind (check_patterns rx_ok (patterns_of v)) (\<lambda>_. check_entries rx_ok kvs))"

definition matcher_validate :: "(string \<Rightarrow> bool) \<Rightarrow> matcher option \<Rightarrow> matcher_error + unit" where
  "matcher_validate rx_ok m = (case m of None \<Rightarrow> Inr () | Some kvs \<Rightarrow> check_entries rx_ok kvs)"

section \<open>What patterns mean\<close>

definition plain_char :: "char \<Rightarrow> bool" where
  "plain_char c = (c \<notin> {CHR ''*'', CHR ''?'', CHR ''['', CHR ''|''})"

lemma glob_tokens_plain: "list_all plain_char p \<Longrightarrow> glob_tokens p = map Exactly p"
  by (induction p) (auto simp: plain_char_def)

lemma glob_match_exact: "glob_match (map Exactly p) s \<longleftrightarrow> s = p"
proof (induction p arbitrary: s)
  case Nil
  show ?case by simp
next
  case (Cons c p)
  then show ?case by (cases s) auto
qed

lemma alternatives_plain: "list_all plain_char p \<Longrightarrow> alternatives p = [p]"
  by (subgoal_tac "CHR ''|'' \<notin> set p") (auto simp: alternatives_def split_at_plain list_all_iff plain_char_def)

text \<open>A pattern without metacharacters is an exact match.\<close>

lemma pattern_matches_plain:
  assumes "list_all plain_char p" and "\<not> is_regex p"
  shows "pattern_matches rx p v \<longleftrightarrow> v \<noteq> JNull \<and> py_str v = p"
  using assms by (auto simp: pattern_matches_def alternatives_plain glob_tokens_plain glob_match_exact)

text \<open>A trailing star matches every continuation of what precedes it.\<close>

lemma glob_match_any: "glob_match [AnyRun] s"
  by (induction s) auto

lemma glob_match_prefix: "glob_match (map Exactly p @ [AnyRun]) s \<longleftrightarrow> (\<exists>t. s = p @ t)"
proof (induction p arbitrary: s)
  case Nil
  show ?case by (simp add: glob_match_any)
next
  case (Cons c p)
  then show ?case by (cases s) auto
qed

lemma glob_tokens_prefix:
  "list_all plain_char p \<Longrightarrow> glob_tokens (p @ ''*'') = map Exactly p @ [AnyRun]"
  by (induction p) (auto simp: plain_char_def)

lemma matches_None [simp]: "matches rx None e" "matches rx (Some []) e"
  by (simp_all add: matches_def)

lemma matches_cong:
  assumes "\<And>k v. (k, v) \<in> set kvs \<Longrightarrow> event_get e (shorthand k) = event_get e' (shorthand k)"
  shows "matches rx (Some kvs) e = matches rx (Some kvs) e'"
  using assms by (auto simp: matches_def list_all_iff entry_matches_def)

end
