(* ===== verification/HookChain.thy ===== *)
theory HookChain
  imports HookMatcher
begin

text \<open>
  \<^verbatim>\<open>backend/kernel/src/core/hooks/chain.py\<close>: running one event through the handlers
  registered for it, outermost first, to the runtime's own behaviour (the core).

  A handler is a coroutine, here a tree of what it does between its awaits: it returns,
  raises, spends time of its own, acts on shared state, or awaits \<open>next\<close> and goes on with
  what that gave.  What lies below a handler is a function from an event and the shared
  state to an outcome and the shared state.  Time is counted in units of the budget.
  A handler's trees are finite, so one that would never return is one that overruns its
  budget; handlers that call \<open>next\<close> from several tasks at once, or go on acting after
  their overrun was cancelled, are outside the model, and so is a cancellation from outside
  the chain at an arbitrary await.  Log lines are not modelled.
\<close>

section \<open>Handlers\<close>

text \<open>
  The exceptions: a cancellation, which may carry the runtime constraints acquired so far,
  and any other, by the name of its type and its text.
\<close>

datatype hook_exn =
    Cancelled "runtime_constraints option"
  | Failed string string

text \<open>The argument of \<open>next\<close>: none, an event, or something that is not an event.\<close>

datatype next_arg = NextSame | NextEvent hook_event | NextJunk

datatype 'w program =
    Return hook_value
  | Raise hook_exn
  | Spend nat "'w program"
  | Act "'w \<Rightarrow> 'w" "'w \<Rightarrow> 'w program"
  | Next next_arg "hook_exn + hook_value \<Rightarrow> 'w program"

datatype tier = Prepend | User | Append | Builtin

primrec tier_order :: "tier \<Rightarrow> nat" where
  "tier_order Prepend = 0"
| "tier_order User = 1"
| "tier_order Append = 2"
| "tier_order Builtin = 3"

definition unprivileged :: "tier \<Rightarrow> bool" where
  "unprivileged t = (t \<in> {User, Append})"

definition default_budget :: nat where
  "default_budget = 10"

record hook_context =
  hc_owner :: string
  hc_tier :: tier
  hc_session :: session_ref

text \<open>\<open>hs_budget\<close> is 0 for a handler without a budget.\<close>

record 'w hook_spec =
  hs_event :: string
  hs_handler :: "hook_context \<Rightarrow> hook_event \<Rightarrow> 'w program"
  hs_owner :: string
  hs_tier :: tier
  hs_matcher :: "matcher option"
  hs_fail_closed :: bool
  hs_required :: bool
  hs_budget :: nat
  hs_priority :: int
  hs_applies :: "(session_ref \<Rightarrow> hook_exn + bool) option"
  hs_seq :: nat
  hs_registration :: string

definition release_key :: "'w hook_spec \<Rightarrow> string" where
  "release_key s = str_int (int (hs_seq s)) @ '':'' @ hs_registration s"

definition spec_rank :: "'w hook_spec \<Rightarrow> nat" where
  "spec_rank s = (if hs_required s then 4 else tier_order (hs_tier s))"

section \<open>Results\<close>

definition observe_events :: "string list" where
  "observe_events = [SESSION_START, SESSION_END, TURN_START, TURN_COMPLETE, AGENT_SPAWN]"

text \<open>\<open>RESULT_TYPES.get(event)\<close> and \<open>isinstance\<close> of it.\<close>

definition result_type :: "string \<Rightarrow> string option" where
  "result_type e = map_of
     [(TOOL_CALL, ''ToolOutcome''), (TOOL_CHECK, ''ToolDecision''),
      (RUNTIME_CHECK, ''RuntimeConstraints''), (PROMPT_SUBMIT, ''PromptDecision''),
      (SESSION_COMPACT, ''CompactDecision''), (COMMAND_RUN, ''CommandOutput'')] e"

definition has_type :: "string \<Rightarrow> hook_value \<Rightarrow> bool" where
  "has_type t v = ((\<forall>n. v \<noteq> HOther n) \<and> type_name v = t)"

lemma has_type_code [code, simp]:
  "has_type t (HOther n) = False"
  "has_type t (HOutcome a) = (t = ''ToolOutcome'')"
  "has_type t (HDecision b) = (t = ''ToolDecision'')"
  "has_type t (HConstraints c) = (t = ''RuntimeConstraints'')"
  "has_type t (HPrompt d) = (t = ''PromptDecision'')"
  "has_type t (HCompact e) = (t = ''CompactDecision'')"
  "has_type t (HCommand f) = (t = ''CommandOutput'')"
  "has_type t HNone = (t = ''NoneType'')"
  by (auto simp: has_type_def)

definition fail_closed_result :: "hook_event \<Rightarrow> string \<Rightarrow> string \<Rightarrow> hook_value" where
  "fail_closed_result e owner reason =
    (let txt = ''Blocked by the '' @ [CHR 0x27] @ owner @ [CHR 0x27] @ '' hook ('' @ reason @ '').'' in
     if he_name e = TOOL_CALL
       then HOutcome \<lparr>to_content = JStr txt, to_is_error = True, to_executed = False\<rparr>
     else if he_name e = RUNTIME_CHECK
       then HConstraints (default_constraints\<lparr>rc_proceed := False, rc_reason := Some txt\<rparr>)
     else if he_name e = TOOL_CHECK
       then HDecision \<lparr>td_behavior = Deny, td_reason = Some txt, td_updated_input = None\<rparr>
     else if he_name e = PROMPT_SUBMIT
       then HPrompt \<lparr>pd_text = (case walk_path (JDict (he_data e)) [''text''] of
                                 None \<Rightarrow> [] | Some v \<Rightarrow> py_str v),
                     pd_context = [], pd_drop = Some txt\<rparr>
     else if he_name e = SESSION_COMPACT
       then HCompact \<lparr>cd_proceed = False, cd_reason = Some txt\<rparr>
     else if he_name e = COMMAND_RUN
       then HCommand \<lparr>co_text = txt, co_is_error = True\<rparr>
     else HNone)"

definition input_changed :: "hook_event \<Rightarrow> hook_event \<Rightarrow> bool" where
  "input_changed before after = (\<not> py_eq (event_get before ''input'') (event_get after ''input''))"

text \<open>\<open>a or b\<close> of two optional strings: an empty string counts as none.\<close>

definition opt_or :: "string option \<Rightarrow> string option \<Rightarrow> string option" where
  "opt_or a b = (case a of Some (c # s) \<Rightarrow> a | _ \<Rightarrow> b)"

definition tighten_runtime :: "runtime_constraints \<Rightarrow> runtime_constraints \<Rightarrow> runtime_constraints" where
  "tighten_runtime r q = r\<lparr>
     rc_proceed := rc_proceed r \<and> rc_proceed q,
     rc_read_only := rc_read_only r \<or> rc_read_only q,
     rc_network_off := rc_network_off r \<or> rc_network_off q,
     rc_human_review := rc_human_review r \<or> rc_human_review q,
     rc_require_tool_guard := rc_require_tool_guard r \<or> rc_require_tool_guard q,
     rc_guard_nonce := opt_or (rc_guard_nonce q) (rc_guard_nonce r)\<rparr>"

section \<open>One handler\<close>

type_synonym 'w layer = "hook_event \<Rightarrow> 'w \<Rightarrow> (hook_exn + hook_value) \<times> 'w"

text \<open>\<open>_CallState\<close>.  \<open>cs_last_result\<close> is the code's \<open>last_result\<close> together with \<open>has_result\<close>.\<close>

record call_state =
  cs_next_calls :: nat
  cs_last_result :: "hook_value option"
  cs_downstream_error :: "hook_exn option"
  cs_own_time :: nat

definition fresh_call :: call_state where
  "fresh_call = \<lparr>cs_next_calls = 0, cs_last_result = None, cs_downstream_error = None,
     cs_own_time = 0\<rparr>"

definition guarded :: "'w hook_spec \<Rightarrow> hook_event \<Rightarrow> bool" where
  "guarded s e = (unprivileged (hs_tier s) \<and> sr_permission_mode (he_session e) = ''default'')"

text \<open>The event \<open>next_\<close> passes on, or the error it raises.\<close>

definition next_target :: "bool \<Rightarrow> hook_event \<Rightarrow> next_arg \<Rightarrow> hook_exn + hook_event" where
  "next_target g e a =
    (let bad = Inl (Failed ''TypeError'' (''next() takes a '' @ he_name e @ '' HookEvent'')) in
     case a of
       NextJunk \<Rightarrow> bad
     | NextSame \<Rightarrow> Inr e
     | NextEvent t \<Rightarrow>
         (if he_name t \<noteq> he_name e then bad
          else if g \<and> he_name t = TOOL_CALL \<and> input_changed e t
            then Inr (with_data ''input'' (event_get e ''input'') t)
          else Inr t))"

definition note_next :: "hook_exn + hook_value \<Rightarrow> call_state \<Rightarrow> call_state" where
  "note_next r c = (case r of
       Inl x \<Rightarrow> c\<lparr>cs_next_calls := Suc (cs_next_calls c), cs_downstream_error := Some x\<rparr>
     | Inr v \<Rightarrow> c\<lparr>cs_next_calls := Suc (cs_next_calls c), cs_last_result := Some v\<rparr>)"

datatype finish = Returned hook_value | Raised hook_exn | Overran

text \<open>\<open>_await_with_budget\<close>: time inside \<open>next\<close> does not count.\<close>

primrec run_program :: "nat \<Rightarrow> bool \<Rightarrow> hook_event \<Rightarrow> 'w layer \<Rightarrow> 'w program \<Rightarrow> call_state \<Rightarrow> 'w
    \<Rightarrow> finish \<times> call_state \<times> 'w" where
  "run_program b g e down (Return v) c w = (Returned v, c, w)"
| "run_program b g e down (Raise x) c w = (Raised x, c, w)"
| "run_program b g e down (Spend t p) c w =
     (let c' = c\<lparr>cs_own_time := cs_own_time c + t\<rparr> in
      if 0 < b \<and> b \<le> cs_own_time c' then (Overran, c', w)
      else run_program b g e down p c' w)"
| "run_program b g e down (Act f k) c w = run_program b g e down (k w) c (f w)"
| "run_program b g e down (Next a k) c w =
     (case next_target g e a of
        Inl x \<Rightarrow> run_program b g e down (k (Inl x)) c w
      | Inr t \<Rightarrow> (case down t w of (r, w') \<Rightarrow>
          run_program b g e down (k r) (note_next r c) w'))"

text \<open>What a failure of the handler itself turns into.\<close>

definition on_failure :: "'w hook_spec \<Rightarrow> hook_event \<Rightarrow> 'w layer \<Rightarrow> string \<Rightarrow> call_state \<Rightarrow> 'w
    \<Rightarrow> (hook_exn + hook_value) \<times> 'w" where
  "on_failure s e down reason c w =
    (case (cs_downstream_error c, cs_last_result c) of
       (Some x, None) \<Rightarrow> (Inl x, w)
     | (_, l) \<Rightarrow>
         (if hs_fail_closed s then (Inr (fail_closed_result e (hs_owner s) reason), w)
          else (case l of Some v \<Rightarrow> (Inr v, w) | None \<Rightarrow> down e w)))"

definition failure_reason :: "hook_exn \<Rightarrow> string" where
  "failure_reason x = (case x of Cancelled _ \<Rightarrow> [] | Failed t m \<Rightarrow> (if m = [] then t else m))"

text \<open>An exception inside the \<open>try\<close> block: a cancellation passes, the rest is a failure.\<close>

definition contain :: "'w hook_spec \<Rightarrow> hook_event \<Rightarrow> 'w layer \<Rightarrow> hook_exn \<Rightarrow> call_state \<Rightarrow> 'w
    \<Rightarrow> (hook_exn + hook_value) \<times> 'w" where
  "contain s e down x c w = (case x of
       Cancelled r \<Rightarrow> (Inl (Cancelled r), w)
     | Failed t m \<Rightarrow> on_failure s e down (failure_reason x) c w)"

text \<open>\<open>return await downstream(event)\<close> inside the \<open>try\<close> block.\<close>

definition ask_below :: "'w hook_spec \<Rightarrow> hook_event \<Rightarrow> 'w layer \<Rightarrow> call_state \<Rightarrow> 'w
    \<Rightarrow> (hook_exn + hook_value) \<times> 'w" where
  "ask_below s e down c w = (case down e w of
       (Inl x, w') \<Rightarrow> contain s e down x c w'
     | (Inr v, w') \<Rightarrow> (Inr v, w'))"

definition pass_through :: "hook_value \<Rightarrow> call_state \<Rightarrow> hook_value" where
  "pass_through v c = (case (v, cs_last_result c) of (HNone, Some l) \<Rightarrow> l | _ \<Rightarrow> v)"

definition wrong_type :: "string \<Rightarrow> hook_value \<Rightarrow> string option" where
  "wrong_type name v = (case result_type name of
       None \<Rightarrow> None
     | Some t \<Rightarrow> (if has_type t v then None
                 else Some (''returned '' @ type_name v @ '', expected '' @ t)))"

definition judge_result :: "'w hook_spec \<Rightarrow> hook_event \<Rightarrow> 'w layer \<Rightarrow> hook_value \<Rightarrow> call_state \<Rightarrow> 'w
    \<Rightarrow> (hook_exn + hook_value) \<times> 'w" where
  "judge_result s e down v0 c w =
    (if he_name e \<in> set observe_events then
       (if cs_next_calls c = 0 then ask_below s e down c w
        else (Inr (case cs_last_result c of None \<Rightarrow> HNone | Some l \<Rightarrow> l), w))
     else let v = pass_through v0 c in
       case wrong_type (he_name e) v of
         Some reason \<Rightarrow> on_failure s e down reason c w
       | None \<Rightarrow>
           (if guarded s e \<and> he_name e = TOOL_CHECK \<and> cs_next_calls c = 0 \<and> allows v
              then ask_below s e down c w
            else (case (he_name e = RUNTIME_CHECK, v, cs_last_result c) of
                (True, HConstraints r, Some (HConstraints l)) \<Rightarrow>
                   (Inr (HConstraints (tighten_runtime r l)), w)
              | _ \<Rightarrow> (Inr v, w))))"

definition invoke :: "'w hook_spec \<Rightarrow> hook_event \<Rightarrow> 'w layer \<Rightarrow> 'w
    \<Rightarrow> (hook_exn + hook_value) \<times> 'w" where
  "invoke s e down w =
    (let ctx = \<lparr>hc_owner = hs_owner s, hc_tier = hs_tier s, hc_session = he_session e\<rparr> in
     case run_program (hs_budget s) (guarded s e) e down (hs_handler s ctx e) fresh_call w of
       (Returned v, c, w') \<Rightarrow> judge_result s e down v c w'
     | (Raised x, c, w') \<Rightarrow> contain s e down x c w'
     | (Overran, c, w') \<Rightarrow> on_failure s e down ''ran past its budget'' c w')"

section \<open>The chain\<close>

definition identity_keys :: "string list" where
  "identity_keys = [''effect_boundary'', ''tool.name'', ''tool.kind'', ''tool.source'', ''tool.server'']"

definition same_identity :: "hook_event \<Rightarrow> hook_event \<Rightarrow> bool" where
  "same_identity a b = (session_eq (he_session a) (he_session b)
     \<and> list_all (\<lambda>k. py_eq (event_get a k) (event_get b k)) identity_keys)"

text \<open>\<open>call(index, current)\<close>: the handlers from an index on, on the event as it is now.\<close>

primrec chain_call :: "(string \<Rightarrow> string \<Rightarrow> bool) \<Rightarrow> bool \<Rightarrow> hook_event \<Rightarrow> 'w layer \<Rightarrow> 'w hook_spec list \<Rightarrow> 'w layer"
where
  "chain_call rx required e0 core [] = (\<lambda>cur w.
     if required \<and> \<not> same_identity cur e0
     then (Inr (fail_closed_result e0 ''required-execution-guard'' ''tool or session identity changed''), w)
     else core cur w)"
| "chain_call rx required e0 core (s # ss) = (\<lambda>cur w.
     if required \<and> \<not> same_identity cur e0
     then (Inr (fail_closed_result e0 ''required-execution-guard'' ''tool or session identity changed''), w)
     else if \<not> matches rx (hs_matcher s) cur then chain_call rx required e0 core ss cur w
     else invoke s cur (chain_call rx required e0 core ss) w)"

text \<open>
  \<open>tokens.setdefault(owner, {})[release_key] = nonce\<close>: the reference stored under the
  owner and the registration.
\<close>

fun set_entry :: "'k \<Rightarrow> 'v \<Rightarrow> ('k \<times> 'v) list \<Rightarrow> ('k \<times> 'v) list" where
  "set_entry k v [] = [(k, v)]"
| "set_entry k v ((k', v') # kvs) = (if k' = k then (k', v) # kvs else (k', v') # set_entry k v kvs)"

definition add_token :: "string \<Rightarrow> string \<Rightarrow> string \<Rightarrow> guard_tokens \<Rightarrow> guard_tokens" where
  "add_token owner key nonce ts =
     set_entry owner (set_entry key nonce (case map_of ts owner of None \<Rightarrow> [] | Some m \<Rightarrow> m)) ts"

definition guard_core :: "hook_event \<Rightarrow> 'w layer" where
  "guard_core e0 cur w = (if \<not> event_eq cur e0
     then (Inr (HConstraints (default_constraints\<lparr>rc_proceed := False,
             rc_reason := Some ''runtime guard identity changed''\<rparr>)), w)
     else (Inr (HConstraints default_constraints), w))"

text \<open>
  One required guard's contribution folded into the result.  A contribution is always a
  \<open>RuntimeConstraints\<close>: \<open>invoke\<close> checks the type.
\<close>

definition add_contribution :: "hook_event \<Rightarrow> 'w hook_spec \<Rightarrow> runtime_constraints \<Rightarrow> runtime_constraints
    \<Rightarrow> runtime_constraints" where
  "add_contribution e s r q =
    (let tokens = (case rc_guard_nonce q of
           Some (c # n) \<Rightarrow> (if event_get e ''phase'' \<noteq> JStr ''release''
                           then add_token (hs_owner s) (release_key s) (c # n) (rc_guard_tokens r)
                           else rc_guard_tokens r)
         | _ \<Rightarrow> rc_guard_tokens r);
       t = tighten_runtime r q
     in t\<lparr>rc_policy_version := (case rc_policy_version q of None \<Rightarrow> rc_policy_version t | v \<Rightarrow> v),
          rc_reason := opt_or (rc_reason q) (rc_reason t),
          rc_guard_tokens := tokens\<rparr>)"

datatype guard_fold = GuardsDone runtime_constraints | GuardsRaised hook_exn

primrec run_guards :: "(string \<Rightarrow> string \<Rightarrow> bool) \<Rightarrow> hook_event \<Rightarrow> 'w hook_spec list \<Rightarrow> runtime_constraints \<Rightarrow> 'w
    \<Rightarrow> guard_fold \<times> 'w" where
  "run_guards rx e [] r w = (GuardsDone r, w)"
| "run_guards rx e (s # ss) r w =
     (if hs_required s \<and> matches rx (hs_matcher s) e then
        (case invoke s e (guard_core e) w of
           (Inl (Cancelled _), w') \<Rightarrow> (GuardsRaised (Cancelled (Some r)), w')
         | (Inl x, w') \<Rightarrow> (GuardsRaised x, w')
         | (Inr (HConstraints q), w') \<Rightarrow> run_guards rx e ss (add_contribution e s r q) w'
         | (Inr v, w') \<Rightarrow> (GuardsRaised (Failed ''AttributeError'' (type_name v)), w'))
      else run_guards rx e ss r w)"

definition ordinary_constraints :: "hook_value \<Rightarrow> runtime_constraints" where
  "ordinary_constraints v = (case v of
       HConstraints r \<Rightarrow> r\<lparr>rc_guard_tokens := []\<rparr>
     | _ \<Rightarrow> default_constraints\<lparr>rc_proceed := False,
            rc_reason := Some ''invalid runtime constraints''\<rparr>)"

definition run_chain :: "(string \<Rightarrow> string \<Rightarrow> bool) \<Rightarrow> hook_event \<Rightarrow> 'w hook_spec list \<Rightarrow> 'w layer \<Rightarrow> 'w
    \<Rightarrow> (hook_exn + hook_value) \<times> 'w" where
  "run_chain rx e specs core w =
    (if he_name e = RUNTIME_CHECK \<and> list_ex hs_required specs then
       (case chain_call rx False e core (filter (\<lambda>s. \<not> hs_required s) specs) e w of
          (Inl x, w') \<Rightarrow> (Inl x, w')
        | (Inr v, w') \<Rightarrow>
            (case run_guards rx e specs (ordinary_constraints v) w' of
               (GuardsDone r, w'') \<Rightarrow> (Inr (HConstraints r), w'')
             | (GuardsRaised x, w'') \<Rightarrow> (Inl x, w'')))
     else chain_call rx (list_ex hs_required specs) e core specs e w)"

end
