(* ===== verification/HookChainFacts.thy ===== *)
theory HookChainFacts
  imports HookChain
begin

text \<open>
  What the hook chain guarantees.  That the layers below are used only in a certain way is
  said by comparing two of them: when two layers agree on every event a chain may pass on,
  the chain cannot tell them apart.
\<close>

section \<open>Which events a handler passes on\<close>

primrec all_next :: "(next_arg \<Rightarrow> bool) \<Rightarrow> 'w program \<Rightarrow> bool" where
  "all_next P (Return v) = True"
| "all_next P (Raise x) = True"
| "all_next P (Spend t p) = all_next P p"
| "all_next P (Act f k) = (\<forall>w. all_next P (k w))"
| "all_next P (Next a k) = (P a \<and> (\<forall>r. all_next P (k r)))"

lemma all_next_mono: "all_next P p \<Longrightarrow> (\<And>a. P a \<Longrightarrow> Q a) \<Longrightarrow> all_next Q p"
  by (induction p) auto

lemma all_next_True: "(\<And>a. P a) \<Longrightarrow> all_next P p"
  by (induction p) auto

text \<open>A handler that passes on the tool input it was given, and one that passes on nothing.\<close>

definition keeps_input :: "'w hook_spec \<Rightarrow> bool" where
  "keeps_input s = (\<forall>ctx e. all_next (\<lambda>a. \<forall>t. a = NextEvent t \<longrightarrow> \<not> input_changed e t) (hs_handler s ctx e))"

definition keeps_mode :: "'w hook_spec \<Rightarrow> bool" where
  "keeps_mode s = (\<forall>ctx e. all_next (\<lambda>a. \<forall>t. a = NextEvent t
     \<longrightarrow> sr_permission_mode (he_session t) = sr_permission_mode (he_session e)) (hs_handler s ctx e))"

definition answers_alone :: "'w hook_spec \<Rightarrow> bool" where
  "answers_alone s = (\<forall>ctx e. all_next (\<lambda>_. False) (hs_handler s ctx e))"

lemma run_program_cong:
  assumes "all_next (\<lambda>a. \<forall>t. next_target g e a = Inr t \<longrightarrow> (\<forall>w. d t w = d' t w)) p"
  shows "run_program b g e d p c w = run_program b g e d' p c w"
  using assms
proof (induction p arbitrary: c w)
  case (Next a k)
  then show ?case
    by (cases "next_target g e a") (auto split: prod.split)
qed (auto simp: Let_def)

text \<open>The handler is judged against the layer below only at the event it got itself.\<close>

lemma on_failure_cong: "d e w = d' e w \<Longrightarrow> on_failure s e d r c w = on_failure s e d' r c w"
  by (simp add: on_failure_def split: option.split)

lemma contain_cong:
  assumes "d e w = d' e w"
  shows "contain s e d x c w = contain s e d' x c w"
  by (simp only: contain_def on_failure_cong [of d e w d', OF assms])

lemma ask_below_cong:
  assumes "\<And>w. d e w = d' e w"
  shows "ask_below s e d c w = ask_below s e d' c w"
  by (simp only: ask_below_def assms contain_cong [of d e _ d', OF assms])

lemma judge_result_cong:
  assumes "\<And>w. d e w = d' e w"
  shows "judge_result s e d v c w = judge_result s e d' v c w"
  by (simp only: judge_result_def Let_def ask_below_cong [of d e d' s c w, OF assms]
      on_failure_cong [of d e w d', OF assms])

lemma invoke_cong:
  assumes "\<And>ctx. all_next (\<lambda>a. \<forall>t. next_target (guarded s e) e a = Inr t \<longrightarrow> (\<forall>w. d t w = d' t w))
                    (hs_handler s ctx e)"
    and "\<And>w. d e w = d' e w"
  shows "invoke s e d w = invoke s e d' w"
  using run_program_cong [OF assms(1)] judge_result_cong [of d e d', OF assms(2)]
    contain_cong [of d e _ d', OF assms(2)] on_failure_cong [of d e _ d', OF assms(2)]
  by (simp add: invoke_def Let_def split: prod.split finish.split)

lemma invoke_cong_all:
  assumes "\<And>t w. he_name t = he_name e \<Longrightarrow> d t w = d' t w"
  shows "invoke s e d w = invoke s e d' w"
proof (rule invoke_cong)
  show "all_next (\<lambda>a. \<forall>t. next_target (guarded s e) e a = Inr t \<longrightarrow> (\<forall>w. d t w = d' t w))
          (hs_handler s ctx e)" for ctx
    by (rule all_next_True)
      (auto simp: next_target_def Let_def assms split: next_arg.splits if_splits)
qed (simp add: assms)

section \<open>The events a chain may pass on\<close>

text \<open>
  The interface between the rules one handler obeys and the whole chain: \<open>ok\<close> holds of the
  event a chain starts with, and every handler of the kind \<open>good\<close> that gets such an event
  passes on only such events.  A chain of them then asks the layers below only about
  events that are \<open>ok\<close>.
\<close>

locale chain_filter =
  fixes ok :: "hook_event \<Rightarrow> bool"
    and good :: "'w hook_spec \<Rightarrow> bool"
    and required :: bool
    and origin :: hook_event
  assumes next_ok: "ok e \<Longrightarrow> good s \<Longrightarrow> required \<longrightarrow> same_identity e origin
    \<Longrightarrow> all_next (\<lambda>a. \<forall>t. next_target (guarded s e) e a = Inr t \<longrightarrow> ok t) (hs_handler s ctx e)"
begin

lemma chain_agrees:
  fixes core core' :: "'w layer"
  assumes "\<forall>s \<in> set specs. good s" and "ok cur"
    and "\<And>t w. ok t \<Longrightarrow> required \<longrightarrow> same_identity t origin \<Longrightarrow> core t w = core' t w"
  shows "chain_call rx required origin core specs cur w = chain_call rx required origin core' specs cur w"
  using assms(1,2)
proof (induction specs arbitrary: cur w)
  case Nil
  then show ?case using assms(3) by auto
next
  case (Cons s ss)
  have below: "chain_call rx required origin core ss t u = chain_call rx required origin core' ss t u"
    if "ok t" for t u
    using Cons.IH Cons.prems(1) that by simp
  show ?case
  proof (cases "required \<and> \<not> same_identity cur origin")
    case False
    then have "invoke s cur (chain_call rx required origin core ss) w
        = invoke s cur (chain_call rx required origin core' ss) w"
      using Cons.prems
      by (intro invoke_cong below all_next_mono [OF next_ok]) (auto simp: below)
    with below [OF Cons.prems(2)] show ?thesis by simp
  qed simp
qed

end

section \<open>The guard on tool inputs\<close>

lemma next_target_guarded_input:
  assumes "next_target True e a = Inr t" and "he_name e = TOOL_CALL"
  shows "py_eq (event_get e ''input'') (event_get t ''input'')"
  using assms
  by (auto simp: next_target_def Let_def input_changed_def split: next_arg.splits if_splits)

lemma next_target_unguarded_input:
  assumes "next_target False e a = Inr t" and "\<And>u. a = NextEvent u \<Longrightarrow> \<not> input_changed e u"
  shows "py_eq (event_get e ''input'') (event_get t ''input'')"
  using assms
  by (auto simp: next_target_def Let_def input_changed_def split: next_arg.splits if_splits)

lemma next_target_name: "next_target g e a = Inr t \<Longrightarrow> he_name t = he_name e"
  by (auto simp: next_target_def Let_def split: next_arg.splits if_splits)

lemma next_target_mode:
  assumes "next_target g e a = Inr t"
    and "\<And>u. a = NextEvent u \<Longrightarrow> sr_permission_mode (he_session u) = sr_permission_mode (he_session e)"
  shows "sr_permission_mode (he_session t) = sr_permission_mode (he_session e)"
  using assms by (auto simp: next_target_def Let_def split: next_arg.splits if_splits)

text \<open>What every event has in common that a chain in default mode passes on.\<close>

definition approved :: "bool \<Rightarrow> hook_event \<Rightarrow> hook_event \<Rightarrow> bool" where
  "approved required e0 t = (he_name t = TOOL_CALL \<and> py_eq (event_get e0 ''input'') (event_get t ''input'')
     \<and> sr_permission_mode (he_session e0) = ''default''
     \<and> (required \<or> sr_permission_mode (he_session t) = ''default''))"

text \<open>The handlers the rule is about: those the guard binds and those that keep the input
  themselves.  Without a required guard they must also keep the permission mode.\<close>

definition bound_handler :: "bool \<Rightarrow> 'w hook_spec \<Rightarrow> bool" where
  "bound_handler required s = ((unprivileged (hs_tier s) \<or> keeps_input s) \<and> (required \<or> keeps_mode s))"

lemma all_next_conj:
  "all_next P p \<Longrightarrow> all_next Q p \<Longrightarrow> all_next (\<lambda>a. P a \<and> Q a) p"
  by (induction p) auto

lemma passes_approved:
  assumes "approved required e0 e" and "bound_handler required s" and "required \<longrightarrow> same_identity e e0"
  shows "all_next (\<lambda>a. \<forall>t. next_target (guarded s e) e a = Inr t \<longrightarrow> approved required e0 t) (hs_handler s ctx e)"
proof -
  have e: "he_name e = TOOL_CALL" using assms(1) by (simp add: approved_def)
  have "sr_permission_mode (he_session e) = ''default''"
    using assms(1,3) by (auto simp: approved_def same_identity_def dest: session_eq_mode)
  with assms(2) have kept: "guarded s e \<or> keeps_input s" "required \<or> keeps_mode s"
    by (auto simp: bound_handler_def guarded_def)
  have "all_next (\<lambda>a. \<forall>t. next_target (guarded s e) e a = Inr t \<longrightarrow>
          py_eq (event_get e ''input'') (event_get t ''input'')) (hs_handler s ctx e)"
  proof (cases "guarded s e")
    case True
    with e show ?thesis by (intro all_next_True) (auto dest: next_target_guarded_input)
  next
    case False
    with kept(1) have "all_next (\<lambda>a. \<forall>t. a = NextEvent t \<longrightarrow> \<not> input_changed e t) (hs_handler s ctx e)"
      by (simp add: keeps_input_def)
    with False show ?thesis by (auto elim!: all_next_mono intro: next_target_unguarded_input)
  qed
  moreover have "all_next (\<lambda>a. \<forall>t. next_target (guarded s e) e a = Inr t \<longrightarrow> required
      \<or> sr_permission_mode (he_session t) = sr_permission_mode (he_session e)) (hs_handler s ctx e)"
  proof (cases required)
    case False
    with kept(2) have "all_next (\<lambda>a. \<forall>t. a = NextEvent t
        \<longrightarrow> sr_permission_mode (he_session t) = sr_permission_mode (he_session e)) (hs_handler s ctx e)"
      by (simp add: keeps_mode_def)
    then show ?thesis by (rule all_next_mono) (blast dest: next_target_mode)
  qed (simp add: all_next_True)
  ultimately show ?thesis
  proof (rule all_next_mono [OF all_next_conj])
    fix a
    assume "(\<forall>t. next_target (guarded s e) e a = Inr t \<longrightarrow> py_eq (event_get e ''input'') (event_get t ''input''))
      \<and> (\<forall>t. next_target (guarded s e) e a = Inr t \<longrightarrow> required
            \<or> sr_permission_mode (he_session t) = sr_permission_mode (he_session e))"
    then show "\<forall>t. next_target (guarded s e) e a = Inr t \<longrightarrow> approved required e0 t"
      using assms(1) e by (auto simp: approved_def dest: next_target_name intro: py_eq_trans)
  qed
qed

interpretation input_filter: chain_filter "approved required e0" "bound_handler required" required e0
  for required e0
  by unfold_locales (rule passes_approved)

section \<open>The guard on approvals\<close>

lemma run_program_alone:
  assumes "all_next (\<lambda>_. False) p" and "run_program b g e d p c w = (f, c', w')"
  shows "cs_next_calls c' = cs_next_calls c \<and> cs_last_result c' = cs_last_result c
       \<and> cs_downstream_error c' = cs_downstream_error c"
  using assms
proof (induction p arbitrary: c w)
  case (Spend t p)
  then show ?case by (fastforce simp: Let_def split: if_splits)
next
  case (Act h k)
  from Act.IH [of "k w" c "h w"] Act.prems show ?case by simp
qed auto

text \<open>A layer that does not approve the event.\<close>

definition never_allows :: "'w layer \<Rightarrow> hook_event \<Rightarrow> bool" where
  "never_allows d e = (\<forall>w v w'. d e w = (Inr v, w') \<longrightarrow> \<not> allows v)"

lemma fail_closed_never_allows: "\<not> allows (fail_closed_result e owner r)"
  by (simp add: fail_closed_result_def Let_def)

lemma on_failure_disallows:
  assumes "on_failure s e d r c w = (Inr v, w')" and "cs_last_result c = None"
    and "never_allows d e"
  shows "\<not> allows v"
  using assms fail_closed_never_allows
  by (auto simp: on_failure_def never_allows_def split: option.splits if_splits)

lemma contain_disallows:
  assumes "contain s e d x c w = (Inr v, w')" and "cs_last_result c = None"
    and "never_allows d e"
  shows "\<not> allows v"
  using assms(1) on_failure_disallows [OF _ assms(2,3)] by (auto simp: contain_def split: hook_exn.splits)

lemma ask_below_disallows:
  assumes "ask_below s e d c w = (Inr v, w')" and "cs_last_result c = None"
    and "never_allows d e"
  shows "\<not> allows v"
  using assms(1,3) contain_disallows [OF _ assms(2,3)]
  by (auto simp: ask_below_def never_allows_def split: prod.splits sum.splits)

lemma judge_result_disallows:
  assumes "judge_result s e d v0 c w = (Inr v, w')" and "he_name e = TOOL_CHECK" and "guarded s e"
    and "cs_next_calls c = 0" and "cs_last_result c = None"
    and "never_allows d e"
  shows "\<not> allows v"
  using assms(1-5) on_failure_disallows [OF _ assms(5,6)] ask_below_disallows [OF _ assms(5,6)]
  by (auto simp: judge_result_def observe_events_def Let_def split: option.splits if_splits)

lemma invoke_disallows:
  assumes "invoke s e d w = (Inr v, w')" and "he_name e = TOOL_CHECK" and "guarded s e"
    and "answers_alone s" and "never_allows d e"
  shows "\<not> allows v"
proof -
  let ?p = "hs_handler s \<lparr>hc_owner = hs_owner s, hc_tier = hs_tier s, hc_session = he_session e\<rparr> e"
  obtain f c u where run: "run_program (hs_budget s) (guarded s e) e d ?p fresh_call w = (f, c, u)"
    by (cases "run_program (hs_budget s) (guarded s e) e d ?p fresh_call w") auto
  have "all_next (\<lambda>_. False) ?p" using assms(4) by (simp add: answers_alone_def)
  from run_program_alone [OF this run] have c: "cs_next_calls c = 0" "cs_last_result c = None"
    by (simp_all add: fresh_call_def)
  show ?thesis
    using assms(1) run judge_result_disallows [OF _ assms(2,3) c assms(5)]
      contain_disallows [OF _ c(2) assms(5)] on_failure_disallows [OF _ c(2) assms(5)]
    by (auto simp: invoke_def Let_def split: finish.splits)
qed

lemma chain_call_disallows:
  assumes "chain_call rx required e0 core specs e w = (Inr v, w')"
    and "\<forall>s \<in> set specs. unprivileged (hs_tier s) \<and> answers_alone s"
    and "he_name e = TOOL_CHECK" and "sr_permission_mode (he_session e) = ''default''"
    and "never_allows core e"
  shows "\<not> allows v"
  using assms(1,2)
proof (induction specs arbitrary: w v w')
  case Nil
  then show ?case using assms(5) fail_closed_never_allows by (auto simp: never_allows_def split: if_splits)
next
  case (Cons s ss)
  then have g: "guarded s e" "answers_alone s" using assms(4) by (simp_all add: guarded_def)
  have step: "\<not> allows v" if "chain_call rx required e0 core ss e u = (Inr v, u')" for u v u'
    using Cons.IH [OF that] Cons.prems(2) by simp
  then have below: "never_allows (chain_call rx required e0 core ss) e"
    by (auto simp: never_allows_def)
  show ?case
    using Cons.prems(1) invoke_disallows [OF _ assms(3) g below] step
      fail_closed_never_allows [of e0]
    by (auto split: if_splits)
qed

section \<open>Handlers that fail\<close>

text \<open>A handler that fails before it does anything else, by its own time so far.\<close>

primrec fails_early :: "nat \<Rightarrow> string \<Rightarrow> nat \<Rightarrow> 'w program \<Rightarrow> bool" where
  "fails_early b n own (Return v) = (wrong_type n v \<noteq> None)"
| "fails_early b n own (Raise x) = (\<exists>t m. x = Failed t m)"
| "fails_early b n own (Spend t p) = (0 < b \<and> b \<le> own + t \<or> fails_early b n (own + t) p)"
| "fails_early b n own (Act f k) = False"
| "fails_early b n own (Next a k) = False"

definition spec_fails :: "'w hook_spec \<Rightarrow> string \<Rightarrow> bool" where
  "spec_fails s n = (\<forall>ctx e. he_name e = n \<longrightarrow> fails_early (hs_budget s) n 0 (hs_handler s ctx e))"

lemma run_program_fails:
  assumes "fails_early b (he_name e) (cs_own_time c) p" and "run_program b g e d p c w = (f, c', w')"
  shows "w' = w \<and> cs_next_calls c' = cs_next_calls c \<and> cs_last_result c' = cs_last_result c
       \<and> cs_downstream_error c' = cs_downstream_error c
       \<and> (f = Overran \<or> (\<exists>t m. f = Raised (Failed t m))
          \<or> (\<exists>v. f = Returned v \<and> wrong_type (he_name e) v \<noteq> None))"
  using assms
proof (induction p arbitrary: c)
  case (Spend t p)
  show ?case
  proof (cases "0 < b \<and> b \<le> cs_own_time c + t")
    case True
    with Spend.prems show ?thesis by (auto simp: Let_def)
  next
    case False
    then show ?thesis
      using Spend.prems Spend.IH [of "c\<lparr>cs_own_time := cs_own_time c + t\<rparr>"]
      by (auto simp: Let_def)
  qed
qed auto

lemma wrong_type_not_observed: "wrong_type n v \<noteq> None \<Longrightarrow> n \<notin> set observe_events"
  by (auto simp: wrong_type_def result_type_def observe_events_def)

lemma invoke_fails:
  assumes "spec_fails s (he_name e)"
  shows "\<exists>reason. invoke s e d w = (if hs_fail_closed s
           then (Inr (fail_closed_result e (hs_owner s) reason), w) else d e w)"
proof -
  let ?p = "hs_handler s \<lparr>hc_owner = hs_owner s, hc_tier = hs_tier s, hc_session = he_session e\<rparr> e"
  obtain f c u where run: "run_program (hs_budget s) (guarded s e) e d ?p fresh_call w = (f, c, u)"
    by (cases "run_program (hs_budget s) (guarded s e) e d ?p fresh_call w") auto
  have "fails_early (hs_budget s) (he_name e) (cs_own_time fresh_call) ?p"
    using assms by (simp add: spec_fails_def fresh_call_def)
  from run_program_fails [OF this run]
  have c: "u = w" "cs_last_result c = None" "cs_downstream_error c = None"
    and f: "f = Overran \<or> (\<exists>t m. f = Raised (Failed t m)) \<or> (\<exists>v. f = Returned v \<and> wrong_type (he_name e) v \<noteq> None)"
    by (simp_all add: fresh_call_def)
  have judged: "\<exists>reason. judge_result s e d v c w = on_failure s e d reason c w"
    if "wrong_type (he_name e) v \<noteq> None" for v
    using that wrong_type_not_observed [OF that] c(2)
    by (auto simp: judge_result_def pass_through_def Let_def split: hook_value.splits)
  from f have "\<exists>reason. invoke s e d w = on_failure s e d reason c w"
    using judged run c(1) by (auto simp: invoke_def Let_def contain_def)
  then show ?thesis using c(2,3) by (auto simp: on_failure_def)
qed

lemma chain_call_drop_failing:
  assumes "spec_fails s (he_name cur)" and "\<not> hs_fail_closed s"
  shows "chain_call rx required e0 core (xs @ s # ys) cur w = chain_call rx required e0 core (xs @ ys) cur w"
  using assms(1)
proof (induction xs arbitrary: cur w)
  case Nil
  have same: "chain_call rx required e0 core ys cur w = (Inr (fail_closed_result e0 ''required-execution-guard''
      ''tool or session identity changed''), w)" if "required" "\<not> same_identity cur e0"
    using that by (cases ys) auto
  show ?case
    using invoke_fails [OF Nil, of "chain_call rx required e0 core ys" w] assms(2) same by auto
next
  case (Cons x xs)
  have "invoke x cur (chain_call rx required e0 core (xs @ s # ys)) w
      = invoke x cur (chain_call rx required e0 core (xs @ ys)) w"
    using Cons.prems by (intro invoke_cong_all Cons.IH) simp
  with Cons show ?case by simp
qed

section \<open>Required guards\<close>

text \<open>The constraints \<open>r\<close> allow at most what \<open>q\<close> allows.\<close>

definition tighter :: "runtime_constraints \<Rightarrow> runtime_constraints \<Rightarrow> bool" where
  "tighter r q = ((rc_proceed r \<longrightarrow> rc_proceed q) \<and> (rc_read_only q \<longrightarrow> rc_read_only r)
     \<and> (rc_network_off q \<longrightarrow> rc_network_off r) \<and> (rc_human_review q \<longrightarrow> rc_human_review r)
     \<and> (rc_require_tool_guard q \<longrightarrow> rc_require_tool_guard r))"

lemma tighter_refl [simp]: "tighter r r"
  by (simp add: tighter_def)

lemma tighter_trans: "tighter r q \<Longrightarrow> tighter q p \<Longrightarrow> tighter r p"
  by (auto simp: tighter_def)

lemma add_contribution_tighter:
  "tighter (add_contribution e s r q) r" "tighter (add_contribution e s r q) q"
  by (simp_all add: tighter_def add_contribution_def tighten_runtime_def Let_def)

definition issued_by :: "'w hook_spec list \<Rightarrow> guard_tokens \<Rightarrow> bool" where
  "issued_by specs ts = (\<forall>(owner, m) \<in> set ts. \<forall>(key, n) \<in> set m.
     \<exists>s \<in> set specs. hs_required s \<and> hs_owner s = owner \<and> release_key s = key)"

lemma set_set_entry: "set (set_entry k v kvs) \<subseteq> insert (k, v) (set kvs)"
  by (induction k v kvs rule: set_entry.induct) auto

lemma issued_by_add_token:
  assumes "issued_by specs ts" and "s \<in> set specs" and "hs_required s"
  shows "issued_by specs (add_token (hs_owner s) (release_key s) n ts)"
proof -
  let ?m = "case map_of ts (hs_owner s) of None \<Rightarrow> [] | Some m \<Rightarrow> m"
  let ?m' = "set_entry (release_key s) n ?m"
  have old: "\<exists>x \<in> set specs. hs_required x \<and> hs_owner x = hs_owner s \<and> release_key x = key"
    if "(key, v) \<in> set ?m" for key v
  proof (cases "map_of ts (hs_owner s)")
    case (Some m)
    with that have "(hs_owner s, m) \<in> set ts" "(key, v) \<in> set m"
      by (auto dest: map_of_SomeD)
    with assms(1) show ?thesis unfolding issued_by_def by blast
  qed (use that in simp)
  have new: "\<exists>x \<in> set specs. hs_required x \<and> hs_owner x = hs_owner s \<and> release_key x = key"
    if "(key, v) \<in> set ?m'" for key v
    using that set_set_entry [of "release_key s" n ?m] old assms(2,3) by blast
  show ?thesis
    using set_set_entry [of "hs_owner s" ?m' ts] new assms(1)
    unfolding issued_by_def add_token_def by fastforce
qed

lemma issued_by_add_contribution:
  assumes "issued_by specs (rc_guard_tokens r)" and "s \<in> set specs" and "hs_required s"
  shows "issued_by specs (rc_guard_tokens (add_contribution e s r q))"
  using issued_by_add_token [OF assms] assms(1)
  by (simp add: add_contribution_def tighten_runtime_def Let_def split: option.split list.split)

lemma run_guards_tighten:
  assumes "run_guards rx e ss r w = (GuardsDone r', w')" and "issued_by specs (rc_guard_tokens r)"
    and "set ss \<subseteq> set specs"
  shows "tighter r' r \<and> issued_by specs (rc_guard_tokens r')
    \<and> (\<forall>s \<in> set ss. hs_required s \<and> matches rx (hs_matcher s) e \<longrightarrow>
        (\<exists>q u u'. invoke s e (guard_core e) u = (Inr (HConstraints q), u') \<and> tighter r' q))"
  using assms
proof (induction ss arbitrary: r w)
  case Nil
  then show ?case by simp
next
  case (Cons s ss)
  show ?case
  proof (cases "hs_required s \<and> matches rx (hs_matcher s) e")
    case False
    with Cons.prems Cons.IH [of r w] show ?thesis by auto
  next
    case True
    with Cons.prems(1) obtain q u where q: "invoke s e (guard_core e) w = (Inr (HConstraints q), u)"
      and rest: "run_guards rx e ss (add_contribution e s r q) u = (GuardsDone r', w')"
      by (auto split: prod.splits sum.splits hook_value.splits hook_exn.splits)
    have ih: "tighter r' (add_contribution e s r q) \<and> issued_by specs (rc_guard_tokens r')
      \<and> (\<forall>s \<in> set ss. hs_required s \<and> matches rx (hs_matcher s) e \<longrightarrow>
        (\<exists>q u u'. invoke s e (guard_core e) u = (Inr (HConstraints q), u') \<and> tighter r' q))"
      using Cons.prems(2,3) True by (intro Cons.IH [OF rest] issued_by_add_contribution) auto
    then have "tighter r' r" "tighter r' q"
      using add_contribution_tighter tighter_trans by blast+
    with ih q show ?thesis by auto
  qed
qed

lemma run_guards_skip:
  "\<not> hs_required s \<Longrightarrow> run_guards rx e (xs @ s # ys) r w = run_guards rx e (xs @ ys) r w"
  by (induction xs arbitrary: r w) (auto split: prod.split sum.split hook_value.split hook_exn.split)

section \<open>The identity a required guard pins\<close>

text \<open>With a required guard any handler may pass on any event: the chain itself stops those
  of another identity.\<close>

interpretation identity_filter: chain_filter "\<lambda>_. True" "\<lambda>_. True" True e0 for e0
  by unfold_locales (simp add: all_next_True)

end
