(* ===== verification/HookRegistry.thy ===== *)
theory HookRegistry
  imports HookChainFacts "HOL-Library.Product_Lexorder"
begin

text \<open>
  \<^verbatim>\<open>backend/kernel/src/core/hooks/registry.py\<close>: where handlers are registered and how a
  dispatch finds them.  The registry is one process-wide object; its lock makes every
  method one step, here a function on the record.  A registration's id is fresh in the
  code (\<^verbatim>\<open>uuid4\<close>) and an argument here.
\<close>

record 'w hook_registry =
  hr_specs :: "'w hook_spec list"
  hr_next_seq :: nat
  hr_generation :: nat

definition empty_registry :: "'w hook_registry" where
  "empty_registry = \<lparr>hr_specs = [], hr_next_seq = 1, hr_generation = 0\<rparr>"

datatype registry_error =
    UnknownEvent string
  | OwnerRequired
  | UntrustedGuard
  | BadMatcher matcher_error

text \<open>An empty matcher is stored as none.\<close>

definition stored_matcher :: "matcher option \<Rightarrow> matcher option" where
  "stored_matcher m = (case m of Some (kv # kvs) \<Rightarrow> Some (kv # kvs) | _ \<Rightarrow> None)"

text \<open>The checks of \<open>register\<close>, in the code's order, on the handler it is asked to add.\<close>

definition check_spec :: "(string \<Rightarrow> bool) \<Rightarrow> 'w hook_spec \<Rightarrow> registry_error + unit" where
  "check_spec rx_ok s =
     (if hs_event s \<notin> set event_names then Inl (UnknownEvent (hs_event s))
      else if hs_owner s = [] then Inl OwnerRequired
      else if hs_required s \<and> (\<not> hs_fail_closed s \<or> unprivileged (hs_tier s)) then Inl UntrustedGuard
      else (case matcher_validate rx_ok (hs_matcher s) of
              Inl x \<Rightarrow> Inl (BadMatcher x) | Inr _ \<Rightarrow> Inr ()))"

text \<open>\<open>register\<close> returns the spec that its \<open>unregister\<close> closure holds.\<close>

definition register :: "(string \<Rightarrow> bool) \<Rightarrow> string \<Rightarrow> 'w hook_spec \<Rightarrow> 'w hook_registry
    \<Rightarrow> registry_error + ('w hook_spec \<times> 'w hook_registry)" where
  "register rx_ok rid s r = rbind (check_spec rx_ok s) (\<lambda>_.
     let s' = s\<lparr>hs_matcher := stored_matcher (hs_matcher s), hs_seq := hr_next_seq r,
                hs_registration := rid\<rparr>
     in Inr (s', r\<lparr>hr_specs := hr_specs r @ [s'], hr_next_seq := Suc (hr_next_seq r),
                   hr_generation := Suc (hr_generation r)\<rparr>))"

text \<open>The generated \<open>==\<close> of two specs of one registry: the sequence number and the
  registration id tell them apart.\<close>

definition same_spec :: "'w hook_spec \<Rightarrow> 'w hook_spec \<Rightarrow> bool" where
  "same_spec a b = (hs_seq a = hs_seq b \<and> hs_registration a = hs_registration b)"

fun remove_spec :: "'w hook_spec \<Rightarrow> 'w hook_spec list \<Rightarrow> 'w hook_spec list" where
  "remove_spec s [] = []"
| "remove_spec s (x # xs) = (if same_spec x s then xs else x # remove_spec s xs)"

definition unregister :: "'w hook_spec \<Rightarrow> 'w hook_registry \<Rightarrow> 'w hook_registry" where
  "unregister s r = (if list_ex (\<lambda>x. same_spec x s) (hr_specs r)
     then r\<lparr>hr_specs := remove_spec s (hr_specs r), hr_generation := Suc (hr_generation r)\<rparr>
     else r)"

definition unregister_owner :: "string \<Rightarrow> 'w hook_registry \<Rightarrow> nat \<times> 'w hook_registry" where
  "unregister_owner owner r =
     (let kept = filter (\<lambda>s. hs_owner s \<noteq> owner) (hr_specs r);
          removed = length (hr_specs r) - length kept
      in (removed, if 0 < removed
            then r\<lparr>hr_specs := kept, hr_generation := Suc (hr_generation r)\<rparr>
            else r\<lparr>hr_specs := kept\<rparr>))"

text \<open>A predicate that raises disables only its handler.\<close>

definition spec_applies :: "'w hook_spec \<Rightarrow> session_ref \<Rightarrow> bool" where
  "spec_applies s session = (case hs_applies s of
       None \<Rightarrow> True
     | Some f \<Rightarrow> (case f session of Inl _ \<Rightarrow> False | Inr b \<Rightarrow> b))"

definition spec_key :: "'w hook_spec \<Rightarrow> nat \<times> int \<times> nat" where
  "spec_key s = (spec_rank s, hs_priority s, hs_seq s)"

definition specs_for :: "string \<Rightarrow> session_ref \<Rightarrow> 'w hook_registry \<Rightarrow> 'w hook_spec list" where
  "specs_for event session r = sort_key spec_key
     (filter (\<lambda>s. spec_applies s session)
       (filter (\<lambda>s. hs_event s = event \<and> (\<not> sr_bare session \<or> hs_required s)) (hr_specs r)))"

definition wants :: "(string \<Rightarrow> string \<Rightarrow> bool) \<Rightarrow> string \<Rightarrow> session_ref \<Rightarrow> payload option
    \<Rightarrow> 'w hook_registry \<Rightarrow> bool" where
  "wants rx event session sample r = (let specs = specs_for event session r in
     if specs = [] then False
     else (case sample of
        None \<Rightarrow> True
      | Some data \<Rightarrow> list_ex (\<lambda>s. matches rx (hs_matcher s)
            \<lparr>he_name = event, he_session = session, he_data = data\<rparr>) specs))"

definition could_match_source :: "(string \<Rightarrow> string \<Rightarrow> bool) \<Rightarrow> string \<Rightarrow> 'w hook_spec \<Rightarrow> bool" where
  "could_match_source rx source s =
     (case map_of (case hs_matcher s of None \<Rightarrow> [] | Some m \<Rightarrow> m) ''tool.source'' of
        None \<Rightarrow> True
      | Some v \<Rightarrow> list_ex (\<lambda>p. pattern_matches rx p (JStr source)) (patterns_of v))"

definition tool_source_owners :: "(string \<Rightarrow> string \<Rightarrow> bool) \<Rightarrow> string \<Rightarrow> session_ref \<Rightarrow> string
    \<Rightarrow> 'w hook_registry \<Rightarrow> string list" where
  "tool_source_owners rx event session source r =
     map hs_owner (filter (could_match_source rx source) (specs_for event session r))"

definition wants_tool_source :: "(string \<Rightarrow> string \<Rightarrow> bool) \<Rightarrow> string \<Rightarrow> session_ref \<Rightarrow> string
    \<Rightarrow> 'w hook_registry \<Rightarrow> bool" where
  "wants_tool_source rx event session source r = (tool_source_owners rx event session source r \<noteq> [])"

definition has_required :: "string \<Rightarrow> 'w hook_registry \<Rightarrow> bool" where
  "has_required event r = list_ex (\<lambda>s. hs_required s \<and> hs_event s = event) (hr_specs r)"

definition hook_dispatch :: "(string \<Rightarrow> string \<Rightarrow> bool) \<Rightarrow> string \<Rightarrow> session_ref \<Rightarrow> payload
    \<Rightarrow> 'w layer \<Rightarrow> 'w hook_registry \<Rightarrow> 'w \<Rightarrow> (hook_exn + hook_value) \<times> 'w" where
  "hook_dispatch rx event session data core r w =
    (let e = \<lparr>he_name = event, he_session = session, he_data = data\<rparr>;
         specs = specs_for event session r
     in if specs = [] then core e w else run_chain rx e specs core w)"

section \<open>The registry's invariant\<close>

definition trusted_guard :: "'w hook_spec \<Rightarrow> bool" where
  "trusted_guard s = (hs_required s \<longrightarrow> hs_fail_closed s \<and> \<not> unprivileged (hs_tier s))"

definition registry_ok :: "'w hook_registry \<Rightarrow> bool" where
  "registry_ok r = (distinct (map hs_seq (hr_specs r))
     \<and> (\<forall>s \<in> set (hr_specs r). hs_seq s < hr_next_seq r \<and> hs_event s \<in> set event_names
          \<and> hs_owner s \<noteq> [] \<and> trusted_guard s))"

lemma empty_registry_ok: "registry_ok empty_registry"
  by (simp add: registry_ok_def empty_registry_def)

lemma check_spec_trusted:
  "check_spec rx_ok s = Inr u \<Longrightarrow> trusted_guard s \<and> hs_event s \<in> set event_names \<and> hs_owner s \<noteq> []"
  by (auto simp: check_spec_def trusted_guard_def split: if_splits)

lemma register_ok:
  assumes "registry_ok r" and "register rx_ok rid s r = Inr (s', r')"
  shows "registry_ok r'"
proof -
  from assms(2) obtain u where u: "check_spec rx_ok s = Inr u"
    by (auto simp: register_def rbind_Inr_iff)
  from assms(1) have "hr_next_seq r \<notin> hs_seq ` set (hr_specs r)"
    and "\<forall>s \<in> set (hr_specs r). hs_seq s < Suc (hr_next_seq r)"
    by (auto simp: registry_ok_def less_Suc_eq)
  with assms show ?thesis
    using check_spec_trusted [OF u]
    by (auto simp: register_def rbind_Inr_iff Let_def registry_ok_def trusted_guard_def)
qed

lemma set_remove_spec: "set (remove_spec s xs) \<subseteq> set xs"
  by (induction xs) auto

lemma distinct_remove_spec: "distinct (map f xs) \<Longrightarrow> distinct (map f (remove_spec s xs))"
  using set_remove_spec [of s] by (induction xs) (auto simp: image_iff subset_iff)

lemma unregister_ok: "registry_ok r \<Longrightarrow> registry_ok (unregister s r)"
  using set_remove_spec [of s "hr_specs r"]
  by (auto simp: registry_ok_def unregister_def distinct_remove_spec)

lemma distinct_map_filter_seq: "distinct (map f xs) \<Longrightarrow> distinct (map f (filter P xs))"
  by (simp add: distinct_map_filter)

lemma unregister_owner_ok: "registry_ok r \<Longrightarrow> registry_ok (snd (unregister_owner owner r))"
  by (auto simp: registry_ok_def unregister_owner_def Let_def distinct_map_filter)

lemma remove_spec_last:
  "list_all (\<lambda>x. \<not> same_spec x s) xs \<Longrightarrow> remove_spec s (xs @ [s]) = xs"
  by (induction xs) (auto simp: same_spec_def)

text \<open>Removing what was just added gives the handlers back as they were.\<close>

lemma register_unregister:
  assumes "registry_ok r" and "register rx_ok rid s r = Inr (s', r')"
  shows "hr_specs (unregister s' r') = hr_specs r"
proof -
  from assms(2) have s': "hs_seq s' = hr_next_seq r" and specs: "hr_specs r' = hr_specs r @ [s']"
    by (auto simp: register_def rbind_Inr_iff Let_def)
  have "list_all (\<lambda>x. \<not> same_spec x s') (hr_specs r)"
    using assms(1) s' by (auto simp: list_all_iff registry_ok_def same_spec_def)
  with specs show ?thesis
    by (simp add: unregister_def remove_spec_last same_spec_def)
qed

section \<open>What a dispatch finds\<close>

lemma set_specs_for: "set (specs_for event session r) = {s \<in> set (hr_specs r).
    hs_event s = event \<and> (\<not> sr_bare session \<or> hs_required s) \<and> spec_applies s session}"
  by (auto simp: specs_for_def)

lemma specs_for_sorted: "sorted (map spec_key (specs_for event session r))"
  by (simp add: specs_for_def)

lemma spec_rank_le: "spec_key s \<le> spec_key t \<Longrightarrow> spec_rank s \<le> spec_rank t"
  by (auto simp: spec_key_def less_eq_prod_def)

text \<open>Outermost first by tier, and the required guards innermost.\<close>

lemma specs_for_ranks: "sorted (map spec_rank (specs_for event session r))"
proof -
  have "sorted (map spec_rank xs)" if "sorted (map spec_key xs)" for xs :: "'a hook_spec list"
    using that by (induction xs) (auto dest: spec_rank_le)
  then show ?thesis using specs_for_sorted by blast
qed

lemma tier_order_less: "tier_order t < 4"
  by (cases t) auto

lemma required_innermost:
  assumes "specs_for event session r = xs @ s # ys" and "hs_required s" and "t \<in> set ys"
  shows "hs_required t"
proof -
  have "spec_rank s \<le> spec_rank t"
    using specs_for_ranks [of event session r] assms(1,3) by (auto simp: sorted_append)
  with assms(2) tier_order_less [of "hs_tier t"] show ?thesis
    by (auto simp: spec_rank_def split: if_splits)
qed

text \<open>A bare session meets only required guards.\<close>

lemma bare_only_required:
  "sr_bare session \<Longrightarrow> s \<in> set (specs_for event session r) \<Longrightarrow> hs_required s"
  by (simp add: set_specs_for)

lemma wants_no_specs: "\<not> wants rx event session None r \<longleftrightarrow> specs_for event session r = []"
  by (simp add: wants_def Let_def)

lemma chain_call_unmatched:
  assumes "list_all (\<lambda>s. \<not> matches rx (hs_matcher s) e) specs"
    and "\<not> required \<or> same_identity e e0"
  shows "chain_call rx required e0 core specs e w = core e w"
  using assms by (induction specs) auto

lemma same_identity_refl [simp]: "same_identity e e"
  by (simp add: same_identity_def list_all_iff)

text \<open>An event nobody wants is the runtime's own behaviour.\<close>

lemma dispatch_unwanted:
  assumes "\<not> wants rx event session (Some data) r" and "event \<noteq> RUNTIME_CHECK"
  shows "hook_dispatch rx event session data core r w
       = core \<lparr>he_name = event, he_session = session, he_data = data\<rparr> w"
proof -
  let ?e = "\<lparr>he_name = event, he_session = session, he_data = data\<rparr>"
  have skip: "chain_call rx required ?e core specs ?e w = core ?e w"
    if "\<forall>s \<in> set specs. \<not> matches rx (hs_matcher s) ?e" for required specs
    using that by (intro chain_call_unmatched) (auto simp: list_all_iff)
  show ?thesis
    using assms skip [of "specs_for event session r"]
    by (auto simp: hook_dispatch_def wants_def Let_def run_chain_def list_ex_iff)
qed

end
