(* ===== verification/JsonText.thy ===== *)
theory JsonText
  imports PyJson "HOL-Library.List_Lexorder" "HOL-Library.Char_ord"
begin

text \<open>
  \<^verbatim>\<open>json.dumps(value, sort_keys=True)\<close>, the canonical text that exact approval rules
  compare, and the proof that it tells apart any two values that differ after their keys
  are sorted.  Floats are printed but left out of that proof: the model holds their text
  only as far as \<^verbatim>\<open>repr\<close> gives it.
\<close>

section \<open>Printing\<close>

definition json_quote :: char where "json_quote = CHR 0x22"
definition json_back :: char where "json_back = CHR 0x5C"

text \<open>\<^verbatim>\<open>ensure_ascii\<close>: everything outside the printable ASCII characters is escaped.\<close>

definition short_escapes :: "(char \<times> char) list" where
  "short_escapes = [(CHR 0x22, CHR 0x22), (CHR 0x5C, CHR 0x5C), (CHR 0x0A, CHR ''n''),
     (CHR 0x0D, CHR ''r''), (CHR 0x09, CHR ''t''), (CHR 0x0C, CHR ''f''), (CHR 0x08, CHR ''b'')]"

definition escape_char :: "char \<Rightarrow> string" where
  "escape_char c = (case map_of short_escapes c of
       Some d \<Rightarrow> [json_back, d]
     | None \<Rightarrow> (let n = (of_char c :: nat) in
         if 32 \<le> n \<and> n \<le> 126 then [c]
         else [json_back, CHR ''u'', CHR ''0'', CHR ''0'', hex_digit (n div 16), hex_digit (n mod 16)]))"

definition json_string :: "string \<Rightarrow> string" where
  "json_string s = json_quote # concat (map escape_char s) @ [json_quote]"

definition json_float :: "string \<Rightarrow> string" where
  "json_float s = (if s = ''nan'' then ''NaN'' else if s = ''inf'' then ''Infinity''
     else if s = ''-inf'' then ''-Infinity'' else s)"

fun json_text :: "json \<Rightarrow> string" where
  "json_text JNull = ''null''"
| "json_text (JBool b) = (if b then ''true'' else ''false'')"
| "json_text (JInt i) = str_int i"
| "json_text (JFloat _ _ c s) = json_float (c # s)"
| "json_text (JStr s) = json_string s"
| "json_text (JList xs) = ''['' @ join_with '', '' (map json_text xs) @ '']''"
| "json_text (JDict kvs) =
     ''{'' @ join_with '', '' (map (\<lambda>(k, v). json_string k @ '': '' @ json_text v) kvs) @ ''}''"

fun sort_json :: "json \<Rightarrow> json" where
  "sort_json (JList xs) = JList (map sort_json xs)"
| "sort_json (JDict kvs) = JDict (sort_key fst (map (\<lambda>(k, v). (k, sort_json v)) kvs))"
| "sort_json v = v"

definition json_dumps :: "json \<Rightarrow> string" where
  "json_dumps v = json_text (sort_json v)"

section \<open>Strings are told apart\<close>

fun hex_val :: "char \<Rightarrow> nat" where
  "hex_val c = (let n = (of_char c :: nat) in if n < 58 then n - 48 else n - 87)"

lemma hex_val_digit [simp]: "d < 16 \<Longrightarrow> hex_val (hex_digit d) = d"
  by (simp add: hex_digit_def Let_def)

declare hex_val.simps [simp del]

text \<open>Reading one escaped character back.\<close>

definition unescape :: "string \<Rightarrow> char \<times> string" where
  "unescape s = (case s of
       c # d # r \<Rightarrow> (if c = json_back
          then (if d = CHR ''u'' then (char_of (16 * hex_val (r ! 2) + hex_val (r ! 3)), drop 4 r)
                else (case map_of (map (\<lambda>(a, b). (b, a)) short_escapes) d of Some a \<Rightarrow> (a, r) | None \<Rightarrow> (d, r)))
          else (c, d # r))
     | c # r \<Rightarrow> (c, r)
     | [] \<Rightarrow> (json_back, []))"

lemma unescape_short:
  "(c, d) \<in> set short_escapes \<Longrightarrow> unescape ([json_back, d] @ x) = (c, x)"
  by (auto simp: short_escapes_def unescape_def json_back_def)

lemma unescape_escape: "unescape (escape_char c @ x) = (c, x)"
proof (cases "map_of short_escapes c")
  case (Some d)
  then show ?thesis using unescape_short [OF map_of_SomeD] by (simp add: escape_char_def)
next
  case None
  then have c: "c \<noteq> json_back" by (auto simp: short_escapes_def json_back_def split: if_splits)
  have "char_of (16 * hex_val (hex_digit (of_char c div 16)) + hex_val (hex_digit (of_char c mod 16))) = c"
    by (simp add: less_mult_imp_div_less)
  then show ?thesis
    using None c by (cases x) (auto simp: escape_char_def unescape_def Let_def)
qed

lemma escape_char_inj: "escape_char c @ x = escape_char d @ y \<Longrightarrow> c = d \<and> x = y"
  by (metis unescape_escape prod.inject)

lemma escape_no_quote: "escape_char c @ x \<noteq> json_quote # y"
  by (auto simp: escape_char_def short_escapes_def json_quote_def json_back_def Let_def
      split: option.split if_splits)

lemma json_chars_inj:
  "concat (map escape_char a) @ json_quote # s = concat (map escape_char b) @ json_quote # t
    \<Longrightarrow> a = b \<and> s = t"
proof (induction a arbitrary: b)
  case Nil
  show ?case
  proof (cases b)
    case (Cons d b')
    with Nil have "escape_char d @ concat (map escape_char b') @ json_quote # t = json_quote # s" by simp
    with escape_no_quote show ?thesis by blast
  qed (use Nil in simp)
next
  case (Cons c a)
  obtain d b' where b: "b = d # b'"
  proof (cases b)
    case Nil
    with Cons.prems have "escape_char c @ concat (map escape_char a) @ json_quote # s = json_quote # t" by simp
    with escape_no_quote show ?thesis by blast
  qed
  with Cons.prems have "c = d \<and> concat (map escape_char a) @ json_quote # s
      = concat (map escape_char b') @ json_quote # t"
    by (intro escape_char_inj) simp
  with Cons.IH b show ?case by blast
qed

lemma json_string_inj: "json_string a @ s = json_string b @ t \<Longrightarrow> a = b \<and> s = t"
  using json_chars_inj [of a s b t] by (simp add: json_string_def)

section \<open>Integers are told apart\<close>

definition digits_value :: "string \<Rightarrow> nat" where
  "digits_value s = foldl (\<lambda>a c. 10 * a + (of_char c - 48)) 0 s"

lemma digits_value_snoc: "digits_value (s @ [c]) = 10 * digits_value s + (of_char c - 48)"
  by (simp add: digits_value_def)

lemma of_digit_char [simp]: "d < 10 \<Longrightarrow> of_char (digit_char d) = (48 + d :: nat)"
  by (simp add: digit_char_def)

lemma is_digit_char [simp]: "d < 10 \<Longrightarrow> is_digit (digit_char d)"
  by (simp add: is_digit_def Let_def)

lemma digits_value_dec: "digits_value (dec_nat n) = n"
proof (induction n rule: dec_nat.induct)
  case (1 n)
  show ?case
  proof (cases "n < 10")
    case True
    then show ?thesis by (subst dec_nat.simps) (simp add: digits_value_def)
  next
    case False
    then show ?thesis
      using 1 by (subst dec_nat.simps) (simp add: digits_value_snoc)
  qed
qed

lemma dec_digits: "list_all is_digit (dec_nat n)"
proof (induction n rule: dec_nat.induct)
  case (1 n)
  then show ?case by (subst dec_nat.simps) simp
qed

definition stops_number :: "string \<Rightarrow> bool" where
  "stops_number s = (s = [] \<or> \<not> is_digit (hd s))"

lemma takeWhile_dec: "stops_number s \<Longrightarrow> takeWhile is_digit (dec_nat n @ s) = dec_nat n"
  using dec_digits [of n]
  by (subst takeWhile_append2) (auto simp: list_all_iff stops_number_def takeWhile_eq_Nil_iff)

lemma dec_nat_inj:
  assumes "dec_nat n @ s = dec_nat m @ t" and "stops_number s" and "stops_number t"
  shows "n = m \<and> s = t"
proof -
  have "dec_nat n = dec_nat m" using assms takeWhile_dec by metis
  with assms(1) digits_value_dec show ?thesis by (metis same_append_eq)
qed

lemma dec_nat_hd: "is_digit (hd (dec_nat n @ s))"
  using dec_digits [of n] by (cases "dec_nat n") auto

lemma minus_no_digit: "\<not> is_digit (CHR ''-'')"
  by (simp add: is_digit_def)

lemma str_int_inj:
  assumes "str_int i @ s = str_int j @ t" and "stops_number s" and "stops_number t"
  shows "i = j \<and> s = t"
proof (cases "i < 0 \<longleftrightarrow> j < 0")
  case True
  then have "dec_nat (nat \<bar>i\<bar>) @ s = dec_nat (nat \<bar>j\<bar>) @ t"
    using assms(1) by (cases "i < 0") (auto simp: str_int_def)
  from dec_nat_inj [OF this assms(2,3)] True show ?thesis by auto
next
  case False
  have "False" if "dec_nat n @ u = CHR ''-'' # v" for n u v
    using that dec_nat_hd [of n u] minus_no_digit by simp
  with False assms(1) show ?thesis
    by (cases "i < 0") (auto simp: str_int_def dest: sym)
qed

section \<open>Values are told apart\<close>

fun float_free :: "json \<Rightarrow> bool" where
  "float_free (JFloat _ _ _ _) = False"
| "float_free (JList xs) = list_all float_free xs"
| "float_free (JDict kvs) = list_all (\<lambda>(k, v). float_free v) kvs"
| "float_free v = True"

lemma join_with_Cons:
  "join_with sep (x # xs) = x @ concat (map (\<lambda>y. sep @ y) xs)"
  by (induction xs arbitrary: x) auto

text \<open>What may follow a value in a longer text.\<close>

definition closes :: "string \<Rightarrow> bool" where
  "closes s = (s = [] \<or> hd s \<in> {CHR '','', CHR '']'', CHR ''}''})"

lemma closes_stops: "closes s \<Longrightarrow> stops_number s"
  by (auto simp: closes_def stops_number_def is_digit_def)

text \<open>The first character says which kind of value it is.\<close>

definition kind_of :: "json \<Rightarrow> nat" where
  "kind_of v = (case v of JNull \<Rightarrow> 0 | JBool b \<Rightarrow> (if b then 1 else 2) | JInt _ \<Rightarrow> 3
     | JFloat _ _ _ _ \<Rightarrow> 4 | JStr _ \<Rightarrow> 5 | JList _ \<Rightarrow> 6 | JDict _ \<Rightarrow> 7)"

definition kind_of_char :: "char \<Rightarrow> nat" where
  "kind_of_char c = (if c = CHR ''n'' then 0 else if c = CHR ''t'' then 1 else if c = CHR ''f'' then 2
     else if c = CHR ''['' then 6 else if c = CHR ''{'' then 7 else if c = json_quote then 5
     else if is_digit c \<or> c = CHR ''-'' then 3 else 8)"

lemma digit_kind: "is_digit c \<Longrightarrow> kind_of_char c = 3"
  by (auto simp: kind_of_char_def is_digit_def json_quote_def)

lemma str_int_kind: "kind_of_char (hd (str_int i @ s)) = 3"
  using dec_nat_hd digit_kind
  by (auto simp: str_int_def kind_of_char_def [of "CHR ''-''"] json_quote_def)

lemma kind_of_text: "float_free v \<Longrightarrow> kind_of_char (hd (json_text v @ s)) = kind_of v"
proof (cases v)
  case (JInt i)
  then show ?thesis using str_int_kind [of i s] by (simp add: kind_of_def)
qed (auto simp: kind_of_def json_string_def kind_of_char_def json_quote_def)

lemma same_kind:
  assumes "json_text v @ s = json_text w @ t" and "float_free v" and "float_free w"
  shows "kind_of w = kind_of v"
  using kind_of_text [OF assms(2), of s] kind_of_text [OF assms(3), of t] assms(1) by simp

lemma kind_of_inv:
  "kind_of w = kind_of JNull \<Longrightarrow> w = JNull"
  "kind_of w = kind_of (JBool b) \<Longrightarrow> w = JBool b"
  "kind_of w = kind_of (JInt i) \<Longrightarrow> \<exists>j. w = JInt j"
  "kind_of w = kind_of (JStr a) \<Longrightarrow> \<exists>c. w = JStr c"
  "kind_of w = kind_of (JList xs) \<Longrightarrow> \<exists>ys. w = JList ys"
  "kind_of w = kind_of (JDict kvs) \<Longrightarrow> \<exists>lvs. w = JDict lvs"
  by (cases w; simp add: kind_of_def split: if_splits)+

lemma json_text_nonempty: "float_free v \<Longrightarrow> json_text v \<noteq> []"
  by (cases v) (auto simp: json_string_def)

lemma text_not_closing:
  assumes "float_free v"
  shows "\<not> closes (json_text v @ s)"
proof
  assume "closes (json_text v @ s)"
  with json_text_nonempty [OF assms] have "hd (json_text v @ s) \<in> {CHR '','', CHR '']'', CHR ''}''}"
    by (simp add: closes_def)
  then have "kind_of_char (hd (json_text v @ s)) = 8"
    by (auto simp: kind_of_char_def is_digit_def json_quote_def)
  then show False
    using kind_of_text [OF assms, of s] by (simp add: kind_of_def split: json.splits if_splits)
qed

text \<open>The items of a list or a dict, each but the first with its separator.\<close>

primrec tails :: "('a \<Rightarrow> string) \<Rightarrow> 'a list \<Rightarrow> string" where
  "tails r [] = []"
| "tails r (x # xs) = '', '' @ r x @ tails r xs"

lemma join_with_tails: "join_with '', '' (map r (x # xs)) = r x @ tails r xs"
  by (induction xs arbitrary: x) auto

lemma closes_bracket: "e \<in> {CHR '']'', CHR ''}''} \<Longrightarrow> closes (e # s)"
  by (auto simp: closes_def)

lemma closes_tails: "e \<in> {CHR '']'', CHR ''}''} \<Longrightarrow> closes (tails r xs @ e # s)"
  by (cases xs) (auto simp: closes_def)

text \<open>A printer of items that can be told apart when something closing follows.\<close>

definition apart :: "('a \<Rightarrow> string) \<Rightarrow> 'a set \<Rightarrow> 'a set \<Rightarrow> bool" where
  "apart r A B = (\<forall>x \<in> A. \<forall>y \<in> B. \<forall>s t. r x @ s = r y @ t \<longrightarrow> closes s \<longrightarrow> closes t \<longrightarrow> x = y \<and> s = t)"

lemma apartD:
  "apart r A B \<Longrightarrow> x \<in> A \<Longrightarrow> y \<in> B \<Longrightarrow> r x @ s = r y @ t \<Longrightarrow> closes s \<Longrightarrow> closes t \<Longrightarrow> x = y \<and> s = t"
  unfolding apart_def by blast

lemma apart_subset: "apart r A B \<Longrightarrow> A' \<subseteq> A \<Longrightarrow> B' \<subseteq> B \<Longrightarrow> apart r A' B'"
  unfolding apart_def by blast

lemma tails_inj:
  assumes "tails r xs @ e # s = tails r ys @ e # t" and "e \<in> {CHR '']'', CHR ''}''}"
    and "apart r (set xs) (set ys)"
  shows "xs = ys \<and> s = t"
  using assms
proof (induction xs arbitrary: ys)
  case Nil
  then show ?case by (cases ys) auto
next
  case (Cons x xs)
  then obtain y ys' where ys: "ys = y # ys'" by (cases ys) auto
  with Cons.prems(1) have "r x @ tails r xs @ e # s = r y @ tails r ys' @ e # t" by simp
  from apartD [OF Cons.prems(3) _ _ this closes_tails closes_tails] ys Cons.prems(2)
  have xy: "x = y" "tails r xs @ e # s = tails r ys' @ e # t" by simp_all
  have "apart r (set xs) (set ys')" using ys by (intro apart_subset [OF Cons.prems(3)]) auto
  from Cons.IH [OF xy(2) Cons.prems(2) this] show ?case unfolding ys xy(1) by blast
qed

lemma items_inj:
  assumes "join_with '', '' (map r xs) @ e # s = join_with '', '' (map r ys) @ e # t"
    and "e \<in> {CHR '']'', CHR ''}''}" and "apart r (set xs) (set ys)"
    and "\<And>x s. x \<in> set xs \<union> set ys \<Longrightarrow> \<not> closes (r x @ s)"
  shows "xs = ys \<and> s = t"
proof (cases xs)
  case xs: Nil
  show ?thesis
  proof (cases ys)
    case (Cons y ys')
    with xs assms(1) have "e # s = r y @ tails r ys' @ e # t"
      using join_with_tails [of r y ys'] by simp
    with assms(4) [of y] Cons closes_bracket [OF assms(2), of s] show ?thesis by simp
  qed (use xs assms(1) in simp)
next
  case xs: (Cons x xs')
  show ?thesis
  proof (cases ys)
    case Nil
    with xs assms(1) have "r x @ tails r xs' @ e # s = e # t"
      using join_with_tails [of r x xs'] by simp
    with assms(4) [of x "tails r xs' @ e # s"] xs closes_bracket [OF assms(2), of t] show ?thesis by simp
  next
    case (Cons y ys')
    with xs assms(1) have "r x @ tails r xs' @ e # s = r y @ tails r ys' @ e # t"
      using join_with_tails [of r x xs'] join_with_tails [of r y ys'] by simp
    from apartD [OF assms(3) _ _ this closes_tails closes_tails] xs Cons assms(2)
    have xy: "x = y" "tails r xs' @ e # s = tails r ys' @ e # t" by simp_all
    have "apart r (set xs') (set ys')" using xs Cons by (intro apart_subset [OF assms(3)]) auto
    from tails_inj [OF xy(2) assms(2) this] show ?thesis unfolding xs Cons xy(1) by blast
  qed
qed

definition entry_text :: "string \<times> json \<Rightarrow> string" where
  "entry_text kv = (case kv of (k, v) \<Rightarrow> json_string k @ '': '' @ json_text v)"

lemma json_text_dict:
  "json_text (JDict kvs) = ''{'' @ join_with '', '' (map entry_text kvs) @ ''}''"
proof -
  have "entry_text = (\<lambda>(k, v). json_string k @ '': '' @ json_text v)"
    by (rule ext) (simp add: entry_text_def)
  then show ?thesis by simp
qed

lemma entry_not_closing: "\<not> closes (entry_text kv @ s)"
  by (cases kv) (simp add: entry_text_def json_string_def closes_def json_quote_def)

lemma apart_entries:
  assumes "\<And>k v w s t. (k, v) \<in> set kvs \<Longrightarrow> json_text v @ s = json_text w @ t \<Longrightarrow> float_free v
      \<Longrightarrow> float_free w \<Longrightarrow> closes s \<Longrightarrow> closes t \<Longrightarrow> v = w \<and> s = t"
    and "float_free (JDict kvs)" and "float_free (JDict lvs)"
  shows "apart entry_text (set kvs) (set lvs)"
  unfolding apart_def
proof (intro ballI allI impI)
  fix x y a b
  assume x: "x \<in> set kvs" and y: "y \<in> set lvs" and eq: "entry_text x @ a = entry_text y @ b"
    and ends: "closes a" "closes b"
  obtain k v l u where kv: "x = (k, v)" and lu: "y = (l, u)" by (cases x; cases y) auto
  from eq have "json_string k @ '': '' @ json_text v @ a = json_string l @ '': '' @ json_text u @ b"
    by (simp add: kv lu entry_text_def)
  from json_string_inj [OF this] have "k = l" and "json_text v @ a = json_text u @ b" by simp_all
  moreover from x y kv lu assms(2,3) have "float_free v" "float_free u"
    by (auto simp: list_all_iff)
  ultimately show "x = y \<and> a = b"
    using assms(1) [of k v a u b] x kv lu ends by simp
qed

theorem json_text_inj:
  assumes "json_text v @ s = json_text w @ t" and "float_free v" and "float_free w"
    and "closes s" and "closes t"
  shows "v = w \<and> s = t"
  using assms
proof (induction v arbitrary: w s t)
  case (JList xs)
  obtain ys where w: "w = JList ys"
    using kind_of_inv(5) [OF same_kind [OF JList.prems(1-3)]] by blast
  have "apart json_text (set xs) (set ys)"
    using JList.IH JList.prems(2,3) w unfolding apart_def by (auto simp: list_all_iff)
  moreover from JList.prems(1) w have "join_with '', '' (map json_text xs) @ CHR '']'' # s
      = join_with '', '' (map json_text ys) @ CHR '']'' # t" by simp
  moreover have "\<not> closes (json_text x @ u)" if "x \<in> set xs \<union> set ys" for x u
    using that JList.prems(2,3) w by (intro text_not_closing) (auto simp: list_all_iff)
  ultimately have "xs = ys \<and> s = t" by (intro items_inj) auto
  with w show ?case by simp
next
  case (JDict kvs)
  obtain lvs where w: "w = JDict lvs"
    using kind_of_inv(6) [OF same_kind [OF JDict.prems(1-3)]] by blast
  have "apart entry_text (set kvs) (set lvs)"
    using JDict.prems(2,3) w by (intro apart_entries JDict.IH) auto
  moreover from JDict.prems(1) w have "join_with '', '' (map entry_text kvs) @ CHR ''}'' # s
      = join_with '', '' (map entry_text lvs) @ CHR ''}'' # t"
    unfolding w json_text_dict by simp
  ultimately have "kvs = lvs \<and> s = t"
    by (intro items_inj) (auto simp: entry_not_closing)
  with w show ?case by simp
next
  case (JInt i)
  then obtain j where w: "w = JInt j" using kind_of_inv(3) [OF same_kind] by blast
  with JInt.prems(1) have "str_int i @ s = str_int j @ t" by simp
  from str_int_inj [OF this] JInt.prems(4,5) w show ?case by (simp add: closes_stops)
next
  case (JStr a)
  then obtain b where w: "w = JStr b" using kind_of_inv(4) [OF same_kind] by blast
  with JStr.prems(1) have "json_string a @ s = json_string b @ t" by simp
  from json_string_inj [OF this] w show ?case by simp
next
  case JNull
  with kind_of_inv(1) [OF same_kind] have "w = JNull" by blast
  with JNull.prems(1) show ?case by simp
next
  case (JBool b)
  with kind_of_inv(2) [OF same_kind] have "w = JBool b" by blast
  with JBool.prems(1) show ?case by simp
qed simp

text \<open>The canonical texts of two float-free values agree only when the values do, up to the
  order of their keys.\<close>

lemma float_free_sort [simp]: "float_free (sort_json v) = float_free v"
proof (induction v)
  case (JList xs)
  then show ?case by (auto simp: list_all_iff)
next
  case (JDict kvs)
  then show ?case by (fastforce simp: list_all_iff)
qed auto

lemma json_dumps_inj:
  assumes "float_free v" and "float_free w"
  shows "json_dumps v = json_dumps w \<longleftrightarrow> sort_json v = sort_json w"
  using json_text_inj [of "sort_json v" "[]" "sort_json w" "[]"] assms
  by (auto simp: json_dumps_def closes_def)

end
