(* ===== verification/HookBuiltins.thy ===== *)
theory HookBuiltins
  imports HookRegistry JsonText
begin

text \<open>
  What Valuz itself puts on the hook bus and the adapters that reach it: the identity of a
  tool across runtimes (\<^verbatim>\<open>tool_identity.py\<close>), the image and plan gates
  (\<^verbatim>\<open>builtin/image_gate.py\<close>, \<^verbatim>\<open>builtin/plan_gate.py\<close>), the toolkit's dispatch point
  (\<^verbatim>\<open>toolkit.py\<close>) and the runtime guard's acquisition and release (\<^verbatim>\<open>runtime_support.py\<close>).
\<close>

section \<open>Tool identity\<close>

text \<open>A kind, the keys that hold the path and the keys that hold the command.\<close>

type_synonym native_entry = "string \<times> string list \<times> string list"

definition native_table :: "(string \<times> (string \<times> native_entry) list) list" where
  "native_table =
    [(''claude_agent'',
       [(''Read'', ''file_read'', [''file_path''], []), (''Write'', ''file_write'', [''file_path''], []),
        (''Edit'', ''file_edit'', [''file_path''], []), (''MultiEdit'', ''file_edit'', [''file_path''], []),
        (''NotebookEdit'', ''file_edit'', [''notebook_path''], []),
        (''NotebookRead'', ''file_read'', [''notebook_path''], []),
        (''Bash'', ''shell'', [], [''command'']), (''BashOutput'', ''shell_control'', [], []),
        (''KillShell'', ''shell_control'', [], []), (''KillBash'', ''shell_control'', [], []),
        (''Glob'', ''search'', [''path''], []), (''Grep'', ''search'', [''path''], []),
        (''LS'', ''search'', [''path''], []), (''WebFetch'', ''web_fetch'', [], []),
        (''WebSearch'', ''web_search'', [], []), (''Task'', ''subagent'', [], []),
        (''Agent'', ''subagent'', [], []), (''TodoWrite'', ''todo'', [], []),
        (''Skill'', ''skill'', [], []), (''AskUserQuestion'', ''ask_user'', [], []),
        (''ExitPlanMode'', ''plan'', [], [])]),
     (''deepagents'',
       [(''read_file'', ''file_read'', [''file_path''], []), (''write_file'', ''file_write'', [''file_path''], []),
        (''edit_file'', ''file_edit'', [''file_path''], []), (''ls'', ''search'', [''path''], []),
        (''glob'', ''search'', [''path''], []), (''grep'', ''search'', [''path''], []),
        (''execute'', ''shell'', [], [''command'']), (''task'', ''subagent'', [], []),
        (''write_todos'', ''todo'', [], [])]),
     (''deepseek_harness'',
       [(''read'', ''file_read'', [''file_path'', ''path''], []),
        (''read_image'', ''file_read'', [''file_path'', ''path''], []),
        (''write'', ''file_write'', [''file_path'', ''path''], []),
        (''edit'', ''file_edit'', [''file_path'', ''path''], []),
        (''str_replace_editor'', ''file_edit'', [''path'', ''file_path''], []),
        (''glob'', ''search'', [''path''], []), (''grep'', ''search'', [''path''], []),
        (''bash'', ''shell'', [], [''command'']), (''pwsh'', ''shell'', [], [''command'']),
        (''web_fetch'', ''web_fetch'', [], []), (''web_search'', ''web_search'', [], []),
        (''todo_write'', ''todo'', [], [])]),
     (''codex'',
       [(''commandExecution'', ''shell'', [], [''command'']), (''fileChange'', ''file_edit'', [''path''], []),
        (''webSearch'', ''web_search'', [], []), (''imageView'', ''file_read'', [''path''], [])])]"

definition default_path_keys :: "string list" where
  "default_path_keys = [''file_path'', ''path'', ''filePath'', ''notebook_path'']"

definition default_command_keys :: "string list" where
  "default_command_keys = [''command'', ''cmd'']"

fun first_string :: "payload \<Rightarrow> string list \<Rightarrow> string option" where
  "first_string data [] = None"
| "first_string data (k # ks) = (case dget data k of
       JStr (c # s) \<Rightarrow> Some (c # s)
     | JList (x # xs) \<Rightarrow> (case str_items (x # xs) of
           Some ss \<Rightarrow> Some (join_with '' '' ss) | None \<Rightarrow> first_string data ks)
     | _ \<Rightarrow> first_string data ks)"

definition native_tool_ref :: "string \<Rightarrow> string \<Rightarrow> json \<Rightarrow> tool_ref" where
  "native_tool_ref provider name input =
    (let data = (case input of JDict kvs \<Rightarrow> kvs | _ \<Rightarrow> []) in
     case map_of (case map_of native_table provider of None \<Rightarrow> [] | Some es \<Rightarrow> es) name of
       None \<Rightarrow> \<lparr>tr_name = name, tr_kind = ''other'', tr_source = ''native'', tr_server = None,
                tr_path = first_string data default_path_keys,
                tr_command = first_string data default_command_keys\<rparr>
     | Some (kind, paths, commands) \<Rightarrow>
         \<lparr>tr_name = name, tr_kind = kind, tr_source = ''native'', tr_server = None,
          tr_path = first_string data paths, tr_command = first_string data commands\<rparr>)"

definition mcp_tool_ref :: "string \<Rightarrow> string \<Rightarrow> tool_ref" where
  "mcp_tool_ref server tool = \<lparr>tr_name = ''mcp__'' @ server @ ''__'' @ tool, tr_kind = ''mcp'',
     tr_source = ''mcp'', tr_server = Some server, tr_path = None, tr_command = None\<rparr>"

definition toolkit_tool_ref :: "string \<Rightarrow> tool_ref" where
  "toolkit_tool_ref name = \<lparr>tr_name = name, tr_kind = ''toolkit'', tr_source = ''toolkit'',
     tr_server = None, tr_path = None, tr_command = None\<rparr>"

definition tool_payload :: "tool_ref \<Rightarrow> json \<Rightarrow> payload" where
  "tool_payload t input = [(''tool'', JDict (tool_ref_to_dict t)), (''input'', input), (''tool_use_id'', JNull)]"

section \<open>The image gate\<close>

text \<open>\<open>x in v\<close> for a string \<open>x\<close>; \<open>None\<close> where Python raises.\<close>

definition substring :: "string \<Rightarrow> string \<Rightarrow> bool" where
  "substring x s = list_ex (\<lambda>i. take (length x) (drop i s) = x) [0..<Suc (length s)]"

fun json_contains :: "string \<Rightarrow> json \<Rightarrow> bool option" where
  "json_contains x (JList xs) = Some (JStr x \<in> set xs)"
| "json_contains x (JStr s) = Some (substring x s)"
| "json_contains x (JDict kvs) = Some (x \<in> fst ` set kvs)"
| "json_contains x _ = None"

definition image_gate_applies :: "session_ref \<Rightarrow> hook_exn + bool" where
  "image_gate_applies s =
    (if sr_runtime_provider s \<noteq> ''claude_agent'' then Inr False
     else let m = dget (sr_model_settings s) ''input_modalities'' in
       if m = JNull then Inr False
       else (case json_contains ''image'' m of
          None \<Rightarrow> Inl (Failed ''TypeError'' ''argument is not iterable'') | Some b \<Rightarrow> Inr (\<not> b)))"

definition lower_char :: "char \<Rightarrow> char" where
  "lower_char c = (let n = (of_char c :: nat) in
     if 65 \<le> n \<and> n \<le> 90 \<or> 192 \<le> n \<and> n \<le> 222 \<and> n \<noteq> 215 then char_of (n + 32) else c)"

definition image_suffixes :: "string list" where
  "image_suffixes = [''.png'', ''.jpg'', ''.jpeg'', ''.gif'', ''.webp'', ''.bmp'', ''.pdf'']"

definition is_image_path :: "json \<Rightarrow> bool" where
  "is_image_path v = (case v of
       JStr p \<Rightarrow> (let q = map lower_char p in
         list_ex (\<lambda>s. length s \<le> length q \<and> drop (length q - length s) q = s) image_suffixes)
     | _ \<Rightarrow> False)"

definition refusal :: "string \<Rightarrow> hook_value" where
  "refusal reason = HOutcome \<lparr>to_content = JStr reason, to_is_error = True, to_executed = False\<rparr>"

definition image_deny_reason :: string where
  "image_deny_reason = ''The current model does not accept image input, so this file cannot be '' @
     ''read into the conversation. Use a document-parsing tool to obtain its '' @
     ''text (an extracted-text path, when the attachment listing shows one, '' @
     ''works too), or operate on the file by path only. Tell the user if the '' @
     ''task truly requires seeing the file itself.''"

definition image_read_gate :: "hook_context \<Rightarrow> hook_event \<Rightarrow> 'w program" where
  "image_read_gate ctx e = (if is_image_path (event_get e ''tool.path'') then Return (refusal image_deny_reason)
     else Next NextSame (\<lambda>r. case r of
        Inl x \<Rightarrow> Raise x
      | Inr v \<Rightarrow> (if is_outcome v then Return v else Raise (Failed ''AssertionError'' []))))"

section \<open>The plan gate\<close>

text \<open>The dashes and dots of the refusal that lie outside the model's characters are written
  plainly.\<close>

definition plan_deny_reason :: string where
  "plan_deny_reason = ''Plan mode is on: this tool runs commands or changes files, so it is '' @
     ''disabled until the user approves a plan. Keep investigating with '' @
     ''read-only tools, then present your complete plan inside '' @
     ''<proposed_plan>...</proposed_plan>.''"

definition plan_gate_applies :: "session_ref \<Rightarrow> hook_exn + bool" where
  "plan_gate_applies s = Inr (sr_runtime_provider s = ''deepagents'' \<and> sr_mode s = ''plan'')"

definition plan_mode_gate :: "hook_context \<Rightarrow> hook_event \<Rightarrow> 'w program" where
  "plan_mode_gate ctx e = Return (refusal plan_deny_reason)"

definition mutating_kinds :: "string list" where
  "mutating_kinds = [''shell'', ''file_write'', ''file_edit'']"

text \<open>The specs \<open>install\<close> asks the registry for.\<close>

definition image_gate_spec :: "'w hook_spec" where
  "image_gate_spec = \<lparr>hs_event = TOOL_CALL, hs_handler = image_read_gate, hs_owner = ''valuz.image-gate'',
     hs_tier = Builtin, hs_matcher = Some [(''tool.kind'', Pattern ''file_read''), (''tool.source'', Pattern ''native'')],
     hs_fail_closed = False, hs_required = False, hs_budget = default_budget, hs_priority = 0,
     hs_applies = Some image_gate_applies, hs_seq = 0, hs_registration = []\<rparr>"

definition plan_gate_spec :: "'w hook_spec" where
  "plan_gate_spec = \<lparr>hs_event = TOOL_CALL, hs_handler = plan_mode_gate, hs_owner = ''valuz.plan-gate'',
     hs_tier = Builtin, hs_matcher = Some [(''tool.kind'', Patterns mutating_kinds), (''tool.source'', Pattern ''native'')],
     hs_fail_closed = False, hs_required = False, hs_budget = default_budget, hs_priority = 0,
     hs_applies = Some plan_gate_applies, hs_seq = 0, hs_registration = []\<rparr>"

section \<open>The toolkit's dispatch point\<close>

record tool_result =
  tz_content :: string
  tz_is_error :: bool

text \<open>A toolkit handler: its arguments and the shared state to a result.\<close>

type_synonym 'w tool_handler = "payload \<Rightarrow> 'w \<Rightarrow> (hook_exn + tool_result) \<times> 'w"

definition as_text :: "json \<Rightarrow> string" where
  "as_text v = (case v of JStr s \<Rightarrow> s | _ \<Rightarrow> json_text v)"

definition tooldef_core :: "'w tool_handler \<Rightarrow> 'w layer" where
  "tooldef_core h e w =
    (case h (case event_get e ''input'' of JDict kvs \<Rightarrow> kvs | _ \<Rightarrow> []) w of
       (Inl x, w') \<Rightarrow> (Inl x, w')
     | (Inr r, w') \<Rightarrow> (Inr (HOutcome \<lparr>to_content = JStr (tz_content r), to_is_error = tz_is_error r,
           to_executed = True\<rparr>), w'))"

text \<open>\<open>None\<close> for the session: a caller that has no hook bus.\<close>

definition call_tooldef :: "(string \<Rightarrow> string \<Rightarrow> bool) \<Rightarrow> 'w hook_registry \<Rightarrow> session_ref option \<Rightarrow> string
    \<Rightarrow> 'w tool_handler \<Rightarrow> payload \<Rightarrow> 'w \<Rightarrow> (hook_exn + tool_result) \<times> 'w" where
  "call_tooldef rx reg session name h args w = (case session of
       None \<Rightarrow> (if has_required TOOL_CALL reg
          then (Inr \<lparr>tz_content = ''Required execution guard has no trusted session context'', tz_is_error = True\<rparr>, w)
          else h args w)
     | Some s \<Rightarrow>
         (let data = tool_payload (toolkit_tool_ref name) (JDict args) in
          if \<not> wants rx TOOL_CALL s (Some data) reg then h args w
          else (case hook_dispatch rx TOOL_CALL s data (tooldef_core h) reg w of
             (Inl x, w') \<Rightarrow> (Inl x, w')
           | (Inr (HOutcome r), w') \<Rightarrow>
               (Inr \<lparr>tz_content = as_text (to_content r), tz_is_error = to_is_error r\<rparr>, w')
           | (Inr _, w') \<Rightarrow> h args w')))"

section \<open>The runtime guard\<close>

text \<open>What the runtime object remembers between queries.\<close>

record guard_state =
  gs_constraints :: "runtime_constraints option"
  gs_session :: "session_ref option"

definition permissive_core :: "'w layer" where
  "permissive_core e w = (Inr (HConstraints default_constraints), w)"

definition release_event :: "session_ref \<Rightarrow> string \<Rightarrow> hook_event" where
  "release_event s token = \<lparr>he_name = RUNTIME_CHECK, he_session = s,
     he_data = [(''phase'', JStr ''release''), (''guard_nonce'', JStr token)]\<rparr>"

text \<open>Releasing one reference.  Only a cancellation escapes.\<close>

definition release_one :: "(string \<Rightarrow> string \<Rightarrow> bool) \<Rightarrow> session_ref \<Rightarrow> 'w hook_spec \<Rightarrow> string \<Rightarrow> 'w
    \<Rightarrow> (hook_exn + bool) \<times> 'w" where
  "release_one rx session s token w =
    (let e = release_event session token in
     if \<not> matches rx (hs_matcher s) e then (Inr False, w)
     else (case run_chain rx e [s] permissive_core w of
        (Inl (Cancelled r), w') \<Rightarrow> (Inl (Cancelled r), w')
      | (Inl (Failed t m), w') \<Rightarrow> (Inr False, w')
      | (Inr (HConstraints r), w') \<Rightarrow> (Inr (rc_proceed r), w')
      | (Inr _, w') \<Rightarrow> (Inr False, w')))"

type_synonym token_ref = "string \<times> string \<times> string"

definition token_refs :: "guard_tokens \<Rightarrow> token_ref list" where
  "token_refs ts = concat (map (\<lambda>(owner, m). map (\<lambda>(key, n). (owner, key, n)) m) ts)"

text \<open>\<open>del pending[owner][seq]\<close>, and the owner's entry when it becomes empty.\<close>

fun drop_key :: "string \<Rightarrow> (string \<times> 'v) list \<Rightarrow> (string \<times> 'v) list" where
  "drop_key k [] = []"
| "drop_key k ((k', v) # kvs) = (if k' = k then kvs else (k', v) # drop_key k kvs)"

fun drop_token :: "string \<Rightarrow> string \<Rightarrow> guard_tokens \<Rightarrow> guard_tokens" where
  "drop_token owner key [] = []"
| "drop_token owner key ((o', m) # ts) =
     (if o' = owner then (case drop_key key m of [] \<Rightarrow> ts | m' \<Rightarrow> (o', m') # ts)
      else (o', m) # drop_token owner key ts)"

definition remaining_nonce :: "guard_tokens \<Rightarrow> string option" where
  "remaining_nonce ts = (case token_refs ts of [] \<Rightarrow> None | r # rs \<Rightarrow> Some (snd (snd (last (r # rs)))))"

definition issuer :: "'w hook_spec list \<Rightarrow> string \<Rightarrow> string \<Rightarrow> 'w hook_spec option" where
  "issuer specs owner key = List.find (\<lambda>s. hs_required s \<and> hs_owner s = owner \<and> release_key s = key) specs"

fun release_refs :: "(string \<Rightarrow> string \<Rightarrow> bool) \<Rightarrow> 'w hook_spec list \<Rightarrow> session_ref \<Rightarrow> runtime_constraints
    \<Rightarrow> token_ref list \<Rightarrow> guard_tokens \<Rightarrow> guard_state \<Rightarrow> 'w \<Rightarrow> (hook_exn + guard_tokens) \<times> guard_state \<times> 'w" where
  "release_refs rx specs session c [] pending g w = (Inr pending, g, w)"
| "release_refs rx specs session c ((owner, key, token) # refs) pending g w =
     (case issuer specs owner key of
        None \<Rightarrow> release_refs rx specs session c refs pending g w
      | Some s \<Rightarrow>
          (case release_one rx session s token w of
             (Inl x, w') \<Rightarrow> (Inl x, g, w')
           | (Inr True, w') \<Rightarrow>
               (let pending' = drop_token owner key pending in
                release_refs rx specs session c refs pending'
                  (g\<lparr>gs_constraints := Some (c\<lparr>rc_guard_tokens := pending',
                       rc_guard_nonce := remaining_nonce pending'\<rparr>)\<rparr>) w')
           | (Inr False, w') \<Rightarrow> release_refs rx specs session c refs pending g w'))"

definition release_constraints :: "(string \<Rightarrow> string \<Rightarrow> bool) \<Rightarrow> 'w hook_registry \<Rightarrow> session_ref \<Rightarrow> guard_state \<Rightarrow> 'w
    \<Rightarrow> (hook_exn + bool) \<times> guard_state \<times> 'w" where
  "release_constraints rx reg current g w = (case gs_constraints g of
       None \<Rightarrow> (Inr True, g, w)
     | Some c \<Rightarrow>
         (let pending = rc_guard_tokens c;
              nonce = rc_guard_nonce c;
              session = (case gs_session g of None \<Rightarrow> current | Some s \<Rightarrow> s);
              specs = specs_for RUNTIME_CHECK session reg
          in if pending = [] \<and> (nonce = None \<or> nonce = Some []) then (Inr True, g, w)
             else if pending = [] then
               (let required = filter hs_required specs;
                    candidates = (if required = [] then specs else required)
                in case candidates of
                     [s] \<Rightarrow> (case release_one rx session s (the nonce) w of
                         (Inl x, w') \<Rightarrow> (Inl x, g, w')
                       | (Inr True, w') \<Rightarrow> (Inr True, g\<lparr>gs_constraints := Some (c\<lparr>rc_guard_nonce := None\<rparr>)\<rparr>, w')
                       | (Inr False, w') \<Rightarrow> (Inr False, g, w'))
                   | _ \<Rightarrow> (Inr False, g, w))
             else (case release_refs rx specs session c (token_refs pending) pending g w of
                  (Inl x, g', w') \<Rightarrow> (Inl x, g', w')
                | (Inr left, g', w') \<Rightarrow> (Inr (left = []), g', w'))))"

definition guard_unavailable :: hook_exn where
  "guard_unavailable = Failed ''RuntimeError'' ''required runtime execution guard unavailable or denied''"

definition holds_references :: "guard_state \<Rightarrow> bool" where
  "holds_references g = (case gs_constraints g of
       None \<Rightarrow> False
     | Some c \<Rightarrow> rc_guard_tokens c \<noteq> [] \<or> (rc_guard_nonce c \<noteq> None \<and> rc_guard_nonce c \<noteq> Some []))"

text \<open>The refused or cancelled query gives back what it acquired and then raises.\<close>

definition release_then_raise :: "(string \<Rightarrow> string \<Rightarrow> bool) \<Rightarrow> 'w hook_registry \<Rightarrow> session_ref \<Rightarrow> hook_exn
    \<Rightarrow> guard_state \<Rightarrow> 'w \<Rightarrow> (hook_exn + runtime_constraints) \<times> guard_state \<times> 'w" where
  "release_then_raise rx reg session x g w = (case release_constraints rx reg session g w of
       (Inl y, g', w') \<Rightarrow> (Inl y, g', w')
     | (Inr _, g', w') \<Rightarrow> (Inl x, g', w'))"

definition query_constraints :: "(string \<Rightarrow> string \<Rightarrow> bool) \<Rightarrow> 'w hook_registry \<Rightarrow> session_ref \<Rightarrow> guard_state \<Rightarrow> 'w
    \<Rightarrow> (hook_exn + runtime_constraints) \<times> guard_state \<times> 'w" where
  "query_constraints rx reg session g w =
    (if \<not> wants rx RUNTIME_CHECK session None reg then (Inr default_constraints, g, w)
     else (case hook_dispatch rx RUNTIME_CHECK session [] permissive_core reg w of
        (Inl (Cancelled (Some r)), w') \<Rightarrow>
          release_then_raise rx reg session (Cancelled (Some r))
            (g\<lparr>gs_constraints := Some r, gs_session := Some session\<rparr>) w'
      | (Inl x, w') \<Rightarrow> (Inl x, g, w')
      | (Inr (HConstraints r), w') \<Rightarrow>
          (let g' = g\<lparr>gs_constraints := Some r, gs_session := Some session\<rparr> in
           if rc_proceed r then (Inr r, g', w')
           else release_then_raise rx reg session guard_unavailable g' w')
      | (Inr _, w') \<Rightarrow> (Inl guard_unavailable, g, w')))"

definition runtime_constraints_for :: "(string \<Rightarrow> string \<Rightarrow> bool) \<Rightarrow> 'w hook_registry \<Rightarrow> session_ref \<Rightarrow> guard_state \<Rightarrow> 'w
    \<Rightarrow> (hook_exn + runtime_constraints) \<times> guard_state \<times> 'w" where
  "runtime_constraints_for rx reg session g w =
    (if holds_references g then
       (case release_constraints rx reg session g w of
          (Inl x, g', w') \<Rightarrow> (Inl x, g', w')
        | (Inr False, g', w') \<Rightarrow>
            (Inl (Failed ''RuntimeError'' ''required runtime execution guard release remains unconfirmed''), g', w')
        | (Inr True, g', w') \<Rightarrow> query_constraints rx reg session g' w')
     else query_constraints rx reg session g w)"

end
