(* ===== verification/HookGates.thy ===== *)
theory HookGates
  imports HookBuiltins HookProperties
begin

text \<open>
  What the built-in gates and the runtime guard guarantee: a plan-mode session cannot change
  files, a run starts only when every required guard agrees, and a release reference is
  given up only when its issuer confirmed the release.
\<close>

section \<open>The plan gate\<close>

text \<open>The chain as two parts, one under the other.\<close>
lemma chain_call_append:
  "chain_call rx required e0 core (xs @ ys) cur w
     = chain_call rx required e0 (chain_call rx required e0 core ys) xs cur w"
proof (induction xs arbitrary: cur w)
  case Nil
  then show ?case by (cases ys) auto
next
  case (Cons x xs)
  have "invoke x cur (chain_call rx required e0 core (xs @ ys)) w
      = invoke x cur (chain_call rx required e0 (chain_call rx required e0 core ys) xs) w"
    by (intro invoke_cong_all Cons.IH)
  with Cons.IH show ?case by simp
qed

text \<open>A handler that keeps the identity the gates look at.\<close>

definition same_tool :: "hook_event \<Rightarrow> hook_event \<Rightarrow> bool" where
  "same_tool a b = (event_get a ''tool.kind'' = event_get b ''tool.kind''
     \<and> event_get a ''tool.source'' = event_get b ''tool.source'')"

definition keeps_tool :: "'w hook_spec \<Rightarrow> bool" where
  "keeps_tool s = (\<forall>ctx e. all_next (\<lambda>a. \<forall>t. a = NextEvent t \<longrightarrow> same_tool e t) (hs_handler s ctx e))"

lemma same_tool_with_input: "same_tool e (with_data ''input'' v t) = same_tool e t"
  by (simp add: same_tool_def event_get_other_key [where p = "''tool''"])

lemma next_target_same_tool:
  assumes "next_target g e a = Inr t" and "\<And>u. a = NextEvent u \<Longrightarrow> same_tool e u"
  shows "same_tool e t"
  using assms
  by (auto simp: next_target_def Let_def same_tool_with_input
      split: next_arg.splits if_splits) (simp_all add: same_tool_def)

lemma matches_same_tool:
  assumes "same_tool e t" and "fst ` set m \<subseteq> {''tool.kind'', ''tool.source''}"
  shows "matches rx (Some m) t = matches rx (Some m) e"
proof -
  have "entry_matches rx t kv = entry_matches rx e kv" if "kv \<in> set m" for kv
    using assms that by (auto simp: entry_matches_def shorthand_def same_tool_def)
  then show ?thesis by (auto simp: matches_def list_all_iff)
qed

definition gated :: "(string \<Rightarrow> string \<Rightarrow> bool) \<Rightarrow> matcher option \<Rightarrow> hook_event \<Rightarrow> bool" where
  "gated rx m t = (he_name t = TOOL_CALL \<and> matches rx m t)"

interpretation tool_filter: chain_filter "gated rx (Some m)"
    "\<lambda>s. keeps_tool s \<and> fst ` set m \<subseteq> {''tool.kind'', ''tool.source''}" required e0
  for rx m required e0
proof unfold_locales
  fix e and s :: "'w hook_spec" and ctx
  assume e: "gated rx (Some m) e" and s: "keeps_tool s \<and> fst ` set m \<subseteq> {''tool.kind'', ''tool.source''}"
  from s have "all_next (\<lambda>a. \<forall>t. a = NextEvent t \<longrightarrow> same_tool e t) (hs_handler s ctx e)"
    by (simp add: keeps_tool_def)
  then show "all_next (\<lambda>a. \<forall>t. next_target (guarded s e) e a = Inr t \<longrightarrow> gated rx (Some m) t) (hs_handler s ctx e)"
    by (rule all_next_mono)
      (use e s in \<open>auto simp: gated_def matches_same_tool dest: next_target_name next_target_same_tool\<close>)
qed

text \<open>The refusal is a handler's answer of the right type, and asks nothing below.\<close>
lemma invoke_refuses:
  assumes "hs_handler s = plan_mode_gate" and "he_name e = TOOL_CALL"
  shows "invoke s e d w = (Inr (refusal plan_deny_reason), w)"
  using assms(2)
  by (simp add: invoke_def assms(1) plan_mode_gate_def judge_result_def pass_through_def wrong_type_def
      result_type_def observe_events_def refusal_def Let_def fresh_call_def)

lemma chain_stops_at_gate:
  assumes "hs_handler s = plan_mode_gate" and "hs_matcher s = Some m" and "gated rx (Some m) t"
  shows "chain_call rx required e0 core (s # ss) t w = chain_call rx required e0 core' (s # ss) t w"
  using assms invoke_refuses [OF assms(1)] by (simp add: gated_def)

definition plan_matcher :: matcher where
  "plan_matcher = [(''tool.kind'', Patterns mutating_kinds), (''tool.source'', Pattern ''native'')]"

lemma plan_gate_registered:
  assumes "register rx_ok rid plan_gate_spec r0 = Inr (s, r1)"
  shows "hs_event s = TOOL_CALL" "hs_handler s = plan_mode_gate" "hs_matcher s = Some plan_matcher"
    "hs_applies s = Some plan_gate_applies" "\<not> hs_required s"
  using assms by (auto simp: register_def rbind_Inr_iff Let_def plan_gate_spec_def stored_matcher_def plan_matcher_def)

lemma plan_gate_matches:
  assumes "tr_kind t \<in> set mutating_kinds" and "tr_source t = ''native''"
  shows "matches rx (Some plan_matcher)
     \<lparr>he_name = TOOL_CALL, he_session = session, he_data = tool_payload t input\<rparr>"
proof -
  have "event_get \<lparr>he_name = n, he_session = session, he_data = tool_payload t input\<rparr> ''tool.kind'' = JStr (tr_kind t)"
    "event_get \<lparr>he_name = n, he_session = session, he_data = tool_payload t input\<rparr> ''tool.source'' = JStr (tr_source t)" for n
    by (simp_all add: event_get_def tool_payload_def tool_ref_to_dict_def)
  moreover have "list_ex (\<lambda>p. pattern_matches rx p (JStr k)) mutating_kinds" if "k \<in> set mutating_kinds" for k
    using that by (auto simp: mutating_kinds_def pattern_matches_def is_regex_def alternatives_def)
  moreover have "pattern_matches rx ''native'' (JStr ''native'')"
    by (simp add: pattern_matches_def is_regex_def alternatives_def)
  ultimately show ?thesis
    using assms by (simp add: matches_def entry_matches_def plan_matcher_def shorthand_def)
qed

lemma dispatch_stops_at_gate:
  assumes "s \<in> set (specs_for TOOL_CALL session r)" and "hs_handler s = plan_mode_gate"
    and "hs_matcher s = Some m" and "fst ` set m \<subseteq> {''tool.kind'', ''tool.source''}"
    and "\<forall>x \<in> set (hr_specs r). keeps_tool x"
    and "matches rx (Some m) \<lparr>he_name = TOOL_CALL, he_session = session, he_data = data\<rparr>"
  shows "hook_dispatch rx TOOL_CALL session data core r w = hook_dispatch rx TOOL_CALL session data core' r w"
proof -
  let ?e = "\<lparr>he_name = TOOL_CALL, he_session = session, he_data = data\<rparr>"
  let ?all = "specs_for TOOL_CALL session r"
  let ?req = "list_ex hs_required ?all"
  obtain xs ys where split: "?all = xs @ s # ys"
    using assms(1) by (blast dest: split_list)
  have good: "\<forall>x \<in> set xs. keeps_tool x \<and> fst ` set m \<subseteq> {''tool.kind'', ''tool.source''}"
    using assms(4,5) set_specs_for [of TOOL_CALL session r] split by auto
  have start: "gated rx (Some m) ?e" using assms(6) by (simp add: gated_def)
  have "chain_call rx ?req ?e core ?all ?e w = chain_call rx ?req ?e core' ?all ?e w"
    unfolding split chain_call_append
    by (rule tool_filter.chain_agrees [OF _ start]) (use good chain_stops_at_gate [OF assms(2,3)] in auto)
  with split show ?thesis by (simp add: hook_dispatch_def run_chain_def Let_def)
qed

text \<open>Property C27: in plan mode no native tool that runs commands or changes files is reached:
  whatever the tool would do, the call has the same outcome, as long as no other handler
  relabels the tool.\<close>
theorem plan_mode_never_mutates:
  assumes "register rx_ok rid plan_gate_spec r0 = Inr (s, r1)" and "s \<in> set (hr_specs r)"
    and "sr_runtime_provider session = ''deepagents''" and "sr_mode session = ''plan''"
    and "\<not> sr_bare session" and "\<forall>x \<in> set (hr_specs r). keeps_tool x"
    and "tr_kind t \<in> set mutating_kinds" and "tr_source t = ''native''"
  shows "hook_dispatch rx TOOL_CALL session (tool_payload t input) core r w
       = hook_dispatch rx TOOL_CALL session (tool_payload t input) core' r w"
proof (rule dispatch_stops_at_gate)
  note s = plan_gate_registered [OF assms(1)]
  show "s \<in> set (specs_for TOOL_CALL session r)"
    using assms(2-5) s by (simp add: set_specs_for spec_applies_def plan_gate_applies_def)
  show "hs_handler s = plan_mode_gate" "hs_matcher s = Some plan_matcher" by (fact s)+
qed (use assms plan_gate_matches in \<open>auto simp: plan_matcher_def\<close>)

section \<open>The runtime guard\<close>
lemma token_refs_Cons [simp]:
  "token_refs ((owner, m) # ts) = map (\<lambda>(key, n). (owner, key, n)) m @ token_refs ts"
  by (simp add: token_refs_def)

lemma token_refs_Nil [simp]: "token_refs [] = []"
  by (simp add: token_refs_def)

text \<open>No owner has two references under one registration: the code's dicts have unique keys.\<close>

definition unique_refs :: "guard_tokens \<Rightarrow> bool" where
  "unique_refs ts = distinct (map (\<lambda>(owner, key, n). (owner, key)) (token_refs ts))"

lemma drop_key_keeps:
  "(k', v) \<in> set kvs \<Longrightarrow> k' \<noteq> k \<Longrightarrow> (k', v) \<in> set (drop_key k kvs)"
  by (induction k kvs rule: drop_key.induct) auto

lemma drop_token_keeps:
  "(o', k', n) \<in> set (token_refs ts) \<Longrightarrow> (o', k') \<noteq> (owner, key)
     \<Longrightarrow> (o', k', n) \<in> set (token_refs (drop_token owner key ts))"
proof (induction owner key ts rule: drop_token.induct)
  case (2 owner key p m ts)
  show ?case
  proof (cases "p = owner")
    case True
    have "(k', n) \<in> set (drop_key key m)" if "o' = owner" "(k', n) \<in> set m"
      using that 2(3) drop_key_keeps by fastforce
    with True 2(2) show ?thesis by (cases "drop_key key m") auto
  next
    case False
    with 2 show ?thesis by auto
  qed
qed auto

lemma unique_ref:
  assumes "unique_refs ts" and "(p, k, n) \<in> set (token_refs ts)" and "(p, k, m) \<in> set (token_refs ts)"
  shows "m = n"
  using assms unfolding unique_refs_def distinct_map inj_on_def by fastforce

text \<open>The references the runtime holds.\<close>

definition held_refs :: "guard_state \<Rightarrow> token_ref set" where
  "held_refs g = (case gs_constraints g of None \<Rightarrow> {} | Some c \<Rightarrow> set (token_refs (rc_guard_tokens c)))"

lemma held_refs_step [simp]:
  "held_refs (g\<lparr>gs_constraints := Some (c\<lparr>rc_guard_tokens := ts, rc_guard_nonce := x\<rparr>)\<rparr>) = set (token_refs ts)"
  by (simp add: held_refs_def)

text \<open>One reference after another: what is gone at the end was confirmed, also when a
  cancellation cuts the loop short.\<close>
lemma release_refs_confirmed:
  assumes "release_refs rx specs session c refs pending g w = (res, g', w')"
    and "held_refs g = set (token_refs pending)"
  shows "(\<forall>left. res = Inr left \<longrightarrow> held_refs g' = set (token_refs left))
    \<and> (\<forall>owner key n. (owner, key, n) \<in> held_refs g \<longrightarrow> (owner, key, n) \<in> held_refs g' \<or>
        (\<exists>s m u u'. (owner, key, m) \<in> set refs \<and> issuer specs owner key = Some s
          \<and> release_one rx session s m u = (Inr True, u')))"
  using assms
proof (induction refs arbitrary: pending g w)
  case (Cons ref rs)
  obtain p k m where ref: "ref = (p, k, m)" by (cases ref)
  note ih = Cons.IH [of pending g]
  show ?case
  proof (cases "issuer specs p k")
    case None
    with Cons.prems ref ih [of w] show ?thesis by fastforce
  next
    case (Some s)
    obtain y u where y: "release_one rx session s m w = (y, u)" by fastforce
    consider (raised) x where "y = Inl x" | (no) "y = Inr False" | (yes) "y = Inr True"
      by (cases y) auto
    then show ?thesis
    proof cases
      case raised
      with Cons.prems(1) ref Some y show ?thesis by auto
    next
      case no
      with Cons.prems ref Some y ih [of u] show ?thesis by fastforce
    next
      case yes
      let ?ts = "drop_token p k pending"
      let ?h = "g\<lparr>gs_constraints := Some (c\<lparr>rc_guard_tokens := ?ts, rc_guard_nonce := remaining_nonce ?ts\<rparr>)\<rparr>"
      have "release_refs rx specs session c rs ?ts ?h u = (res, g', w')"
        using Cons.prems(1) ref Some y yes by (simp add: Let_def)
      note rest = Cons.IH [OF this held_refs_step]
      have "(p, k) = (owner, key) \<or> (owner, key, n) \<in> held_refs ?h" if "(owner, key, n) \<in> held_refs g" for owner key n
        using that Cons.prems(2) drop_token_keeps [of owner key n pending p k] by auto
      with rest ref Some y yes show ?thesis by fastforce
    qed
  qed
qed auto

text \<open>Property C26: a runtime never forgets what it holds: after a release, complete, refused or
  cancelled, every reference that is gone was handed to the required guard that issued it
  and that guard confirmed, and a release that reports success leaves none.\<close>
theorem release_needs_confirmation:
  assumes "release_constraints rx reg current g w = (res, g', w')" and "gs_constraints g = Some c"
    and "unique_refs (rc_guard_tokens c)" and "rc_guard_tokens c \<noteq> []"
  shows "(res = Inr True \<longrightarrow> held_refs g' = {})
    \<and> (\<forall>owner key n. (owner, key, n) \<in> held_refs g \<longrightarrow> (owner, key, n) \<in> held_refs g' \<or>
        (\<exists>session s u u'. issuer (specs_for RUNTIME_CHECK session reg) owner key = Some s
          \<and> release_one rx session s n u = (Inr True, u')))"
proof -
  let ?session = "case gs_session g of None \<Rightarrow> current | Some s \<Rightarrow> s"
  let ?ts = "rc_guard_tokens c"
  obtain y h v where y: "release_refs rx (specs_for RUNTIME_CHECK ?session reg) ?session c (token_refs ?ts) ?ts g w
      = (y, h, v)" by (metis prod_cases3)
  have held: "held_refs g = set (token_refs ?ts)" using assms(2) by (simp add: held_refs_def)
  from assms(1) y have end_state: "g' = h" "\<And>left. y = Inr left \<Longrightarrow> res = Inr (left = [])" "\<And>x. y = Inl x \<Longrightarrow> res = Inl x"
    by (auto simp: release_constraints_def assms(2,4) Let_def split: prod.splits sum.splits)
  note swept = release_refs_confirmed [OF y held]
  have "held_refs g' = {}" if "res = Inr True"
    using that swept end_state by (cases y) auto
  moreover have "(owner, key, n) \<in> held_refs g' \<or>
      (\<exists>session s u u'. issuer (specs_for RUNTIME_CHECK session reg) owner key = Some s
        \<and> release_one rx session s n u = (Inr True, u'))" if "(owner, key, n) \<in> held_refs g" for owner key n
  proof -
    from that held have here: "(owner, key, n) \<in> set (token_refs ?ts)" by simp
    show ?thesis
      using swept that unique_ref [OF assms(3) here] unfolding end_state(1) by blast
  qed
  ultimately show ?thesis by blast
qed

text \<open>A query that lets a run start got its answer from the bus.\<close>
lemma query_answered:
  assumes "query_constraints rx reg session g w = (Inr r, g', w')"
    and "specs_for RUNTIME_CHECK session reg \<noteq> []"
  shows "rc_proceed r \<and> gs_constraints g' = Some r \<and> gs_session g' = Some session
     \<and> (\<exists>u. run_chain rx \<lparr>he_name = RUNTIME_CHECK, he_session = session, he_data = []\<rparr>
           (specs_for RUNTIME_CHECK session reg) permissive_core w = (Inr (HConstraints r), u))"
  using assms
  by (auto simp: query_constraints_def wants_no_specs hook_dispatch_def release_then_raise_def Let_def
      split: if_splits prod.splits sum.splits hook_value.splits hook_exn.splits option.splits)

text \<open>Property C25: a run starts only when every required guard registered for its session agreed:
  each was asked and said proceed, the constraints the run gets are at most as loose as each
  guard's and the ordinary handlers' answer, every release reference in them names a required
  registration, and what an earlier run held was released first.\<close>
theorem run_starts_by_consent:
  assumes "runtime_constraints_for rx reg session g w = (Inr r, g', w')"
    and "list_ex hs_required (specs_for RUNTIME_CHECK session reg)"
  shows "rc_proceed r \<and> gs_constraints g' = Some r \<and> gs_session g' = Some session
    \<and> issued_by (specs_for RUNTIME_CHECK session reg) (rc_guard_tokens r)
    \<and> (\<forall>s \<in> set (specs_for RUNTIME_CHECK session reg).
         hs_required s \<and> matches rx (hs_matcher s) \<lparr>he_name = RUNTIME_CHECK, he_session = session, he_data = []\<rparr> \<longrightarrow>
         (\<exists>c y z. invoke s \<lparr>he_name = RUNTIME_CHECK, he_session = session, he_data = []\<rparr>
              (guard_core \<lparr>he_name = RUNTIME_CHECK, he_session = session, he_data = []\<rparr>) y
            = (Inr (HConstraints c), z) \<and> rc_proceed c \<and> tighter r c))
    \<and> (holds_references g \<longrightarrow> (\<exists>h u. release_constraints rx reg session g w = (Inr True, h, u)))"
proof -
  let ?specs = "specs_for RUNTIME_CHECK session reg"
  let ?e = "\<lparr>he_name = RUNTIME_CHECK, he_session = session, he_data = []\<rparr>"
  obtain h u where query: "query_constraints rx reg session h u = (Inr r, g', w')"
    and released: "holds_references g \<longrightarrow> release_constraints rx reg session g w = (Inr True, h, u)"
    using assms(1) by (auto simp: runtime_constraints_for_def split: if_splits prod.splits sum.splits bool.splits)
  have "?specs \<noteq> []" using assms(2) by auto
  note q = query_answered [OF query this]
  then obtain v where "run_chain rx ?e ?specs permissive_core u = (Inr (HConstraints r), v)" by blast
  then have "issued_by ?specs (rc_guard_tokens r)"
    and asked: "\<forall>s \<in> set ?specs. hs_required s \<and> matches rx (hs_matcher s) ?e \<longrightarrow>
      (\<exists>c y z. invoke s ?e (guard_core ?e) y = (Inr (HConstraints c), z) \<and> tighter r c)"
    using required_guards_only_tighten [OF _ _ assms(2)] by (metis hook_event.select_convs(1) hook_value.inject(3))+
  moreover have "tighter r c \<Longrightarrow> rc_proceed c" for c
    using q by (simp add: tighter_def)
  ultimately show ?thesis using q released by meson
qed

section \<open>A deployment with both\<close>

definition plan_session :: session_ref where
  "plan_session = sample_session\<lparr>sr_runtime_provider := ''deepagents'', sr_mode := ''plan''\<rparr>"

definition gate_as_registered :: "nat hook_spec" where
  "gate_as_registered = plan_gate_spec\<lparr>hs_seq := 1, hs_registration := ''r1''\<rparr>"

definition gate_registry :: "nat hook_registry" where
  "gate_registry = \<lparr>hr_specs = [gate_as_registered, crasher], hr_next_seq = 2, hr_generation = 1\<rparr>"

lemma gate_registered:
  "register (\<lambda>_. True) ''r1'' plan_gate_spec empty_registry
     = Inr (gate_as_registered, \<lparr>hr_specs = [gate_as_registered], hr_next_seq = 2, hr_generation = 1\<rparr>)"
  by (simp add: register_def check_spec_def plan_gate_spec_def event_names_def empty_registry_def
      gate_as_registered_def stored_matcher_def matcher_validate_def compile_ok_def is_regex_def
      mutating_kinds_def Let_def)

text \<open>The refusal, and the same call in a session that is not planning.\<close>
lemma plan_gate_at_work:
  "hook_dispatch (\<lambda>_ _. False) TOOL_CALL plan_session
     (tool_payload (native_tool_ref ''deepagents'' ''execute'' evil_input) evil_input) echo_core gate_registry 0
     = (Inr (refusal plan_deny_reason), 0)
   \<and> hook_dispatch (\<lambda>_ _. False) TOOL_CALL (plan_session\<lparr>sr_mode := ''default''\<rparr>)
     (tool_payload (native_tool_ref ''deepagents'' ''execute'' evil_input) evil_input) echo_core gate_registry 0
     = (Inr (HOutcome \<lparr>to_content = evil_input, to_is_error = False, to_executed = True\<rparr>), 1)"
  by code_simp

theorem plan_mode_never_mutates_witness:
  "hook_dispatch (\<lambda>_ _. False) TOOL_CALL plan_session
     (tool_payload (native_tool_ref ''deepagents'' ''execute'' evil_input) evil_input) echo_core gate_registry 0
   = hook_dispatch (\<lambda>_ _. False) TOOL_CALL plan_session
     (tool_payload (native_tool_ref ''deepagents'' ''execute'' evil_input) evil_input) failing_core gate_registry 0"
proof (rule plan_mode_never_mutates [OF gate_registered])
  show "gate_as_registered \<in> set (hr_specs gate_registry)" by (simp add: gate_registry_def)
  show "\<forall>x \<in> set (hr_specs gate_registry). keeps_tool x"
    by (simp add: gate_registry_def keeps_tool_def gate_as_registered_def plan_gate_spec_def
        plan_mode_gate_def crasher_def sample_spec_def)
qed (simp_all add: plan_session_def sample_session_def native_tool_ref_def native_table_def mutating_kinds_def Let_def)

text \<open>A handler that relabels the tool on its way down passes the gate.\<close>

definition relabeller :: "nat hook_spec" where
  "relabeller = sample_spec TOOL_CALL User
     (\<lambda>_ e. Next (NextEvent (with_data ''tool'' (JDict [(''kind'', JStr ''other'')]) e)) give_back)"

lemma relabelled_tool_passes_gate:
  "hook_dispatch (\<lambda>_ _. False) TOOL_CALL plan_session
     (tool_payload (native_tool_ref ''deepagents'' ''execute'' evil_input) evil_input) echo_core
     (gate_registry\<lparr>hr_specs := [gate_as_registered, relabeller]\<rparr>) 0
     = (Inr (HOutcome \<lparr>to_content = evil_input, to_is_error = False, to_executed = True\<rparr>), 1)"
  by code_simp

definition guard_registry :: "nat hook_registry" where
  "guard_registry = \<lparr>hr_specs = [nonce_guard], hr_next_seq = 2, hr_generation = 1\<rparr>"

definition idle_guard :: guard_state where
  "idle_guard = \<lparr>gs_constraints = None, gs_session = None\<rparr>"

definition guarded_run :: runtime_constraints where
  "guarded_run = default_constraints\<lparr>rc_read_only := True, rc_guard_nonce := Some ''n'',
     rc_guard_tokens := [(''p'', [(''1:r1'', ''n'')])]\<rparr>"

definition busy_guard :: guard_state where
  "busy_guard = \<lparr>gs_constraints = Some guarded_run, gs_session = Some sample_session\<rparr>"

theorem run_starts_by_consent_witness:
  "rc_proceed guarded_run \<and> issued_by (specs_for RUNTIME_CHECK sample_session guard_registry) (rc_guard_tokens guarded_run)"
proof -
  have run: "runtime_constraints_for (\<lambda>_ _. False) guard_registry sample_session idle_guard 0
      = (Inr guarded_run, busy_guard, 0)"
    by code_simp
  have "list_ex hs_required (specs_for RUNTIME_CHECK sample_session guard_registry)"
    by code_simp
  from run_starts_by_consent [OF run this] show ?thesis by simp
qed

theorem release_needs_confirmation_witness:
  "held_refs (busy_guard\<lparr>gs_constraints := Some (guarded_run\<lparr>rc_guard_tokens := [], rc_guard_nonce := None\<rparr>)\<rparr>) = {}"
proof -
  have "release_constraints (\<lambda>_ _. False) guard_registry sample_session busy_guard 0
      = (Inr True, busy_guard\<lparr>gs_constraints := Some (guarded_run\<lparr>rc_guard_tokens := [], rc_guard_nonce := None\<rparr>)\<rparr>, 0)"
    by code_simp
  from release_needs_confirmation [OF this, of guarded_run] show ?thesis
    by (simp add: busy_guard_def guarded_run_def unique_refs_def)
qed

end
