(* ===== verification/ApprovalRules.thy ===== *)
theory ApprovalRules
  imports JsonText HookMatcher
begin

text \<open>
  Session-scoped approval rules: \<^verbatim>\<open>approval_rule_matcher.py\<close>, \<^verbatim>\<open>rule_canonicalize.py\<close> and
  \<^verbatim>\<open>session_approval_cache.py\<close> under \<^verbatim>\<open>backend/kernel/src/core\<close>.  When the user answers
  "always for this session" a rule is derived from the call; a later call that the rule
  covers is approved without asking.  The Claude SDK's permission suggestions are taken as
  the plain dicts the bridge normalises them to.
\<close>

record rule_derivation =
  rd_kind :: string
  rd_runtime_kind :: string
  rd_display :: string
  rd_rule_data :: payload

section \<open>Exact rules\<close>

definition canonicalize :: "payload \<Rightarrow> string" where
  "canonicalize args = json_dumps (JDict args)"

definition exact_derive :: "string \<Rightarrow> payload \<Rightarrow> rule_derivation" where
  "exact_derive tool args = \<lparr>rd_kind = ''exact'', rd_runtime_kind = ''exact'',
     rd_display = ''this exact '' @ tool @ '' call'',
     rd_rule_data = [(''tool_name'', JStr tool), (''args_canonical'', JStr (canonicalize args))]\<rparr>"

definition exact_match :: "string \<Rightarrow> payload \<Rightarrow> string \<Rightarrow> payload \<Rightarrow> bool" where
  "exact_match kind data tool args = (kind = ''exact'' \<and> dget data ''tool_name'' = JStr tool
     \<and> dget data ''args_canonical'' = JStr (canonicalize args))"

section \<open>Rules from the SDK's suggestions\<close>

definition file_glob_tools :: "string list" where
  "file_glob_tools = [''Edit'', ''Read'', ''Write'', ''Glob'', ''Grep'']"

definition ends_with :: "string \<Rightarrow> string \<Rightarrow> bool" where
  "ends_with s t = (length t \<le> length s \<and> drop (length s - length t) s = t)"

definition starts_with :: "string \<Rightarrow> string \<Rightarrow> bool" where
  "starts_with s t = (take (length t) s = t)"

text \<open>The tool and content of one suggestion, when it proposes to allow something.\<close>

definition first_rule :: "json \<Rightarrow> (string \<times> json) option" where
  "first_rule update = (case update of
       JDict data \<Rightarrow>
         (if dget data ''type'' \<noteq> JStr ''addRules'' then None
          else if dget data ''behavior'' \<noteq> JNull \<and> dget data ''behavior'' \<noteq> JStr ''allow'' then None
          else (case dget data ''rules'' of
              JList (JDict first # _) \<Rightarrow>
                (let name = py_or (dget first ''tool_name'') (dget first ''toolName'');
                     content = (if dget first ''rule_content'' = JNull then dget first ''ruleContent''
                                else dget first ''rule_content'')
                 in if truthy name then Some (py_str name, content) else None)
            | _ \<Rightarrow> None))
     | _ \<Rightarrow> None)"

fun pick_first_addrules :: "json list \<Rightarrow> (string \<times> json) option" where
  "pick_first_addrules [] = None"
| "pick_first_addrules (u # us) =
     (case first_rule u of None \<Rightarrow> pick_first_addrules us | Some r \<Rightarrow> Some r)"

definition suggestions_of :: "payload \<Rightarrow> json list" where
  "suggestions_of extras = (case dget extras ''claude_permission_updates'' of JList us \<Rightarrow> us | _ \<Rightarrow> [])"

definition categorize :: "string \<Rightarrow> json \<Rightarrow> string \<times> string" where
  "categorize tool content =
     (if tool = ''Bash'' then
        (case content of
           JStr s \<Rightarrow> (if ends_with s '':*'' then (''command_prefix'', ''Bash('' @ s @ '')'')
                      else (''exact'', ''Bash('' @ s @ '')''))
         | JNull \<Rightarrow> (''exact'', ''Bash()'')
         | v \<Rightarrow> (''exact'', ''Bash('' @ py_str v @ '')''))
      else if tool \<in> set file_glob_tools \<and> content \<noteq> JNull
        then (''file_glob'', tool @ ''('' @ py_str content @ '')'')
      else if starts_with tool ''mcp__'' then (''mcp_exact'', tool)
      else (''exact'', tool @ (if truthy content then ''('' @ py_str content @ '')'' else [])))"

definition claude_derive :: "string \<Rightarrow> payload \<Rightarrow> payload \<Rightarrow> rule_derivation" where
  "claude_derive tool args extras = (case pick_first_addrules (suggestions_of extras) of
       None \<Rightarrow> exact_derive tool args
     | Some (name, content) \<Rightarrow>
         (case categorize name content of (kind, display) \<Rightarrow>
           \<lparr>rd_kind = kind, rd_runtime_kind = ''claude_permission_update'', rd_display = display,
            rd_rule_data = [(''tool_name'', JStr name), (''rule_content'', content)]\<rparr>))"

definition match_bash :: "payload \<Rightarrow> string \<Rightarrow> bool" where
  "match_bash args content =
    (let command = py_str (py_or (dget args ''command'') (JStr [])) in
     if ends_with content '':*'' then
       (let prefix = take (length content - 2) content in
        prefix \<noteq> [] \<and> (command = prefix \<or> starts_with command (prefix @ '' '')))
     else command = content)"

definition match_file_glob :: "payload \<Rightarrow> string \<Rightarrow> bool" where
  "match_file_glob args content =
    (case py_or (dget args ''file_path'') (py_or (dget args ''path'') (dget args ''pattern'')) of
       JStr path \<Rightarrow> glob_match (glob_tokens content) path
     | _ \<Rightarrow> False)"

definition rule_tool :: "payload \<Rightarrow> string" where
  "rule_tool data = py_str (py_or (dget data ''tool_name'') (JStr []))"

definition claude_match :: "string \<Rightarrow> payload \<Rightarrow> string \<Rightarrow> payload \<Rightarrow> bool" where
  "claude_match kind data tool args =
    (if kind = ''exact'' then exact_match kind data tool args
     else if kind \<noteq> ''claude_permission_update'' then False
     else if rule_tool data \<noteq> tool then False
     else (case dget data ''rule_content'' of
         JNull \<Rightarrow> True
       | v \<Rightarrow> (if tool = ''Bash'' then match_bash args (py_str v)
              else if tool \<in> set file_glob_tools then match_file_glob args (py_str v)
              else False)))"

section \<open>Which arguments identify a call\<close>

text \<open>The parts of the arguments each subject keeps.\<close>

definition path_text :: "payload \<Rightarrow> string" where
  "path_text args = (case dget args ''file_path'' of
       JStr (c # s) \<Rightarrow> c # s
     | _ \<Rightarrow> (case dget args ''path'' of JStr (c # s) \<Rightarrow> c # s | _ \<Rightarrow> []))"

definition command_text :: "payload \<Rightarrow> string" where
  "command_text args = (case dget args ''command'' of
       JStr s \<Rightarrow> s
     | JList xs \<Rightarrow> join_with '' '' (map py_str xs)
     | _ \<Rightarrow> [])"

definition cwd_text :: "payload \<Rightarrow> string option" where
  "cwd_text args = (let v = dget args ''cwd'' in if truthy v then Some (py_str v) else None)"

definition reduce_args :: "string \<Rightarrow> string \<Rightarrow> payload \<Rightarrow> payload \<times> string" where
  "reduce_args subject tool args =
    (if subject = ''mcp_tool_call'' then
       (if tool = ''elicitation'' then (args, ''this elicitation'')
        else ([], ''any '' @ tool @ '' call''))
     else if subject = ''file_change'' then
       (let path = path_text args in
        if path \<noteq> [] then ([(''file_path'', JStr path)], tool @ '' on '' @ path)
        else ([], ''any '' @ tool @ '' call''))
     else if subject = ''shell_command'' then
       (let command = command_text args in
        ((''command'', JStr command) #
           (case cwd_text args of None \<Rightarrow> [] | Some d \<Rightarrow> [(''cwd'', JStr d)]),
         if command \<noteq> [] then ''Shell('' @ command @ '')'' else ''this exact '' @ tool @ '' call''))
     else (args, ''this exact '' @ tool @ '' call''))"

section \<open>The session's rules\<close>

record session_rule =
  su_rule_id :: string
  su_session_id :: session_id
  su_pending_id :: string
  su_subject :: string
  su_runtime_kind :: string
  su_display :: string
  su_rule_data :: payload
  su_created_at :: int

type_synonym rule_cache = "session_id \<Rightarrow> session_rule list"

definition put_rule :: "session_rule \<Rightarrow> rule_cache \<Rightarrow> rule_cache" where
  "put_rule r c = c(su_session_id r := c (su_session_id r) @ [r])"

definition clear_rules :: "session_id \<Rightarrow> rule_cache \<Rightarrow> rule_cache" where
  "clear_rules s c = c(s := [])"

type_synonym rule_matcher = "string \<Rightarrow> payload \<Rightarrow> string \<Rightarrow> payload \<Rightarrow> bool"

definition find_rule :: "rule_matcher \<Rightarrow> session_id \<Rightarrow> string \<Rightarrow> payload \<Rightarrow> rule_cache \<Rightarrow> session_rule option" where
  "find_rule matcher s tool args c =
     List.find (\<lambda>r. matcher (su_runtime_kind r) (su_rule_data r) tool args) (c s)"

section \<open>What a matcher promises\<close>

text \<open>
  The contract of \<open>RuntimeApprovalRuleMatcher\<close> as the cache relies on it: a rule covers only
  calls of the tool it names, and an exact rule covers the call it was derived from and
  those with the same canonical arguments.
\<close>

locale approval_matcher =
  fixes covers :: rule_matcher
  assumes names_tool: "covers kind data tool args \<Longrightarrow> rule_tool data = tool"
    and exact_rule: "covers ''exact'' (rd_rule_data (exact_derive t a)) tool args
       \<longleftrightarrow> t = tool \<and> canonicalize a = canonicalize args"
begin

lemma found_rule:
  assumes "find_rule covers s tool args c = Some r"
  shows "r \<in> set (c s) \<and> covers (su_runtime_kind r) (su_rule_data r) tool args \<and> rule_tool (su_rule_data r) = tool"
  using find_SomeD [OF assms [unfolded find_rule_def]] names_tool by blast

lemma cleared: "find_rule covers s tool args (clear_rules s c) = None"
  by (simp add: find_rule_def clear_rules_def)

lemma other_session:
  "su_session_id r \<noteq> s \<Longrightarrow> find_rule covers s tool args (put_rule r c) = find_rule covers s tool args c"
  by (simp add: find_rule_def put_rule_def)

lemma put_found:
  assumes "covers (su_runtime_kind r) (su_rule_data r) tool args"
  shows "find_rule covers (su_session_id r) tool args (put_rule r c) \<noteq> None"
  using assms by (auto simp: find_rule_def put_rule_def find_None_iff)

text \<open>The earliest rule wins, so a new rule changes nothing a stored one covers.\<close>

lemma earliest_wins:
  assumes "find_rule covers s tool args c = Some q"
  shows "find_rule covers s tool args (put_rule r c) = Some q"
proof -
  have "List.find P xs = Some y \<Longrightarrow> List.find P (xs @ zs) = Some y" for P and xs zs :: "session_rule list" and y
    by (induction xs) auto
  with assms show ?thesis by (auto simp: find_rule_def put_rule_def)
qed

end

lemma rule_tool_exact [simp]: "rule_tool (rd_rule_data (exact_derive t a)) = t"
  by (simp add: rule_tool_def exact_derive_def dget_def py_or_def)

lemma exact_match_derived:
  "exact_match ''exact'' (rd_rule_data (exact_derive t a)) tool args
     \<longleftrightarrow> t = tool \<and> canonicalize a = canonicalize args"
  by (auto simp: exact_match_def exact_derive_def dget_def)

lemma exact_match_tool: "exact_match kind data tool args \<Longrightarrow> rule_tool data = tool"
  by (auto simp: exact_match_def rule_tool_def py_or_def)

interpretation exact: approval_matcher exact_match
  by unfold_locales (auto simp: exact_match_derived dest: exact_match_tool)

interpretation claude: approval_matcher claude_match
  by unfold_locales
    (auto simp: claude_match_def exact_match_derived dest: exact_match_tool split: if_splits)

section \<open>The scope of a rule\<close>

lemma sort_flat:
  "sort_json (JDict [(''command'', JStr a)]) = JDict [(''command'', JStr a)]"
  "sort_json (JDict [(''command'', JStr a), (''cwd'', JStr b)]) = JDict [(''command'', JStr a), (''cwd'', JStr b)]"
  "sort_json (JDict [(''file_path'', JStr a)]) = JDict [(''file_path'', JStr a)]"
  "sort_json (JDict []) = JDict []"
proof -
  have "''command'' \<le> ''cwd''" by code_simp
  then show "sort_json (JDict [(''command'', JStr a), (''cwd'', JStr b)])
      = JDict [(''command'', JStr a), (''cwd'', JStr b)]" by simp
qed simp_all

lemma canonicalize_inj:
  assumes "float_free (JDict a)" and "float_free (JDict b)"
  shows "canonicalize a = canonicalize b \<longleftrightarrow> sort_json (JDict a) = sort_json (JDict b)"
  using json_dumps_inj [OF assms] by (simp add: canonicalize_def)

text \<open>What the reducer keeps, by subject.\<close>

definition same_scope :: "string \<Rightarrow> payload \<Rightarrow> payload \<Rightarrow> bool" where
  "same_scope subject a b =
    (if subject = ''mcp_tool_call'' then True
     else if subject = ''file_change'' then path_text a = path_text b
     else command_text a = command_text b \<and> cwd_text a = cwd_text b)"

lemma canonicalize_reduced:
  assumes "subject \<in> {''mcp_tool_call'', ''file_change'', ''shell_command''}" and "tool \<noteq> ''elicitation''"
  shows "canonicalize (fst (reduce_args subject tool a)) = canonicalize (fst (reduce_args subject tool b))
     \<longleftrightarrow> same_scope subject a b"
proof -
  have "float_free (JDict (fst (reduce_args subject tool x)))" for x
    using assms by (auto simp: reduce_args_def Let_def split: option.split)
  with assms show ?thesis
    by (auto simp: canonicalize_inj reduce_args_def same_scope_def Let_def sort_flat
        simp del: sort_json.simps split: option.splits if_splits)
qed

end
