(* ===== verification/ApprovalDesk.thy ===== *)
theory ApprovalDesk
  imports ApprovalRules
begin

text \<open>
  Asking the user.  A runtime that wants to run a tool records a \<open>requires_action\<close> event
  and waits on a future (\<^verbatim>\<open>_await_host_decisions_batch\<close> of
  \<^verbatim>\<open>runtimes/deepagents/runtime.py\<close>, \<^verbatim>\<open>_await_host_decision\<close> of
  \<^verbatim>\<open>runtimes/claude_agent/runtime.py\<close>, with their \<^verbatim>\<open>approval_bridge.py\<close>); the user's answer
  arrives at \<^verbatim>\<open>submit_action\<close> of \<^verbatim>\<open>core/orchestrator.py\<close>, which checks it against the log,
  resolves the future and records \<open>action_resolved\<close>; timeouts, interrupts and restarts
  (\<^verbatim>\<open>core/recovery.py\<close>) close what nobody answered.

  The desk is the state of one session these operations share.  A coroutine that awaits
  the store lets others act: they are functions from desks to desks.  Ids and the clock
  are arguments and state; log lines are not modelled.
\<close>

section \<open>State\<close>

datatype decision_future =
    FutOpen
  | FutDone string "string option" "payload option" "payload option"
  | FutCancelled

fun fut_done :: "decision_future \<Rightarrow> bool" where
  "fut_done FutOpen = False"
| "fut_done _ = True"

datatype provider = Claude | DeepAgents | Codex | DeepSeek

record approval_event =
  ae_user :: user_id
  ae_session :: session_id
  ae_message :: "string option"
  ae_type :: string
  ae_data :: payload
  ae_time :: int

record desk =
  dk_sessions :: "(user_id \<times> session_id) list"
  dk_log :: "approval_event list"
  dk_bus :: "approval_event list"
  dk_rules :: rule_cache
  dk_futures :: "(string \<times> decision_future) list"
  dk_runtime :: "provider option"
  dk_active :: "string option"
  dk_now :: int

type_synonym owner = "user_id \<times> session_id"

text \<open>An event of the session's runtime: stored and put on the bus, under the running message.\<close>

definition emit :: "owner \<Rightarrow> string \<Rightarrow> payload \<Rightarrow> desk \<Rightarrow> desk" where
  "emit own ty data d =
    (let e = \<lparr>ae_user = fst own, ae_session = snd own, ae_message = dk_active d, ae_type = ty,
              ae_data = data, ae_time = dk_now d\<rparr>
     in d\<lparr>dk_log := dk_log d @ [e], dk_bus := dk_bus d @ [e]\<rparr>)"

definition resolved_data :: "string \<Rightarrow> string \<Rightarrow> payload" where
  "resolved_data pid decision = [(''pending_id'', JStr pid), (''decision'', JStr decision),
     (''message'', JNull), (''resolved_by'', JStr ''system'')]"

definition emit_synthetic_resolved :: "owner \<Rightarrow> string \<Rightarrow> string \<Rightarrow> desk \<Rightarrow> desk" where
  "emit_synthetic_resolved own pid decision d = emit own ''action_resolved'' (resolved_data pid decision) d"

section \<open>Describing a request\<close>

definition deep_subject :: "string list \<Rightarrow> string \<Rightarrow> string" where
  "deep_subject mcp_tools tool =
    (if tool = ''execute'' then ''shell_command''
     else if tool \<in> {''write_file'', ''edit_file''} then ''file_change''
     else if tool \<in> set mcp_tools then ''mcp_tool_call''
     else ''tool_input'')"

definition claude_subject :: "string \<Rightarrow> string" where
  "claude_subject tool =
    (if tool \<in> {''Bash'', ''KillBash''} then ''shell_command''
     else if tool \<in> {''Edit'', ''MultiEdit'', ''Write'', ''NotebookEdit''} then ''file_change''
     else if tool = ''AskUserQuestion'' then ''clarifying_questions''
     else if tool = ''ExitPlanMode'' then ''exit_plan_mode''
     else if starts_with tool ''mcp__'' then ''mcp_tool_call''
     else ''tool_input'')"

definition chars :: "string \<Rightarrow> string" where
  "chars s = str_int (int (length s)) @ '' chars''"

definition replace_summary :: "payload \<Rightarrow> json" where
  "replace_summary args =
    (case (dget_or args ''old_string'' (JStr []), dget_or args ''new_string'' (JStr [])) of
       (JStr old, JStr new) \<Rightarrow> JStr (''Replace '' @ chars old @ '' with '' @ chars new)
     | _ \<Rightarrow> JNull)"

definition write_summary :: "payload \<Rightarrow> json" where
  "write_summary args = (case dget args ''content'' of JStr s \<Rightarrow> JStr (''Write '' @ chars s) | _ \<Rightarrow> JNull)"

definition deep_summary :: "string \<Rightarrow> payload \<Rightarrow> json" where
  "deep_summary tool args = (if tool = ''write_file'' then write_summary args
     else if tool = ''edit_file'' then replace_summary args else JNull)"

definition claude_summary :: "string \<Rightarrow> payload \<Rightarrow> json" where
  "claude_summary tool args = (if tool = ''Write'' then write_summary args
     else if tool = ''Edit'' then replace_summary args
     else if tool = ''MultiEdit'' then
       (case dget args ''edits'' of JList xs \<Rightarrow> JStr (str_int (int (length xs)) @ '' edits'') | _ \<Rightarrow> JNull)
     else JNull)"

definition deep_payload :: "string \<Rightarrow> string \<Rightarrow> string \<Rightarrow> payload \<Rightarrow> payload" where
  "deep_payload root subject tool args =
    (if subject = ''shell_command'' then
       [(''command'', JStr (py_str (dget_or args ''command'' (JStr [])))), (''cwd'', JStr root),
        (''reason'', JNull), (''original_input'', JDict args)]
     else if subject = ''file_change'' then
       [(''path'', JStr (py_str (dget_or args ''file_path'' (JStr [])))),
        (''change_kind'', JStr (if tool = ''write_file'' then ''create'' else ''edit'')),
        (''diff_summary'', deep_summary tool args), (''original_input'', JDict args)]
     else if subject = ''mcp_tool_call'' then
       [(''server'', JStr []), (''tool_name'', JStr tool), (''args'', JDict args),
        (''original_input'', JDict args)]
     else [(''tool_name'', JStr tool), (''input'', JDict args), (''original_input'', JDict args)])"

text \<open>\<open>tool_name.split("__", 2)\<close>.\<close>

fun cut_double :: "string \<Rightarrow> (string \<times> string) option" where
  "cut_double (a # b # s) = (if a = CHR ''_'' \<and> b = CHR ''_'' then Some ([], s)
     else map_option (\<lambda>(p, q). (a # p, q)) (cut_double (b # s)))"
| "cut_double s = None"

definition split_mcp :: "string \<Rightarrow> string list" where
  "split_mcp t = (case cut_double t of
       None \<Rightarrow> [t]
     | Some (a, r) \<Rightarrow> (case cut_double r of None \<Rightarrow> [a, r] | Some (b, c) \<Rightarrow> [a, b, c]))"

definition claude_payload :: "string \<Rightarrow> string \<Rightarrow> string \<Rightarrow> payload \<Rightarrow> payload" where
  "claude_payload root subject tool args =
    (if subject = ''shell_command'' then
       [(''command'', JStr (py_str (dget_or args ''command'' (JStr [])))), (''cwd'', JStr root),
        (''reason'', dget args ''description''), (''original_input'', JDict args)]
     else if subject = ''file_change'' then
       [(''path'', JStr (py_str (dget_or args ''file_path'' (JStr [])))),
        (''change_kind'', JStr (if tool = ''Write'' then ''create'' else ''edit'')),
        (''diff_summary'', claude_summary tool args), (''original_input'', JDict args)]
     else if subject = ''mcp_tool_call'' then
       (let parts = split_mcp tool in
        [(''server'', JStr (if 2 \<le> length parts then parts ! 1 else [])),
         (''tool_name'', JStr (if 3 \<le> length parts then parts ! 2 else last parts)),
         (''args'', JDict args), (''original_input'', JDict args)])
     else if subject = ''exit_plan_mode'' then
       [(''plan'', case dget args ''plan'' of JStr s \<Rightarrow> JStr s | _ \<Rightarrow> JStr [])]
     else if subject = ''clarifying_questions'' then
       [(''questions'', case dget args ''questions'' of JList qs \<Rightarrow> JList qs | _ \<Rightarrow> JList [])]
     else [(''tool_name'', JStr tool), (''input'', JDict args), (''original_input'', JDict args)])"

definition decisions_editable_with_session :: "string list" where
  "decisions_editable_with_session = [''approve'', ''approve_with_changes'', ''approve_for_session'', ''reject'']"

definition claude_decisions :: "string \<Rightarrow> string list" where
  "claude_decisions subject = (if subject = ''clarifying_questions'' then [''answer'', ''reject'']
     else if subject = ''exit_plan_mode'' then [''approve'', ''reject'']
     else decisions_editable_with_session)"

definition preview_dict :: "rule_derivation \<Rightarrow> string \<Rightarrow> json" where
  "preview_dict r display = JDict [(''kind'', JStr (rd_kind r)), (''runtime_kind'', JStr (rd_runtime_kind r)),
     (''display'', JStr display), (''rule_data'', JDict (rd_rule_data r))]"

definition auto_approved_data :: "string \<Rightarrow> string \<Rightarrow> payload" where
  "auto_approved_data pid rule = [(''pending_id'', JStr pid), (''decision'', JStr ''auto_approved''),
     (''auto_resolved_by_rule_id'', JStr rule), (''resolved_by'', JStr ''system'')]"

section \<open>DeepAgents: a batch of requests\<close>

record tool_request =
  tq_pending :: string
  tq_tool :: string
  tq_args :: payload

definition deep_request_data :: "string list \<Rightarrow> string \<Rightarrow> tool_request \<Rightarrow> payload" where
  "deep_request_data mcp_tools root q =
    (let tool = tq_tool q; args = tq_args q; subject = deep_subject mcp_tools tool;
         (reduced, label) = reduce_args subject tool args
     in [(''pending_id'', JStr (tq_pending q)), (''subject'', JStr subject),
         (''runtime_provider'', JStr ''deepagents''),
         (''available_decisions'', JList (map JStr decisions_editable_with_session)),
         (''payload'', JDict (deep_payload root subject tool args)),
         (''session_rule_preview'', preview_dict (exact_derive tool reduced) label)])"

text \<open>
  One request: record it, then either approve it at once by a stored rule (the future that
  joins the batch is resolved already and never enters the map) or park it.
\<close>

definition open_request :: "string list \<Rightarrow> string \<Rightarrow> owner \<Rightarrow> tool_request \<Rightarrow> desk
    \<Rightarrow> decision_future \<times> desk" where
  "open_request mcp_tools root own q d =
    (let tool = tq_tool q;
         reduced = fst (reduce_args (deep_subject mcp_tools tool) tool (tq_args q));
         hit = find_rule exact_match (snd own) tool reduced (dk_rules d);
         d1 = emit own ''requires_action'' (deep_request_data mcp_tools root q) d
     in case hit of
          Some rule \<Rightarrow> (FutDone ''approve'' None None None,
             emit own ''action_resolved'' (auto_approved_data (tq_pending q) (su_rule_id rule)) d1)
        | None \<Rightarrow> (FutOpen, d1\<lparr>dk_futures := dk_futures d1 @ [(tq_pending q, FutOpen)]\<rparr>))"

fun open_batch :: "string list \<Rightarrow> string \<Rightarrow> owner \<Rightarrow> tool_request list \<Rightarrow> desk
    \<Rightarrow> decision_future list \<times> desk" where
  "open_batch mcp_tools root own [] d = ([], d)"
| "open_batch mcp_tools root own (q # qs) d =
     (let (f, d1) = open_request mcp_tools root own q d;
          (fs, d2) = open_batch mcp_tools root own qs d1
      in (f # fs, d2))"

text \<open>The future of a request as it is now: a parked one is looked up in the map.\<close>

definition future_now :: "desk \<Rightarrow> tool_request \<times> decision_future \<Rightarrow> decision_future" where
  "future_now d qf = (case map_of (dk_futures d) (tq_pending (fst qf)) of
       Some f \<Rightarrow> f | None \<Rightarrow> snd qf)"

definition drop_futures :: "string list \<Rightarrow> desk \<Rightarrow> desk" where
  "drop_futures pids d = d\<lparr>dk_futures := filter (\<lambda>pf. fst pf \<notin> set pids) (dk_futures d)\<rparr>"

datatype hitl_decision =
    HitlApprove
  | HitlEdit string payload
  | HitlReject "string option"

definition to_hitl :: "string \<Rightarrow> decision_future \<Rightarrow> hitl_decision" where
  "to_hitl tool f = (case f of
       FutDone dec msg ans chg \<Rightarrow>
         (if dec = ''approve'' then HitlApprove
          else if dec = ''approve_with_changes'' then HitlEdit tool (case chg of None \<Rightarrow> [] | Some m \<Rightarrow> m)
          else HitlReject (case msg of Some (c # s) \<Rightarrow> msg | _ \<Rightarrow> None))
     | _ \<Rightarrow> HitlReject None)"

text \<open>Every future of the batch is resolved: translate and forget them.\<close>

definition collect_batch :: "(tool_request \<times> decision_future) list \<Rightarrow> desk \<Rightarrow> hitl_decision list \<times> desk" where
  "collect_batch batch d =
    (map (\<lambda>qf. to_hitl (tq_tool (fst qf)) (future_now d qf)) batch,
     drop_futures (map (tq_pending \<circ> fst) batch) d)"

text \<open>
  The timeout.  \<^verbatim>\<open>asyncio.wait_for\<close> cancels the \<^verbatim>\<open>gather\<close> it waited on, which cancels every
  future of the batch that is still open, before the \<^verbatim>\<open>except\<close> branch runs.
\<close>

definition cancel_open :: "string list \<Rightarrow> desk \<Rightarrow> desk" where
  "cancel_open pids d = d\<lparr>dk_futures := map (\<lambda>(p, f).
     (p, if p \<in> set pids \<and> \<not> fut_done f then FutCancelled else f)) (dk_futures d)\<rparr>"

fun expire_pendings :: "owner \<Rightarrow> string list \<Rightarrow> desk \<Rightarrow> desk" where
  "expire_pendings own [] d = d"
| "expire_pendings own (p # ps) d =
     (let d1 = (case map_of (dk_futures d) p of
           Some f \<Rightarrow> (if fut_done f then d else emit_synthetic_resolved own p ''expired'' d)
         | None \<Rightarrow> d)
      in expire_pendings own ps (drop_futures [p] d1))"

definition batch_timeout :: "owner \<Rightarrow> string list \<Rightarrow> desk \<Rightarrow> desk" where
  "batch_timeout own pids d = expire_pendings own pids (cancel_open pids d)"

section \<open>Claude: one request\<close>

definition claude_request :: "string \<Rightarrow> owner \<Rightarrow> payload \<Rightarrow> tool_request \<Rightarrow> desk \<Rightarrow> decision_future \<times> desk" where
  "claude_request root own extras q d =
    (let tool = tq_tool q; args = tq_args q; subject = claude_subject tool;
         base = [(''pending_id'', JStr (tq_pending q)), (''subject'', JStr subject),
            (''runtime_provider'', JStr ''claude_agent''),
            (''available_decisions'', JList (map JStr (claude_decisions subject))),
            (''payload'', JDict (claude_payload root subject tool args))];
         park = (\<lambda>d1. (FutOpen, d1\<lparr>dk_futures := dk_futures d1 @ [(tq_pending q, FutOpen)]\<rparr>))
     in if subject \<in> {''clarifying_questions'', ''exit_plan_mode''}
        then park (emit own ''requires_action'' base d)
        else
          (let (reduced, label) = reduce_args subject tool args;
               r = claude_derive tool reduced extras;
               display = (if rd_runtime_kind r = ''exact'' then label else rd_display r);
               hit = find_rule claude_match (snd own) tool reduced (dk_rules d);
               d1 = emit own ''requires_action'' (base @ [(''session_rule_preview'', preview_dict r display)]) d
           in case hit of
                Some rule \<Rightarrow> (FutDone ''approve'' None None None,
                   emit own ''action_resolved'' (auto_approved_data (tq_pending q) (su_rule_id rule)) d1)
              | None \<Rightarrow> park d1))"

text \<open>Claude waits on the future itself, so the timeout's branch always records it.\<close>

definition claude_timeout :: "owner \<Rightarrow> string \<Rightarrow> desk \<Rightarrow> desk" where
  "claude_timeout own pid d =
    drop_futures [pid] (emit_synthetic_resolved own pid ''expired'' (cancel_open [pid] d))"

datatype permission_result = PermAllow payload | PermDeny string

text \<open>The dash of the message is outside the model's characters and written \<open>-\<close>.\<close>

definition plan_feedback :: "string option \<Rightarrow> string" where
  "plan_feedback msg = (let f = strip (case msg of None \<Rightarrow> [] | Some m \<Rightarrow> m);
       detail = (if f = [] then [] else '' Their feedback: '' @ [CHR 0x22] @ f @ [CHR 0x22])
     in ''The user did NOT approve this plan. Plan mode is still active - do not execute anything '' @
        ''and do not claim approval. Revise the plan to address the user'' @ [CHR 0x27] @
        ''s feedback, then present the updated plan via ExitPlanMode again.'' @ detail)"

definition claude_answer :: "tool_request \<Rightarrow> decision_future \<Rightarrow> permission_result" where
  "claude_answer q f = (case f of
       FutDone dec msg ans chg \<Rightarrow>
         (if dec = ''answer'' then
            (case ans of
               None \<Rightarrow> PermDeny ''missing answers''
             | Some a \<Rightarrow> PermAllow [(''questions'', dget_or (tq_args q) ''questions'' (JList [])), (''answers'', JDict a)])
          else if dec = ''approve_with_changes'' then
            PermAllow (case chg of None \<Rightarrow> tq_args q | Some m \<Rightarrow> m)
          else if dec = ''approve'' then PermAllow (tq_args q)
          else if tq_tool q = ''ExitPlanMode'' then PermDeny (plan_feedback msg)
          else PermDeny (case msg of Some (c # s) \<Rightarrow> c # s | _ \<Rightarrow> ''User rejected.''))
     | _ \<Rightarrow> PermDeny ''approval timed out'')"

text \<open>The future is resolved (or a rule resolved it): answer the SDK and forget it.  What an
  approved plan changes in the session's mode is not modelled.\<close>

definition claude_collect :: "tool_request \<Rightarrow> decision_future \<Rightarrow> desk \<Rightarrow> permission_result \<times> desk" where
  "claude_collect q f d = (claude_answer q (future_now d (q, f)), drop_futures [tq_pending q] d)"

section \<open>Interrupting\<close>

fun interrupt_pendings :: "owner \<Rightarrow> (string \<times> decision_future) list \<Rightarrow> desk \<Rightarrow> desk" where
  "interrupt_pendings own [] d = d"
| "interrupt_pendings own ((p, f) # pfs) d =
     (if fut_done f then interrupt_pendings own pfs d
      else interrupt_pendings own pfs (emit_synthetic_resolved own p ''interrupted''
        (d\<lparr>dk_futures := map (\<lambda>(k, g). (k, if k = p
            then FutDone ''reject'' (Some ''session interrupted'') None None else g)) (dk_futures d)\<rparr>)))"

definition interrupt_runtime :: "owner \<Rightarrow> desk \<Rightarrow> desk" where
  "interrupt_runtime own d = (interrupt_pendings own (dk_futures d) d)\<lparr>dk_futures := []\<rparr>"

end
