(* ===== verification/ApprovalSubmit.thy ===== *)
theory ApprovalSubmit
  imports ApprovalDesk
begin

text \<open>
  The user's answer: \<^verbatim>\<open>SessionOrchestrator.submit_action\<close> and \<^verbatim>\<open>_derive_pending\<close> of
  \<^verbatim>\<open>core/orchestrator.py\<close>, the runtimes' \<^verbatim>\<open>submit_action\<close>, and the sealing of pendings
  that lost their process in \<^verbatim>\<open>core/recovery.py\<close>.
\<close>

section \<open>The pending, derived from the log\<close>

text \<open>\<^verbatim>\<open>get_events(types=\<dots>, limit=1000)\<close>: the oldest first, by time and then by insertion.\<close>

definition pending_limit :: nat where
  "pending_limit = 1000"

definition marker_events :: "owner \<Rightarrow> desk \<Rightarrow> approval_event list" where
  "marker_events own d = take pending_limit (sort_key ae_time
     (filter (\<lambda>e. ae_user e = fst own \<and> ae_session e = snd own
        \<and> ae_type e \<in> {''requires_action'', ''action_resolved''}) (dk_log d)))"

definition of_pending :: "string \<Rightarrow> string \<Rightarrow> approval_event \<Rightarrow> bool" where
  "of_pending pid ty e = (dget (ae_data e) ''pending_id'' = JStr pid \<and> ae_type e = ty)"

definition derive_pending :: "string \<Rightarrow> approval_event list \<Rightarrow> approval_event option \<times> approval_event option" where
  "derive_pending pid evs = (List.find (of_pending pid ''requires_action'') evs,
     List.find (of_pending pid ''action_resolved'') evs)"

section \<open>Recovery\<close>

definition is_open :: "string \<Rightarrow> approval_event list \<Rightarrow> bool" where
  "is_open pid evs = foldl (\<lambda>b e. if dget (ae_data e) ''pending_id'' \<noteq> JStr pid then b
     else if ae_type e = ''requires_action'' then True
     else if ae_type e = ''action_resolved'' then False else b) False evs"

text \<open>The message a pending's request was recorded under: the first in the log's order.\<close>

definition pending_message :: "owner \<Rightarrow> string \<Rightarrow> desk \<Rightarrow> string option" where
  "pending_message own pid d = (case List.find (\<lambda>e. ae_user e = fst own \<and> ae_session e = snd own
       \<and> ae_message e \<noteq> None \<and> of_pending pid ''requires_action'' e) (dk_log d) of
     None \<Rightarrow> None | Some e \<Rightarrow> ae_message e)"

definition expired_data :: "string \<Rightarrow> payload" where
  "expired_data pid = [(''pending_id'', JStr pid), (''decision'', JStr ''expired''),
     (''resolved_by'', JStr ''system'')]"

definition expired_event :: "owner \<Rightarrow> string \<Rightarrow> string \<Rightarrow> desk \<Rightarrow> approval_event" where
  "expired_event own pid m d = \<lparr>ae_user = fst own, ae_session = snd own, ae_message = Some m,
     ae_type = ''action_resolved'', ae_data = expired_data pid, ae_time = dk_now d\<rparr>"

definition seal_pending :: "owner \<Rightarrow> string \<Rightarrow> desk \<Rightarrow> approval_event option \<times> desk" where
  "seal_pending own pid d =
    (if \<not> is_open pid (marker_events own d) then (None, d)
     else (case pending_message own pid d of
        None \<Rightarrow> (None, d)
      | Some m \<Rightarrow> (Some (expired_event own pid m d),
           d\<lparr>dk_log := dk_log d @ [expired_event own pid m d]\<rparr>)))"

definition pending_ids :: "approval_event list \<Rightarrow> string list" where
  "pending_ids evs = remdups (concat (map (\<lambda>e. case dget (ae_data e) ''pending_id'' of
     JStr p \<Rightarrow> [p] | _ \<Rightarrow> []) evs))"

definition open_pendings :: "approval_event list \<Rightarrow> string list" where
  "open_pendings evs = filter (\<lambda>p. is_open p evs) (pending_ids evs)"

text \<open>The number sealed.\<close>

definition seal_session_pendings :: "owner \<Rightarrow> desk \<Rightarrow> nat \<times> desk" where
  "seal_session_pendings own d =
    (let found = concat (map (\<lambda>p. case pending_message own p d of None \<Rightarrow> [] | Some m \<Rightarrow> [(p, m)])
                   (open_pendings (marker_events own d)))
     in (length found, d\<lparr>dk_log := dk_log d @ map (\<lambda>(p, m). expired_event own p m d) found\<rparr>))"

section \<open>The runtime's end\<close>

text \<open>\<open>False\<close> is \<open>NotImplementedError\<close>.\<close>

definition accepts_decision :: "provider \<Rightarrow> string \<Rightarrow> bool" where
  "accepts_decision p decision = (case p of
       Claude \<Rightarrow> True
     | DeepAgents \<Rightarrow> decision \<noteq> ''answer''
     | _ \<Rightarrow> decision \<noteq> ''approve_with_changes'')"

definition resolve_future :: "string \<Rightarrow> decision_future \<Rightarrow> desk \<Rightarrow> desk" where
  "resolve_future pid f d = d\<lparr>dk_futures := map (\<lambda>(p, g).
     (p, if p = pid \<and> \<not> fut_done g then f else g)) (dk_futures d)\<rparr>"

section \<open>Submitting a decision\<close>

datatype submit_error =
    SessionNotFound
  | PendingNotFound
  | DecisionMismatch string
  | PendingExpired string
  | PendingConflict string
  | RuntimeUnavailable
  | ApprovalNotImplemented

record submit_result =
  sb_decision :: string
  sb_accepted_at :: int
  sb_idempotent :: bool
  sb_rule_id :: "string option"

record submission =
  sm_pending :: string
  sm_decision :: string
  sm_text :: "string option"
  sm_answers :: "payload option"
  sm_modified :: "payload option"

definition pending_subject :: "approval_event \<Rightarrow> string" where
  "pending_subject p = py_str (dget_or (ae_data p) ''subject'' (JStr []))"

definition advertises :: "approval_event \<Rightarrow> string \<Rightarrow> bool" where
  "advertises p decision = (case dget (ae_data p) ''available_decisions'' of
     JList xs \<Rightarrow> JStr decision \<in> set xs | _ \<Rightarrow> False)"

definition has_preview :: "approval_event \<Rightarrow> bool" where
  "has_preview p = (case dget (ae_data p) ''session_rule_preview'' of JDict _ \<Rightarrow> True | _ \<Rightarrow> False)"

text \<open>The checks of the decision against the pending's shape.\<close>

definition decision_fits :: "approval_event \<Rightarrow> string \<Rightarrow> bool" where
  "decision_fits p decision =
    ((if pending_subject p = ''clarifying_questions'' then decision \<in> {''answer'', ''reject''}
      else decision \<noteq> ''answer'')
     \<and> (decision = ''approve_with_changes'' \<longrightarrow> advertises p ''approve_with_changes'')
     \<and> (decision = ''approve_for_session'' \<longrightarrow> advertises p ''approve_for_session'' \<and> has_preview p))"

definition resolved_decision :: "approval_event \<Rightarrow> string" where
  "resolved_decision r = py_str (dget_or (ae_data r) ''decision'' (JStr []))"

definition rule_of_preview :: "string \<Rightarrow> owner \<Rightarrow> approval_event \<Rightarrow> string \<Rightarrow> int \<Rightarrow> session_rule" where
  "rule_of_preview rule_id own p pid now =
    (let v = (case dget (ae_data p) ''session_rule_preview'' of JDict kvs \<Rightarrow> kvs | _ \<Rightarrow> []) in
     \<lparr>su_rule_id = rule_id, su_session_id = snd own, su_pending_id = pid,
      su_subject = pending_subject p,
      su_runtime_kind = py_str (dget_or v ''runtime_kind'' (JStr ''exact'')),
      su_display = py_str (dget_or v ''display'' (JStr [])),
      su_rule_data = (case dget v ''rule_data'' of JDict kvs \<Rightarrow> kvs | _ \<Rightarrow> []),
      su_created_at = now\<rparr>)"

definition runtime_decision :: "string \<Rightarrow> string" where
  "runtime_decision decision = (if decision = ''approve_for_session'' then ''approve'' else decision)"

definition submitted_data :: "submission \<Rightarrow> string option \<Rightarrow> payload" where
  "submitted_data s rule =
     [(''pending_id'', JStr (sm_pending s)), (''decision'', JStr (sm_decision s)),
      (''message'', case sm_text s of None \<Rightarrow> JNull | Some m \<Rightarrow> JStr m),
      (''resolved_by'', JStr ''user'')]
     @ (case (sm_decision s = ''answer'', sm_answers s) of (True, Some a) \<Rightarrow> [(''answers'', JDict a)] | _ \<Rightarrow> [])
     @ (case (sm_decision s = ''approve_with_changes'', sm_modified s) of
          (True, Some m) \<Rightarrow> [(''modified_input'', JDict m)] | _ \<Rightarrow> [])
     @ (case rule of None \<Rightarrow> [] | Some r \<Rightarrow> [(''rule_id'', JStr r)])"

text \<open>The pending is already sealed.\<close>

definition answer_resolved :: "submission \<Rightarrow> approval_event \<Rightarrow> submit_error + submit_result" where
  "answer_resolved s r =
    (let previous = resolved_decision r in
     if previous \<in> {''expired'', ''interrupted''} then Inl (PendingExpired previous)
     else if previous = sm_decision s then
       Inr \<lparr>sb_decision = sm_decision s, sb_accepted_at = ae_time r, sb_idempotent = True,
            sb_rule_id = (case dget (ae_data r) ''rule_id'' of JStr x \<Rightarrow> Some x | _ \<Rightarrow> None)\<rparr>
     else Inl (PendingConflict previous))"

text \<open>No runtime waits: seal the pending if it is still open.\<close>

definition no_runtime :: "owner \<Rightarrow> submission \<Rightarrow> desk \<Rightarrow> (submit_error + submit_result) \<times> desk" where
  "no_runtime own s d = (case seal_pending own (sm_pending s) d of
       (Some e, d1) \<Rightarrow> (Inl (PendingExpired ''expired''), d1\<lparr>dk_bus := dk_bus d1 @ [e]\<rparr>)
     | (None, d1) \<Rightarrow> (Inl RuntimeUnavailable, d1))"

text \<open>The runtime is handed the decision; \<open>before_append\<close> is what others do while the
  resolution is being written.\<close>

definition forward_decision :: "string \<Rightarrow> (desk \<Rightarrow> desk) \<Rightarrow> owner \<Rightarrow> submission \<Rightarrow> approval_event
    \<Rightarrow> provider \<Rightarrow> string \<Rightarrow> desk \<Rightarrow> (submit_error + submit_result) \<times> desk" where
  "forward_decision rule_id before_append own s p runtime message d =
    (let session = (sm_decision s = ''approve_for_session'');
         rule = rule_of_preview rule_id own p (sm_pending s) (dk_now d);
         d1 = (if session then d\<lparr>dk_rules := put_rule rule (dk_rules d)\<rparr> else d);
         decision = runtime_decision (sm_decision s)
     in if \<not> accepts_decision runtime decision then (Inl ApprovalNotImplemented, d1)
        else
          (let d2 = resolve_future (sm_pending s)
                 (FutDone decision (sm_text s) (sm_answers s) (sm_modified s)) d1;
               e = \<lparr>ae_user = fst own, ae_session = snd own, ae_message = Some message,
                    ae_type = ''action_resolved'',
                    ae_data = submitted_data s (if session then Some rule_id else None),
                    ae_time = dk_now d2\<rparr>;
               d3 = before_append d2
           in (Inr \<lparr>sb_decision = sm_decision s, sb_accepted_at = ae_time e, sb_idempotent = False,
                    sb_rule_id = (if session then Some rule_id else None)\<rparr>,
               d3\<lparr>dk_log := dk_log d3 @ [e], dk_bus := dk_bus d3 @ [e]\<rparr>)))"

text \<open>\<open>after_read\<close> is what others do between the read of the log and the decision.\<close>

definition submit_action :: "string \<Rightarrow> (desk \<Rightarrow> desk) \<Rightarrow> (desk \<Rightarrow> desk) \<Rightarrow> owner \<Rightarrow> submission \<Rightarrow> desk
    \<Rightarrow> (submit_error + submit_result) \<times> desk" where
  "submit_action rule_id after_read before_append own s d =
    (if own \<notin> set (dk_sessions d) then (Inl SessionNotFound, d)
     else (case derive_pending (sm_pending s) (marker_events own d) of
        (None, _) \<Rightarrow> (Inl PendingNotFound, after_read d)
      | (Some p, resolved) \<Rightarrow>
          (let d1 = after_read d in
           if \<not> decision_fits p (sm_decision s) then (Inl (DecisionMismatch (pending_subject p)), d1)
           else (case resolved of
              Some r \<Rightarrow> (answer_resolved s r, d1)
            | None \<Rightarrow>
                (case (dk_runtime d1, dk_active d1) of
                   (Some runtime, Some message) \<Rightarrow>
                     forward_decision rule_id before_append own s p runtime message d1
                 | _ \<Rightarrow> no_runtime own s d1)))))"

end
