(* ===== verification/ApprovalFacts.thy ===== *)
theory ApprovalFacts
  imports ApprovalSubmit
begin

text \<open>
  What the approval desk guarantees: the log decides, the first resolution stands, rules
  approve only what they cover, and where timeouts and races leave a pending.
\<close>

section \<open>The log as others extend it\<close>

definition session_markers :: "owner \<Rightarrow> approval_event list \<Rightarrow> approval_event list" where
  "session_markers own log = filter (\<lambda>e. ae_user e = fst own \<and> ae_session e = snd own
     \<and> ae_type e \<in> {''requires_action'', ''action_resolved''}) log"

lemma marker_events_eq:
  "marker_events own d = take pending_limit (sort_key ae_time (session_markers own (dk_log d)))"
  by (simp add: marker_events_def session_markers_def)

text \<open>Others only append, and with a clock that does not run backwards.\<close>

definition log_extends :: "desk \<Rightarrow> desk \<Rightarrow> bool" where
  "log_extends d d' = (\<exists>new. dk_log d' = dk_log d @ new
     \<and> (\<forall>e \<in> set (dk_log d). \<forall>n \<in> set new. ae_time e \<le> ae_time n))"

definition in_window :: "owner \<Rightarrow> desk \<Rightarrow> bool" where
  "in_window own d = (length (session_markers own (dk_log d)) \<le> pending_limit)"

lemma insort_key_append_le:
  "\<forall>y \<in> set bs. f x \<le> f y \<Longrightarrow> insort_key f x (as @ bs) = insort_key f x as @ bs"
  by (induction as) (cases bs; auto)+

lemma sort_key_append_le:
  "\<forall>x \<in> set xs. \<forall>y \<in> set ys. f x \<le> f y \<Longrightarrow> sort_key f (xs @ ys) = sort_key f xs @ sort_key f ys"
  by (induction xs) (auto simp: insort_key_append_le)

lemma marker_events_extend:
  assumes "log_extends d d'" and "in_window own d"
  shows "\<exists>new. marker_events own d' = marker_events own d @ new"
proof -
  from assms(1) obtain new where new: "dk_log d' = dk_log d @ new"
    and le: "\<forall>e \<in> set (dk_log d). \<forall>n \<in> set new. ae_time e \<le> ae_time n"
    by (auto simp: log_extends_def)
  have "sort_key ae_time (session_markers own (dk_log d'))
      = sort_key ae_time (session_markers own (dk_log d)) @ sort_key ae_time (session_markers own new)"
    using le unfolding new session_markers_def filter_append by (intro sort_key_append_le) auto
  then show ?thesis
    using assms(2) by (simp add: marker_events_eq in_window_def)
qed

text \<open>What the log said about a pending it still says.\<close>

lemma derived_stays:
  assumes "log_extends d d'" and "in_window own d" and "List.find (of_pending pid ty) (marker_events own d) = Some e"
  shows "List.find (of_pending pid ty) (marker_events own d') = Some e"
  using marker_events_extend [OF assms(1,2)] assms(3) by (auto simp: find_append)

section \<open>What an answer does\<close>

lemma submit_accepted:
  assumes "submit_action rid ar ba own s d = (Inr res, d')" and "\<not> sb_idempotent res"
  obtains p runtime message where "own \<in> set (dk_sessions d)"
    and "List.find (of_pending (sm_pending s) ''requires_action'') (marker_events own d) = Some p"
    and "List.find (of_pending (sm_pending s) ''action_resolved'') (marker_events own d) = None"
    and "decision_fits p (sm_decision s)"
    and "dk_runtime (ar d) = Some runtime" and "dk_active (ar d) = Some message"
    and "forward_decision rid ba own s p runtime message (ar d) = (Inr res, d')"
  using assms
  by (fastforce simp: submit_action_def derive_pending_def Let_def answer_resolved_def no_runtime_def
      split: if_splits option.splits prod.splits)

text \<open>The event an accepted answer leaves in the log.\<close>

definition answer_event :: "owner \<Rightarrow> submission \<Rightarrow> submit_result \<Rightarrow> string \<Rightarrow> approval_event" where
  "answer_event own s res message = \<lparr>ae_user = fst own, ae_session = snd own, ae_message = Some message,
     ae_type = ''action_resolved'', ae_data = submitted_data s (sb_rule_id res), ae_time = sb_accepted_at res\<rparr>"

lemma forward_accepted:
  assumes "forward_decision rid ba own s p runtime message d = (Inr res, d')"
  shows "sb_decision res = sm_decision s" and "\<not> sb_idempotent res" and "sb_accepted_at res = dk_now d"
    and "sb_rule_id res = (if sm_decision s = ''approve_for_session'' then Some rid else None)"
    and "\<exists>u. u = ba (resolve_future (sm_pending s)
             (FutDone (runtime_decision (sm_decision s)) (sm_text s) (sm_answers s) (sm_modified s))
             (if sm_decision s = ''approve_for_session''
              then d\<lparr>dk_rules := put_rule (rule_of_preview rid own p (sm_pending s) (dk_now d)) (dk_rules d)\<rparr> else d))
         \<and> d' = u\<lparr>dk_log := dk_log u @ [answer_event own s res message],
                 dk_bus := dk_bus u @ [answer_event own s res message]\<rparr>"
  using assms by (auto simp: forward_decision_def Let_def answer_event_def resolve_future_def split: if_splits)

lemma submitted_data_fields [simp]:
  "dget (submitted_data s rule) ''pending_id'' = JStr (sm_pending s)"
  "dget_or (submitted_data s rule) ''decision'' v = JStr (sm_decision s)"
  by (simp_all add: submitted_data_def dget_def dget_or_def)

lemma submitted_data_rule: "dget (submitted_data s rule) ''rule_id'' = (case rule of None \<Rightarrow> JNull | Some r \<Rightarrow> JStr r)"
  by (auto simp: submitted_data_def dget_def split: option.split bool.split)

lemma answer_event_resolves: "of_pending (sm_pending s) ''action_resolved'' (answer_event own s res m)"
  by (simp add: of_pending_def answer_event_def)

lemma answer_event_decision [simp]: "resolved_decision (answer_event own s res m) = sm_decision s"
  by (simp add: resolved_decision_def answer_event_def)

text \<open>A pending the log has sealed gets its answer from the log, and nothing is changed.\<close>

lemma submit_sealed:
  assumes "own \<in> set (dk_sessions d)"
    and "List.find (of_pending (sm_pending s) ''requires_action'') (marker_events own d) = Some p"
    and "List.find (of_pending (sm_pending s) ''action_resolved'') (marker_events own d) = Some r"
  shows "submit_action rid ar ba own s d =
    (if decision_fits p (sm_decision s) then answer_resolved s r else Inl (DecisionMismatch (pending_subject p)), ar d)"
  using assms by (simp add: submit_action_def derive_pending_def Let_def)

section \<open>Requests\<close>

lemma emit_log [simp]:
  "dk_log (emit own ty data d) = dk_log d @ [\<lparr>ae_user = fst own, ae_session = snd own, ae_message = dk_active d,
     ae_type = ty, ae_data = data, ae_time = dk_now d\<rparr>]"
  "dk_rules (emit own ty data d) = dk_rules d"
  "dk_futures (emit own ty data d) = dk_futures d"
  "dk_runtime (emit own ty data d) = dk_runtime d"
  "dk_active (emit own ty data d) = dk_active d"
  "dk_sessions (emit own ty data d) = dk_sessions d"
  "dk_now (emit own ty data d) = dk_now d"
  by (simp_all add: emit_def Let_def)

text \<open>A request is settled without the user only by a rule of its session that names its tool
  and covers its arguments.\<close>

lemma open_request_cases:
  assumes "open_request mcp root own q d = (f, d')"
  shows "(f = FutOpen \<and> map_of (dk_futures d') (tq_pending q) \<noteq> None
          \<and> find_rule exact_match (snd own) (tq_tool q)
              (fst (reduce_args (deep_subject mcp (tq_tool q)) (tq_tool q) (tq_args q))) (dk_rules d) = None)
       \<or> (f = FutDone ''approve'' None None None \<and> dk_futures d' = dk_futures d
          \<and> (\<exists>rule \<in> set (dk_rules d (snd own)). rule_tool (su_rule_data rule) = tq_tool q
              \<and> exact_match (su_runtime_kind rule) (su_rule_data rule) (tq_tool q)
                  (fst (reduce_args (deep_subject mcp (tq_tool q)) (tq_tool q) (tq_args q)))))"
proof (cases "find_rule exact_match (snd own) (tq_tool q)
    (fst (reduce_args (deep_subject mcp (tq_tool q)) (tq_tool q) (tq_args q))) (dk_rules d)")
  case None
  with assms show ?thesis by (auto simp: open_request_def Let_def map_add_def split: option.split)
next
  case (Some rule)
  with assms exact.found_rule [OF Some] show ?thesis by (auto simp: open_request_def Let_def)
qed

section \<open>Timeouts\<close>

lemma map_of_cancel:
  "map_of (map (\<lambda>(p, f). (p, if p \<in> A \<and> \<not> fut_done f then FutCancelled else f)) xs) k
     = map_option (\<lambda>f. if k \<in> A \<and> \<not> fut_done f then FutCancelled else f) (map_of xs k)"
  by (induction xs) auto

lemma cancel_open_done:
  "map_of (dk_futures (cancel_open pids d)) p = Some f \<Longrightarrow> p \<in> set pids \<Longrightarrow> fut_done f"
  by (auto simp: cancel_open_def map_of_cancel split: if_splits)

lemma drop_futures_other [simp]:
  "dk_log (drop_futures pids d) = dk_log d" "dk_bus (drop_futures pids d) = dk_bus d"
  "dk_active (drop_futures pids d) = dk_active d" "dk_runtime (drop_futures pids d) = dk_runtime d"
  "dk_sessions (drop_futures pids d) = dk_sessions d" "dk_rules (drop_futures pids d) = dk_rules d"
  "dk_now (drop_futures pids d) = dk_now d"
  by (simp_all add: drop_futures_def)

lemma map_of_drop: "map_of (dk_futures (drop_futures [q] d)) p = (if p = q then None else map_of (dk_futures d) p)"
proof -
  have "map_of (filter (\<lambda>pf. fst pf \<noteq> q) xs) p = (if p = q then None else map_of xs p)" for xs :: "(string \<times> decision_future) list"
    by (induction xs) auto
  then show ?thesis by (simp add: drop_futures_def)
qed

lemma expire_done_pendings:
  assumes "\<And>p f. p \<in> set pids \<Longrightarrow> map_of (dk_futures d) p = Some f \<Longrightarrow> fut_done f"
  shows "dk_log (expire_pendings own pids d) = dk_log d \<and> dk_active (expire_pendings own pids d) = dk_active d
    \<and> dk_runtime (expire_pendings own pids d) = dk_runtime d \<and> dk_sessions (expire_pendings own pids d) = dk_sessions d
    \<and> dk_rules (expire_pendings own pids d) = dk_rules d \<and> dk_now (expire_pendings own pids d) = dk_now d"
  using assms
proof (induction pids arbitrary: d)
  case Nil
  show ?case by simp
next
  case (Cons p pids)
  let ?d = "case map_of (dk_futures d) p of
      Some f \<Rightarrow> (if fut_done f then d else emit_synthetic_resolved own p ''expired'' d) | None \<Rightarrow> d"
  have same: "?d = d" using Cons.prems by (auto split: option.split)
  have "fut_done f" if "q \<in> set pids" "map_of (dk_futures (drop_futures [p] d)) q = Some f" for q f
    using Cons.prems [of q f] that by (auto simp: map_of_drop split: if_splits)
  from Cons.IH [OF this] same show ?case by (simp add: Let_def)
qed

lemma batch_timeout_keeps:
  "dk_log (batch_timeout own pids d) = dk_log d" "dk_active (batch_timeout own pids d) = dk_active d"
  "dk_runtime (batch_timeout own pids d) = dk_runtime d" "dk_sessions (batch_timeout own pids d) = dk_sessions d"
  "dk_rules (batch_timeout own pids d) = dk_rules d" "dk_now (batch_timeout own pids d) = dk_now d"
proof -
  have "fut_done f" if "p \<in> set pids" "map_of (dk_futures (cancel_open pids d)) p = Some f" for p f
    using cancel_open_done [OF that(2,1)] .
  from expire_done_pendings [of pids "cancel_open pids d" own, OF this]
  show "dk_log (batch_timeout own pids d) = dk_log d" "dk_active (batch_timeout own pids d) = dk_active d"
    "dk_runtime (batch_timeout own pids d) = dk_runtime d" "dk_sessions (batch_timeout own pids d) = dk_sessions d"
    "dk_rules (batch_timeout own pids d) = dk_rules d" "dk_now (batch_timeout own pids d) = dk_now d"
    by (simp_all add: batch_timeout_def cancel_open_def)
qed

end
