(* ===== verification/ApprovalProperties.thy ===== *)
theory ApprovalProperties
  imports ApprovalFacts
begin

text \<open>
  The promises of the approval desk, with sample sessions that show each can be met, and
  the cases in which a pending or a rule outlives what the documentation says.
\<close>

section \<open>Answers\<close>

definition decisions :: "string list" where
  "decisions = [''approve'', ''approve_with_changes'', ''approve_for_session'', ''reject'', ''answer'']"

lemma find_only:
  assumes "length (filter P xs) = 1" "e \<in> set xs" "P e"
  shows "List.find P xs = Some e"
proof -
  obtain y where "filter P xs = [y]" using assms(1) by (auto simp: length_Suc_conv)
  moreover have "e \<in> set (filter P xs)" using assms(2,3) by simp
  ultimately have "filter P xs = [e]" by simp
  then show ?thesis by (induction xs) (auto split: if_splits)
qed

lemma filter_sort_length: "length (filter P (sort_key f xs)) = length (filter P xs)"
proof (induction xs)
  case (Cons x xs)
  have "length (filter P (insort_key f x ys)) = length (filter P (x # ys))" for ys
    by (induction ys) auto
  with Cons show ?case by simp
qed simp

text \<open>The only resolution of a pending in a log that fits the window is the one that is found.\<close>

lemma only_resolution_found:
  assumes "e \<in> set (session_markers own (dk_log d))" "of_pending pid ty e"
    and "length (filter (of_pending pid ty) (session_markers own (dk_log d))) = 1"
    and "in_window own d"
  shows "List.find (of_pending pid ty) (marker_events own d) = Some e"
proof -
  have "marker_events own d = sort_key ae_time (session_markers own (dk_log d))"
    using assms(4) by (simp add: marker_events_eq in_window_def)
  with assms(1-3) show ?thesis by (intro find_only) (simp_all add: filter_sort_length)
qed

lemma forward_log:
  assumes "forward_decision rid ba own s p runtime message d = (Inr res, d1)" "\<forall>x. log_extends x (ba x)"
  obtains nb where "dk_log d1 = dk_log d @ nb @ [answer_event own s res message]"
    and "\<forall>x \<in> set (dk_log d). \<forall>n \<in> set nb. ae_time x \<le> ae_time n"
proof -
  let ?x = "resolve_future (sm_pending s)
      (FutDone (runtime_decision (sm_decision s)) (sm_text s) (sm_answers s) (sm_modified s))
      (if sm_decision s = ''approve_for_session''
       then d\<lparr>dk_rules := put_rule (rule_of_preview rid own p (sm_pending s) (dk_now d)) (dk_rules d)\<rparr> else d)"
  have same: "dk_log ?x = dk_log d" by (simp add: resolve_future_def)
  have "log_extends ?x (ba ?x)" using assms(2) by blast
  with forward_accepted(5) [OF assms(1)] same show thesis
    by (auto simp: log_extends_def intro: that)
qed

lemma in_window_mono:
  assumes "log_extends d d'" "in_window own d'"
  shows "in_window own d"
  using assms by (auto simp: log_extends_def in_window_def session_markers_def)

text \<open>Property C28: an accepted answer is final, once it is the only resolution on record.  The submission may
  race with anything that only adds to the log, in a session whose requests and resolutions
  fit the window of \<open>pending_limit\<close>; when the log then holds no other resolution of the
  pending (a timeout that wins the race does leave one), then whatever is recorded later,
  the same answer again is given back as it was first given and any other is refused, and
  neither touches the rules, the futures or the log.\<close>
theorem settled_answer_stands:
  assumes "submit_action rid ar ba own s d = (Inr res, d1)" and "\<not> sb_idempotent res"
    and "sm_decision s \<in> set decisions"
    and "log_extends d (ar d)" and "\<forall>x. log_extends x (ba x)"
    and "\<forall>e \<in> set (dk_log (ar d)). ae_time e \<le> dk_now (ar d)"
    and "length (filter (of_pending (sm_pending s) ''action_resolved'') (session_markers own (dk_log d1))) = 1"
    and "length (session_markers own (dk_log d1)) \<le> pending_limit"
    and "log_extends d1 d2" and "own \<in> set (dk_sessions d2)" and "sm_pending t = sm_pending s"
  shows "submit_action rid' ar' ba' own t d2 =
    (let p = the (List.find (of_pending (sm_pending s) ''requires_action'') (marker_events own d)) in
     if \<not> decision_fits p (sm_decision t) then Inl (DecisionMismatch (pending_subject p))
     else if sm_decision t = sm_decision s then Inr (res\<lparr>sb_idempotent := True\<rparr>)
     else Inl (PendingConflict (sm_decision s)), ar' d2)"
proof -
  let ?pid = "sm_pending s"
  obtain p runtime message where p: "List.find (of_pending ?pid ''requires_action'') (marker_events own d) = Some p"
    and fits: "decision_fits p (sm_decision s)"
    and fwd: "forward_decision rid ba own s p runtime message (ar d) = (Inr res, d1)"
    by (rule submit_accepted [OF assms(1,2)]) auto
  let ?e = "answer_event own s res message"
  obtain nb where log: "dk_log d1 = dk_log (ar d) @ nb @ [?e]"
    and nb: "\<forall>x \<in> set (dk_log (ar d)). \<forall>n \<in> set nb. ae_time x \<le> ae_time n"
    by (rule forward_log [OF fwd assms(5)])
  have late: "\<forall>x \<in> set (dk_log (ar d)). ae_time x \<le> ae_time ?e"
    using assms(6) forward_accepted(3) [OF fwd] by (simp add: answer_event_def)
  have ext: "log_extends (ar d) d1" using log nb late by (auto simp: log_extends_def)
  have win1: "in_window own d1" using assms(8) by (simp add: in_window_def)
  have win0: "in_window own (ar d)" by (rule in_window_mono [OF ext win1])
  have win: "in_window own d" by (rule in_window_mono [OF assms(4) win0])
  have sealed: "List.find (of_pending ?pid ''action_resolved'') (marker_events own d1) = Some ?e"
    by (rule only_resolution_found [OF _ answer_event_resolves assms(7) win1])
      (simp add: log session_markers_def answer_event_def)
  have p2: "List.find (of_pending ?pid ''requires_action'') (marker_events own d2) = Some p"
    by (rule derived_stays [OF assms(9) win1 derived_stays [OF ext win0 derived_stays [OF assms(4) win p]]])
  have e2: "List.find (of_pending ?pid ''action_resolved'') (marker_events own d2) = Some ?e"
    by (rule derived_stays [OF assms(9) win1 sealed])
  have found: "submit_action rid' ar' ba' own t d2 = (if decision_fits p (sm_decision t) then answer_resolved t ?e
      else Inl (DecisionMismatch (pending_subject p)), ar' d2)"
    by (rule submit_sealed [OF assms(10)]) (simp_all add: assms(11) p2 e2)
  have "answer_resolved t ?e = (if sm_decision t = sm_decision s then Inr (res\<lparr>sb_idempotent := True\<rparr>)
      else Inl (PendingConflict (sm_decision s)))"
    using assms(3) forward_accepted(1,2,4) [OF fwd]
    by (auto simp: answer_resolved_def Let_def decisions_def answer_event_def submitted_data_rule resolved_decision_def
        split: option.split intro!: submit_result.equality)
  with found p show ?thesis by simp
qed

section \<open>Rules\<close>

text \<open>"always for this session" approves later calls of the same tool in the same
  scope and no others: the same command line and directory for a shell command, the same
  path for a file, any arguments for a tool of an MCP server.\<close>
theorem session_rule_scope:
  assumes "ae_data p = deep_request_data mcp root q"
    and "deep_subject mcp (tq_tool q) \<in> {''mcp_tool_call'', ''file_change'', ''shell_command''}"
    and "tq_tool q \<noteq> ''elicitation''"
    and "dk_rules d = put_rule (rule_of_preview rid own p pid now) (clear_rules (snd own) rules)"
  shows "fut_done (fst (open_request mcp root own q' d)) \<longleftrightarrow> tq_tool q' = tq_tool q
    \<and> same_scope (deep_subject mcp (tq_tool q)) (tq_args q) (tq_args q')"
proof -
  let ?red = "\<lambda>x. fst (reduce_args (deep_subject mcp (tq_tool x)) (tq_tool x) (tq_args x))"
  let ?rule = "rule_of_preview rid own p pid now"
  have rule: "su_runtime_kind ?rule = ''exact''" "su_session_id ?rule = snd own"
    "su_rule_data ?rule = rd_rule_data (exact_derive (tq_tool q) (?red q))"
    using assms(1) by (simp_all add: rule_of_preview_def deep_request_data_def Let_def preview_dict_def dget_def
        dget_or_def exact_derive_def split: prod.split)
  have "fut_done (fst (open_request mcp root own q' d))
      \<longleftrightarrow> find_rule exact_match (snd own) (tq_tool q') (?red q') (dk_rules d) \<noteq> None"
    by (auto simp: open_request_def Let_def split: option.split)
  also have "\<dots> \<longleftrightarrow> exact_match ''exact'' (rd_rule_data (exact_derive (tq_tool q) (?red q))) (tq_tool q') (?red q')"
    using rule by (simp add: find_rule_def assms(4) put_rule_def clear_rules_def)
  also have "\<dots> \<longleftrightarrow> tq_tool q = tq_tool q' \<and> canonicalize (?red q) = canonicalize (?red q')"
    by (rule exact_match_derived)
  also have "\<dots> \<longleftrightarrow> tq_tool q' = tq_tool q \<and> same_scope (deep_subject mcp (tq_tool q)) (tq_args q) (tq_args q')"
    using canonicalize_reduced [OF assms(2,3)] by auto
  finally show ?thesis .
qed

text \<open>Two commands that differ only in where an argument ends share a rule, and an edit of any
  notebook shares the rule of one.\<close>
lemma argv_boundaries_are_lost:
  "same_scope ''shell_command'' [(''command'', JList [JStr ''rm'', JStr ''a b''])]
     [(''command'', JList [JStr ''rm'', JStr ''a'', JStr ''b''])]"
  by code_simp

lemma notebook_rule_covers_every_notebook:
  "reduce_args ''file_change'' ''NotebookEdit'' [(''notebook_path'', JStr a)]
     = ([], ''any NotebookEdit call'')"
  by (simp add: reduce_args_def path_text_def dget_def)

lemma prefix_rule_covers_chained_commands:
  "match_bash [(''command'', JStr ''npm test && rm -rf /'')] ''npm test:*''"
  by code_simp

section \<open>Pendings nobody answers\<close>
lemma submit_parked:
  assumes "own \<in> set (dk_sessions d)" and "dk_runtime d = Some runtime" and "dk_active d = Some message"
    and "List.find (of_pending (sm_pending s) ''requires_action'') (marker_events own d) = Some p"
    and "List.find (of_pending (sm_pending s) ''action_resolved'') (marker_events own d) = None"
    and "decision_fits p (sm_decision s)"
  shows "submit_action rid id ba own s d = forward_decision rid ba own s p runtime message d"
  using assms by (simp add: submit_action_def derive_pending_def Let_def)

text \<open>When a batch of DeepAgents approvals times out nothing is recorded, because the
  wait has cancelled its futures already: the log still shows the pendings open, and an
  approval that comes during a later turn is accepted though no run waits for it.\<close>
theorem batch_timeout_records_nothing:
  assumes "own \<in> set (dk_sessions d)" and "dk_runtime d = Some DeepAgents" and "dk_active d = Some message"
    and "List.find (of_pending pid ''requires_action'') (marker_events own d) = Some p"
    and "List.find (of_pending pid ''action_resolved'') (marker_events own d) = None"
    and "decision_fits p ''approve''" and "sm_pending s = pid" and "sm_decision s = ''approve''"
  shows "dk_log (batch_timeout own pids d) = dk_log d \<and> (\<exists>res d'. submit_action rid id id own s (batch_timeout own pids d) = (Inr res, d')
        \<and> sb_decision res = ''approve'' \<and> \<not> sb_idempotent res)"
proof -
  let ?d = "batch_timeout own pids d"
  have markers: "marker_events own ?d = marker_events own d"
    by (simp add: marker_events_def batch_timeout_keeps)
  have "submit_action rid id id own s ?d = forward_decision rid id own s p DeepAgents message ?d"
    by (rule submit_parked) (simp_all add: batch_timeout_keeps markers assms)
  then show ?thesis
    using assms(8) by (simp add: batch_timeout_keeps forward_decision_def Let_def runtime_decision_def accepts_decision_def)
qed

text \<open>The pending is looked for among the oldest thousand markers of the session, so
  in a session with that many a live request cannot be answered.\<close>
theorem crowded_log_hides_pending:
  assumes "own \<in> set (dk_sessions d)" and "pending_limit \<le> length (session_markers own old)"
    and "dk_log d = old @ new" and "\<forall>e \<in> set old. \<forall>n \<in> set new. ae_time e \<le> ae_time n"
    and "\<forall>e \<in> set (session_markers own old). \<not> of_pending (sm_pending s) ''requires_action'' e"
  shows "submit_action rid ar ba own s d = (Inl PendingNotFound, ar d)"
proof -
  have "sort_key ae_time (session_markers own old @ session_markers own new)
      = sort_key ae_time (session_markers own old) @ sort_key ae_time (session_markers own new)"
    using assms(4) by (intro sort_key_append_le) (auto simp: session_markers_def)
  then have "marker_events own d = take pending_limit (sort_key ae_time (session_markers own old))"
    using assms(2,3) by (simp add: marker_events_eq session_markers_def)
  then have "List.find (of_pending (sm_pending s) ''requires_action'') (marker_events own d) = None"
    using assms(5) by (auto simp: find_None_iff dest: in_set_takeD)
  with assms(1) show ?thesis by (simp add: submit_action_def derive_pending_def)
qed

section \<open>Recovery\<close>
lemma is_open_Nil [simp]: "\<not> is_open p []"
  by (simp add: is_open_def)

lemma is_open_snoc:
  "is_open p (evs @ [e]) = (if dget (ae_data e) ''pending_id'' \<noteq> JStr p then is_open p evs
     else if ae_type e = ''requires_action'' then True
     else if ae_type e = ''action_resolved'' then False else is_open p evs)"
  by (simp add: is_open_def)

lemma is_open_expired:
  "is_open p (evs @ map (\<lambda>(q, m). expired_event own q m d) found)
     = (p \<notin> fst ` set found \<and> is_open p evs)"
proof (induction found rule: rev_induct)
  case Nil
  show ?case by simp
next
  case (snoc qm found)
  obtain q m where "qm = (q, m)" by (cases qm)
  then show ?case
    using snoc is_open_snoc [of p "evs @ map (\<lambda>(q, m). expired_event own q m d) found" "expired_event own q m d"]
    by (auto simp: expired_event_def expired_data_def dget_def)
qed

lemma is_open_listed: "is_open p evs \<Longrightarrow> p \<in> set (pending_ids evs)"
proof (induction evs rule: rev_induct)
  case (snoc e evs)
  then show ?case by (auto simp: is_open_snoc pending_ids_def split: if_splits)
qed simp

text \<open>After a restart's sweep no request recorded under a message is still open.\<close>
theorem recovery_seals_every_pending:
  assumes "seal_session_pendings own d = (n, d')" and "\<forall>e \<in> set (dk_log d). ae_time e \<le> dk_now d"
    and "length (session_markers own (dk_log d)) + n \<le> pending_limit"
    and "is_open p (marker_events own d')"
  shows "pending_message own p d = None"
proof -
  define found where "found = concat (map (\<lambda>p. case pending_message own p d of None \<Rightarrow> [] | Some m \<Rightarrow> [(p, m)])
    (open_pendings (marker_events own d)))"
  let ?new = "map (\<lambda>(p, m). expired_event own p m d) found"
  from assms(1) have d': "dk_log d' = dk_log d @ ?new" and n: "n = length found"
    by (auto simp: seal_session_pendings_def Let_def found_def)
  have mark: "session_markers own (dk_log d') = session_markers own (dk_log d) @ ?new"
    by (auto simp: d' session_markers_def expired_event_def filter_id_conv)
  have "sort_key ae_time (session_markers own (dk_log d) @ ?new)
      = sort_key ae_time (session_markers own (dk_log d)) @ sort_key ae_time ?new"
    using assms(2) by (intro sort_key_append_le) (auto simp: session_markers_def expired_event_def)
  moreover have "sort_key ae_time ?new = ?new"
    by (intro sort_key_id_if_sorted) (auto simp: sorted_iff_nth_mono expired_event_def split: prod.splits)
  ultimately have "marker_events own d' = marker_events own d @ ?new"
    using assms(3) n by (simp add: marker_events_eq mark)
  with assms(4) have "is_open p (marker_events own d)" and "p \<notin> fst ` set found"
    by (simp_all add: is_open_expired)
  then show ?thesis
    using is_open_listed [of p]
    by (cases "pending_message own p d") (auto simp: found_def open_pendings_def image_iff split: option.splits)
qed

section \<open>Sample sessions\<close>

definition sample_owner :: owner where
  "sample_owner = (''u1'', ''s1'')"

definition shell_request :: "string \<Rightarrow> string \<Rightarrow> tool_request" where
  "shell_request pid cmd = \<lparr>tq_pending = pid, tq_tool = ''execute'', tq_args = [(''command'', JStr cmd)]\<rparr>"

definition empty_desk :: desk where
  "empty_desk = \<lparr>dk_sessions = [sample_owner], dk_log = [], dk_bus = [], dk_rules = (\<lambda>_. []),
     dk_futures = [], dk_runtime = Some DeepAgents, dk_active = Some ''m1'', dk_now = 5\<rparr>"

definition asked_desk :: desk where
  "asked_desk = snd (open_request [] ''/w'' sample_owner (shell_request ''p1'' ''ls'') empty_desk)"

definition answer :: "string \<Rightarrow> submission" where
  "answer dec = \<lparr>sm_pending = ''p1'', sm_decision = dec, sm_text = None, sm_answers = None, sm_modified = None\<rparr>"

definition the_answer :: "string option \<Rightarrow> string \<Rightarrow> submit_result" where
  "the_answer rule dec = \<lparr>sb_decision = dec, sb_accepted_at = 5, sb_idempotent = False, sb_rule_id = rule\<rparr>"

definition answered_desk :: desk where
  "answered_desk = snd (submit_action ''r1'' id id sample_owner (answer ''approve_for_session'') asked_desk)"

text \<open>An answer that races the timeout is accepted, and its rule stays, although the log says
  the pending expired.\<close>
lemma late_approval_keeps_its_rule:
  "(case submit_action ''r1'' (claude_timeout sample_owner ''p1'') id sample_owner
         (answer ''approve_for_session'') asked_desk of
      (r, d) \<Rightarrow> r = Inr (the_answer (Some ''r1'') ''approve_for_session'')
        \<and> map su_rule_id (dk_rules d ''s1'') = [''r1'']
        \<and> map_option resolved_decision (List.find (of_pending ''p1'' ''action_resolved'') (marker_events sample_owner d))
            = Some ''expired'')"
  by code_simp

lemma answered_result: "submit_action ''r1'' id id sample_owner (answer ''approve_for_session'') asked_desk
    = (Inr (the_answer (Some ''r1'') ''approve_for_session''), answered_desk)"
proof -
  have "fst (submit_action ''r1'' id id sample_owner (answer ''approve_for_session'') asked_desk)
      = Inr (the_answer (Some ''r1'') ''approve_for_session'')"
    by code_simp
  then show ?thesis by (simp add: answered_desk_def prod_eq_iff)
qed

lemma asked_log: "\<forall>e \<in> set (dk_log asked_desk). ae_time e \<le> dk_now asked_desk"
  by code_simp

lemma asked_window: "length (session_markers sample_owner (dk_log asked_desk)) < pending_limit"
  by code_simp

theorem settled_answer_stands_witness:
  "submit_action ''r2'' id id sample_owner (answer ''approve_for_session'') answered_desk
     = (Inr ((the_answer (Some ''r1'') ''approve_for_session'')\<lparr>sb_idempotent := True\<rparr>), answered_desk)"
proof -
  let ?seen = "session_markers sample_owner (dk_log answered_desk)"
  have "log_extends d d" for d by (simp add: log_extends_def)
  moreover have "length (filter (of_pending ''p1'' ''action_resolved'') ?seen) = 1" "length ?seen \<le> pending_limit"
    by code_simp+
  moreover have "sample_owner \<in> set (dk_sessions answered_desk)" by code_simp
  moreover have "decision_fits (the (List.find (of_pending ''p1'' ''requires_action'')
      (marker_events sample_owner asked_desk))) ''approve_for_session''"
    by code_simp
  ultimately show ?thesis
    using settled_answer_stands [OF answered_result, of answered_desk "answer ''approve_for_session''" "''r2''" id id]
      asked_log
    by (simp add: the_answer_def answer_def decisions_def)
qed

definition asked_event :: approval_event where
  "asked_event = \<lparr>ae_user = ''u1'', ae_session = ''s1'', ae_message = Some ''m1'', ae_type = ''requires_action'',
     ae_data = deep_request_data [] ''/w'' (shell_request ''p1'' ''ls''), ae_time = 5\<rparr>"

definition ruled_desk :: desk where
  "ruled_desk = empty_desk\<lparr>dk_rules := put_rule (rule_of_preview ''r1'' sample_owner asked_event ''p1'' 5)
     (clear_rules (snd sample_owner) (\<lambda>_. []))\<rparr>"

theorem session_rule_scope_witness:
  "fut_done (fst (open_request [] ''/w'' sample_owner (shell_request ''p2'' ''ls'') ruled_desk))
   \<and> \<not> fut_done (fst (open_request [] ''/w'' sample_owner (shell_request ''p2'' ''rm'') ruled_desk))"
proof -
  have scope: "fut_done (fst (open_request [] ''/w'' sample_owner q' ruled_desk)) \<longleftrightarrow> tq_tool q' = ''execute''
      \<and> same_scope ''shell_command'' [(''command'', JStr ''ls'')] (tq_args q')" for q'
    using session_rule_scope [of asked_event "[]" "''/w''" "shell_request ''p1'' ''ls''" ruled_desk
        "''r1''" sample_owner "''p1''" 5 "\<lambda>_. []" q']
    by (simp add: asked_event_def ruled_desk_def shell_request_def deep_subject_def)
  show ?thesis
    by (simp add: scope shell_request_def same_scope_def command_text_def cwd_text_def dget_def)
qed

theorem batch_timeout_records_nothing_witness:
  "dk_log (batch_timeout sample_owner [''p1''] asked_desk) = dk_log asked_desk
   \<and> (\<exists>res d'. submit_action ''r1'' id id sample_owner (answer ''approve'')
        (batch_timeout sample_owner [''p1''] asked_desk) = (Inr res, d')
        \<and> sb_decision res = ''approve'' \<and> \<not> sb_idempotent res)"
proof (rule batch_timeout_records_nothing)
  show "sample_owner \<in> set (dk_sessions asked_desk)" by code_simp
  show "dk_runtime asked_desk = Some DeepAgents" by code_simp
  show "dk_active asked_desk = Some ''m1''" by code_simp
  show "List.find (of_pending ''p1'' ''requires_action'') (marker_events sample_owner asked_desk) = Some asked_event"
    by code_simp
  show "List.find (of_pending ''p1'' ''action_resolved'') (marker_events sample_owner asked_desk) = None" by code_simp
  show "decision_fits asked_event ''approve''" by code_simp
qed (simp_all add: answer_def)

definition old_marker :: approval_event where
  "old_marker = \<lparr>ae_user = ''u1'', ae_session = ''s1'', ae_message = Some ''m0'', ae_type = ''action_resolved'',
     ae_data = expired_data ''p0'', ae_time = 1\<rparr>"

definition crowded_desk :: desk where
  "crowded_desk = asked_desk\<lparr>dk_log := replicate 1000 old_marker @ [asked_event]\<rparr>"

lemma markers_replicate: "session_markers sample_owner (replicate k old_marker) = replicate k old_marker"
  by (simp add: session_markers_def old_marker_def sample_owner_def)

theorem crowded_log_hides_pending_witness:
  "submit_action ''r1'' id id sample_owner (answer ''approve'') crowded_desk = (Inl PendingNotFound, id crowded_desk)"
proof (rule crowded_log_hides_pending)
  show "dk_log crowded_desk = replicate 1000 old_marker @ [asked_event]"
    by (simp add: crowded_desk_def)
  have "sample_owner \<in> set (dk_sessions asked_desk)" by code_simp
  then show "sample_owner \<in> set (dk_sessions crowded_desk)" by (simp add: crowded_desk_def)
  show "pending_limit \<le> length (session_markers sample_owner (replicate 1000 old_marker))"
    unfolding markers_replicate length_replicate pending_limit_def by simp
  show "\<forall>e \<in> set (replicate 1000 old_marker). \<forall>n \<in> set [asked_event]. ae_time e \<le> ae_time n"
    by (simp add: old_marker_def asked_event_def)
  show "\<forall>e \<in> set (session_markers sample_owner (replicate 1000 old_marker)).
      \<not> of_pending (sm_pending (answer ''approve'')) ''requires_action'' e"
    unfolding markers_replicate by (simp add: old_marker_def of_pending_def)
qed

theorem recovery_seals_every_pending_witness:
  "pending_message sample_owner ''p9'' (asked_desk\<lparr>dk_log := dk_log asked_desk @
     [asked_event\<lparr>ae_message := None, ae_data := expired_data ''p9''\<rparr>]\<rparr>) = None"
proof -
  let ?d = "asked_desk\<lparr>dk_log := dk_log asked_desk @ [asked_event\<lparr>ae_message := None, ae_data := expired_data ''p9''\<rparr>]\<rparr>"
  obtain n d' where s: "seal_session_pendings sample_owner ?d = (n, d')" by (cases "seal_session_pendings sample_owner ?d")
  have "fst (seal_session_pendings sample_owner ?d) = 1" by code_simp
  with s have n: "n = 1" by simp
  have "is_open ''p9'' (marker_events sample_owner (snd (seal_session_pendings sample_owner ?d)))" by code_simp
  with s have o: "is_open ''p9'' (marker_events sample_owner d')" by simp
  have t: "\<forall>e \<in> set (dk_log ?d). ae_time e \<le> dk_now ?d" by code_simp
  have l: "length (session_markers sample_owner (dk_log ?d)) + n \<le> pending_limit" unfolding n by code_simp
  from recovery_seals_every_pending [OF s t l o] show ?thesis .
qed

end
