(* ===== verification/Plan.thy ===== *)
theory Plan
  imports PyJson
begin

text \<open>
  \<^verbatim>\<open>backend/valuz_agent/modules/tasks/plan.py\<close>: a task's plan, a DAG of subtask nodes.
  The node's fields and JSON form (\<open>Subtask.from_dict\<close>, \<open>Subtask.to_dict\<close>), the table of
  legal node transitions, the queries and mutations of \<open>TaskPlan\<close>, and its validation:
  no duplicate key, no dangling or self dependency, no cycle.  The cycle check is the
  source's recursive depth-first search with its three-valued state; it is shown to agree
  with acyclicity of the dependency relation and never to exceed its recursion bound.
\<close>

section \<open>Statuses\<close>

datatype subtask_status = Planned | InProgress | InReview | Rework | Done | Failed | Paused

fun status_name :: "subtask_status \<Rightarrow> string" where
  "status_name Planned = ''planned''"
| "status_name InProgress = ''in_progress''"
| "status_name InReview = ''in_review''"
| "status_name Rework = ''rework''"
| "status_name Done = ''done''"
| "status_name Failed = ''failed''"
| "status_name Paused = ''paused''"

definition subtask_statuses :: "subtask_status list" where
  "subtask_statuses = [Planned, InProgress, InReview, Rework, Done, Failed, Paused]"

text \<open>\<open>value in SUBTASK_STATUSES\<close>, giving the status the value names.\<close>

definition status_of :: "json \<Rightarrow> subtask_status option" where
  "status_of v = List.find (\<lambda>s. JStr (status_name s) = v) subtask_statuses"

lemma status_of_name [simp]: "status_of (JStr (status_name s)) = Some s"
  by (cases s) (simp_all add: status_of_def subtask_statuses_def)

fun node_transitions :: "subtask_status \<Rightarrow> subtask_status list" where
  "node_transitions Planned = [InProgress]"
| "node_transitions InProgress = [InReview, Rework, Paused, Done]"
| "node_transitions InReview = [Done, Rework, InProgress]"
| "node_transitions Rework = [InProgress, InReview, Done]"
| "node_transitions Paused = [InProgress, InReview, Rework]"
| "node_transitions Done = []"
| "node_transitions Failed = [Planned]"

definition unresolved_statuses :: "subtask_status list" where
  "unresolved_statuses = [Planned, InProgress, InReview, Rework, Paused]"

datatype panel_state = PPending | PActive | PCompleted | PFailed | PPaused

fun panel_map :: "subtask_status \<Rightarrow> panel_state" where
  "panel_map Planned = PPending"
| "panel_map InProgress = PActive"
| "panel_map InReview = PActive"
| "panel_map Rework = PActive"
| "panel_map Done = PCompleted"
| "panel_map Failed = PFailed"
| "panel_map Paused = PPaused"

text \<open>\<open>_PANEL_MAP.get(internal_status, "active")\<close>.\<close>

definition panel_status :: "string \<Rightarrow> panel_state" where
  "panel_status s = (case status_of (JStr s) of None \<Rightarrow> PActive | Some t \<Rightarrow> panel_map t)"

section \<open>Nodes\<close>

text \<open>
  What a plan operation may raise: a \<open>PlanError\<close> with its cause, the exceptions of
  \<open>int()\<close> where nothing catches them, an \<open>AttributeError\<close> for a document that is not
  made of dicts, a \<open>TypeError\<close> for a keyword that collides with a parameter, and
  \<open>RecursionError\<close> for the depth-first search.  \<open>MemberOverwrite\<close> stands for a patch that
  names a method or a dunder attribute of the node: the source's \<open>hasattr\<close> guard lets it
  through and the member is overwritten; the model stops there.
\<close>

datatype plan_error =
    MissingKey
  | BadStatus string json
  | BadDependsOn string
  | BadAttempts string
  | SubtasksNotList
  | NoSubtask string
  | InvalidStatus json
  | IllegalTransition subtask_status subtask_status string
  | UnknownField string
  | DuplicateKey string
  | UnknownDep string string
  | SelfDep string
  | Cycle string

datatype plan_exn =
    PlanError plan_error
  | IntError int_error
  | AttributeError
  | KeywordCollision string
  | MemberOverwrite string
  | RecursionError

record subtask =
  st_key :: string
  st_title :: string
  st_goal :: string
  st_agent :: "string option"
  st_depends_on :: "string list"
  st_parallel_group :: "string option"
  st_review_criteria :: string
  st_status :: subtask_status
  st_attempts :: int
  st_latest_run :: "string option"
  st_review_feedback :: "string option"

definition opt_json :: "string option \<Rightarrow> json" where
  "opt_json o' = (case o' of None \<Rightarrow> JNull | Some s \<Rightarrow> JStr s)"

definition subtask_to_dict :: "subtask \<Rightarrow> json" where
  "subtask_to_dict n = JDict
     [(''key'', JStr (st_key n)),
      (''title'', JStr (st_title n)),
      (''goal'', JStr (st_goal n)),
      (''agent'', opt_json (st_agent n)),
      (''depends_on'', JList (map JStr (st_depends_on n))),
      (''parallel_group'', opt_json (st_parallel_group n)),
      (''review_criteria'', JStr (st_review_criteria n)),
      (''status'', JStr (status_name (st_status n))),
      (''attempts'', JInt (st_attempts n)),
      (''latest_run_session_id'', opt_json (st_latest_run n)),
      (''review_feedback'', opt_json (st_review_feedback n))]"

text \<open>\<open>str(v) if v else None\<close> and \<open>str(v or "")\<close>.\<close>

definition nullable_str :: "json \<Rightarrow> string option" where
  "nullable_str v = (if truthy v then Some (py_str v) else None)"

definition plain_str :: "json \<Rightarrow> string" where
  "plain_str v = py_str (py_or v (JStr []))"

definition depends_list :: "json \<Rightarrow> string list option" where
  "depends_list v = (case py_or v (JList []) of JList xs \<Rightarrow> str_items xs | _ \<Rightarrow> None)"

definition subtask_from_dict :: "json \<Rightarrow> plan_exn + subtask" where
  "subtask_from_dict v = (case v of
     JDict d \<Rightarrow>
       (let key = strip (plain_str (dget d ''key'')) in
        if key = [] then Inl (PlanError MissingKey)
        else (case status_of (py_or (dget d ''status'') (JStr ''planned'')) of
          None \<Rightarrow> Inl (PlanError (BadStatus key (py_or (dget d ''status'') (JStr ''planned''))))
        | Some st \<Rightarrow>
            (case depends_list (dget d ''depends_on'') of
               None \<Rightarrow> Inl (PlanError (BadDependsOn key))
             | Some deps \<Rightarrow>
                 (case py_int (py_or (dget d ''attempts'') (JInt 0)) of
                    Inl e \<Rightarrow> Inl (IntError e)
                  | Inr att \<Rightarrow> Inr
                     \<lparr>st_key = key,
                      st_title = py_str (py_or (dget d ''title'') (JStr key)),
                      st_goal = plain_str (dget d ''goal''),
                      st_agent = nullable_str (dget d ''agent''),
                      st_depends_on = deps,
                      st_parallel_group = nullable_str (dget d ''parallel_group''),
                      st_review_criteria = plain_str (dget d ''review_criteria''),
                      st_status = st,
                      st_attempts = att,
                      st_latest_run = nullable_str (dget d ''latest_run_session_id''),
                      st_review_feedback = nullable_str (dget d ''review_feedback'')\<rparr>))))
   | _ \<Rightarrow> Inl AttributeError)"

section \<open>Patching one field\<close>

definition nullable_str_fields :: "string list" where
  "nullable_str_fields = [''agent'', ''parallel_group'', ''latest_run_session_id'', ''review_feedback'']"

definition plain_str_fields :: "string list" where
  "plain_str_fields = [''title'', ''goal'', ''review_criteria'']"

definition coerce_node_field :: "string \<Rightarrow> string \<Rightarrow> json \<Rightarrow> plan_exn + json" where
  "coerce_node_field key name v =
     (if name \<in> set plain_str_fields then Inr (JStr (plain_str v))
      else if name \<in> set nullable_str_fields then Inr (opt_json (nullable_str v))
      else if name = ''attempts'' then
        (case py_int v of
           Inr i \<Rightarrow> Inr (JInt i)
         | Inl IntOverflowError \<Rightarrow> Inl (IntError IntOverflowError)
         | Inl _ \<Rightarrow> Inl (PlanError (BadAttempts key)))
      else if name = ''depends_on'' then
        (case depends_list v of
           None \<Rightarrow> Inl (PlanError (BadDependsOn key))
         | Some ds \<Rightarrow> Inr (JList (map JStr ds)))
      else Inr v)"

text \<open>The node's data fields, and the class members \<open>hasattr\<close> also finds on it.\<close>

definition node_fields :: "string list" where
  "node_fields = [''title'', ''goal'', ''agent'', ''depends_on'', ''parallel_group'',
     ''review_criteria'', ''status'', ''attempts'', ''latest_run_session_id'', ''review_feedback'']"

definition class_members :: "string list" where
  "class_members = [''to_dict'', ''from_dict'', ''__annotations__'', ''__class__'',
     ''__dataclass_fields__'', ''__dataclass_params__'', ''__delattr__'', ''__dict__'', ''__dir__'',
     ''__doc__'', ''__eq__'', ''__format__'', ''__ge__'', ''__getattribute__'', ''__getstate__'',
     ''__gt__'', ''__hash__'', ''__init__'', ''__init_subclass__'', ''__le__'', ''__lt__'',
     ''__match_args__'', ''__module__'', ''__ne__'', ''__new__'', ''__reduce__'',
     ''__reduce_ex__'', ''__repr__'', ''__setattr__'', ''__sizeof__'', ''__str__'',
     ''__subclasshook__'', ''__weakref__'']"

text \<open>\<open>setattr(node, name, value)\<close> of a coerced value.\<close>

definition json_opt :: "json \<Rightarrow> string option" where
  "json_opt v = (case v of JStr s \<Rightarrow> Some s | _ \<Rightarrow> None)"

definition json_strs :: "json \<Rightarrow> string list" where
  "json_strs v = (case v of JList xs \<Rightarrow> the (str_items xs) | _ \<Rightarrow> [])"

definition set_node_field :: "string \<Rightarrow> json \<Rightarrow> subtask \<Rightarrow> subtask" where
  "set_node_field name v n =
     (if name = ''title'' then n\<lparr>st_title := plain_str v\<rparr>
      else if name = ''goal'' then n\<lparr>st_goal := plain_str v\<rparr>
      else if name = ''review_criteria'' then n\<lparr>st_review_criteria := plain_str v\<rparr>
      else if name = ''agent'' then n\<lparr>st_agent := json_opt v\<rparr>
      else if name = ''parallel_group'' then n\<lparr>st_parallel_group := json_opt v\<rparr>
      else if name = ''latest_run_session_id'' then n\<lparr>st_latest_run := json_opt v\<rparr>
      else if name = ''review_feedback'' then n\<lparr>st_review_feedback := json_opt v\<rparr>
      else if name = ''depends_on'' then n\<lparr>st_depends_on := json_strs v\<rparr>
      else if name = ''attempts'' then (case v of JInt i \<Rightarrow> n\<lparr>st_attempts := i\<rparr> | _ \<Rightarrow> n)
      else if name = ''status'' then
        (case status_of v of Some s \<Rightarrow> n\<lparr>st_status := s\<rparr> | None \<Rightarrow> n)
      else n)"

definition patch_field :: "string \<times> json \<Rightarrow> subtask \<Rightarrow> plan_exn + subtask" where
  "patch_field nv n = (case nv of (name, v) \<Rightarrow>
     if name \<in> set node_fields then
       rbind (coerce_node_field (st_key n) name v) (\<lambda>w. Inr (set_node_field name w n))
     else if name \<in> set class_members then Inl (MemberOverwrite name)
     else Inl (PlanError (UnknownField name)))"

section \<open>The plan: validation\<close>

type_synonym plan = "subtask list"

definition get_node :: "plan \<Rightarrow> string \<Rightarrow> subtask option" where
  "get_node p key = List.find (\<lambda>n. st_key n = key) p"

fun first_duplicate :: "string list \<Rightarrow> string list \<Rightarrow> string option" where
  "first_duplicate seen [] = None"
| "first_duplicate seen (k # ks) =
     (if k \<in> set seen then Some k else first_duplicate (k # seen) ks)"

text \<open>The loop over a node's dependencies and the loop over the nodes.\<close>

fun check_deps :: "string list \<Rightarrow> string \<Rightarrow> string list \<Rightarrow> plan_exn + unit" where
  "check_deps keys k [] = Inr ()"
| "check_deps keys k (d # ds) =
     (if d \<notin> set keys then Inl (PlanError (UnknownDep k d))
      else if d = k then Inl (PlanError (SelfDep k))
      else check_deps keys k ds)"

fun check_nodes :: "string list \<Rightarrow> plan \<Rightarrow> plan_exn + unit" where
  "check_nodes keys [] = Inr ()"
| "check_nodes keys (n # ns) =
     rbind (check_deps keys (st_key n) (st_depends_on n)) (\<lambda>_. check_nodes keys ns)"

text \<open>
  The depth-first search.  A key absent from the state is unvisited.  \<open>visit\<close> returns
  \<open>None\<close> when its recursion budget is used up.
\<close>

datatype colour = OnStack | Finished

type_synonym dfs_state = "string \<Rightarrow> colour option"

fun visit_all :: "(string \<Rightarrow> dfs_state \<Rightarrow> (plan_exn + dfs_state) option) \<Rightarrow> string list
    \<Rightarrow> dfs_state \<Rightarrow> (plan_exn + dfs_state) option" where
  "visit_all v [] st = Some (Inr st)"
| "visit_all v (k # ks) st = (case v k st of
     None \<Rightarrow> None
   | Some (Inl e) \<Rightarrow> Some (Inl e)
   | Some (Inr st') \<Rightarrow> visit_all v ks st')"

fun visit :: "nat \<Rightarrow> (string \<Rightarrow> string list) \<Rightarrow> string \<Rightarrow> dfs_state
    \<Rightarrow> (plan_exn + dfs_state) option" where
  "visit 0 g k st = None"
| "visit (Suc f) g k st = (case st k of
     Some Finished \<Rightarrow> Some (Inr st)
   | Some OnStack \<Rightarrow> Some (Inl (PlanError (Cycle k)))
   | None \<Rightarrow> (case visit_all (visit f g) (g k) (st(k \<mapsto> OnStack)) of
       None \<Rightarrow> None
     | Some (Inl e) \<Rightarrow> Some (Inl e)
     | Some (Inr st') \<Rightarrow> Some (Inr (st'(k \<mapsto> Finished)))))"

text \<open>\<open>graph.get(k, [])\<close>, where a later node with the same key overwrites an earlier one.\<close>

definition dep_graph :: "plan \<Rightarrow> string \<Rightarrow> string list" where
  "dep_graph p k = (case get_node (rev p) k of None \<Rightarrow> [] | Some n \<Rightarrow> st_depends_on n)"

definition assert_acyclic :: "plan \<Rightarrow> plan_exn + unit" where
  "assert_acyclic p =
     (case visit_all (visit (Suc (length p)) (dep_graph p)) (map st_key p) Map.empty of
        None \<Rightarrow> Inl RecursionError
      | Some (Inl e) \<Rightarrow> Inl e
      | Some (Inr _) \<Rightarrow> Inr ())"

definition validate :: "plan \<Rightarrow> plan_exn + unit" where
  "validate p = (case first_duplicate [] (map st_key p) of
     Some k \<Rightarrow> Inl (PlanError (DuplicateKey k))
   | None \<Rightarrow> rbind (check_nodes (map st_key p) p) (\<lambda>_. assert_acyclic p))"

text \<open>\<open>TaskPlan(subtasks)\<close>: the nodes, once they validate.\<close>

definition make_plan :: "plan \<Rightarrow> plan_exn + plan" where
  "make_plan p = rbind (validate p) (\<lambda>_. Inr p)"

definition plan_from_dict :: "json \<Rightarrow> plan_exn + plan" where
  "plan_from_dict v =
     (if \<not> truthy v then make_plan []
      else (case v of
        JDict d \<Rightarrow> (case py_or (dget d ''subtasks'') (JList []) of
            JList xs \<Rightarrow> rbind (rmap subtask_from_dict xs) make_plan
          | _ \<Rightarrow> Inl (PlanError SubtasksNotList))
      | _ \<Rightarrow> Inl AttributeError))"

definition plan_to_dict :: "plan \<Rightarrow> json" where
  "plan_to_dict p = JDict [(''subtasks'', JList (map subtask_to_dict p))]"

record panel_row =
  pr_key :: string
  pr_label :: string
  pr_agent :: string
  pr_status :: panel_state
  pr_depends_on :: "string list"
  pr_parallel_group :: "string option"
  pr_goal :: string
  pr_attempts :: int
  pr_review_criteria :: string
  pr_review_feedback :: "string option"

definition to_panel :: "plan \<Rightarrow> panel_row list" where
  "to_panel p = map (\<lambda>n.
     \<lparr>pr_key = st_key n, pr_label = st_title n,
      pr_agent = (case st_agent n of None \<Rightarrow> [] | Some a \<Rightarrow> a),
      pr_status = panel_map (st_status n),
      pr_depends_on = st_depends_on n, pr_parallel_group = st_parallel_group n,
      pr_goal = st_goal n, pr_attempts = st_attempts n,
      pr_review_criteria = st_review_criteria n,
      pr_review_feedback = st_review_feedback n\<rparr>) p"

section \<open>The plan: queries\<close>

definition is_empty_plan :: "plan \<Rightarrow> bool" where
  "is_empty_plan p = (p = [])"

definition done_keys :: "plan \<Rightarrow> string list" where
  "done_keys p = map st_key (filter (\<lambda>n. st_status n = Done) p)"

definition ready_keys :: "plan \<Rightarrow> string list" where
  "ready_keys p = map st_key (filter (\<lambda>n. st_status n \<in> {Planned, Paused}
      \<and> (\<forall>d \<in> set (st_depends_on n). d \<in> set (done_keys p))) p)"

definition unresolved_keys :: "plan \<Rightarrow> string list" where
  "unresolved_keys p = map st_key (filter (\<lambda>n. st_status n \<in> set unresolved_statuses) p)"

definition all_done :: "plan \<Rightarrow> bool" where
  "all_done p = (p \<noteq> [] \<and> (\<forall>n \<in> set p. st_status n = Done))"

text \<open>\<open>out[s] = out.get(s, 0) + 1\<close> on a dict that keeps insertion order.\<close>

fun bump_count :: "subtask_status \<Rightarrow> (subtask_status \<times> nat) list \<Rightarrow> (subtask_status \<times> nat) list" where
  "bump_count s [] = [(s, 1)]"
| "bump_count s ((t, c) # out) =
     (if s = t then (t, Suc c) # out else (t, c) # bump_count s out)"

definition counts :: "plan \<Rightarrow> (subtask_status \<times> nat) list" where
  "counts p = foldl (\<lambda>out n. bump_count (st_status n) out) [] p"

section \<open>The plan: mutations\<close>

definition add_nodes :: "plan \<Rightarrow> json list \<Rightarrow> plan_exn + plan" where
  "add_nodes p ds = rbind (rmap subtask_from_dict ds) (\<lambda>ns. make_plan (p @ ns))"

text \<open>The first node with the key is the object that is patched.\<close>

fun replace_first :: "string \<Rightarrow> subtask \<Rightarrow> plan \<Rightarrow> plan" where
  "replace_first key m [] = []"
| "replace_first key m (n # ns) =
     (if st_key n = key then m # ns else n # replace_first key m ns)"

text \<open>The guard on a \<open>status\<close> entry of the patch.\<close>

definition check_status_patch :: "string \<Rightarrow> subtask \<Rightarrow> (string \<times> json) list \<Rightarrow> plan_exn + unit" where
  "check_status_patch key n patch = (case map_of patch ''status'' of
     None \<Rightarrow> Inr ()
   | Some v \<Rightarrow> (case status_of v of
       None \<Rightarrow> Inl (PlanError (InvalidStatus v))
     | Some s \<Rightarrow>
         (if s \<noteq> st_status n \<and> s \<notin> set (node_transitions (st_status n))
          then Inl (PlanError (IllegalTransition (st_status n) s key))
          else Inr ())))"

definition update_node :: "plan \<Rightarrow> string \<Rightarrow> (string \<times> json) list \<Rightarrow> plan_exn + plan" where
  "update_node p key patch =
     (case List.find (\<lambda>nv. fst nv \<in> {''self'', ''key''}) patch of
        Some nv \<Rightarrow> Inl (KeywordCollision (fst nv))
      | None \<Rightarrow>
     (case get_node p key of
        None \<Rightarrow> Inl (PlanError (NoSubtask key))
      | Some n \<Rightarrow>
          rbind (check_status_patch key n patch) (\<lambda>_.
          rbind (rfold patch_field patch n) (\<lambda>m.
          make_plan (replace_first key m p)))))"

definition remove_node :: "plan \<Rightarrow> string \<Rightarrow> plan_exn + plan" where
  "remove_node p key = (case get_node p key of
     None \<Rightarrow> Inl (PlanError (NoSubtask key))
   | Some _ \<Rightarrow> make_plan (filter (\<lambda>n. st_key n \<noteq> key) p))"

end
