(* ===== verification/PlanDag.thy ===== *)
theory PlanDag
  imports Plan
begin

text \<open>
  What \<open>TaskPlan.validate\<close> decides.  The depth-first search of \<open>_assert_acyclic\<close> is
  related to the dependency relation of the plan: its recursion bound is never reached,
  it accepts only acyclic graphs, and it reports a cycle only where there is one.
\<close>

definition edges :: "(string \<Rightarrow> string list) \<Rightarrow> (string \<times> string) set" where
  "edges g = {(k, d). d \<in> set (g k)}"

definition fin :: "dfs_state \<Rightarrow> string set" where
  "fin st = {k. st k = Some Finished}"

definition stk :: "dfs_state \<Rightarrow> string set" where
  "stk st = {k. st k = Some OnStack}"

lemma fin_simps [simp]:
  "fin (st(k \<mapsto> Finished)) = insert k (fin st)"
  "fin Map.empty = {}"
  by (auto simp: fin_def)

lemma stk_simps [simp]:
  "stk (st(k \<mapsto> OnStack)) = insert k (stk st)"
  "stk (st(k \<mapsto> Finished)) = stk st - {k}"
  "stk Map.empty = {}"
  by (auto simp: stk_def)

lemma fin_OnStack: "k \<notin> fin st \<Longrightarrow> fin (st(k \<mapsto> OnStack)) = fin st"
  by (auto simp: fin_def)

lemma fin_stk_disjoint: "k \<in> stk st \<Longrightarrow> k \<notin> fin st"
  by (auto simp: fin_def stk_def)

lemma edges_iff [simp]: "(k, d) \<in> edges g \<longleftrightarrow> d \<in> set (g k)"
  by (simp add: edges_def)

section \<open>Inversion of a successful visit\<close>

lemma visit_all_cases_Inr:
  assumes "visit_all v (k # ks) st = Some (Inr st'')"
  obtains st' where "v k st = Some (Inr st')" "visit_all v ks st' = Some (Inr st'')"
  using assms by (auto split: option.splits sum.splits)

lemma visit_Suc_Inr:
  assumes "visit (Suc f) g k st = Some (Inr st')"
  shows "k \<in> fin st \<and> st' = st \<or>
    k \<notin> fin st \<and> k \<notin> stk st \<and>
    (\<exists>st1. visit_all (visit f g) (g k) (st(k \<mapsto> OnStack)) = Some (Inr st1)
      \<and> st' = st1(k \<mapsto> Finished))"
  using assms
  by (cases "st k") (auto simp: fin_def stk_def split: option.splits sum.splits colour.splits)

section \<open>What a successful visit leaves\<close>

text \<open>
  The stack is as it was, nothing finished is forgotten, and the key is finished.
\<close>

lemma visit_all_frame:
  assumes "visit_all v ks st = Some (Inr st')"
    and "\<And>k s s'. v k s = Some (Inr s') \<Longrightarrow> stk s' = stk s \<and> fin s \<subseteq> fin s' \<and> k \<in> fin s'"
  shows "stk st' = stk st \<and> fin st \<subseteq> fin st' \<and> set ks \<subseteq> fin st'"
  using assms(1)
proof (induction ks arbitrary: st)
  case Nil
  then show ?case by simp
next
  case (Cons k ks)
  from Cons.prems obtain s where s: "v k st = Some (Inr s)" "visit_all v ks s = Some (Inr st')"
    by (rule visit_all_cases_Inr)
  from assms(2) [OF s(1)] Cons.IH [OF s(2)] show ?case by auto
qed

lemma visit_frame:
  "visit f g k st = Some (Inr st') \<Longrightarrow> stk st' = stk st \<and> fin st \<subseteq> fin st' \<and> k \<in> fin st'"
proof (induction f arbitrary: k st st')
  case 0
  then show ?case by simp
next
  case (Suc f)
  from visit_Suc_Inr [OF Suc.prems] show ?case
  proof (elim disjE conjE exE)
    assume "k \<in> fin st" "st' = st"
    then show ?case by simp
  next
    fix st1
    assume k: "k \<notin> fin st" "k \<notin> stk st"
      and v: "visit_all (visit f g) (g k) (st(k \<mapsto> OnStack)) = Some (Inr st1)"
      and st': "st' = st1(k \<mapsto> Finished)"
    have "stk st1 = insert k (stk st) \<and> fin st \<subseteq> fin st1"
      using visit_all_frame [OF v Suc.IH] k by (simp add: fin_OnStack)
    with k show ?case unfolding st' fin_simps stk_simps by blast
  qed
qed

lemma visit_all_visit_frame:
  assumes "visit_all (visit f g) ks st = Some (Inr st')"
  shows "stk st' = stk st \<and> fin st \<subseteq> fin st' \<and> set ks \<subseteq> fin st'"
  using assms by (rule visit_all_frame) (rule visit_frame)

text \<open>
  The finished keys are closed under dependencies and lie on no cycle.
\<close>

definition settled :: "(string \<Rightarrow> string list) \<Rightarrow> dfs_state \<Rightarrow> bool" where
  "settled g st \<longleftrightarrow> (\<forall>x \<in> fin st. set (g x) \<subseteq> fin st \<and> (x, x) \<notin> (edges g)\<^sup>+)"

lemma settled_reach:
  assumes "settled g st" and "(x, y) \<in> (edges g)\<^sup>*" and "x \<in> fin st"
  shows "y \<in> fin st"
  using assms(2,3)
proof (induction rule: rtrancl_induct)
  case base
  then show ?case by simp
next
  case (step y z)
  with assms(1) show ?case by (auto simp: settled_def)
qed

lemma settled_finish:
  assumes "settled g st" and "set (g k) \<subseteq> fin st" and "k \<notin> fin st"
  shows "settled g (st(k \<mapsto> Finished))"
proof -
  have "(k, k) \<notin> (edges g)\<^sup>+"
  proof
    assume "(k, k) \<in> (edges g)\<^sup>+"
    then obtain d where "(k, d) \<in> edges g" "(d, k) \<in> (edges g)\<^sup>*"
      by (meson tranclD)
    with assms(2) have "k \<in> fin st" by (auto intro: settled_reach [OF assms(1)])
    with assms(3) show False by simp
  qed
  with assms show ?thesis by (auto simp: settled_def)
qed

lemma visit_all_settled:
  assumes "visit_all v ks st = Some (Inr st')" and "settled g st"
    and "\<And>k s s'. v k s = Some (Inr s') \<Longrightarrow> settled g s \<Longrightarrow> settled g s'"
  shows "settled g st'"
  using assms(1,2)
proof (induction ks arbitrary: st)
  case Nil
  then show ?case by simp
next
  case (Cons k ks)
  then show ?case by (auto elim!: visit_all_cases_Inr intro: assms(3) simp del: visit_all.simps)
qed

lemma visit_settled: "visit f g k st = Some (Inr st') \<Longrightarrow> settled g st \<Longrightarrow> settled g st'"
proof (induction f arbitrary: k st st')
  case 0
  then show ?case by simp
next
  case (Suc f)
  from visit_Suc_Inr [OF Suc.prems(1)] show ?case
  proof (elim disjE conjE exE)
    assume "st' = st"
    with Suc.prems(2) show ?case by simp
  next
    fix st1
    assume k: "k \<notin> fin st" "k \<notin> stk st"
      and v: "visit_all (visit f g) (g k) (st(k \<mapsto> OnStack)) = Some (Inr st1)"
      and st': "st' = st1(k \<mapsto> Finished)"
    have fr: "stk st1 = insert k (stk st)" "set (g k) \<subseteq> fin st1"
      using visit_all_visit_frame [OF v] by auto
    have "settled g (st(k \<mapsto> OnStack))"
      using Suc.prems(2) k by (simp add: settled_def fin_OnStack)
    with v have "settled g st1" by (rule visit_all_settled) (rule Suc.IH)
    moreover have "k \<notin> fin st1" using fr(1) by (intro fin_stk_disjoint) simp
    ultimately show ?case unfolding st' using fr(2) by (intro settled_finish)
  qed
qed

section \<open>A reported cycle is one\<close>

lemma visit_all_error:
  assumes "visit_all v ks st = Some (Inl e)"
    and "\<And>k s s'. v k s = Some (Inr s') \<Longrightarrow> stk s' = stk s"
  shows "\<exists>k \<in> set ks. \<exists>s. stk s = stk st \<and> v k s = Some (Inl e)"
  using assms(1)
proof (induction ks arbitrary: st)
  case Nil
  then show ?case by simp
next
  case (Cons k ks)
  show ?case
  proof (cases "v k st")
    case None
    with Cons.prems show ?thesis by simp
  next
    case (Some r)
    show ?thesis
    proof (cases r)
      case (Inl e')
      with Some Cons.prems show ?thesis by auto
    next
      case (Inr s)
      with Some Cons.prems have "visit_all v ks s = Some (Inl e)" by simp
      from Cons.IH [OF this] assms(2) [of k st s] Some Inr show ?thesis by auto
    qed
  qed
qed

lemma visit_all_visit_error:
  assumes "visit_all (visit f g) ks st = Some (Inl e)"
  obtains k s where "k \<in> set ks" "stk s = stk st" "visit f g k s = Some (Inl e)"
  using visit_all_error [OF assms] visit_frame by blast

lemma visit_cycle:
  assumes "visit f g k st = Some (Inl e)" and "\<forall>x \<in> stk st. (x, k) \<in> (edges g)\<^sup>+"
  shows "\<exists>c. e = PlanError (Cycle c) \<and> (c, c) \<in> (edges g)\<^sup>+"
  using assms
proof (induction f arbitrary: k st)
  case 0
  then show ?case by simp
next
  case (Suc f)
  show ?case
  proof (cases "st k")
    case None
    with Suc.prems(1)
    have "visit_all (visit f g) (g k) (st(k \<mapsto> OnStack)) = Some (Inl e)"
      by (auto split: option.splits sum.splits)
    then obtain d s
      where d: "d \<in> set (g k)" "stk s = insert k (stk st)" "visit f g d s = Some (Inl e)"
      by (elim visit_all_visit_error) simp
    have "\<forall>x \<in> stk s. (x, d) \<in> (edges g)\<^sup>+"
      using d(1,2) Suc.prems(2) by (auto intro: trancl_into_trancl)
    from Suc.IH [OF d(3) this] show ?thesis .
  next
    case (Some c)
    with Suc.prems show ?thesis by (cases c) (auto simp: stk_def)
  qed
qed

section \<open>The recursion bound is enough\<close>

text \<open>
  The bound that suffices is the number of keys with outgoing edges that are still
  unvisited, plus one.
\<close>

definition unvisited :: "string list \<Rightarrow> dfs_state \<Rightarrow> nat" where
  "unvisited ks st = card {k \<in> set ks. st k = None}"

lemma unvisited_mono:
  assumes "\<And>k. st k \<noteq> None \<Longrightarrow> st' k \<noteq> None"
  shows "unvisited ks st' \<le> unvisited ks st"
proof -
  have "{k \<in> set ks. st' k = None} \<subseteq> {k \<in> set ks. st k = None}"
    using assms by blast
  then show ?thesis unfolding unvisited_def by (intro card_mono) simp_all
qed

lemma unvisited_mark:
  assumes "k \<in> set ks" and "st k = None"
  shows "unvisited ks (st(k \<mapsto> c)) < unvisited ks st"
  unfolding unvisited_def by (rule psubset_card_mono) (use assms in auto)

lemma visited_mono:
  assumes "stk s' = stk s" and "fin s \<subseteq> fin s'" and "s k \<noteq> None"
  shows "s' k \<noteq> None"
proof -
  from assms(3) obtain c where "s k = Some c" by auto
  then have "k \<in> stk s \<or> k \<in> fin s" by (cases c) (auto simp: stk_def fin_def)
  with assms(1,2) have "k \<in> stk s' \<or> k \<in> fin s'" by auto
  then show ?thesis by (auto simp: stk_def fin_def)
qed

lemma visit_all_enough:
  assumes "unvisited ks st < f"
    and "\<And>k s. unvisited ks s < f \<Longrightarrow> v k s \<noteq> None"
    and "\<And>k s s'. v k s = Some (Inr s') \<Longrightarrow> stk s' = stk s \<and> fin s \<subseteq> fin s'"
  shows "visit_all v ds st \<noteq> None"
  using assms(1)
proof (induction ds arbitrary: st)
  case Nil
  then show ?case by simp
next
  case (Cons d ds)
  from assms(2) [OF Cons.prems] obtain r where r: "v d st = Some r" by blast
  show ?case
  proof (cases r)
    case (Inl e)
    with r show ?thesis by simp
  next
    case (Inr s)
    with r assms(3) have fr: "stk s = stk st" "fin st \<subseteq> fin s" by auto
    have "unvisited ks s \<le> unvisited ks st"
      by (rule unvisited_mono) (rule visited_mono [OF fr])
    with Cons.prems have "unvisited ks s < f" by simp
    with Cons.IH have "visit_all v ds s \<noteq> None" by blast
    with r Inr show ?thesis by simp
  qed
qed

lemma visit_enough:
  assumes "\<And>k. k \<notin> set ks \<Longrightarrow> g k = []"
  shows "unvisited ks st < f \<Longrightarrow> visit f g k st \<noteq> None"
proof (induction f arbitrary: k st)
  case 0
  then show ?case by simp
next
  case (Suc f)
  have *: "visit_all (visit f g) (g k) (st(k \<mapsto> OnStack)) \<noteq> None" if "st k = None"
  proof (cases "k \<in> set ks")
    case True
    with that have "unvisited ks (st(k \<mapsto> OnStack)) < f"
      using unvisited_mark [of k ks st OnStack] True that Suc.prems by linarith
    then show ?thesis
    proof (rule visit_all_enough)
      show "unvisited ks s < f \<Longrightarrow> visit f g k s \<noteq> None" for k s by (rule Suc.IH)
    qed (auto dest: visit_frame)
  next
    case False
    with assms show ?thesis by simp
  qed
  show ?case
  proof (cases "st k")
    case None
    from * [OF this] None show ?thesis by (auto split: sum.splits)
  next
    case (Some c)
    then show ?thesis by (cases c) auto
  qed
qed

section \<open>The verdict of the search\<close>

lemma dep_graph_outside: "k \<notin> set (map st_key p) \<Longrightarrow> dep_graph p k = []"
  by (auto simp: dep_graph_def get_node_def split: option.splits dest!: find_SomeD)

lemma assert_acyclic_no_recursion_error: "assert_acyclic p \<noteq> Inl RecursionError"
proof -
  let ?ks = "map st_key p" and ?f = "Suc (length p)"
  have "card (set ?ks) \<le> length p" by (metis card_length length_map)
  then have u: "unvisited ?ks Map.empty < ?f" by (simp add: unvisited_def)
  have e: "visit ?f (dep_graph p) k s \<noteq> None" if "unvisited ?ks s < ?f" for k s
    using dep_graph_outside that by (rule visit_enough)
  have "visit_all (visit ?f (dep_graph p)) ?ks Map.empty \<noteq> None"
    using u e by (rule visit_all_enough) (auto dest: visit_frame simp del: visit.simps)
  moreover have "r \<noteq> RecursionError"
    if err: "visit_all (visit ?f (dep_graph p)) ?ks Map.empty = Some (Inl r)" for r
  proof -
    from err obtain k s where "stk s = {}" and v: "visit ?f (dep_graph p) k s = Some (Inl r)"
      by (elim visit_all_visit_error) (simp del: visit.simps)
    then have "\<forall>x \<in> stk s. (x, k) \<in> (edges (dep_graph p))\<^sup>+" by simp
    from visit_cycle [OF v this] show ?thesis by auto
  qed
  ultimately show ?thesis
    by (auto simp: assert_acyclic_def simp del: visit.simps split: option.splits sum.splits)
qed

lemma assert_acyclic_iff:
  "assert_acyclic p = Inr () \<longleftrightarrow> acyclic (edges (dep_graph p))"
proof
  let ?ks = "map st_key p" and ?v = "visit (Suc (length p)) (dep_graph p)"
  assume "assert_acyclic p = Inr ()"
  then obtain st where v: "visit_all ?v ?ks Map.empty = Some (Inr st)"
    by (auto simp: assert_acyclic_def simp del: visit.simps split: option.splits sum.splits)
  have keys: "set ?ks \<subseteq> fin st"
    using visit_all_visit_frame [OF v] by blast
  have "settled (dep_graph p) Map.empty" by (simp add: settled_def)
  with v have s: "settled (dep_graph p) st" by (rule visit_all_settled) (rule visit_settled)
  show "acyclic (edges (dep_graph p))"
    unfolding acyclic_def
  proof (intro allI notI)
    fix x
    assume c: "(x, x) \<in> (edges (dep_graph p))\<^sup>+"
    then obtain d where "d \<in> set (dep_graph p x)" by (auto dest: tranclD)
    then have "x \<in> set ?ks" using dep_graph_outside [of x p] by fastforce
    with keys s c show False by (auto simp: settled_def)
  qed
next
  let ?ks = "map st_key p" and ?v = "visit (Suc (length p)) (dep_graph p)"
  assume a: "acyclic (edges (dep_graph p))"
  show "assert_acyclic p = Inr ()"
  proof (cases "assert_acyclic p")
    case (Inr u)
    then show ?thesis by simp
  next
    case (Inl e)
    with assert_acyclic_no_recursion_error [of p]
    have "visit_all ?v ?ks Map.empty = Some (Inl e)"
      by (auto simp: assert_acyclic_def simp del: visit.simps split: option.splits sum.splits)
    then obtain k s where "stk s = {}" and v: "?v k s = Some (Inl e)"
      by (elim visit_all_visit_error) (simp del: visit.simps)
    then have "\<forall>x \<in> stk s. (x, k) \<in> (edges (dep_graph p))\<^sup>+" by simp
    from visit_cycle [OF v this] a show ?thesis by (auto simp: acyclic_def)
  qed
qed

end
