(* ===== verification/PlanFacts.thy ===== *)
theory PlanFacts
  imports PlanDag
begin

text \<open>
  The properties of a task's plan: what validation guarantees, that every mutation keeps
  it, how a node may change, which nodes are ready or unresolved, that a valid plan with
  dispatchable work is never stuck, and the JSON round trip.
\<close>

section \<open>Validation, declaratively\<close>

definition plan_edges :: "plan \<Rightarrow> (string \<times> string) set" where
  "plan_edges p = {(st_key n, d) | n d. n \<in> set p \<and> d \<in> set (st_depends_on n)}"

definition valid_plan :: "plan \<Rightarrow> bool" where
  "valid_plan p \<longleftrightarrow> distinct (map st_key p)
     \<and> (\<forall>n \<in> set p. set (st_depends_on n) \<subseteq> st_key ` set p)
     \<and> acyclic (plan_edges p)"

lemma first_duplicate_None:
  "first_duplicate seen ks = None \<longleftrightarrow> distinct ks \<and> set ks \<inter> set seen = {}"
  by (induction seen ks rule: first_duplicate.induct) auto

lemma check_deps_Inr:
  "check_deps keys k ds = Inr () \<longleftrightarrow> set ds \<subseteq> set keys \<and> k \<notin> set ds"
  by (induction keys k ds rule: check_deps.induct) auto

lemma check_nodes_Inr:
  "check_nodes keys ns = Inr () \<longleftrightarrow>
     (\<forall>n \<in> set ns. set (st_depends_on n) \<subseteq> set keys \<and> st_key n \<notin> set (st_depends_on n))"
  by (induction keys ns rule: check_nodes.induct) (auto simp: rbind_Inr_iff check_deps_Inr)

lemma get_node_Some_iff:
  "distinct (map st_key p) \<Longrightarrow> get_node p k = Some n \<longleftrightarrow> n \<in> set p \<and> st_key n = k"
  using find_distinct_key [of st_key p n]
  by (auto simp: get_node_def dest: find_SomeD)

lemma edges_dep_graph:
  assumes "distinct (map st_key p)"
  shows "edges (dep_graph p) = plan_edges p"
proof -
  have d: "distinct (map st_key (rev p))" using assms by (simp flip: rev_map)
  have "d \<in> set (dep_graph p k) \<longleftrightarrow> (\<exists>n \<in> set p. st_key n = k \<and> d \<in> set (st_depends_on n))" for k d
  proof (cases "get_node (rev p) k")
    case None
    then have "\<forall>n \<in> set p. st_key n \<noteq> k"
      by (auto simp: get_node_def find_None_iff)
    with None show ?thesis by (auto simp: dep_graph_def)
  next
    case (Some n)
    with d have "n \<in> set p \<and> st_key n = k" by (simp add: get_node_Some_iff)
    moreover have "m = n" if "m \<in> set p" "st_key m = k" for m
      using that Some d get_node_Some_iff [of "rev p" k m] by simp
    ultimately show ?thesis using Some by (auto simp: dep_graph_def)
  qed
  then show ?thesis by (auto simp: edges_def plan_edges_def)
qed

lemma self_dep_cycle: "n \<in> set p \<Longrightarrow> st_key n \<in> set (st_depends_on n) \<Longrightarrow> \<not> acyclic (plan_edges p)"
  by (auto simp: acyclic_def plan_edges_def)

lemma validate_Inr: "validate p = Inr () \<longleftrightarrow> valid_plan p"
proof (cases "distinct (map st_key p)")
  case False
  then show ?thesis
    by (cases "first_duplicate [] (map st_key p)")
      (auto simp: validate_def valid_plan_def first_duplicate_None)
next
  case True
  then have "first_duplicate [] (map st_key p) = None" by (simp add: first_duplicate_None)
  then have "validate p = Inr () \<longleftrightarrow> check_nodes (map st_key p) p = Inr () \<and> assert_acyclic p = Inr ()"
    by (auto simp: validate_def rbind_Inr_iff)
  with True show ?thesis
    using self_dep_cycle [of _ p]
    by (auto simp: check_nodes_Inr assert_acyclic_iff edges_dep_graph valid_plan_def)
qed

text \<open>Property C1: \<open>TaskPlan.validate\<close> accepts a plan exactly when its keys are distinct, every
  dependency names another node of the plan, and the dependency relation has no cycle.  (The
  search recurses along the dependencies; Python's recursion limit is not modelled.)\<close>
theorem validate_iff_valid_plan: "validate p = Inr () \<longleftrightarrow> valid_plan p"
  by (rule validate_Inr)

lemma make_plan_Inr [plan_simps]: "make_plan p = Inr q \<longleftrightarrow> q = p \<and> valid_plan p"
  by (auto simp: make_plan_def rbind_Inr_iff validate_Inr)

lemma valid_plan_Nil [simp]: "valid_plan []"
  by (simp add: valid_plan_def plan_edges_def acyclic_def)

lemma valid_planD:
  assumes "valid_plan p"
  shows "distinct (map st_key p)" "acyclic (plan_edges p)"
    "\<And>n d. n \<in> set p \<Longrightarrow> d \<in> set (st_depends_on n) \<Longrightarrow> \<exists>m \<in> set p. st_key m = d"
  using assms by (auto simp: valid_plan_def)

section \<open>Every constructor and mutation validates\<close>

lemma plan_from_dict_valid: "plan_from_dict v = Inr p \<Longrightarrow> valid_plan p"
  by (auto simp: plan_from_dict_def rbind_Inr_iff make_plan_Inr
      split: if_splits json.splits)

lemma update_node_Inr:
  "update_node p key patch = Inr q \<longleftrightarrow>
     (\<exists>n m. (\<forall>nv \<in> set patch. fst nv \<noteq> ''self'' \<and> fst nv \<noteq> ''key'') \<and> get_node p key = Some n
       \<and> check_status_patch key n patch = Inr () \<and> rfold patch_field patch n = Inr m
       \<and> q = replace_first key m p \<and> valid_plan q)"
  by (auto simp: update_node_def rbind_Inr_iff make_plan_Inr find_None_iff dest!: find_SomeD
      split: option.splits)

text \<open>Property C2: whatever builds or changes a plan and does not raise leaves a valid DAG:
  parsing a stored document, adding nodes, patching a node and removing one.\<close>
theorem plan_operations_keep_valid:
  "plan_from_dict v = Inr q \<or> add_nodes p ds = Inr q \<or> update_node p key patch = Inr q
     \<or> remove_node p key = Inr q \<Longrightarrow> valid_plan q"
  by (auto simp: plan_from_dict_valid add_nodes_def remove_node_def update_node_Inr
      rbind_Inr_iff make_plan_Inr split: option.splits)

section \<open>How a patch changes a node\<close>

lemma set_node_field_frame [simp]:
  "st_key (set_node_field name v n) = st_key n"
  "name \<noteq> ''status'' \<Longrightarrow> st_status (set_node_field name v n) = st_status n"
  by (auto simp: set_node_field_def split: json.splits option.splits)

lemma set_node_field_status:
  "status_of v = Some s \<Longrightarrow> st_status (set_node_field ''status'' v n) = s"
  by (simp add: set_node_field_def)

lemma coerce_status [simp]: "coerce_node_field k ''status'' v = Inr v"
  by (simp add: coerce_node_field_def plain_str_fields_def nullable_str_fields_def)

lemma patch_field_frame:
  assumes "patch_field (name, v) n = Inr m"
  shows "st_key m = st_key n"
    and "name \<noteq> ''status'' \<Longrightarrow> st_status m = st_status n"
    and "name = ''status'' \<Longrightarrow> status_of v = Some s \<Longrightarrow> st_status m = s"
  using assms
  by (auto simp: patch_field_def rbind_Inr_iff set_node_field_status split: if_splits)

lemma patch_fields_key: "rfold patch_field patch n = Inr m \<Longrightarrow> st_key m = st_key n"
  by (rule rfold_invariant [where P = "\<lambda>x. st_key x = st_key n"])
    (auto dest: patch_field_frame(1))

lemma patch_fields_no_status:
  "rfold patch_field patch n = Inr m \<Longrightarrow> ''status'' \<notin> fst ` set patch \<Longrightarrow> st_status m = st_status n"
  by (rule rfold_invariant [where P = "\<lambda>x. st_status x = st_status n"])
    (force dest: patch_field_frame(2))+

lemma patch_fields_status:
  assumes "rfold patch_field patch n = Inr m" "distinct (map fst patch)"
    and "map_of patch ''status'' = Some v" "status_of v = Some s"
  shows "st_status m = s"
  using assms
proof (induction patch arbitrary: n)
  case Nil
  then show ?case by simp
next
  case (Cons nv patch)
  obtain name w where nv: "nv = (name, w)" by (cases nv)
  with Cons.prems(1) obtain n' where n': "patch_field (name, w) n = Inr n'"
    "rfold patch_field patch n' = Inr m"
    by (auto simp: rbind_Inr_iff)
  show ?case
  proof (cases "name = ''status''")
    case True
    with Cons.prems nv have "st_status n' = s" "''status'' \<notin> fst ` set patch"
      using patch_field_frame(3) [OF n'(1) True] by auto
    with patch_fields_no_status [OF n'(2)] show ?thesis by simp
  next
    case False
    with Cons.IH [OF n'(2)] Cons.prems nv show ?thesis by simp
  qed
qed

lemma replace_first_get:
  assumes "get_node p key = Some n" and "st_key m = key"
  shows "get_node (replace_first key m p) key = Some m"
    and "k \<noteq> key \<Longrightarrow> get_node (replace_first key m p) k = get_node p k"
  using assms by (induction p) (auto simp: get_node_def split: if_splits)

lemma replace_first_keys:
  "st_key m = key \<Longrightarrow> map st_key (replace_first key m p) = map st_key p"
  by (induction p) auto

lemma update_node_step:
  assumes "update_node p key patch = Inr q" and "distinct (map fst patch)"
  shows "\<exists>n m. get_node p key = Some n \<and> get_node q key = Some m
      \<and> (st_status m = st_status n \<or> st_status m \<in> set (node_transitions (st_status n)))
      \<and> map st_key q = map st_key p
      \<and> (\<forall>k. k \<noteq> key \<longrightarrow> get_node q k = get_node p k)"
proof -
  from assms(1) obtain n m where n: "get_node p key = Some n"
    and c: "check_status_patch key n patch = Inr ()"
    and m: "rfold patch_field patch n = Inr m" and q: "q = replace_first key m p"
    by (auto simp: update_node_Inr)
  from n m have k: "st_key m = key"
    by (auto simp: get_node_def dest: find_SomeD patch_fields_key)
  have "st_status m = st_status n \<or> st_status m \<in> set (node_transitions (st_status n))"
  proof (cases "map_of patch ''status''")
    case None
    then have "''status'' \<notin> fst ` set patch" by (simp add: map_of_eq_None_iff)
    with patch_fields_no_status [OF m] show ?thesis by simp
  next
    case (Some v)
    with c obtain s where s: "status_of v = Some s"
      "s = st_status n \<or> s \<in> set (node_transitions (st_status n))"
      by (auto simp: check_status_patch_def split: option.splits if_splits)
    with patch_fields_status [OF m assms(2) Some s(1)] show ?thesis by simp
  qed
  with n q k show ?thesis
    by (auto simp: replace_first_get replace_first_keys)
qed

text \<open>A patch that is accepted changes the node it names and no other, keeps every key
  and the order of the nodes, and moves the node's status only along an edge of
  \<open>NODE_TRANSITIONS\<close>.  (The entries of a patch are keyword arguments, so their names are
  distinct.)\<close>
theorem update_node_transition:
  assumes "update_node p key patch = Inr q" and "distinct (map fst patch)"
  shows "\<exists>n m. get_node p key = Some n \<and> get_node q key = Some m
      \<and> (st_status m = st_status n \<or> st_status m \<in> set (node_transitions (st_status n)))
      \<and> map st_key q = map st_key p
      \<and> (\<forall>k. k \<noteq> key \<longrightarrow> get_node q k = get_node p k)"
  using assms by (rule update_node_step)

lemma node_transitions_never_failed: "Failed \<notin> set (node_transitions s)"
  by (cases s) auto

lemma update_node_frozen:
  assumes "update_node p key patch = Inr q" and "distinct (map fst patch)"
    and "get_node p k = Some n" and "get_node q k = Some m"
  shows "(st_status m = Failed \<longrightarrow> st_status n = Failed) \<and> (st_status n = Done \<longrightarrow> st_status m = Done)"
proof -
  from update_node_step [OF assms(1,2)] assms(3,4)
  have "st_status m = st_status n \<or> st_status m \<in> set (node_transitions (st_status n))"
    by (cases "k = key") auto
  then show ?thesis using node_transitions_never_failed [of "st_status n"] by auto
qed

text \<open>\<open>failed\<close> is never written and \<open>done\<close> is never left: after an accepted patch a node
  is \<open>failed\<close> only if it was, and a node that was \<open>done\<close> still is.\<close>
theorem update_node_failed_done:
  assumes "update_node p key patch = Inr q" and "distinct (map fst patch)"
    and "get_node p k = Some n" and "get_node q k = Some m"
  shows "(st_status m = Failed \<longrightarrow> st_status n = Failed) \<and> (st_status n = Done \<longrightarrow> st_status m = Done)"
  using assms by (rule update_node_frozen)

section \<open>Ready and unresolved nodes\<close>

lemma done_keys_iff: "k \<in> set (done_keys p) \<longleftrightarrow> (\<exists>n \<in> set p. st_key n = k \<and> st_status n = Done)"
  by (auto simp: done_keys_def)

lemma ready_keys_iff:
  "k \<in> set (ready_keys p) \<longleftrightarrow> (\<exists>n \<in> set p. st_key n = k \<and> st_status n \<in> {Planned, Paused}
     \<and> set (st_depends_on n) \<subseteq> set (done_keys p))"
  by (auto simp: ready_keys_def)

lemma unresolved_status: "s \<in> set unresolved_statuses \<longleftrightarrow> s \<noteq> Done \<and> s \<noteq> Failed"
  by (cases s) (auto simp: unresolved_statuses_def)

lemma unresolved_keys_Nil:
  "unresolved_keys p = [] \<longleftrightarrow> (\<forall>n \<in> set p. st_status n = Done \<or> st_status n = Failed)"
  by (auto simp: unresolved_keys_def filter_empty_conv unresolved_status)

lemma plan_edges_wf:
  assumes "valid_plan p"
  shows "wf ((plan_edges p)\<inverse>)"
proof (rule finite_acyclic_wf_converse)
  have "plan_edges p \<subseteq> (\<lambda>(n, d). (st_key n, d)) ` (Sigma (set p) (\<lambda>n. set (st_depends_on n)))"
    by (force simp: plan_edges_def)
  then show "finite (plan_edges p)" by (rule finite_subset) auto
qed (use assms in \<open>auto dest: valid_planD\<close>)

text \<open>Property C3: a valid plan whose nodes are all waiting (\<open>planned\<close> or \<open>paused\<close>) or \<open>done\<close> never
  deadlocks: while a node is left, some node is dispatchable.  (A node in flight, in review, in
  rework or failed is waited for, or acted on, before anything else.)\<close>
theorem plan_progress:
  assumes "valid_plan p"
    and "\<forall>n \<in> set p. st_status n \<in> {Planned, Paused, Done}"
    and "unresolved_keys p \<noteq> []"
  shows "ready_keys p \<noteq> []"
proof -
  let ?u = "{k. \<exists>n \<in> set p. st_key n = k \<and> st_status n \<noteq> Done}"
  from assms(3) obtain n0 where "n0 \<in> set p" "st_status n0 \<noteq> Done"
    by (auto simp: unresolved_keys_Nil)
  then have u: "st_key n0 \<in> ?u" by blast
  obtain z where z: "z \<in> ?u"
    and min: "\<And>y. (y, z) \<in> (plan_edges p)\<inverse> \<Longrightarrow> y \<notin> ?u"
    by (rule wfE_min [OF plan_edges_wf [OF assms(1)] u]) (rule that)
  from z obtain n where n: "n \<in> set p" "st_key n = z" "st_status n \<noteq> Done" by blast
  have "set (st_depends_on n) \<subseteq> set (done_keys p)"
  proof
    fix d
    assume d: "d \<in> set (st_depends_on n)"
    with n have "d \<notin> ?u" by (intro min) (auto simp: plan_edges_def)
    moreover obtain m where "m \<in> set p" "st_key m = d"
      using valid_planD(3) [OF assms(1) n(1) d] by blast
    ultimately show "d \<in> set (done_keys p)" by (auto simp: done_keys_iff)
  qed
  moreover have "st_status n \<in> {Planned, Paused}" using assms(2) n by blast
  ultimately have "z \<in> set (ready_keys p)" using n by (auto simp: ready_keys_iff)
  then show ?thesis by auto
qed

text \<open>The views of a plan agree: every dispatchable node counts as unresolved, nothing is
  unresolved exactly when every node is \<open>done\<close> or \<open>failed\<close>, and \<open>all_done\<close> is the case of a
  non-empty plan whose nodes are all \<open>done\<close>, which has nothing unresolved and nothing ready.\<close>
theorem plan_views_agree:
  "set (ready_keys p) \<subseteq> set (unresolved_keys p)
   \<and> (unresolved_keys p = [] \<longleftrightarrow> (\<forall>n \<in> set p. st_status n = Done \<or> st_status n = Failed))
   \<and> (all_done p \<longleftrightarrow> p \<noteq> [] \<and> done_keys p = map st_key p)
   \<and> (all_done p \<longrightarrow> unresolved_keys p = [] \<and> ready_keys p = [])"
proof -
  have "set (ready_keys p) \<subseteq> set (unresolved_keys p)"
    by (auto simp: ready_keys_iff unresolved_keys_def unresolved_status)
  moreover have "(\<forall>n \<in> set p. st_status n = Done) \<longleftrightarrow> done_keys p = map st_key p"
  proof
    assume "done_keys p = map st_key p"
    then have "length (filter (\<lambda>n. st_status n = Done) p) = length p"
      by (metis done_keys_def length_map)
    then show "\<forall>n \<in> set p. st_status n = Done"
      using length_filter_less [of _ p "\<lambda>n. st_status n = Done"] by fastforce
  qed (simp add: done_keys_def)
  moreover have "all_done p \<Longrightarrow> ready_keys p = []"
    by (auto simp: all_done_def ready_keys_def filter_empty_conv)
  ultimately show ?thesis by (auto simp: all_done_def unresolved_keys_Nil)
qed

section \<open>The JSON form\<close>

definition wf_node :: "subtask \<Rightarrow> bool" where
  "wf_node n \<longleftrightarrow> st_key n \<noteq> [] \<and> strip (st_key n) = st_key n \<and> st_title n \<noteq> []
     \<and> st_agent n \<noteq> Some [] \<and> st_parallel_group n \<noteq> Some []
     \<and> st_latest_run n \<noteq> Some [] \<and> st_review_feedback n \<noteq> Some []"

lemma nullable_str_nonempty [simp]: "nullable_str v \<noteq> Some []"
  by (simp add: nullable_str_def py_str_nonempty)

lemma py_str_py_or_nonempty: "k \<noteq> [] \<Longrightarrow> py_str (py_or v (JStr k)) \<noteq> []"
  by (simp add: py_or_def py_str_nonempty)

lemma subtask_from_dict_wf:
  assumes "subtask_from_dict v = Inr n"
  shows "wf_node n"
  using assms
  by (auto simp: subtask_from_dict_def wf_node_def py_str_py_or_nonempty Let_def
      split: json.splits if_splits option.splits sum.splits)

lemma plain_str_JStr [simp]: "plain_str (JStr s) = s"
  by (cases s) (simp_all add: plain_str_def py_or_def)

lemma nullable_opt_json [simp]: "x \<noteq> Some [] \<Longrightarrow> nullable_str (opt_json x) = x"
  by (cases x) (auto simp: nullable_str_def opt_json_def)

lemma depends_list_JStrs [simp]: "depends_list (JList (map JStr ds)) = Some ds"
  by (cases ds) (simp_all add: depends_list_def py_or_def)

lemma status_or_default [simp]:
  "py_or (JStr (status_name s)) d = JStr (status_name s)"
  by (cases s) (simp_all add: py_or_def)

lemma attempts_or_zero [simp]: "py_or (JInt i) (JInt 0) = JInt i"
  by (simp add: py_or_def)

lemma title_or_key [simp]: "t \<noteq> [] \<Longrightarrow> py_or (JStr t) d = JStr t"
  by (simp add: py_or_def)

lemma subtask_roundtrip:
  assumes "wf_node n"
  shows "subtask_from_dict (subtask_to_dict n) = Inr n"
  using assms
  by (simp add: wf_node_def subtask_from_dict_def subtask_to_dict_def dget_def Let_def)

lemma plan_roundtrip_wf:
  assumes "valid_plan p" and "\<forall>n \<in> set p. wf_node n"
  shows "plan_from_dict (plan_to_dict p) = Inr p"
proof -
  have "rmap subtask_from_dict (map subtask_to_dict p) = Inr p"
    using assms(2) by (induction p) (simp_all add: subtask_roundtrip)
  moreover have "py_or (JList (map subtask_to_dict p)) (JList []) = JList (map subtask_to_dict p)"
    by (cases p) (simp_all add: py_or_def)
  ultimately show ?thesis
    using assms(1) by (simp add: plan_from_dict_def plan_to_dict_def dget_def make_plan_Inr)
qed

lemma plan_from_dict_wf:
  assumes "plan_from_dict v = Inr p"
  shows "\<forall>n \<in> set p. wf_node n"
proof -
  have "p = [] \<or> (\<exists>xs. rmap subtask_from_dict xs = Inr p)"
    using assms
    by (auto simp: plan_from_dict_def rbind_Inr_iff make_plan_Inr split: if_splits json.splits)
  then show ?thesis using rmap_Inr_set subtask_from_dict_wf by fastforce
qed

text \<open>Property C4: the stored document is a faithful image of the plan: any plan parsed from JSON is
  written to a document that parses back to the same plan.\<close>
theorem plan_json_roundtrip:
  assumes "plan_from_dict v = Inr p"
  shows "plan_from_dict (plan_to_dict p) = Inr p"
  using assms by (intro plan_roundtrip_wf plan_from_dict_valid plan_from_dict_wf)

text \<open>The two ways into a node disagree on an empty title, against the stated intent of
  \<open>_coerce_node_field\<close>: a patch that sets \<open>title\<close> to the empty string is accepted and stored,
  but the stored plan does not parse back to the plan that was written.\<close>
theorem empty_title_patch_not_stable:
  assumes "update_node p key [(''title'', JStr [])] = Inr q"
  shows "plan_from_dict (plan_to_dict q) \<noteq> Inr q"
proof
  assume "plan_from_dict (plan_to_dict q) = Inr q"
  then have wf: "\<forall>n \<in> set q. wf_node n" by (rule plan_from_dict_wf)
  from assms obtain n m where n: "get_node p key = Some n"
    and m: "rfold patch_field [(''title'', JStr [])] n = Inr m" and q: "q = replace_first key m p"
    by (auto simp: update_node_Inr)
  have "st_title m = []"
    using m by (auto simp: patch_field_def node_fields_def coerce_node_field_def
        plain_str_fields_def set_node_field_def rbind_Inr_iff)
  moreover have "m \<in> set q"
    using n m q replace_first_get(1) [of p key n m] patch_fields_key [OF m]
    by (auto simp: get_node_def dest!: find_SomeD)
  ultimately show False using wf by (auto simp: wf_node_def)
qed

text \<open>The two ways into a node disagree on an unreadable attempt count too: patching it
  in place is refused with a \<open>PlanError\<close>, while a node parsed from JSON raises the bare
  \<open>ValueError\<close> or \<open>TypeError\<close> of \<open>int()\<close>, which is not a \<open>PlanError\<close>.\<close>
theorem bad_attempts_paths_differ:
  assumes "py_int v = Inl e" and "e \<noteq> IntOverflowError" and "truthy v"
    and "strip k \<noteq> []"
  shows "coerce_node_field k ''attempts'' v = Inl (PlanError (BadAttempts k))
    \<and> subtask_from_dict (JDict [(''key'', JStr k), (''attempts'', v)]) = Inl (IntError e)"
proof -
  have "status_of (py_or JNull (JStr ''planned'')) = Some Planned"
    by (simp add: py_or_def status_of_def subtask_statuses_def)
  moreover have "depends_list JNull = Some []" by (simp add: depends_list_def py_or_def)
  moreover have "py_or v (JInt 0) = v" using assms(3) by (simp add: py_or_def)
  ultimately show ?thesis
    using assms
    by (cases e) (simp_all add: coerce_node_field_def plain_str_fields_def nullable_str_fields_def
        subtask_from_dict_def dget_def Let_def)
qed

end
