(* ===== verification/TaskState.thy ===== *)
theory TaskState
  imports PlanFacts
begin

text \<open>
  \<^verbatim>\<open>backend/valuz_agent/modules/tasks/task_state.py\<close> and
  \<^verbatim>\<open>backend/valuz_agent/modules/tasks/member_state.py\<close>: the task-level status machine, the
  vocabulary of run rows, and the pure classification of a member run from its kernel
  session state.
\<close>

section \<open>Task statuses\<close>

datatype task_status = TDraft | TActive | TPaused | TStopped | TCompleted | TBlocked | TAbandoned

fun task_status_name :: "task_status \<Rightarrow> string" where
  "task_status_name TDraft = ''draft''"
| "task_status_name TActive = ''active''"
| "task_status_name TPaused = ''paused''"
| "task_status_name TStopped = ''stopped''"
| "task_status_name TCompleted = ''completed''"
| "task_status_name TBlocked = ''blocked''"
| "task_status_name TAbandoned = ''abandoned''"

definition task_statuses :: "task_status list" where
  "task_statuses = [TDraft, TActive, TPaused, TStopped, TCompleted, TBlocked, TAbandoned]"

definition task_status_of :: "string \<Rightarrow> task_status option" where
  "task_status_of s = List.find (\<lambda>t. task_status_name t = s) task_statuses"

lemma task_status_of_name [simp]: "task_status_of (task_status_name t) = Some t"
  by (cases t) (simp_all add: task_status_of_def task_statuses_def)

lemma task_status_of_SomeD: "task_status_of s = Some t \<Longrightarrow> s = task_status_name t"
  by (auto simp: task_status_of_def dest!: find_SomeD)

definition terminal_statuses :: "task_status list" where
  "terminal_statuses = [TCompleted, TAbandoned]"

text \<open>The key \<open>None\<close> stands for a row about to be inserted.\<close>

fun allowed_transitions :: "task_status option \<Rightarrow> task_status list" where
  "allowed_transitions None = [TDraft, TActive]"
| "allowed_transitions (Some TDraft) = [TActive, TAbandoned]"
| "allowed_transitions (Some TActive) = [TPaused, TStopped, TCompleted, TBlocked]"
| "allowed_transitions (Some TPaused) = [TActive, TStopped]"
| "allowed_transitions (Some TBlocked) = [TActive, TStopped]"
| "allowed_transitions (Some TStopped) = [TActive]"
| "allowed_transitions (Some TCompleted) = [TActive]"
| "allowed_transitions (Some TAbandoned) = []"

datatype state_error =
    UnknownTarget string
  | UnknownSource string
  | IllegalTaskTransition "string option" string
  | InvalidTaskStatus string

definition is_valid_status :: "string \<Rightarrow> bool" where
  "is_valid_status s = (task_status_of s \<noteq> None)"

definition assert_transition :: "string option \<Rightarrow> string \<Rightarrow> state_error + unit" where
  "assert_transition src dst =
     (if \<not> is_valid_status dst then Inl (UnknownTarget dst)
      else (case src of
        None \<Rightarrow>
          (if dst \<in> set (map task_status_name (allowed_transitions None)) then Inr ()
           else Inl (IllegalTaskTransition None dst))
      | Some s \<Rightarrow>
          (if \<not> is_valid_status s then Inl (UnknownSource s)
           else if dst \<in> set (map task_status_name (allowed_transitions (task_status_of s)))
             then Inr ()
           else Inl (IllegalTaskTransition src dst))))"

lemma valid_status_literals [simp]:
  "is_valid_status ''draft''" "is_valid_status ''active''" "is_valid_status ''paused''"
  "is_valid_status ''stopped''" "is_valid_status ''completed''" "is_valid_status ''blocked''"
  "is_valid_status ''abandoned''"
  by (simp_all add: is_valid_status_def task_status_of_def task_statuses_def)

lemma is_valid_status_iff: "is_valid_status s \<longleftrightarrow> (\<exists>t. s = task_status_name t)"
  by (auto simp: is_valid_status_def dest: task_status_of_SomeD)

lemma task_status_name_inject [simp]: "task_status_name s = task_status_name t \<longleftrightarrow> s = t"
  by (metis task_status_of_name option.inject)

lemma assert_transition_Inr:
  "assert_transition (Some s) d = Inr () \<longleftrightarrow>
     (\<exists>a b. s = task_status_name a \<and> d = task_status_name b \<and> b \<in> set (allowed_transitions (Some a)))"
  by (auto simp: assert_transition_def is_valid_status_iff)

text \<open>A task's status can move from one value to another in any number of legal steps.\<close>

inductive status_reach :: "task_status \<Rightarrow> task_status \<Rightarrow> bool" where
  status_refl: "status_reach s s"
| status_step: "status_reach s t \<Longrightarrow> u \<in> set (allowed_transitions (Some t)) \<Longrightarrow> status_reach s u"

inductive_cases status_reachE: "status_reach s u"

lemma status_reach_one: "u \<in> set (allowed_transitions (Some s)) \<Longrightarrow> status_reach s u"
  by (rule status_step [OF status_refl])

lemma abandoned_absorbing: "status_reach TAbandoned t \<Longrightarrow> t = TAbandoned"
  by (induction TAbandoned t rule: status_reach.induct) auto

text \<open>A task can be brought back to \<open>active\<close> from every status but \<open>abandoned\<close>, and from
  \<open>abandoned\<close> no other status is ever reached.\<close>
theorem status_recoverable:
  "status_reach s TActive \<longleftrightarrow> s \<noteq> TAbandoned"
proof
  assume "status_reach s TActive"
  then show "s \<noteq> TAbandoned" using abandoned_absorbing by auto
next
  assume "s \<noteq> TAbandoned"
  then show "status_reach s TActive"
    by (cases s) (auto intro: status_refl status_reach_one)
qed

text \<open>\<open>completed\<close> is listed among the statuses that admit no transition out, yet
  \<open>assert_transition\<close> lets a completed task become \<open>active\<close> again; of the listed statuses
  only \<open>abandoned\<close> is final.\<close>
theorem terminal_status_not_final:
  "TCompleted \<in> set terminal_statuses
   \<and> assert_transition (Some (task_status_name TCompleted)) (task_status_name TActive) = Inr ()
   \<and> (\<forall>d. assert_transition (Some (task_status_name TAbandoned)) d \<noteq> Inr ())"
proof -
  have "assert_transition (Some (task_status_name TCompleted)) (task_status_name TActive) = Inr ()"
    by (subst assert_transition_Inr, rule exI [of _ TCompleted], rule exI [of _ TActive])
      (simp del: task_status_name.simps)
  moreover have "assert_transition (Some (task_status_name TAbandoned)) d \<noteq> Inr ()" for d
    by (auto simp: assert_transition_Inr simp del: task_status_name.simps)
  ultimately show ?thesis by (simp add: terminal_statuses_def)
qed

definition non_reviewable_done :: "string list" where
  "non_reviewable_done = [''terminated'', ''error'', ''cancelled'', ''interrupted'']"

datatype run_status = RActive | RPaused | RCompleted | RRejected | RArchived

datatype run_kind = LeadRun | SubtaskRun

section \<open>Members\<close>

datatype disposition = DResume | DCompleted | DFailed | DInFlight

definition resume_retry_cap :: int where
  "resume_retry_cap = 3"

text \<open>
  A kernel stop reason is absent, a dict, or an object read through \<open>getattr\<close> for its
  three attributes.
\<close>

datatype stop_reason = SRNone | SRDict "(string \<times> json) list" | SRObject json json json

fun stop_reason_dict :: "stop_reason \<Rightarrow> (string \<times> json) list" where
  "stop_reason_dict SRNone = []"
| "stop_reason_dict (SRDict d) = d"
| "stop_reason_dict (SRObject t c m) = [(''type'', t), (''category'', c), (''message'', m)]"

definition restartable_categories :: "json list" where
  "restartable_categories = [JStr ''host_restart'', JStr ''interrupted'', JStr ''user_interrupt'']"

definition classify_member :: "string option \<Rightarrow> stop_reason \<Rightarrow> disposition" where
  "classify_member status sr =
     (if status = None \<or> status = Some ''created'' then DResume
      else if status = Some ''running'' then DInFlight
      else (let d = stop_reason_dict sr; typ = dget d ''type'' in
        if typ = JStr ''end_turn'' then DCompleted
        else if typ = JStr ''error'' then
          (if dget d ''category'' \<in> set restartable_categories then DResume else DFailed)
        else DResume))"

record member_reconcile =
  mr_disposition :: disposition
  mr_run_status :: "run_status option"
  mr_node_status :: "subtask_status option"
  mr_resume :: bool
  mr_deliver :: bool
  mr_reason :: string

definition reconcile :: "string option \<Rightarrow> stop_reason \<Rightarrow> int \<Rightarrow> int \<Rightarrow> member_reconcile" where
  "reconcile status sr node_attempts retry_cap =
     (case classify_member status sr of
        DInFlight \<Rightarrow> \<lparr>mr_disposition = DInFlight, mr_run_status = None, mr_node_status = None,
          mr_resume = False, mr_deliver = False, mr_reason = []\<rparr>
      | DCompleted \<Rightarrow> \<lparr>mr_disposition = DCompleted, mr_run_status = Some RCompleted,
          mr_node_status = Some InReview, mr_resume = False, mr_deliver = True, mr_reason = []\<rparr>
      | DFailed \<Rightarrow> \<lparr>mr_disposition = DFailed, mr_run_status = Some RArchived,
          mr_node_status = Some Rework, mr_resume = False, mr_deliver = False,
          mr_reason = py_str (py_or (dget (stop_reason_dict sr) ''message'')
            (JStr ''member session errored''))\<rparr>
      | DResume \<Rightarrow>
          (if retry_cap \<le> node_attempts then
             \<lparr>mr_disposition = DFailed, mr_run_status = Some RArchived,
              mr_node_status = Some Rework, mr_resume = False, mr_deliver = False,
              mr_reason = ''resume retry cap ('' @ str_int retry_cap @ '') exhausted''\<rparr>
           else
             \<lparr>mr_disposition = DResume, mr_run_status = Some RActive,
              mr_node_status = Some InProgress, mr_resume = True, mr_deliver = False,
              mr_reason = []\<rparr>))"

text \<open>Reconciliation only ever asks for node moves the plan accepts from a node that was
  running or parked, it respawns a member only while the attempts are below the cap, it
  respawns exactly when it sets the run active, and it reports to the lead exactly when the
  node goes to review.\<close>
theorem reconcile_sound:
  assumes "n \<in> {InProgress, Paused}" and "mr_node_status (reconcile status sr att cap) = Some m"
  shows "(m = n \<or> m \<in> set (node_transitions n))
    \<and> (mr_resume (reconcile status sr att cap) \<longrightarrow> att < cap \<and> m = InProgress)
    \<and> (mr_resume (reconcile status sr att cap) \<longleftrightarrow>
         mr_run_status (reconcile status sr att cap) = Some RActive)
    \<and> (mr_deliver (reconcile status sr att cap) \<longleftrightarrow> m = InReview)"
  using assms
  by (cases "classify_member status sr") (auto simp: reconcile_def split: if_splits)

text \<open>
  A member that keeps losing its process is respawned again and again, each time with one
  more attempt on its node; \<open>respawns\<close> counts how often, within a given number of rounds.
\<close>

fun respawns :: "nat \<Rightarrow> string option \<Rightarrow> stop_reason \<Rightarrow> int \<Rightarrow> nat" where
  "respawns 0 status sr att = 0"
| "respawns (Suc r) status sr att =
     (if mr_resume (reconcile status sr att resume_retry_cap)
      then Suc (respawns r status sr (att + 1)) else 0)"

lemma respawns_bound: "att \<le> resume_retry_cap \<Longrightarrow> int (respawns r status sr att) \<le> resume_retry_cap - att"
proof (induction r arbitrary: att)
  case 0
  then show ?case by simp
next
  case (Suc r)
  have "att < resume_retry_cap" if "mr_resume (reconcile status sr att resume_retry_cap)"
    using that by (auto simp: reconcile_def split: disposition.splits if_splits)
  with Suc.IH [of "att + 1"] Suc.prems show ?case by fastforce
qed

text \<open>A broken member is not respawned forever: from a fresh node, recovery respawns it at
  most three times however often it dies.\<close>
theorem respawn_cap: "respawns r status sr 0 \<le> 3"
  using respawns_bound [of 0 r status sr] by (simp add: resume_retry_cap_def)

end
