(* ===== verification/Store.thy ===== *)
theory Store
  imports TaskState
begin

text \<open>
  \<^verbatim>\<open>backend/valuz_agent/modules/tasks/models.py\<close> and
  \<^verbatim>\<open>backend/valuz_agent/modules/tasks/datastore.py\<close>: the tables of the task module and the
  statements the datastores run against them.  The store is explicit; a statement takes it
  and returns the new one.  Each datastore write commits on its own, so between the read
  and the write of an operation other processes may write: where the code's outcome depends
  on it, the operation takes the interference as an argument, a function on the store that
  stands for whatever the others committed in between.
\<close>

section \<open>Rows\<close>

record task_row =
  tr_id :: string
  tr_user :: string
  tr_project :: string
  tr_file_path :: string
  tr_title :: string
  tr_goal :: string
  tr_status :: string
  tr_created_by :: string
  tr_lead_agent :: string
  tr_holder :: string
  tr_metadata :: "(string \<times> json) list"
  tr_plan :: json
  tr_plan_version :: int
  tr_committed_at :: "int option"
  tr_trigger_type :: string
  tr_trigger_task :: "string option"
  tr_trigger_agent :: "string option"
  tr_trigger_automation :: "string option"
  tr_created_at :: int
  tr_updated_at :: int

text \<open>
  An event's payload: the two that carry a plan, and the flat dicts of the others.  A
  snapshot pairs each panel row with the display name stamped on it.
\<close>

datatype payload =
    PPlanned plan int
  | PSnapshot "(panel_row \<times> string option) list" int bool string string
  | PRevised "json list" "json list" int
  | PDict "(string \<times> json) list"

record event_row =
  ev_user :: string
  ev_project :: string
  ev_task :: string
  ev_sequence :: int
  ev_type :: string
  ev_actor :: string
  ev_session :: "string option"
  ev_payload :: payload

record run_row =
  rr_user :: string
  rr_project :: string
  rr_task :: "string option"
  rr_session :: string
  rr_agent :: string
  rr_sequence :: int
  rr_kind :: run_kind
  rr_subtask_key :: "string option"
  rr_status :: run_status
  rr_label :: "string option"
  rr_goal :: "string option"
  rr_dispatched_by :: "string option"
  rr_project_mode :: string
  rr_run_dir :: "string option"
  rr_manifest :: "json option"
  rr_ended_at :: "int option"

datatype mail_state = MPending | MConsumed | MCancelled

record mail_row =
  mb_id :: nat
  mb_user :: string
  mb_session :: string
  mb_task :: string
  mb_project :: string
  mb_position :: int
  mb_kind :: string
  mb_text :: string
  mb_from :: string
  mb_origin :: string
  mb_payload :: "(string \<times> json) list"
  mb_state :: mail_state
  mb_consumed_at :: "int option"
  mb_consumed_by :: "string option"

text \<open>
  One line of the rendered plan file: fixed text, or a plan node's line with its status,
  key, agent, title and dependencies.
\<close>

datatype md_line = MdText string | MdNode string string string string "string list"

text \<open>
  The store: the four tables, the clock \<open>now_ms\<close> reads, whether an enclosing transaction
  defers commits, the host process's identity, the display name of a project's agent, the
  rendered plan files, and what left the database or happened outside it, as logs: doorbells
  rung, files reported to the workspace-sync port, actor loops spawned (session and prompt),
  terminal statuses announced on the bus (task, owner, status), user notifications (task,
  event type, text), memory review candidates and interrupts sent to kernel sessions.
\<close>

record store =
  tasks :: "task_row list"
  events :: "event_row list"
  runs :: "run_row list"
  mailbox :: "mail_row list"
  clock :: int
  deferred :: bool
  host :: string
  agent_names :: "string \<Rightarrow> string \<Rightarrow> string option"
  writable :: "string \<Rightarrow> bool"
  plan_files :: "(string \<times> md_line list) list"
  rung :: "string list"
  synced :: "(string \<times> string \<times> string) list"
  spawned :: "(string \<times> string) list"
  announced :: "(string \<times> string \<times> string) list"
  notices :: "(string \<times> string \<times> string) list"
  candidates :: "(string \<times> string) list"
  interrupts :: "string list"

section \<open>Tasks\<close>

definition pick_lead_run :: "run_row list \<Rightarrow> run_row option" where
  "pick_lead_run rs = (let leads = filter (\<lambda>r. rr_kind r = LeadRun) rs in
     case List.find (\<lambda>r. rr_status r \<noteq> RRejected) leads of
       Some r \<Rightarrow> Some r
     | None \<Rightarrow> (case leads of [] \<Rightarrow> None | r # _ \<Rightarrow> Some r))"

definition get_task :: "string \<Rightarrow> string \<Rightarrow> store \<Rightarrow> task_row option" where
  "get_task user tid d = List.find (\<lambda>t. tr_id t = tid \<and> tr_user t = user) (tasks d)"

definition get_task_by_project :: "string \<Rightarrow> string \<Rightarrow> string \<Rightarrow> store \<Rightarrow> task_row option" where
  "get_task_by_project user project tid d =
     List.find (\<lambda>t. tr_project t = project \<and> tr_id t = tid \<and> tr_user t = user) (tasks d)"

definition list_active :: "store \<Rightarrow> task_row list" where
  "list_active d = filter (\<lambda>t. tr_status t = ''active'') (tasks d)"

definition create_task :: "string \<Rightarrow> task_row \<Rightarrow> store \<Rightarrow> store" where
  "create_task user row d = d\<lparr>tasks := tasks d @ [row\<lparr>tr_user := user\<rparr>]\<rparr>"

text \<open>
  The row object is attached to the session, so merging it is the identity and the commit
  writes the attributes assigned since the row was loaded: \<open>assign\<close>.  \<open>False\<close> is the
  \<open>StaleDataError\<close> of an update that matches no row.
\<close>

definition update_task :: "string \<Rightarrow> (task_row \<Rightarrow> task_row) \<Rightarrow> store \<Rightarrow> bool \<times> store" where
  "update_task tid assign d =
     (0 < matched (\<lambda>t. tr_id t = tid) (tasks d),
      d\<lparr>tasks := update_where (\<lambda>t. tr_id t = tid)
         (\<lambda>t. (assign t)\<lparr>tr_updated_at := clock d\<rparr>) (tasks d)\<rparr>)"

text \<open>
  The compare-and-swap on \<open>plan_version\<close>.  The refresh after it reads the row by its
  primary key: the result is \<open>None\<close> when the row is gone (\<open>InvalidRequestError\<close>).
\<close>

definition cas_matches :: "string \<Rightarrow> string \<Rightarrow> int \<Rightarrow> task_row \<Rightarrow> bool" where
  "cas_matches user tid expected t =
     (tr_id t = tid \<and> tr_user t = user \<and> tr_plan_version t = expected)"

definition cas_update_plan :: "string \<Rightarrow> task_row \<Rightarrow> json \<Rightarrow> int \<Rightarrow> store
    \<Rightarrow> (bool \<times> task_row) option \<times> store" where
  "cas_update_plan user row doc expected d =
     (let m = cas_matches user (tr_id row) expected;
          d' = d\<lparr>tasks := update_where m (\<lambda>t. t\<lparr>tr_plan := doc, tr_plan_version := expected + 1,
                 tr_updated_at := clock d\<rparr>) (tasks d)\<rparr>
      in (map_option (\<lambda>r. (0 < matched m (tasks d), r))
            (List.find (\<lambda>t. tr_id t = tr_id row) (tasks d')), d'))"

definition current_status :: "string \<Rightarrow> string \<Rightarrow> store \<Rightarrow> string option" where
  "current_status user tid d = map_option tr_status (get_task user tid d)"

text \<open>
  The status door.  \<open>intf\<close> is what other writers commit between the read of the current
  status and the conditional update.
\<close>

definition set_status_where :: "string \<Rightarrow> string \<Rightarrow> string \<Rightarrow> string \<Rightarrow> store \<Rightarrow> nat \<times> store" where
  "set_status_where user tid current status d =
     (let m = (\<lambda>t. tr_id t = tid \<and> tr_user t = user \<and> tr_status t = current) in
      (matched m (tasks d),
       d\<lparr>tasks := update_where m (\<lambda>t. t\<lparr>tr_status := status, tr_updated_at := clock d\<rparr>) (tasks d)\<rparr>))"

definition update_task_status :: "string \<Rightarrow> string \<Rightarrow> string \<Rightarrow> string option \<Rightarrow> (store \<Rightarrow> store)
    \<Rightarrow> store \<Rightarrow> (state_error + bool) \<times> store" where
  "update_task_status user tid status expect intf d =
     (if \<not> is_valid_status status then (Inl (InvalidTaskStatus status), d)
      else (case current_status user tid d of
        None \<Rightarrow> (Inr False, d)
      | Some current \<Rightarrow>
          if expect \<noteq> None \<and> Some current \<noteq> expect then (Inr False, d)
          else if current = status then (Inr True, d)
          else (case (if is_valid_status current then assert_transition (Some current) status
                      else Inr ()) of
            Inl e \<Rightarrow> (Inl e, d)
          | Inr _ \<Rightarrow>
              (let (n, d') = set_status_where user tid current status (intf d) in
               if 0 < n then (Inr True, d')
               else (Inr (current_status user tid d' = Some status \<and> expect = None), d')))))"

definition delete_tasks :: "string \<Rightarrow> string list \<Rightarrow> store \<Rightarrow> nat \<times> store" where
  "delete_tasks user tids d =
     (let m = (\<lambda>t. tr_user t = user \<and> tr_id t \<in> set tids) in
      if tids = [] then (0, d)
      else (matched m (tasks d), d\<lparr>tasks := filter (\<lambda>t. \<not> m t) (tasks d)\<rparr>))"

section \<open>Events\<close>

definition plan_snapshot_event :: string where
  "plan_snapshot_event = ''task_plan_update''"

definition of_task :: "string \<Rightarrow> string \<Rightarrow> string \<Rightarrow> event_row \<Rightarrow> bool" where
  "of_task user project tid e = (ev_project e = project \<and> ev_task e = tid \<and> ev_user e = user)"

text \<open>\<open>ORDER BY sequence\<close>: a stable sort.\<close>

definition by_sequence :: "event_row list \<Rightarrow> event_row list" where
  "by_sequence es = sort_key ev_sequence es"

definition list_events :: "string \<Rightarrow> string \<Rightarrow> string \<Rightarrow> bool \<Rightarrow> store \<Rightarrow> event_row list" where
  "list_events user project tid include_superseded d =
     (let mine = filter (of_task user project tid) (events d);
          snaps = map ev_sequence (filter (\<lambda>e. ev_type e = plan_snapshot_event) mine)
      in by_sequence (if include_superseded then mine
         else filter (\<lambda>e. ev_type e \<noteq> plan_snapshot_event
                        \<or> snaps \<noteq> [] \<and> ev_sequence e = Max (set snaps)) mine))"

definition list_events_after :: "string \<Rightarrow> string \<Rightarrow> string \<Rightarrow> int \<Rightarrow> store \<Rightarrow> event_row list" where
  "list_events_after user project tid after_seq d =
     by_sequence (filter (\<lambda>e. of_task user project tid e \<and> after_seq < ev_sequence e) (events d))"

text \<open>
  One attempt of \<open>append_event\<close> meets the database as it finds it: other writers may
  commit between reading the largest sequence and the insert, or the commit fails with
  SQLite's \<open>database is locked\<close>, or with another operational error.
\<close>

datatype contention = Interleave "store \<Rightarrow> store" | DbLocked | DbError

datatype append_error = UniqueViolation | OperationalFailure | AttemptsExhausted

definition seqs_of :: "string \<Rightarrow> string \<Rightarrow> store \<Rightarrow> int list" where
  "seqs_of project tid d =
     map ev_sequence (filter (\<lambda>e. ev_project e = project \<and> ev_task e = tid) (events d))"

definition next_event_seq :: "string \<Rightarrow> string \<Rightarrow> store \<Rightarrow> int" where
  "next_event_seq project tid d = max_or_0 (seqs_of project tid d) + 1"

definition lock_retry_attempts :: nat where
  "lock_retry_attempts = 12"

text \<open>
  The retry loop over at most \<open>n\<close> attempts; the environment lists what each attempt
  meets, and an attempt past its end meets no contention.
\<close>

fun append_attempts :: "nat \<Rightarrow> contention list \<Rightarrow> string \<Rightarrow> string \<Rightarrow> string \<Rightarrow> string \<Rightarrow> string
    \<Rightarrow> string option \<Rightarrow> payload \<Rightarrow> store \<Rightarrow> (append_error + event_row) \<times> store" where
  "append_attempts 0 env user project tid ty actor sess pl d = (Inl AttemptsExhausted, d)"
| "append_attempts (Suc n) env user project tid ty actor sess pl d =
     (let now = (case env of [] \<Rightarrow> Interleave (\<lambda>s. s) | c # _ \<Rightarrow> c);
          rest = (case env of [] \<Rightarrow> [] | _ # cs \<Rightarrow> cs);
          seq = next_event_seq project tid d
      in (case now of
        DbLocked \<Rightarrow> (if deferred d then (Inl OperationalFailure, d)
                     else append_attempts n rest user project tid ty actor sess pl d)
      | DbError \<Rightarrow> (Inl OperationalFailure, d)
      | Interleave f \<Rightarrow>
          (let d1 = f d;
               row = \<lparr>ev_user = user, ev_project = project, ev_task = tid, ev_sequence = seq,
                      ev_type = ty, ev_actor = actor, ev_session = sess, ev_payload = pl\<rparr>
           in if seq \<in> set (seqs_of project tid d1)
              then (if deferred d1 then (Inl UniqueViolation, d1)
                    else append_attempts n rest user project tid ty actor sess pl d1)
              else (Inr row, d1\<lparr>events := events d1 @ [row]\<rparr>))))"

text \<open>\<open>append_event\<close> as the handlers call it, with no contention on its first attempt.\<close>

definition append_event :: "string \<Rightarrow> string \<Rightarrow> string \<Rightarrow> string \<Rightarrow> string \<Rightarrow> string option
    \<Rightarrow> payload \<Rightarrow> store \<Rightarrow> store" where
  "append_event user project tid ty actor sess pl d =
     snd (append_attempts lock_retry_attempts [] user project tid ty actor sess pl d)"

definition delete_events_for_tasks :: "string \<Rightarrow> string list \<Rightarrow> store \<Rightarrow> nat \<times> store" where
  "delete_events_for_tasks user tids d =
     (let m = (\<lambda>e. ev_user e = user \<and> ev_task e \<in> set tids) in
      if tids = [] then (0, d)
      else (matched m (events d), d\<lparr>events := filter (\<lambda>e. \<not> m e) (events d)\<rparr>))"

section \<open>Runs\<close>

definition list_runs :: "string \<Rightarrow> string \<Rightarrow> store \<Rightarrow> run_row list" where
  "list_runs user tid d =
     sort_key rr_sequence (filter (\<lambda>r. rr_task r = Some tid \<and> rr_user r = user) (runs d))"

definition settled_run_statuses :: "run_status list" where
  "settled_run_statuses = [RCompleted, RRejected, RArchived]"

text \<open>\<open>GROUP BY task_id\<close>: a task without runs has no entry.\<close>

definition count_runs_by_tasks :: "string \<Rightarrow> string list \<Rightarrow> store \<Rightarrow> (string \<times> nat \<times> nat) list" where
  "count_runs_by_tasks user tids d =
     map (\<lambda>tid. let rs = filter (\<lambda>r. rr_task r = Some tid \<and> rr_user r = user) (runs d) in
            (tid, length rs, length (filter (\<lambda>r. rr_status r \<in> set settled_run_statuses) rs)))
       (filter (\<lambda>tid. \<exists>r \<in> set (runs d). rr_task r = Some tid \<and> rr_user r = user)
         (remdups tids))"

definition get_run :: "string \<Rightarrow> store \<Rightarrow> run_row option" where
  "get_run session d = List.find (\<lambda>r. rr_session r = session) (runs d)"

definition is_active_member :: "string \<Rightarrow> run_row \<Rightarrow> bool" where
  "is_active_member tid r = (rr_task r = Some tid \<and> rr_kind r = SubtaskRun \<and> rr_status r = RActive)"

definition active_member_sessions :: "string \<Rightarrow> store \<Rightarrow> string list" where
  "active_member_sessions tid d = map rr_session (filter (is_active_member tid) (runs d))"

definition has_active_members :: "string \<Rightarrow> store \<Rightarrow> bool" where
  "has_active_members tid d = (List.find (is_active_member tid) (runs d) \<noteq> None)"

definition next_run_sequence :: "string \<Rightarrow> store \<Rightarrow> int" where
  "next_run_sequence tid d =
     max_or_0 (map rr_sequence (filter (\<lambda>r. rr_task r = Some tid) (runs d))) + 1"

definition create_run :: "string \<Rightarrow> run_row \<Rightarrow> store \<Rightarrow> store" where
  "create_run user row d = d\<lparr>runs := runs d @ [row\<lparr>rr_user := user\<rparr>]\<rparr>"

definition run_updates :: "run_status \<Rightarrow> json option \<Rightarrow> int option \<Rightarrow> run_row \<Rightarrow> run_row" where
  "run_updates status manifest ended r = r\<lparr>rr_status := status,
     rr_manifest := (if manifest = None then rr_manifest r else manifest),
     rr_ended_at := (if ended = None then rr_ended_at r else ended)\<rparr>"

definition update_run_by_session :: "string \<Rightarrow> run_status \<Rightarrow> json option \<Rightarrow> int option \<Rightarrow> store
    \<Rightarrow> bool \<times> store" where
  "update_run_by_session session status manifest ended d =
     (let m = (\<lambda>r. rr_session r = session) in
      (0 < matched m (runs d),
       d\<lparr>runs := update_where m (run_updates status manifest ended) (runs d)\<rparr>))"

definition settle_run_if_active :: "string \<Rightarrow> run_status \<Rightarrow> json option \<Rightarrow> int option \<Rightarrow> store
    \<Rightarrow> bool \<times> store" where
  "settle_run_if_active session status manifest ended d =
     (let m = (\<lambda>r. rr_session r = session \<and> rr_status r = RActive) in
      (0 < matched m (runs d),
       d\<lparr>runs := update_where m (run_updates status manifest ended) (runs d)\<rparr>))"

definition delete_runs_for_tasks :: "string \<Rightarrow> string list \<Rightarrow> store \<Rightarrow> nat \<times> store" where
  "delete_runs_for_tasks user tids d =
     (let m = (\<lambda>r. rr_user r = user \<and> (\<exists>t \<in> set tids. rr_task r = Some t)) in
      if tids = [] then (0, d)
      else (matched m (runs d), d\<lparr>runs := filter (\<lambda>r. \<not> m r) (runs d)\<rparr>))"

definition delete_run :: "string \<Rightarrow> string \<Rightarrow> store \<Rightarrow> bool \<times> store" where
  "delete_run user session d =
     (let m = (\<lambda>r. rr_user r = user \<and> rr_session r = session) in
      (0 < matched m (runs d), d\<lparr>runs := filter (\<lambda>r. \<not> m r) (runs d)\<rparr>))"

end
