(* ===== verification/StoreFacts.thy ===== *)
theory StoreFacts
  imports Store
begin

text \<open>
  What the datastores guarantee: the status door writes only legal transitions and doubles
  as a mutex, the compare-and-swap on the plan version lets exactly the writer through that
  read the current version, the event log stays uniquely sequenced under contention, the
  timeline projection keeps everything but superseded snapshots, and the lead picker avoids
  rejected runs.
\<close>

definition task_ids_unique :: "store \<Rightarrow> bool" where
  "task_ids_unique d = distinct (map tr_id (tasks d))"

lemma task_ids_uniqueD:
  "task_ids_unique d \<Longrightarrow> x \<in> set (tasks d) \<Longrightarrow> y \<in> set (tasks d) \<Longrightarrow> tr_id x = tr_id y \<Longrightarrow> x = y"
  unfolding task_ids_unique_def by (auto simp: distinct_map dest: inj_onD)

lemma get_task_SomeD:
  "get_task u t d = Some r \<Longrightarrow> r \<in> set (tasks d) \<and> tr_id r = t \<and> tr_user r = u"
  by (auto simp: get_task_def dest: find_SomeD)

lemma get_task_eq_Some:
  assumes "task_ids_unique d" "r \<in> set (tasks d)" "tr_id r = t" "tr_user r = u"
  shows "get_task u t d = Some r"
proof (cases "get_task u t d")
  case None
  with assms show ?thesis by (auto simp: get_task_def find_None_iff)
next
  case (Some s)
  with assms show ?thesis using task_ids_uniqueD [OF assms(1)] by (auto dest: get_task_SomeD)
qed

section \<open>The status door\<close>

definition status_step_ok :: "string \<Rightarrow> string \<Rightarrow> bool" where
  "status_step_ok a b \<longleftrightarrow> a = b \<or> \<not> is_valid_status a \<or> assert_transition (Some a) b = Inr ()"

lemma set_status_where_frame:
  assumes "set_status_where u t a b d = (n, d')" and "status_step_ok a b"
  shows "list_all2 (\<lambda>x y. status_step_ok (tr_status x) (tr_status y)
     \<and> y = x\<lparr>tr_status := tr_status y, tr_updated_at := tr_updated_at y\<rparr>) (tasks d) (tasks d')"
  using assms
  by (auto simp: set_status_where_def Let_def update_where_def list_all2_map2 status_step_ok_def
      intro!: list_all2_same [THEN iffD2])

lemma update_task_status_cases:
  assumes "update_task_status u t s ex intf d = (r, d')"
  obtains "d' = d" "r \<noteq> Inr True \<or> current_status u t d = Some s"
    | a n where "current_status u t d = Some a" "a \<noteq> s" "is_valid_status s"
        "is_valid_status a \<Longrightarrow> assert_transition (Some a) s = Inr ()"
        "set_status_where u t a s (intf d) = (n, d')"
        "ex = None \<or> ex = Some a"
        "r = Inr (0 < n \<or> current_status u t d' = Some s \<and> ex = None)"
  using assms
  by (auto simp: update_task_status_def Let_def split: if_splits option.splits sum.splits prod.splits)

text \<open>Whatever other writers commit in between, the status door changes a row only along
  a legal transition from a recognised status (a row with an unrecognised legacy status is let
  through), and no other field of any row but its time stamp.\<close>
theorem status_door_legal:
  assumes "update_task_status u t s ex intf d = (r, d')"
  shows "d' = d \<or> list_all2 (\<lambda>x y. status_step_ok (tr_status x) (tr_status y)
     \<and> y = x\<lparr>tr_status := tr_status y, tr_updated_at := tr_updated_at y\<rparr>)
     (tasks (intf d)) (tasks d')"
  using assms
proof (cases rule: update_task_status_cases)
  case (2 a n)
  then have "status_step_ok a s" by (auto simp: status_step_ok_def)
  with set_status_where_frame [OF 2(5)] show ?thesis by simp
qed simp

lemma set_status_where_hit:
  assumes "set_status_where u t a s d = (n, d')" "0 < n" "task_ids_unique d"
  shows "current_status u t d = Some a \<and> current_status u t d' = Some s"
proof -
  let ?f = "\<lambda>x. x\<lparr>tr_status := s, tr_updated_at := clock d\<rparr>"
  from assms(1,2) obtain x where x: "x \<in> set (tasks d)" "tr_id x = t" "tr_user x = u" "tr_status x = a"
    by (auto simp: set_status_where_def Let_def matched_pos_iff)
  with assms(3) have g: "get_task u t d = Some x" by (intro get_task_eq_Some)
  have ids: "map tr_id (tasks d') = map tr_id (tasks d)"
    using assms(1) by (auto simp: set_status_where_def Let_def intro!: map_update_where_frame)
  then have u': "task_ids_unique d'" using assms(3) by (simp add: task_ids_unique_def)
  have "?f x \<in> set (tasks d')"
    using assms(1) x by (auto simp: set_status_where_def Let_def set_update_where image_iff intro!: bexI [of _ x])
  with u' x have "get_task u t d' = Some (?f x)" by (intro get_task_eq_Some) auto
  with g x show ?thesis by (simp add: current_status_def)
qed

text \<open>The draft-to-active flip is a commit mutex: when it reports success the task was
  still a draft at the moment of the write and is active after it, whatever was interleaved,
  and a second commit of the same task then fails under any interleaving.\<close>
theorem commit_flip_mutex:
  assumes "update_task_status u t ''active'' (Some ''draft'') intf d = (Inr True, d')"
    and "task_ids_unique (intf d)"
  shows "current_status u t (intf d) = Some ''draft''
    \<and> current_status u t d' = Some ''active''
    \<and> update_task_status u t ''active'' (Some ''draft'') intf' d' = (Inr False, d')"
proof -
  from assms have "current_status u t (intf d) = Some ''draft'' \<and> current_status u t d' = Some ''active''"
  proof (cases rule: update_task_status_cases [OF assms(1)])
    case 1
    with assms show ?thesis
      by (auto simp: update_task_status_def Let_def split: if_splits option.splits sum.splits prod.splits)
  next
    case (2 a n)
    with set_status_where_hit [OF 2(5) _ assms(2)] show ?thesis by auto
  qed
  then show ?thesis by (simp add: update_task_status_def)
qed

section \<open>The event log\<close>

definition event_slot :: "event_row \<Rightarrow> string \<times> string \<times> int" where
  "event_slot e = (ev_project e, ev_task e, ev_sequence e)"

text \<open>The table's unique constraint.\<close>

definition events_ok :: "store \<Rightarrow> bool" where
  "events_ok d = distinct (map event_slot (events d))"

fun contention_ok :: "contention \<Rightarrow> bool" where
  "contention_ok (Interleave f) = (\<forall>s. events_ok s \<longrightarrow> events_ok (f s))"
| "contention_ok _ = True"

lemma seqs_of_slot: "q \<in> set (seqs_of p t d) \<longleftrightarrow> (p, t, q) \<in> event_slot ` set (events d)"
  by (force simp: seqs_of_def event_slot_def)

lemma events_ok_append:
  assumes "events_ok d" "q \<notin> set (seqs_of p t d)"
    "ev_project row = p" "ev_task row = t" "ev_sequence row = q"
  shows "events_ok (d\<lparr>events := events d @ [row]\<rparr>)"
  using assms by (auto simp: events_ok_def seqs_of_slot event_slot_def)

lemma append_attempts_ok:
  assumes "append_attempts n env u p t ty a se pl d = (r, d')" "events_ok d"
    and "\<forall>c \<in> set env. contention_ok c"
  shows "events_ok d' \<and> (\<forall>row. r = Inr row \<longrightarrow> (\<exists>es. events d' = es @ [row])
     \<and> ev_project row = p \<and> ev_task row = t \<and> ev_type row = ty \<and> ev_payload row = pl)"
  using assms
proof (induction n arbitrary: env d)
  case 0
  then show ?case by auto
next
  case (Suc n)
  define now where "now = (case env of [] \<Rightarrow> Interleave (\<lambda>s. s) | c # _ \<Rightarrow> c)"
  define rest where "rest = (case env of [] \<Rightarrow> [] | _ # cs \<Rightarrow> cs)"
  have ok: "contention_ok now" "\<forall>c \<in> set rest. contention_ok c"
    using Suc.prems(3) by (auto simp: now_def rest_def split: list.splits)
  show ?case
  proof (cases now)
    case (Interleave f)
    with ok(1) Suc.prems(2) have okf: "events_ok (f d)" by simp
    let ?q = "next_event_seq p t d"
    show ?thesis
    proof (cases "?q \<in> set (seqs_of p t (f d))")
      case True
      show ?thesis
      proof (cases "deferred (f d)")
        case True
        with \<open>?q \<in> _\<close> Interleave Suc.prems(1) okf show ?thesis
          by (auto simp: Let_def simp flip: now_def rest_def)
      next
        case False
        with True Interleave Suc.prems(1)
        have "append_attempts n rest u p t ty a se pl (f d) = (r, d')"
          by (simp add: Let_def flip: now_def rest_def)
        from Suc.IH [OF this okf ok(2)] show ?thesis .
      qed
    next
      case False
      with Interleave Suc.prems(1) okf show ?thesis
        by (auto simp: Let_def simp flip: now_def rest_def intro!: events_ok_append)
    qed
  next
    case DbLocked
    show ?thesis
    proof (cases "deferred d")
      case True
      with DbLocked Suc.prems show ?thesis by (auto simp: Let_def simp flip: now_def rest_def)
    next
      case False
      with DbLocked Suc.prems(1)
      have "append_attempts n rest u p t ty a se pl d = (r, d')"
        by (simp add: Let_def flip: now_def rest_def)
      from Suc.IH [OF this Suc.prems(2) ok(2)] show ?thesis .
    qed
  next
    case DbError
    with Suc.prems show ?thesis by (auto simp: Let_def simp flip: now_def rest_def)
  qed
qed

subsection \<open>Dense timelines\<close>

text \<open>
  A timeline is dense when the sequence numbers of a task are exactly \<open>1, ..., n\<close> for its
  \<open>n\<close> events, each used once.
\<close>

definition dense_log :: "store \<Rightarrow> bool" where
  "dense_log d \<longleftrightarrow> distinct (map event_slot (events d))
     \<and> (\<forall>p t. set (seqs_of p t d) = {1..int (length (seqs_of p t d))})"

text \<open>Another appender: it keeps the timelines dense and removes no event.\<close>

fun appender_ok :: "contention \<Rightarrow> bool" where
  "appender_ok (Interleave f) = (\<forall>s. dense_log s \<longrightarrow> dense_log (f s)
     \<and> event_slot ` set (events s) \<subseteq> event_slot ` set (events (f s)))"
| "appender_ok _ = True"

lemma max_or_0_mem: "xs \<noteq> [] \<Longrightarrow> max_or_0 xs \<in> set xs"
proof (cases xs)
  case (Cons y ys)
  have "foldr max ys y \<in> insert y (set ys)" by (induction ys) (auto simp: max_def)
  with Cons show ?thesis by (simp add: max_or_0_def)
qed simp

lemma max_or_0_dense: "set xs = {1..int n} \<Longrightarrow> max_or_0 xs = int n"
proof (cases "xs = []")
  case False
  assume xs: "set xs = {1..int n}"
  with False max_or_0_mem [of xs] have "1 \<le> max_or_0 xs" "max_or_0 xs \<le> int n" by auto
  moreover from this xs have "int n \<le> max_or_0 xs" by (intro max_or_0_ge) auto
  ultimately show ?thesis by simp
qed (simp add: max_or_0_def)

lemma next_event_seq_dense:
  "dense_log d \<Longrightarrow> next_event_seq p t d = int (length (seqs_of p t d)) + 1"
  by (simp add: next_event_seq_def dense_log_def max_or_0_dense)

lemma dense_log_slots_le:
  assumes "dense_log d" "dense_log d1" "event_slot ` set (events d) \<subseteq> event_slot ` set (events d1)"
  shows "length (seqs_of p t d) \<le> length (seqs_of p t d1)"
proof -
  have "set (seqs_of p t d) \<subseteq> set (seqs_of p t d1)"
    using assms(3) unfolding subset_iff seqs_of_slot by blast
  with assms(1,2) show ?thesis by (fastforce simp: dense_log_def)
qed

lemma seqs_of_appended:
  "seqs_of p t (d\<lparr>events := events d @ [row]\<rparr>) = seqs_of p t d @
     (if ev_project row = p \<and> ev_task row = t then [ev_sequence row] else [])"
  by (simp add: seqs_of_def)

lemma dense_log_append:
  assumes "dense_log d" "ev_project row = p" "ev_task row = t"
    "ev_sequence row = int (length (seqs_of p t d)) + 1"
  shows "dense_log (d\<lparr>events := events d @ [row]\<rparr>)"
proof -
  have "ev_sequence row \<notin> set (seqs_of p t d)" using assms by (simp add: dense_log_def)
  then have "distinct (map event_slot (events d @ [row]))"
    using assms events_ok_append [of d "ev_sequence row" p t row] by (simp add: events_ok_def dense_log_def)
  moreover have "set (seqs_of p' t' d @ (if p = p' \<and> t = t' then [ev_sequence row] else []))
      = {1..int (length (seqs_of p' t' d @ (if p = p' \<and> t = t' then [ev_sequence row] else [])))}" for p' t'
    using assms(1,4) by (auto simp: dense_log_def)
  ultimately show ?thesis using assms(2,3) unfolding dense_log_def seqs_of_appended by simp
qed

lemma append_lands_dense:
  assumes "dense_log d" "dense_log d1" "event_slot ` set (events d) \<subseteq> event_slot ` set (events d1)"
    and "next_event_seq p t d \<notin> set (seqs_of p t d1)"
  shows "next_event_seq p t d = int (length (seqs_of p t d1)) + 1"
proof -
  have "length (seqs_of p t d1) \<le> length (seqs_of p t d)"
    using assms(2,4) unfolding next_event_seq_dense [OF assms(1)] by (auto simp: dense_log_def)
  with dense_log_slots_le [OF assms(1-3), of p t] show ?thesis
    by (simp add: next_event_seq_dense [OF assms(1)])
qed

lemma append_attempts_dense:
  assumes "append_attempts n env u p t ty a se pl d = (r, d')" "dense_log d"
    and "\<forall>c \<in> set env. appender_ok c"
  shows "dense_log d' \<and> event_slot ` set (events d) \<subseteq> event_slot ` set (events d')
     \<and> (\<forall>row. r = Inr row \<longrightarrow> (\<exists>es. events d' = es @ [row])
        \<and> row = \<lparr>ev_user = u, ev_project = p, ev_task = t, ev_sequence = int (length (seqs_of p t d')),
                ev_type = ty, ev_actor = a, ev_session = se, ev_payload = pl\<rparr>)"
  using assms
proof (induction n arbitrary: env d)
  case 0
  then show ?case by auto
next
  case (Suc n)
  define now where "now = (case env of [] \<Rightarrow> Interleave (\<lambda>s. s) | c # _ \<Rightarrow> c)"
  define rest where "rest = (case env of [] \<Rightarrow> [] | _ # cs \<Rightarrow> cs)"
  have ok: "appender_ok now" "\<forall>c \<in> set rest. appender_ok c"
    using Suc.prems(3) by (auto simp: now_def rest_def split: list.splits)
  show ?case
  proof (cases now)
    case (Interleave f)
    with ok(1) Suc.prems(2) have okf: "dense_log (f d)"
      and sub: "event_slot ` set (events d) \<subseteq> event_slot ` set (events (f d))" by simp_all
    let ?q = "next_event_seq p t d"
    let ?row = "\<lparr>ev_user = u, ev_project = p, ev_task = t, ev_sequence = ?q,
      ev_type = ty, ev_actor = a, ev_session = se, ev_payload = pl\<rparr>"
    consider (clash_open) "?q \<in> set (seqs_of p t (f d))" "\<not> deferred (f d)"
      | (clash_deferred) "?q \<in> set (seqs_of p t (f d))" "deferred (f d)"
      | (free) "?q \<notin> set (seqs_of p t (f d))" by blast
    then show ?thesis
    proof cases
      case clash_deferred
      with Interleave Suc.prems(1) okf sub show ?thesis
        by (auto simp: Let_def simp flip: now_def rest_def)
    next
      case clash_open
      with Interleave Suc.prems(1)
      have "append_attempts n rest u p t ty a se pl (f d) = (r, d')"
        by (simp add: Let_def flip: now_def rest_def)
      from Suc.IH [OF this okf ok(2)] sub show ?thesis by blast
    next
      case free
      with Interleave Suc.prems(1) have res: "r = Inr ?row" "d' = (f d)\<lparr>events := events (f d) @ [?row]\<rparr>"
        by (auto simp: Let_def simp flip: now_def rest_def)
      have q: "?q = int (length (seqs_of p t (f d))) + 1"
        by (rule append_lands_dense [OF Suc.prems(2) okf sub free])
      then have dense: "dense_log d'" unfolding res(2) by (intro dense_log_append [OF okf, of _ p t]) simp_all
      have num: "?q = int (length (seqs_of p t d'))" unfolding res(2) seqs_of_appended using q by simp
      have keep: "event_slot ` set (events d) \<subseteq> event_slot ` set (events d')"
        using sub by (simp add: res(2) subset_insertI2)
      have "\<exists>es. events d' = es @ [?row]" by (simp add: res(2))
      then show ?thesis unfolding res(1) using dense keep num by simp
    qed
  next
    case DbLocked
    show ?thesis
    proof (cases "deferred d")
      case True
      with DbLocked Suc.prems show ?thesis by (auto simp: Let_def simp flip: now_def rest_def)
    next
      case False
      with DbLocked Suc.prems(1)
      have "append_attempts n rest u p t ty a se pl d = (r, d')"
        by (simp add: Let_def flip: now_def rest_def)
      from Suc.IH [OF this Suc.prems(2) ok(2)] show ?thesis .
    qed
  next
    case DbError
    with Suc.prems show ?thesis by (auto simp: Let_def simp flip: now_def rest_def)
  qed
qed

text \<open>Property C8: appending to a task's timeline under contention keeps the timelines dense: whatever mixture
  of locks, collisions and other appenders the attempts meet, the sequence numbers of every
  task stay exactly 1, ..., n, each used once, and no event that was there is lost; and an
  append that reports success has put, at the end of the log, one row with the author, task,
  type and payload asked for and the last number of the task.  The other appenders are
  assumed to keep the timelines dense and to delete nothing.\<close>
theorem append_event_contention:
  assumes "append_attempts n env u p t ty a se pl d = (r, d')" and "dense_log d"
    and "\<forall>c \<in> set env. appender_ok c"
  shows "dense_log d' \<and> event_slot ` set (events d) \<subseteq> event_slot ` set (events d')
     \<and> (\<forall>row. r = Inr row \<longrightarrow> (\<exists>es. events d' = es @ [row])
        \<and> row = \<lparr>ev_user = u, ev_project = p, ev_task = t, ev_sequence = int (length (seqs_of p t d')),
                ev_type = ty, ev_actor = a, ev_session = se, ev_payload = pl\<rparr>)"
  using assms by (rule append_attempts_dense)

lemma next_event_seq_fresh: "next_event_seq p t d \<notin> set (seqs_of p t d)"
  using max_or_0_ge [of "next_event_seq p t d" "seqs_of p t d"]
  by (auto simp: next_event_seq_def)

lemma append_event_store [store_simps]:
  "append_event u p t ty a se pl d = d\<lparr>events := events d @
     [\<lparr>ev_user = u, ev_project = p, ev_task = t, ev_sequence = next_event_seq p t d,
       ev_type = ty, ev_actor = a, ev_session = se, ev_payload = pl\<rparr>]\<rparr>"
  using next_event_seq_fresh [of p t d]
  by (simp add: append_event_def lock_retry_attempts_def eval_nat_numeral Let_def)

lemma append_event_frame [simp]:
  "tasks (append_event u p t ty a se pl d) = tasks d"
  "runs (append_event u p t ty a se pl d) = runs d"
  "mailbox (append_event u p t ty a se pl d) = mailbox d"
  "clock (append_event u p t ty a se pl d) = clock d"
  "spawned (append_event u p t ty a se pl d) = spawned d"
  "announced (append_event u p t ty a se pl d) = announced d"
  "notices (append_event u p t ty a se pl d) = notices d"
  by (simp_all add: append_event_store)

lemma append_event_ok: "events_ok d \<Longrightarrow> events_ok (append_event u p t ty a se pl d)"
  by (simp add: append_event_store events_ok_append [OF _ next_event_seq_fresh])

section \<open>The timeline projection\<close>

text \<open>The timeline drops superseded plan snapshots and nothing else: it is sorted, it has
  every other event of the task, and of the snapshots exactly those with the largest
  sequence.\<close>
theorem list_events_projection:
  "sorted (map ev_sequence (list_events u p t False d))
   \<and> set (list_events u p t False d) =
       {e \<in> set (list_events u p t True d). ev_type e = plan_snapshot_event \<longrightarrow>
          (\<forall>e' \<in> set (list_events u p t True d).
             ev_type e' = plan_snapshot_event \<longrightarrow> ev_sequence e' \<le> ev_sequence e)}"
proof
  show "sorted (map ev_sequence (list_events u p t False d))"
    by (simp add: list_events_def by_sequence_def Let_def)
next
  let ?mine = "filter (of_task u p t) (events d)"
  let ?s = "map ev_sequence (filter (\<lambda>e. ev_type e = plan_snapshot_event) ?mine)"
  have "(?s \<noteq> [] \<and> ev_sequence e = Max (set ?s)) \<longleftrightarrow>
      (\<forall>e' \<in> set ?mine. ev_type e' = plan_snapshot_event \<longrightarrow> ev_sequence e' \<le> ev_sequence e)"
    if "e \<in> set ?mine" "ev_type e = plan_snapshot_event" for e
  proof -
    have ne: "ev_sequence e \<in> set ?s" using that by auto
    then have "?s \<noteq> []" by (metis empty_iff empty_set)
    moreover have "ev_sequence e = Max (set ?s) \<longleftrightarrow> (\<forall>q \<in> set ?s. q \<le> ev_sequence e)"
      using ne by (metis List.finite_set Max_ge Max_eqI)
    ultimately show ?thesis by auto
  qed
  then show "set (list_events u p t False d) =
       {e \<in> set (list_events u p t True d). ev_type e = plan_snapshot_event \<longrightarrow>
          (\<forall>e' \<in> set (list_events u p t True d).
             ev_type e' = plan_snapshot_event \<longrightarrow> ev_sequence e' \<le> ev_sequence e)}"
    by (auto simp: list_events_def by_sequence_def Let_def)
qed

section \<open>Runs\<close>

lemma pick_lead_run_facts:
  "(pick_lead_run rs = None \<longleftrightarrow> (\<forall>r \<in> set rs. rr_kind r \<noteq> LeadRun))
   \<and> (\<forall>r. pick_lead_run rs = Some r \<longrightarrow> r \<in> set rs \<and> rr_kind r = LeadRun
        \<and> (rr_status r = RRejected \<longrightarrow>
             (\<forall>s \<in> set rs. rr_kind s = LeadRun \<longrightarrow> rr_status s = RRejected)))"
proof -
  let ?leads = "filter (\<lambda>r. rr_kind r = LeadRun) rs"
  show ?thesis
  proof (cases "List.find (\<lambda>r. rr_status r \<noteq> RRejected) ?leads")
    case None
    then have rej: "\<forall>s \<in> set ?leads. rr_status s = RRejected" by (auto simp: find_None_iff)
    have p: "pick_lead_run rs = (case ?leads of [] \<Rightarrow> None | r # _ \<Rightarrow> Some r)"
      using None by (simp add: pick_lead_run_def)
    show ?thesis
    proof (cases ?leads)
      case Nil
      then have "\<forall>r \<in> set rs. rr_kind r \<noteq> LeadRun" by (simp add: filter_empty_conv)
      with p Nil show ?thesis by simp
    next
      case (Cons r rest)
      then have "r \<in> set ?leads" "pick_lead_run rs = Some r" using p by simp_all
      with rej show ?thesis by fastforce
    qed
  next
    case (Some r)
    then have "pick_lead_run rs = Some r" "r \<in> set ?leads" "rr_status r \<noteq> RRejected"
      by (auto simp: pick_lead_run_def dest: find_SomeD)
    then show ?thesis by auto
  qed
qed

lemma pick_lead_run_SomeD:
  "pick_lead_run rs = Some r \<Longrightarrow> r \<in> set rs \<and> rr_kind r = LeadRun
     \<and> (rr_status r = RRejected \<longrightarrow> (\<forall>s \<in> set rs. rr_kind s = LeadRun \<longrightarrow> rr_status s = RRejected))"
  using pick_lead_run_facts [of rs] by blast

text \<open>The lead picker finds a lead whenever the task has one, and picks a rejected run (the
  loser of a commit race) only when every lead run of the task was rejected.\<close>
theorem pick_lead_run_sound:
  "(pick_lead_run rs = None \<longleftrightarrow> (\<forall>r \<in> set rs. rr_kind r \<noteq> LeadRun))
   \<and> (\<forall>r. pick_lead_run rs = Some r \<longrightarrow> r \<in> set rs \<and> rr_kind r = LeadRun
        \<and> (rr_status r = RRejected \<longrightarrow>
             (\<forall>s \<in> set rs. rr_kind s = LeadRun \<longrightarrow> rr_status s = RRejected)))"
  by (rule pick_lead_run_facts)

lemma has_active_members_iff: "has_active_members t d \<longleftrightarrow> active_member_sessions t d \<noteq> []"
  by (auto simp: has_active_members_def active_member_sessions_def find_None_iff filter_empty_conv)

lemma settle_run_keeps_outcome:
  assumes "settle_run_if_active s st mf en d = (b, d')"
  shows "list_all2 (\<lambda>x y. rr_status x \<noteq> RActive \<longrightarrow> y = x) (runs d) (runs d')"
    and "b \<longleftrightarrow> (\<exists>r \<in> set (runs d). rr_session r = s \<and> rr_status r = RActive)"
  using assms
  by (auto simp: settle_run_if_active_def Let_def update_where_def list_all2_map2 matched_pos_iff
      intro!: list_all2_same [THEN iffD2])

end
