(* ===== verification/Mailbox.thy ===== *)
theory Mailbox
  imports StoreFacts
begin

text \<open>
  \<^verbatim>\<open>backend/valuz_agent/modules/tasks/mailbox_store.py\<close> (with the message shape of
  \<^verbatim>\<open>mailbox.py\<close>): durable, FIFO, at-most-once delivery to an actor session.  A message is
  enqueued on the caller's transaction, read in batches and claimed by a conditional
  update, so two loops that read the same pending row cannot both act on it.
\<close>

section \<open>Operations\<close>

definition deliverable_kinds :: "string list" where
  "deliverable_kinds = [''text'', ''member_done'', ''revise_goal'']"

record inbox_msg =
  im_kind :: string
  im_text :: string
  im_from :: string
  im_origin :: string
  im_payload :: "(string \<times> json) list"

definition positions_of :: "string \<Rightarrow> store \<Rightarrow> int list" where
  "positions_of session d = map mb_position (filter (\<lambda>m. mb_session m = session) (mailbox d))"

text \<open>A row's id is its primary key: fresh, never reused.\<close>

definition fresh_mail_id :: "store \<Rightarrow> nat" where
  "fresh_mail_id d = Suc (foldr max (map mb_id (mailbox d)) 0)"

text \<open>\<open>None\<close> is \<open>ControlSignalNotDeliverableError\<close>.\<close>

definition enqueue :: "session_id \<Rightarrow> task_id \<Rightarrow> project_id \<Rightarrow> user_id \<Rightarrow> string \<Rightarrow> string \<Rightarrow> session_id \<Rightarrow> string
    \<Rightarrow> (string \<times> json) list \<Rightarrow> store \<Rightarrow> store option" where
  "enqueue session tid project user kind txt from_session origin pl d =
     (if kind \<notin> set deliverable_kinds then None
      else Some (d\<lparr>mailbox := mailbox d @
        [\<lparr>mb_id = fresh_mail_id d, mb_user = user, mb_session = session, mb_task = tid,
          mb_project = project, mb_position = max_or_0 (positions_of session d) + 1,
          mb_kind = kind, mb_text = txt, mb_from = from_session, mb_origin = origin,
          mb_payload = pl, mb_state = MPending, mb_consumed_at = None,
          mb_consumed_by = None\<rparr>]\<rparr>))"

definition ring_for :: "string \<Rightarrow> store \<Rightarrow> store" where
  "ring_for session d = d\<lparr>rung := rung d @ [session]\<rparr>"

definition is_pending :: "string \<Rightarrow> mail_row \<Rightarrow> bool" where
  "is_pending session m = (mb_session m = session \<and> mb_state m = MPending)"

definition has_pending :: "string \<Rightarrow> store \<Rightarrow> bool" where
  "has_pending session d = (List.find (is_pending session) (mailbox d) \<noteq> None)"

text \<open>\<open>ORDER BY position, id\<close>: two stable sorts, the minor key first.\<close>

definition pending_rows :: "string \<Rightarrow> nat \<Rightarrow> store \<Rightarrow> mail_row list" where
  "pending_rows session lim d =
     take lim (sort_key mb_position (sort_key mb_id (filter (is_pending session) (mailbox d))))"

definition mark_consumed :: "store \<Rightarrow> mail_row \<Rightarrow> mail_row" where
  "mark_consumed d m = m\<lparr>mb_state := MConsumed, mb_consumed_at := Some (clock d),
     mb_consumed_by := Some (host d)\<rparr>"

text \<open>The conditional update that claims one row, and whether it matched exactly one.\<close>

definition claim_row :: "nat \<Rightarrow> store \<Rightarrow> bool \<times> store" where
  "claim_row i d = (let m = (\<lambda>x. mb_id x = i \<and> mb_state x = MPending) in
     (matched m (mailbox d) = 1,
      d\<lparr>mailbox := update_where m (mark_consumed d) (mailbox d)\<rparr>))"

definition to_msg :: "mail_row \<Rightarrow> inbox_msg" where
  "to_msg m = \<lparr>im_kind = mb_kind m, im_text = mb_text m, im_from = mb_from m,
     im_origin = mb_origin m, im_payload = mb_payload m\<rparr>"

text \<open>
  Claiming the rows of a batch one by one.  Before each claim the environment may act:
  \<open>env\<close> lists what it does.
\<close>

fun claim_rows :: "mail_row list \<Rightarrow> (store \<Rightarrow> store) list \<Rightarrow> store \<Rightarrow> mail_row list \<times> store" where
  "claim_rows [] env d = ([], d)"
| "claim_rows (r # rs) env d =
     (let f = (case env of [] \<Rightarrow> (\<lambda>s. s) | g # _ \<Rightarrow> g);
          rest = (case env of [] \<Rightarrow> [] | _ # gs \<Rightarrow> gs);
          (won, d') = claim_row (mb_id r) (f d);
          (out, d'') = claim_rows rs rest d'
      in ((if won then r # out else out), d''))"

definition drain :: "string \<Rightarrow> nat \<Rightarrow> (store \<Rightarrow> store) list \<Rightarrow> store \<Rightarrow> inbox_msg list \<times> store" where
  "drain session lim env d =
     (let (rows, d') = claim_rows (pending_rows session lim d) env d in (map to_msg rows, d'))"

definition cancel_pending :: "string \<Rightarrow> store \<Rightarrow> nat \<times> store" where
  "cancel_pending session d =
     (matched (is_pending session) (mailbox d),
      d\<lparr>mailbox := update_where (is_pending session)
         (\<lambda>m. m\<lparr>mb_state := MCancelled, mb_consumed_at := Some (clock d),
                mb_consumed_by := Some (host d)\<rparr>) (mailbox d)\<rparr>)"

section \<open>Well-formed mailboxes\<close>

definition mail_ok :: "store \<Rightarrow> bool" where
  "mail_ok d = distinct (map mb_id (mailbox d))"

lemma fresh_mail_id_new: "fresh_mail_id d \<notin> mb_id ` set (mailbox d)"
proof -
  have "x \<in> set xs \<Longrightarrow> x \<le> foldr max xs (0 :: nat)" for x xs
    by (induction xs) (auto simp: le_max_iff_disj)
  then have "m \<in> set (mailbox d) \<Longrightarrow> mb_id m < fresh_mail_id d" for m
    by (fastforce simp: fresh_mail_id_def less_Suc_eq_le)
  then show ?thesis by fastforce
qed

lemma enqueue_Some [store_simps]:
  "enqueue s t p u k tx fr og pl d = Some d' \<Longrightarrow> k \<in> set deliverable_kinds \<and>
     (\<exists>m. d' = d\<lparr>mailbox := mailbox d @ [m]\<rparr> \<and> mb_id m = fresh_mail_id d \<and> mb_session m = s
        \<and> mb_state m = MPending \<and> mb_position m = max_or_0 (positions_of s d) + 1
        \<and> mb_text m = tx \<and> mb_kind m = k \<and> mb_task m = t \<and> mb_from m = fr)"
  by (auto simp: enqueue_def split: if_splits)

lemma enqueue_ok: "enqueue s t p u k tx fr og pl d = Some d' \<Longrightarrow> mail_ok d \<Longrightarrow> mail_ok d'"
  using fresh_mail_id_new [of d] by (auto simp: mail_ok_def dest!: enqueue_Some)

lemma claim_row_mailbox:
  "claim_row i d = (w, d') \<Longrightarrow> map mb_id (mailbox d') = map mb_id (mailbox d)"
  by (auto simp: claim_row_def Let_def mark_consumed_def intro!: map_update_where_frame)

lemma claim_row_ok: "claim_row i d = (w, d') \<Longrightarrow> mail_ok d \<Longrightarrow> mail_ok d'"
  by (simp add: mail_ok_def claim_row_mailbox)

lemma cancel_pending_ok: "cancel_pending s d = (n, d') \<Longrightarrow> mail_ok d \<Longrightarrow> mail_ok d'"
  by (auto simp: cancel_pending_def mail_ok_def map_update_where_frame)

lemma matched_unique:
  assumes "mail_ok d"
  shows "matched (\<lambda>x. mb_id x = i \<and> P x) (mailbox d) = 1 \<longleftrightarrow> (\<exists>x \<in> set (mailbox d). mb_id x = i \<and> P x)"
proof -
  have "length (filter (\<lambda>x. mb_id x = i \<and> P x) xs) \<le> 1" if "distinct (map mb_id xs)" for xs
    using that
  proof (induction xs)
    case Nil
    then show ?case by simp
  next
    case (Cons y ys)
    show ?case
    proof (cases "mb_id y = i")
      case True
      with Cons.prems have "filter (\<lambda>x. mb_id x = i \<and> P x) ys = []"
        by (auto simp: filter_empty_conv image_iff)
      then show ?thesis by simp
    next
      case False
      with Cons show ?thesis by simp
    qed
  qed
  with assms have "matched (\<lambda>x. mb_id x = i \<and> P x) (mailbox d) \<le> 1"
    by (simp add: matched_def mail_ok_def)
  then show ?thesis
    using matched_pos_iff [of "\<lambda>x. mb_id x = i \<and> P x" "mailbox d"] by auto
qed

section \<open>Many loops on one mailbox\<close>

text \<open>
  The mailbox as all the processes together drive it.  A run pairs the store with the list
  of row ids that some loop has claimed and acts on.  Any loop may try to claim any row at
  any time: that is what a stale read amounts to.
\<close>

inductive mail_step :: "store \<times> nat list \<Rightarrow> store \<times> nat list \<Rightarrow> bool" where
  mail_send: "enqueue s t p u k tx fr og pl d = Some d' \<Longrightarrow> mail_step (d, out) (d', out)"
| mail_claim: "claim_row i d = (won, d') \<Longrightarrow>
     mail_step (d, out) (d', if won then out @ [i] else out)"
| mail_cancel: "cancel_pending s d = (n, d') \<Longrightarrow> mail_step (d, out) (d', out)"

inductive_cases mail_stepE: "mail_step (d, out) (d', out')"

inductive mail_reach :: "store \<times> nat list \<Rightarrow> bool" where
  mail_start: "mailbox d = [] \<Longrightarrow> mail_reach (d, [])"
| mail_next: "mail_reach c \<Longrightarrow> mail_step c c' \<Longrightarrow> mail_reach c'"

definition delivered_ok :: "store \<times> nat list \<Rightarrow> bool" where
  "delivered_ok c = (case c of (d, out) \<Rightarrow> mail_ok d \<and> distinct out
     \<and> (\<forall>i \<in> set out. \<exists>m \<in> set (mailbox d). mb_id m = i \<and> mb_state m = MConsumed))"

lemma claim_row_rows:
  assumes "claim_row i d = (w, d')" "m \<in> set (mailbox d)" "mb_state m = MConsumed"
  shows "m \<in> set (mailbox d')"
  using assms by (force simp: claim_row_def Let_def set_update_where)

lemma claim_row_won:
  assumes "claim_row i d = (True, d')" "mail_ok d"
  shows "(\<exists>m \<in> set (mailbox d). mb_id m = i \<and> mb_state m = MPending)
    \<and> (\<exists>m \<in> set (mailbox d'). mb_id m = i \<and> mb_state m = MConsumed)"
proof -
  have "matched (\<lambda>x. mb_id x = i \<and> mb_state x = MPending) (mailbox d) = 1"
    using assms(1) by (simp add: claim_row_def Let_def)
  then obtain m where m: "m \<in> set (mailbox d)" "mb_id m = i" "mb_state m = MPending"
    unfolding matched_unique [OF assms(2), of i "\<lambda>x. mb_state x = MPending"] by blast
  then have "mark_consumed d m \<in> set (mailbox d')"
    using assms(1) by (force simp: claim_row_def Let_def set_update_where)
  then have "\<exists>x \<in> set (mailbox d'). mb_id x = i \<and> mb_state x = MConsumed"
    using m(2) by (intro bexI [of _ "mark_consumed d m"]) (simp_all add: mark_consumed_def)
  with m show ?thesis by blast
qed

lemma mail_idD:
  "mail_ok d \<Longrightarrow> x \<in> set (mailbox d) \<Longrightarrow> y \<in> set (mailbox d) \<Longrightarrow> mb_id x = mb_id y \<Longrightarrow> x = y"
  unfolding mail_ok_def by (auto simp: distinct_map dest: inj_onD)

lemma mail_step_delivered_ok:
  assumes "mail_step c c'" and "delivered_ok c"
  shows "delivered_ok c'"
  using assms
proof (cases rule: mail_step.cases)
  case (mail_send s t p u k tx fr og pl d d' out)
  then have "mail_ok d'" using assms(2) by (auto simp: delivered_ok_def intro: enqueue_ok)
  with mail_send(2) assms(2) enqueue_Some [OF mail_send(3)] mail_send(1) show ?thesis
    by (auto simp: delivered_ok_def)
next
  case (mail_claim i d won d' out)
  have ok: "mail_ok d" "mail_ok d'" "distinct out"
    using mail_claim assms(2) by (auto simp: delivered_ok_def intro: claim_row_ok)
  have old: "\<forall>j \<in> set out. \<exists>m \<in> set (mailbox d'). mb_id m = j \<and> mb_state m = MConsumed"
    using mail_claim assms(2) claim_row_rows by (fastforce simp: delivered_ok_def)
  show ?thesis
  proof (cases won)
    case True
    with mail_claim ok(1) have w: "\<exists>m \<in> set (mailbox d). mb_id m = i \<and> mb_state m = MPending"
      "\<exists>m \<in> set (mailbox d'). mb_id m = i \<and> mb_state m = MConsumed"
      using claim_row_won by auto
    have "i \<notin> set out"
    proof
      assume "i \<in> set out"
      with mail_claim assms(2) obtain m where "m \<in> set (mailbox d)" "mb_id m = i" "mb_state m = MConsumed"
        by (auto simp: delivered_ok_def)
      with w(1) show False using mail_idD [OF ok(1)] by fastforce
    qed
    with True mail_claim ok old w(2) show ?thesis by (auto simp: delivered_ok_def)
  next
    case False
    with mail_claim ok old show ?thesis by (auto simp: delivered_ok_def)
  qed
next
  case (mail_cancel s d n d' out)
  with assms(2) have "mail_ok d'" by (auto simp: delivered_ok_def intro: cancel_pending_ok)
  moreover have "m \<in> set (mailbox d')" if "m \<in> set (mailbox d)" "mb_state m = MConsumed" for m
    using mail_cancel that by (force simp: cancel_pending_def set_update_where is_pending_def)
  ultimately show ?thesis using mail_cancel assms(2) by (fastforce simp: delivered_ok_def)
qed

lemma mail_reach_delivered_ok: "mail_reach c \<Longrightarrow> delivered_ok c"
proof (induction rule: mail_reach.induct)
  case (mail_start d)
  then show ?case by (simp add: delivered_ok_def mail_ok_def)
next
  case (mail_next c c')
  then show ?case by (blast intro: mail_step_delivered_ok)
qed

text \<open>Property C9: delivery is at most once: however sends, cancellations and claims of any number of
  loops interleave, no message is ever claimed twice, and every claimed message is recorded
  as consumed in the table.\<close>
theorem mailbox_at_most_once:
  assumes "mail_reach (d, out)"
  shows "distinct out \<and> (\<forall>i \<in> set out. \<exists>m \<in> set (mailbox d). mb_id m = i \<and> mb_state m = MConsumed)"
  using mail_reach_delivered_ok [OF assms] by (simp add: delivered_ok_def)

end
