(* ===== verification/Planning.thy ===== *)
theory Planning
  imports Mailbox
begin

text \<open>
  \<^verbatim>\<open>backend/valuz_agent/modules/tasks/planning.py\<close> and \<^verbatim>\<open>plan_render.py\<close>: plan authoring,
  review and node mutations over the stored plan document.  \<open>persist_plan\<close> is the one door
  for node mutations: it re-applies a mutation to the freshest plan until its
  compare-and-swap lands or five rounds are lost.  The interference arguments stand for
  what other writers commit at the points where the code awaits.
\<close>

section \<open>Announcing a plan\<close>

text \<open>
  A name is the project agent's display name, or the slug itself when it cannot be resolved.
\<close>

definition resolve_agent_display_name :: "string \<Rightarrow> string \<Rightarrow> store \<Rightarrow> string" where
  "resolve_agent_display_name project slug d =
     (if slug = [] then slug
      else (case agent_names d project slug of None \<Rightarrow> slug | Some n \<Rightarrow> n))"

definition emit_plan_update :: "task_row \<Rightarrow> plan \<Rightarrow> string \<Rightarrow> string option \<Rightarrow> string
    \<Rightarrow> int option \<Rightarrow> bool \<Rightarrow> store \<Rightarrow> store" where
  "emit_plan_update row p actor sess user version structural d =
     (let panel = map (\<lambda>n. (n, if pr_agent n = [] then None
            else Some (resolve_agent_display_name (tr_project row) (pr_agent n) d))) (to_panel p)
      in append_event user (tr_project row) (tr_id row) plan_snapshot_event actor sess
         (PSnapshot panel (case version of None \<Rightarrow> tr_plan_version row | Some v \<Rightarrow> v)
            structural (tr_status row) (tr_title row)) d)"

definition render_plan_md :: "task_row \<Rightarrow> plan \<Rightarrow> store \<Rightarrow> string option \<times> store" where
  "render_plan_md row p d =
     (if writable d (tr_file_path row) then
        (Some (tr_file_path row),
         d\<lparr>plan_files := (tr_file_path row,
            [MdText (''# '' @ tr_title row), MdText [], MdText (''> Goal: '' @ tr_goal row),
             MdText [], MdText ''## Plan'', MdText []]
            @ map (\<lambda>n. MdNode (status_name (st_status n)) (st_key n)
                 (case st_agent n of None \<Rightarrow> [] | Some a \<Rightarrow> a) (st_title n) (st_depends_on n)) p)
            # plan_files d\<rparr>)
      else (None, d))"

definition notify_plan_md :: "string \<Rightarrow> string \<Rightarrow> string option \<Rightarrow> store \<Rightarrow> store" where
  "notify_plan_md user project md d = (case md of None \<Rightarrow> d
     | Some path \<Rightarrow> d\<lparr>synced := synced d @ [(user, project, path)]\<rparr>)"

section \<open>The door for node mutations\<close>

text \<open>
  A mutation returns the changed plan, declines (\<open>None\<close>), or raises.  \<open>persist_plan\<close> ends
  with the persisted plan, with nothing written because the mutation declined or the row
  vanished, with the exception of the parse or the mutation, or with \<open>PlanConflictError\<close>.
\<close>

type_synonym mutation = "plan \<Rightarrow> plan_exn + plan option"

datatype persist_outcome = Persisted plan | Declined | PlanRaised plan_exn | PlanConflict

definition plan_cas_retries :: nat where
  "plan_cas_retries = 5"

fun persist_rounds :: "nat \<Rightarrow> (store \<Rightarrow> store) list \<Rightarrow> mutation \<Rightarrow> string \<Rightarrow> string option \<Rightarrow> string
    \<Rightarrow> task_row \<Rightarrow> store \<Rightarrow> persist_outcome \<times> task_row \<times> store" where
  "persist_rounds 0 env mutate actor sess user row d = (PlanConflict, row, d)"
| "persist_rounds (Suc n) env mutate actor sess user row d =
     (let f = (case env of [] \<Rightarrow> (\<lambda>s. s) | g # _ \<Rightarrow> g);
          rest = (case env of [] \<Rightarrow> [] | _ # gs \<Rightarrow> gs);
          expected = tr_plan_version row
      in (case rbind (plan_from_dict (tr_plan row)) mutate of
        Inl e \<Rightarrow> (PlanRaised e, row, d)
      | Inr None \<Rightarrow> (Declined, row, d)
      | Inr (Some p) \<Rightarrow>
          (case cas_update_plan user row (plan_to_dict p) expected (f d) of
             (None, d') \<Rightarrow> (Declined, row, d')
           | (Some (wrote, row'), d') \<Rightarrow>
               (if wrote then (Persisted p, row',
                  emit_plan_update row' p actor sess user (Some (expected + 1)) False d')
                else persist_rounds n rest mutate actor sess user row' d'))))"

definition persist_plan :: "(store \<Rightarrow> store) list \<Rightarrow> mutation \<Rightarrow> string \<Rightarrow> string option \<Rightarrow> string
    \<Rightarrow> task_row \<Rightarrow> store \<Rightarrow> persist_outcome \<times> task_row \<times> store" where
  "persist_plan = persist_rounds plan_cas_retries"

text \<open>The sweep variant: a lost write is logged and reported like a declined one.\<close>

definition persist_plan_best_effort :: "(store \<Rightarrow> store) list \<Rightarrow> mutation \<Rightarrow> string
    \<Rightarrow> string option \<Rightarrow> string \<Rightarrow> task_row \<Rightarrow> store \<Rightarrow> persist_outcome \<times> task_row \<times> store" where
  "persist_plan_best_effort env mutate actor sess user row d =
     (case persist_plan env mutate actor sess user row d of
        (PlanConflict, r, d') \<Rightarrow> (Declined, r, d')
      | other \<Rightarrow> other)"

section \<open>Replies\<close>

datatype planning_error =
    TaskNotFound string
  | ProgressExists
  | SubtasksRequired
  | InvalidPlan plan_error
  | VersionConflict int "int option"
  | BadDecision
  | TaskNotActive string
  | KeyRequired
  | NoSuchSubtask string
  | InvalidReview plan_error
  | ReviewLost string string

datatype svc_exn = PlanExn plan_exn | RowVanished

datatype 'a reply = Raised svc_exn | Refused planning_error | Reply 'a

record plan_view =
  pv_subtasks :: "panel_row list"
  pv_ready :: "string list"
  pv_version :: int

section \<open>plan\_task, get\_plan, modify\_plan\<close>

definition plan_task :: "string \<Rightarrow> string \<Rightarrow> string \<Rightarrow> json list \<Rightarrow> string \<Rightarrow> (store \<Rightarrow> store)
    \<Rightarrow> store \<Rightarrow> plan_view reply \<times> store" where
  "plan_task tid project lead subtasks user intf d =
     (case get_task_by_project user project tid d of
        None \<Rightarrow> (Refused (TaskNotFound tid), d)
      | Some row \<Rightarrow>
     (case plan_from_dict (tr_plan row) of
        Inl e \<Rightarrow> (Raised (PlanExn e), d)
      | Inr existing \<Rightarrow>
          if \<not> is_empty_plan existing \<and> (\<exists>n \<in> set existing. st_status n \<noteq> Planned)
          then (Refused ProgressExists, d)
          else if subtasks = [] then (Refused SubtasksRequired, d)
          else (case add_nodes [] subtasks of
             Inl (PlanError e) \<Rightarrow> (Refused (InvalidPlan e), d)
           | Inl e \<Rightarrow> (Raised (PlanExn e), d)
           | Inr p \<Rightarrow>
               (let expected = tr_plan_version row; installed = expected + 1 in
                case cas_update_plan user row (plan_to_dict p) expected (intf d) of
                  (None, d1) \<Rightarrow> (Raised RowVanished, d1)
                | (Some (wrote, row'), d1) \<Rightarrow>
                    if \<not> wrote then (Refused (VersionConflict (tr_plan_version row') None), d1)
                    else
                     (let d2 = append_event user project tid ''task_planned'' lead (Some lead)
                                 (PPlanned p installed) d1;
                          d3 = emit_plan_update row' p lead (Some lead) user (Some installed) True d2;
                          (md, d4) = render_plan_md row' p d3
                      in (Reply \<lparr>pv_subtasks = to_panel p, pv_ready = ready_keys p,
                                 pv_version = installed\<rparr>,
                          notify_plan_md user project md d4))))))"

record plan_status_view =
  ps_subtasks :: "panel_row list"
  ps_ready :: "string list"
  ps_counts :: "(subtask_status \<times> nat) list"
  ps_all_done :: bool
  ps_version :: int

definition get_plan :: "string \<Rightarrow> string \<Rightarrow> string \<Rightarrow> store \<Rightarrow> plan_status_view reply" where
  "get_plan tid project user d =
     (case get_task_by_project user project tid d of
        None \<Rightarrow> Refused (TaskNotFound tid)
      | Some row \<Rightarrow>
     (case plan_from_dict (tr_plan row) of
        Inl e \<Rightarrow> Raised (PlanExn e)
      | Inr p \<Rightarrow> Reply \<lparr>ps_subtasks = to_panel p, ps_ready = ready_keys p, ps_counts = counts p,
                        ps_all_done = all_done p, ps_version = tr_plan_version row\<rparr>))"

text \<open>
  One patch of an \<open>update\<close> list: \<open>str(patch.get("key") or "")\<close> selects the node, the
  other entries are the fields.  A patch that is no dict raises \<open>AttributeError\<close>.
\<close>

definition apply_patch :: "json \<Rightarrow> plan \<Rightarrow> plan_exn + plan" where
  "apply_patch patch p = (case patch of
     JDict kvs \<Rightarrow> update_node p (plain_str (dget kvs ''key''))
        (filter (\<lambda>kv. fst kv \<noteq> ''key'') kvs)
   | _ \<Rightarrow> Inl AttributeError)"

definition change_plan :: "json list \<Rightarrow> json list \<Rightarrow> plan \<Rightarrow> plan_exn + plan" where
  "change_plan adds updates p =
     rbind (if adds = [] then Inr p else add_nodes p adds) (rfold apply_patch updates)"

definition modify_plan :: "string \<Rightarrow> string \<Rightarrow> string \<Rightarrow> json list \<Rightarrow> json list \<Rightarrow> int option
    \<Rightarrow> string \<Rightarrow> (store \<Rightarrow> store) \<Rightarrow> store \<Rightarrow> plan_view reply \<times> store" where
  "modify_plan tid project lead adds updates expected_version user intf d =
     (case get_task_by_project user project tid d of
        None \<Rightarrow> (Refused (TaskNotFound tid), d)
      | Some row \<Rightarrow>
     (let current = tr_plan_version row in
      if expected_version \<noteq> None \<and> expected_version \<noteq> Some current
      then (Refused (VersionConflict current expected_version), d)
      else (case plan_from_dict (tr_plan row) of
        Inl e \<Rightarrow> (Raised (PlanExn e), d)
      | Inr p0 \<Rightarrow>
     (case change_plan adds updates p0 of
        Inl (PlanError e) \<Rightarrow> (Refused (InvalidPlan e), d)
      | Inl e \<Rightarrow> (Raised (PlanExn e), d)
      | Inr p \<Rightarrow>
          (let installed = current + 1 in
           case cas_update_plan user row (plan_to_dict p) current (intf d) of
             (None, d1) \<Rightarrow> (Raised RowVanished, d1)
           | (Some (wrote, row'), d1) \<Rightarrow>
               if \<not> wrote
               then (Refused (VersionConflict (tr_plan_version row') expected_version), d1)
               else
                (let d2 = append_event user project tid ''plan_revised'' lead (Some lead)
                            (PRevised adds updates installed) d1;
                     d3 = emit_plan_update row' p lead (Some lead) user (Some installed) True d2;
                     (md, d4) = render_plan_md row' p d3
                 in (Reply \<lparr>pv_subtasks = to_panel p, pv_ready = ready_keys p,
                            pv_version = installed\<rparr>,
                     notify_plan_md user project md d4)))))))"

section \<open>review\_subtask\<close>

datatype review_decision = Approve | ReworkDecision

datatype review_reply =
    Approved string bool "string list" bool  \<comment> \<open>key, already done, ready, all done\<close>
  | Reworked string bool                     \<comment> \<open>key, delivered to the live member\<close>

text \<open>\<open>if not x\<close> on an optional string.\<close>

definition blank :: "string option \<Rightarrow> bool" where
  "blank x = (x = None \<or> x = Some [])"

definition text_or :: "string option \<Rightarrow> string" where
  "text_or x = (case x of None \<Rightarrow> [] | Some s \<Rightarrow> s)"

text \<open>Phase 1: the node key and the run it targets.\<close>

definition review_target :: "string \<Rightarrow> string \<Rightarrow> string option \<Rightarrow> string option \<Rightarrow> string \<Rightarrow> store
    \<Rightarrow> (string \<times> string option) reply" where
  "review_target tid project subtask_key session user d =
     (case get_task_by_project user project tid d of
        None \<Rightarrow> Refused (TaskNotFound tid)
      | Some row \<Rightarrow>
          if tr_status row \<noteq> ''active'' then Refused (TaskNotActive (tr_status row))
          else (case plan_from_dict (tr_plan row) of
            Inl e \<Rightarrow> Raised (PlanExn e)
          | Inr p \<Rightarrow>
             (let key = (if blank subtask_key \<and> \<not> blank session
                         then (case get_run (the session) d of
                                 None \<Rightarrow> None | Some r \<Rightarrow> rr_subtask_key r)
                         else subtask_key)
              in if blank key then Refused KeyRequired
                 else (case get_node p (the key) of
                   None \<Rightarrow> Refused (NoSuchSubtask (the key))
                 | Some n \<Rightarrow> Reply (the key, if blank session then st_latest_run n else session)))))"

definition approve_mutation :: "string \<Rightarrow> mutation" where
  "approve_mutation key p =
     (if get_node p key = None then Inr None
      else rbind (update_node p key [(''status'', JStr ''done''), (''review_feedback'', JNull)])
             (\<lambda>q. Inr (Some q)))"

definition rework_mutation :: "string \<Rightarrow> bool \<Rightarrow> string option \<Rightarrow> mutation" where
  "rework_mutation key delivered feedback p =
     (if get_node p key = None then Inr None
      else rbind (update_node p key
               [(''status'', JStr (if delivered then ''in_progress'' else ''rework'')),
                (''review_feedback'', opt_json feedback)])
             (\<lambda>q. Inr (Some q)))"

definition reviewed_payload :: "string \<Rightarrow> string \<Rightarrow> string option \<Rightarrow> payload" where
  "reviewed_payload key decision feedback = PDict
     [(''subtask_key'', JStr key), (''decision'', JStr decision),
      (''feedback'', JStr (text_or feedback))]"

definition review_approve :: "string \<Rightarrow> string \<Rightarrow> string \<Rightarrow> string \<Rightarrow> string option \<Rightarrow> string option
    \<Rightarrow> string \<Rightarrow> (store \<Rightarrow> store) list \<Rightarrow> store \<Rightarrow> review_reply reply \<times> store" where
  "review_approve tid project lead key target feedback user env d =
     (case get_task_by_project user project tid d of
        None \<Rightarrow> (Refused (TaskNotFound tid), d)
      | Some row \<Rightarrow>
      if tr_status row \<noteq> ''active'' then (Refused (TaskNotActive (tr_status row)), d)
      else (case plan_from_dict (tr_plan row) of
        Inl e \<Rightarrow> (Raised (PlanExn e), d)
      | Inr fresh \<Rightarrow>
     (case get_node fresh key of
        None \<Rightarrow> (Refused (NoSuchSubtask key), d)
      | Some n \<Rightarrow>
      if st_status n = Done
      then (Reply (Approved key True (ready_keys fresh) (all_done fresh)), d)
      else (case persist_plan env (approve_mutation key) lead (Some lead) user row d of
        (PlanRaised (PlanError e), _, d1) \<Rightarrow> (Refused (InvalidReview e), d1)
      | (PlanRaised e, _, d1) \<Rightarrow> (Raised (PlanExn e), d1)
      | (PlanConflict, _, d1) \<Rightarrow> (Refused (ReviewLost ''approve'' key), d1)
      | (Declined, _, d1) \<Rightarrow> (Refused (NoSuchSubtask key), d1)
      | (Persisted p, row', d1) \<Rightarrow>
         (let d2 = (if blank target then d1
                    else snd (update_run_by_session (the target) RCompleted None (Some (clock d1)) d1));
              d3 = append_event user project tid ''subtask_reviewed'' lead target
                     (reviewed_payload key ''approve'' feedback) d2;
              agent = text_or (st_agent n);
              d4 = append_event user project tid ''subtask_completed'' agent target
                     (PDict [(''subtask_key'', JStr key), (''title'', JStr (st_title n)),
                             (''agent_name'', JStr (resolve_agent_display_name project agent d3))]) d3;
              (md, d5) = render_plan_md row' p d4
          in (Reply (Approved key False (ready_keys p) (all_done p)),
              notify_plan_md user project md d5))))))"

definition review_rework :: "string \<Rightarrow> string \<Rightarrow> string \<Rightarrow> string \<Rightarrow> string option \<Rightarrow> string option
    \<Rightarrow> string \<Rightarrow> (store \<Rightarrow> store) list \<Rightarrow> store \<Rightarrow> review_reply reply \<times> store" where
  "review_rework tid project lead key target feedback user env d =
     (let delivered = (\<not> blank target) in
      case get_task_by_project user project tid d of
        None \<Rightarrow> (Refused (TaskNotFound tid), d)
      | Some row \<Rightarrow>
      if tr_status row \<noteq> ''active'' then (Refused (TaskNotActive (tr_status row)), d)
      else (case plan_from_dict (tr_plan row) of
        Inl e \<Rightarrow> (Raised (PlanExn e), d)
      | Inr fresh \<Rightarrow>
      if get_node fresh key = None then (Refused (NoSuchSubtask key), d)
      else (case persist_plan env (rework_mutation key delivered feedback) lead (Some lead) user row d of
        (PlanRaised (PlanError e), _, d1) \<Rightarrow> (Refused (InvalidReview e), d1)
      | (PlanRaised e, _, d1) \<Rightarrow> (Raised (PlanExn e), d1)
      | (PlanConflict, _, d1) \<Rightarrow> (Refused (ReviewLost ''rework'' key), d1)
      | (Declined, _, d1) \<Rightarrow> (Refused (NoSuchSubtask key), d1)
      | (Persisted p, row', d1) \<Rightarrow>
         (let d2 = (if delivered then
                      (case enqueue (the target) tid project user ''text''
                              (''Your previous attempt was sent back for rework.'' @ [char_of (10::nat), char_of (10::nat)]
                               @ text_or feedback) lead ''rework'' [] d1 of
                         None \<Rightarrow> d1 | Some x \<Rightarrow> x)
                    else d1);
              d3 = append_event user project tid ''subtask_reviewed'' lead target
                     (reviewed_payload key ''rework'' feedback) d2;
              (md, d4) = render_plan_md row' p d3
          in (Reply (Reworked key delivered), notify_plan_md user project md d4)))))"

text \<open>
  The whole gate.  \<open>between\<close> is what others commit between the two units of work, \<open>env\<close>
  what they commit in the rounds of \<open>persist_plan\<close>.
\<close>

definition review_subtask :: "string \<Rightarrow> string \<Rightarrow> string \<Rightarrow> string \<Rightarrow> string option \<Rightarrow> string option
    \<Rightarrow> string option \<Rightarrow> string \<Rightarrow> (store \<Rightarrow> store) \<Rightarrow> (store \<Rightarrow> store) list \<Rightarrow> store
    \<Rightarrow> review_reply reply \<times> store" where
  "review_subtask tid project lead decision subtask_key session feedback user between env d =
     (if decision \<notin> {''approve'', ''rework''} then (Refused BadDecision, d)
      else (case review_target tid project subtask_key session user d of
        Raised e \<Rightarrow> (Raised e, d)
      | Refused e \<Rightarrow> (Refused e, d)
      | Reply (key, target) \<Rightarrow>
          (if decision = ''approve''
           then review_approve tid project lead key target feedback user env (between d)
           else review_rework tid project lead key target feedback user env (between d))))"

section \<open>Dispatch and completion of a node\<close>

datatype dispatch_failure =
    NotInPlan string
  | NotDispatchable string subtask_status
  | BlockedOnDeps string "string list"
  | NoAgent string

definition dispatchable :: "subtask_status \<Rightarrow> bool" where
  "dispatchable s = (s \<in> {Planned, Rework, Paused})"

definition rework_brief :: "string \<Rightarrow> subtask \<Rightarrow> string" where
  "rework_brief goal n =
     (let nl = char_of (10 :: nat) in
      goal @ [nl, nl] @ ''## Rework feedback (attempt '' @ str_int (st_attempts n + 1) @ '')''
      @ [nl, nl] @ ''Your previous attempt was sent back. Address this:'' @ [nl]
      @ text_or (st_review_feedback n))"

definition resolve_dispatch_node :: "plan \<Rightarrow> string \<Rightarrow> string option \<Rightarrow> string option
    \<Rightarrow> dispatch_failure + string \<times> string" where
  "resolve_dispatch_node p key agent_override goal_override =
     (case get_node p key of
        None \<Rightarrow> Inl (NotInPlan key)
      | Some n \<Rightarrow>
          if \<not> dispatchable (st_status n) then Inl (NotDispatchable key (st_status n))
          else (let unmet = filter (\<lambda>d. d \<notin> set (done_keys p)) (st_depends_on n) in
           if unmet \<noteq> [] then Inl (BlockedOnDeps key unmet)
           else (let agent = strip (if \<not> blank agent_override then the agent_override
                                    else text_or (st_agent n)) in
            if agent = [] then Inl (NoAgent key)
            else (let goal = (if \<not> blank goal_override then the goal_override
                              else if st_goal n \<noteq> [] then st_goal n else st_title n)
              in Inr (agent,
                   if st_status n = Rework \<and> \<not> blank (st_review_feedback n)
                   then rework_brief goal n else goal)))))"

definition dispatch_mutation :: "string \<Rightarrow> string \<Rightarrow> string \<Rightarrow> mutation" where
  "dispatch_mutation key agent session p =
     (case get_node p key of
        None \<Rightarrow> Inr None
      | Some n \<Rightarrow>
          if \<not> dispatchable (st_status n) then Inr None
          else rbind (update_node p key
                 [(''status'', JStr ''in_progress''), (''attempts'', JInt (st_attempts n + 1)),
                  (''agent'', JStr agent), (''latest_run_session_id'', JStr session)])
               (\<lambda>q. Inr (Some q)))"

text \<open>A \<open>PlanError\<close> of the mutation propagates to the caller.\<close>

definition mark_node_dispatched :: "string \<Rightarrow> string \<Rightarrow> string \<Rightarrow> string \<Rightarrow> string \<Rightarrow> string
    \<Rightarrow> (store \<Rightarrow> store) list \<Rightarrow> store \<Rightarrow> (plan_exn + unit) \<times> store" where
  "mark_node_dispatched project tid key agent session user env d =
     (case get_task_by_project user project tid d of
        None \<Rightarrow> (Inr (), d)
      | Some row \<Rightarrow>
          (case persist_plan_best_effort env (dispatch_mutation key agent session) agent
                  (Some session) user row d of
             (PlanRaised e, _, d1) \<Rightarrow> (Inl e, d1)
           | (_, _, d1) \<Rightarrow> (Inr (), d1)))"

definition in_review_mutation :: "string \<Rightarrow> mutation" where
  "in_review_mutation key p =
     (case get_node p key of
        None \<Rightarrow> Inr None
      | Some n \<Rightarrow>
          if st_status n \<notin> {InProgress, Rework} then Inr None
          else rbind (update_node p key [(''status'', JStr ''in_review'')]) (\<lambda>q. Inr (Some q)))"

text \<open>Best effort: every exception is swallowed.\<close>

definition mark_in_review :: "string \<Rightarrow> string \<Rightarrow> string \<Rightarrow> string \<Rightarrow> (store \<Rightarrow> store) list
    \<Rightarrow> store \<Rightarrow> store" where
  "mark_in_review tid project member user env d =
     (let key = (case get_run member d of None \<Rightarrow> None | Some r \<Rightarrow> rr_subtask_key r) in
      if blank key then d
      else (case get_task_by_project user project tid d of
        None \<Rightarrow> d
      | Some row \<Rightarrow>
          snd (snd (persist_plan_best_effort env (in_review_mutation (the key)) ''system''
                 (Some member) user row d))))"

end
