(* ===== verification/PlanWriters.thy ===== *)
theory PlanWriters
  imports Planning
begin

text \<open>
  Concurrent plan writers.  The interface \<open>versioned_document\<close> is what every plan write
  relies on: a document guarded by a version, written by compare-and-swap.  Inside it,
  any number of writers that read, compute and write in any interleaving are shown to
  compose: each write that lands applies its change to the document as it then is.  The
  interface is interpreted on \<open>cas_update_plan\<close>, and \<open>persist_plan\<close> is shown never to
  lose another writer's update.
\<close>

section \<open>The interface\<close>

locale versioned_document =
  fixes inv :: "'s \<Rightarrow> bool"
    and version :: "'s \<Rightarrow> int option"
    and document :: "'s \<Rightarrow> 'v option"
    and cas :: "'v \<Rightarrow> int \<Rightarrow> 's \<Rightarrow> bool \<times> 's"
  assumes cas_inv: "inv s \<Longrightarrow> cas v n s = (b, s') \<Longrightarrow> inv s'"
    and cas_wrote: "inv s \<Longrightarrow> cas v n s = (True, s') \<Longrightarrow>
      version s = Some n \<and> version s' = Some (n + 1) \<and> document s' = Some v"
    and cas_refused: "inv s \<Longrightarrow> cas v n s = (False, s') \<Longrightarrow> s' = s \<and> version s \<noteq> Some n"
begin

text \<open>
  The writers as a step relation: writer \<open>i\<close> reads the document with its version, or
  writes a change of what it read.
\<close>

inductive writer_step :: "'s \<times> ('i \<Rightarrow> (int \<times> 'v) option) \<Rightarrow> 's \<times> ('i \<Rightarrow> (int \<times> 'v) option) \<Rightarrow> bool" where
  writer_read: "version s = Some n \<Longrightarrow> document s = Some v \<Longrightarrow> writer_step (s, m) (s, m(i \<mapsto> (n, v)))"
| writer_write: "m i = Some (n, v) \<Longrightarrow> cas (f v) n s = (b, s') \<Longrightarrow> writer_step (s, m) (s', m)"

inductive writers_reach :: "'s \<times> ('i \<Rightarrow> (int \<times> 'v) option) \<Rightarrow> bool" where
  writers_init: "inv s \<Longrightarrow> writers_reach (s, Map.empty)"
| writers_next: "writers_reach c \<Longrightarrow> writer_step c c' \<Longrightarrow> writers_reach c'"

definition reads_current :: "'s \<times> ('i \<Rightarrow> (int \<times> 'v) option) \<Rightarrow> bool" where
  "reads_current c = (case c of (s, m) \<Rightarrow> inv s \<and> (\<forall>i n v. m i = Some (n, v) \<longrightarrow>
     (\<exists>k. version s = Some k \<and> n \<le> k \<and> (n = k \<longrightarrow> document s = Some v))))"

lemma writer_step_reads_current:
  assumes "writer_step c c'" and "reads_current c"
  shows "reads_current c'"
  using assms
proof (cases rule: writer_step.cases)
  case (writer_read s n v m i)
  with assms(2) show ?thesis by (auto simp: reads_current_def)
next
  case (writer_write m i n v f s b s')
  have inv: "inv s" using writer_write assms(2) by (simp add: reads_current_def)
  show ?thesis
  proof (cases b)
    case True
    with writer_write(4) have cw: "cas (f v) n s = (True, s')" by simp
    with cas_wrote [OF inv cw] cas_inv [OF inv cw] writer_write assms(2) show ?thesis
      by (fastforce simp: reads_current_def)
  next
    case False
    with writer_write(4) have "cas (f v) n s = (False, s')" by simp
    with cas_refused [OF inv this] writer_write assms(2) show ?thesis by simp
  qed
qed

lemma writers_reach_current: "writers_reach c \<Longrightarrow> reads_current c"
proof (induction rule: writers_reach.induct)
  case (writers_init s)
  then show ?case by (simp add: reads_current_def)
next
  case (writers_next c c')
  then show ?case by (blast intro: writer_step_reads_current)
qed

lemma write_applies_to_current:
  assumes "writers_reach (s, m)" and "m i = Some (n, v)" and "cas (f v) n s = (True, s')"
  shows "document s = Some v \<and> document s' = Some (f v) \<and> version s' = map_option (\<lambda>k. k + 1) (version s)"
  using writers_reach_current [OF assms(1)] assms(2) cas_wrote [OF _ assms(3)]
  by (fastforce simp: reads_current_def)

text \<open>
  One writer among others it knows nothing about, except that they never change the
  document without changing its version.
\<close>

definition others_ok :: "('s \<Rightarrow> 's) \<Rightarrow> bool" where
  "others_ok f = (\<forall>s. inv s \<longrightarrow> inv (f s) \<and> (version (f s) = version s \<longrightarrow> document (f s) = document s))"

lemma no_lost_update:
  assumes "inv s" "others_ok f" "version s = Some n" "document s = Some v"
    and "cas w n (f s) = (True, s')"
  shows "document (f s) = Some v \<and> document s' = Some w \<and> version s' = Some (n + 1) \<and> inv s'"
proof -
  have "inv (f s)" using assms(1,2) by (simp add: others_ok_def)
  with cas_wrote [OF this assms(5)] cas_inv [OF this assms(5)] assms show ?thesis
    by (simp add: others_ok_def)
qed

end

section \<open>The plan column as a versioned document\<close>

definition plan_cell :: "string \<Rightarrow> string \<Rightarrow> store \<Rightarrow> bool" where
  "plan_cell u t d \<longleftrightarrow> task_ids_unique d \<and> (\<forall>x \<in> set (tasks d). tr_id x = t \<longrightarrow> tr_user x = u)"

definition plan_version_of :: "string \<Rightarrow> string \<Rightarrow> store \<Rightarrow> int option" where
  "plan_version_of u t d = map_option tr_plan_version (get_task u t d)"

definition plan_doc_of :: "string \<Rightarrow> string \<Rightarrow> store \<Rightarrow> json option" where
  "plan_doc_of u t d = map_option tr_plan (get_task u t d)"

definition cas_plan :: "string \<Rightarrow> task_row \<Rightarrow> json \<Rightarrow> int \<Rightarrow> store \<Rightarrow> bool \<times> store" where
  "cas_plan u row doc n d = (case cas_update_plan u row doc n d of
     (None, d') \<Rightarrow> (False, d') | (Some (w, _), d') \<Rightarrow> (w, d'))"

lemma plan_cell_find:
  assumes "plan_cell u t d"
  shows "List.find (\<lambda>x. tr_id x = t) (tasks d) = get_task u t d"
  unfolding get_task_def
proof (rule find_cong_on)
  fix x assume "x \<in> set (tasks d)"
  with assms have "tr_id x = t \<Longrightarrow> tr_user x = u" unfolding plan_cell_def by blast
  then show "(tr_id x = t) = (tr_id x = t \<and> tr_user x = u)" by blast
qed

lemma cas_update_plan_miss:
  assumes "cas_update_plan u row doc n d = (res, d')" "\<forall>w r. res = Some (w, r) \<longrightarrow> \<not> w"
  shows "d' = d"
proof -
  let ?m = "cas_matches u (tr_id row) n"
  have "matched ?m (tasks d) = 0"
  proof (rule ccontr)
    assume "matched ?m (tasks d) \<noteq> 0"
    then obtain x where x: "x \<in> set (tasks d)" "?m x" unfolding matched_zero_iff by blast
    have "tasks d' = update_where ?m (\<lambda>t. t\<lparr>tr_plan := doc, tr_plan_version := n + 1,
        tr_updated_at := clock d\<rparr>) (tasks d)"
      using assms(1) by (auto simp: cas_update_plan_def Let_def)
    then have "map tr_id (tasks d') = map tr_id (tasks d)" by (simp add: map_update_where_frame)
    then have "set (map tr_id (tasks d')) = set (map tr_id (tasks d))" by (rule arg_cong)
    with x have "tr_id row \<in> set (map tr_id (tasks d'))"
      by (auto simp: cas_matches_def image_iff intro!: bexI [of _ x])
    then have "\<exists>y \<in> set (tasks d'). tr_id y = tr_id row" by auto
    then have "List.find (\<lambda>t. tr_id t = tr_id row) (tasks d') \<noteq> None" by (auto simp: find_None_iff)
    with assms \<open>matched ?m (tasks d) \<noteq> 0\<close> show False
      by (auto simp: cas_update_plan_def Let_def)
  qed
  then have "\<forall>x \<in> set (tasks d). \<not> ?m x" by (simp add: matched_zero_iff)
  then show ?thesis using assms(1) by (auto simp: cas_update_plan_def Let_def update_where_none)
qed

lemma cas_update_plan_gone:
  assumes "cas_update_plan u row doc n d = (None, d')"
  shows "List.find (\<lambda>t. tr_id t = tr_id row) (tasks d') = None"
proof -
  have "fst (cas_update_plan u row doc n d) = None \<longleftrightarrow>
      List.find (\<lambda>t. tr_id t = tr_id row) (tasks (snd (cas_update_plan u row doc n d))) = None"
    by (simp add: cas_update_plan_def Let_def)
  with assms show ?thesis by simp
qed

lemma cas_update_plan_hit:
  assumes "cas_update_plan u row doc n d = (Some (w, r), d')" "plan_cell u (tr_id row) d"
  shows "plan_cell u (tr_id row) d' \<and> get_task u (tr_id row) d' = Some r
    \<and> (w \<longrightarrow> (\<exists>r0. get_task u (tr_id row) d = Some r0 \<and> tr_plan_version r0 = n
         \<and> r = r0\<lparr>tr_plan := doc, tr_plan_version := n + 1, tr_updated_at := clock d\<rparr>))
    \<and> (\<not> w \<longrightarrow> d' = d \<and> tr_plan_version r \<noteq> n)"
proof -
  let ?m = "cas_matches u (tr_id row) n"
  let ?f = "\<lambda>t. t\<lparr>tr_plan := doc, tr_plan_version := n + 1, tr_updated_at := clock d\<rparr>"
  have d': "d' = d\<lparr>tasks := update_where ?m ?f (tasks d)\<rparr>"
    and r: "List.find (\<lambda>t. tr_id t = tr_id row) (tasks d') = Some r"
    and w: "w = (0 < matched ?m (tasks d))"
    using assms(1) by (auto simp: cas_update_plan_def Let_def)
  have ids: "map tr_id (tasks d') = map tr_id (tasks d)" "map tr_user (tasks d') = map tr_user (tasks d)"
    unfolding d' by (simp_all add: map_update_where_frame)
  have cell: "plan_cell u (tr_id row) d'"
    using assms(2) unfolding plan_cell_def task_ids_unique_def ids(1)
    by (auto simp: d' set_update_where cas_matches_def)
  have g: "get_task u (tr_id row) d' = Some r"
    using plan_cell_find [OF cell] r by simp
  have hit: "\<exists>r0. get_task u (tr_id row) d = Some r0 \<and> tr_plan_version r0 = n \<and> r = ?f r0" if w
  proof -
    from that w obtain r0 where r0: "r0 \<in> set (tasks d)" "?m r0" by (auto simp: matched_pos_iff)
    with assms(2) have g0: "get_task u (tr_id row) d = Some r0"
      by (intro get_task_eq_Some) (auto simp: plan_cell_def cas_matches_def)
    have "?f r0 \<in> set (tasks d')" using r0 by (auto simp: d' set_update_where image_iff intro!: bexI [of _ r0])
    then have "get_task u (tr_id row) d' = Some (?f r0)"
      using cell r0 by (intro get_task_eq_Some) (auto simp: plan_cell_def cas_matches_def)
    with g g0 r0 show ?thesis by (auto simp: cas_matches_def)
  qed
  have miss: "d' = d \<and> tr_plan_version r \<noteq> n" if "\<not> w"
  proof -
    have same: "d' = d" using cas_update_plan_miss [OF assms(1)] that by simp
    from g have "r \<in> set (tasks d')" "tr_id r = tr_id row" "tr_user r = u" by (auto dest: get_task_SomeD)
    with same that w show ?thesis by (auto simp: matched_pos_iff cas_matches_def)
  qed
  from cell g hit miss show ?thesis by blast
qed

interpretation plan_writers: versioned_document "plan_cell u (tr_id row)"
    "plan_version_of u (tr_id row)" "plan_doc_of u (tr_id row)" "cas_plan u row"
  for u row
proof (unfold_locales)
  fix s s' v n b
  assume inv: "plan_cell u (tr_id row) s"
  { assume c: "cas_plan u row v n s = (b, s')"
    show "plan_cell u (tr_id row) s'"
    proof (cases "fst (cas_update_plan u row v n s)")
      case None
      then have "s' = s" using c cas_update_plan_miss [of u row v n s None s']
        by (auto simp: cas_plan_def split: prod.splits)
      with inv show ?thesis by simp
    next
      case (Some wr)
      obtain w r where wr: "wr = (w, r)" by (cases wr)
      with Some c have "cas_update_plan u row v n s = (Some (w, r), s')"
        by (auto simp: cas_plan_def split: prod.splits)
      from cas_update_plan_hit [OF this inv] show ?thesis by simp
    qed }
  { assume c: "cas_plan u row v n s = (True, s')"
    then obtain r where "cas_update_plan u row v n s = (Some (True, r), s')"
      by (auto simp: cas_plan_def split: prod.splits option.splits)
    from cas_update_plan_hit [OF this inv]
    show "plan_version_of u (tr_id row) s = Some n \<and> plan_version_of u (tr_id row) s' = Some (n + 1)
        \<and> plan_doc_of u (tr_id row) s' = Some v"
      by (auto simp: plan_version_of_def plan_doc_of_def) }
  { assume c: "cas_plan u row v n s = (False, s')"
    show "s' = s \<and> plan_version_of u (tr_id row) s \<noteq> Some n"
    proof (cases "fst (cas_update_plan u row v n s)")
      case None
      then have cu: "cas_update_plan u row v n s = (None, s')"
        using c by (auto simp: cas_plan_def split: prod.splits)
      then have same: "s' = s" by (rule cas_update_plan_miss) simp
      with cas_update_plan_gone [OF cu]
      have "List.find (\<lambda>t. tr_id t = tr_id row) (tasks s) = None" by simp
      with same show ?thesis
        using plan_cell_find [OF inv] by (simp add: plan_version_of_def)
    next
      case (Some wr)
      then obtain r where "cas_update_plan u row v n s = (Some (False, r), s')"
        using c by (auto simp: cas_plan_def split: prod.splits)
      from cas_update_plan_hit [OF this inv] show ?thesis
        by (auto simp: plan_version_of_def)
    qed }
qed

text \<open>Property C5: plan writes linearise: however any number of writers' reads and compare-and-swap writes
  interleave, a write that lands computed its document from the one it replaces, and it
  installs the next version.\<close>
theorem plan_writes_linearise:
  assumes "plan_writers.writers_reach u row (d, m)" and "m i = Some (n, doc)"
    and "cas_plan u row (f doc) n d = (True, d')"
  shows "plan_doc_of u (tr_id row) d = Some doc \<and> plan_doc_of u (tr_id row) d' = Some (f doc)
    \<and> plan_version_of u (tr_id row) d' = map_option (\<lambda>k. k + 1) (plan_version_of u (tr_id row) d)"
  using assms by (rule plan_writers.write_applies_to_current)

section \<open>persist\_plan\<close>

definition other_writers_ok :: "string \<Rightarrow> string \<Rightarrow> (store \<Rightarrow> store) \<Rightarrow> bool" where
  "other_writers_ok u t f \<longleftrightarrow> (\<forall>s. plan_cell u t s \<longrightarrow> plan_cell u t (f s) \<and>
     (plan_version_of u t (f s) = plan_version_of u t s \<longrightarrow> plan_doc_of u t (f s) = plan_doc_of u t s))"

text \<open>A compare-and-swap that lands rewrites that one row and nothing else.\<close>

lemma cas_update_plan_rewrites:
  assumes c: "cas_update_plan u row doc n d = (Some (True, r), d')" and cell: "plan_cell u (tr_id row) d"
  shows "tasks d' = map (\<lambda>x. if tr_id x = tr_id row then r else x) (tasks d)"
proof -
  let ?f = "\<lambda>t. t\<lparr>tr_plan := doc, tr_plan_version := n + 1, tr_updated_at := clock d\<rparr>"
  from cas_update_plan_hit [OF c cell] obtain r0 where r0: "get_task u (tr_id row) d = Some r0"
    "tr_plan_version r0 = n" "r = ?f r0" by blast
  have only: "x = r0" if "x \<in> set (tasks d)" "tr_id x = tr_id row" for x
  proof -
    from that cell have "get_task u (tr_id row) d = Some x"
      by (intro get_task_eq_Some) (auto simp: plan_cell_def)
    with r0(1) show ?thesis by simp
  qed
  have own: "tr_id r0 = tr_id row" "tr_user r0 = u" using r0(1) by (auto dest: get_task_SomeD)
  have "tasks d' = update_where (cas_matches u (tr_id row) n) ?f (tasks d)"
    using c by (auto simp: cas_update_plan_def Let_def)
  also have "\<dots> = map (\<lambda>x. if tr_id x = tr_id row then r else x) (tasks d)"
    using only own r0 by (auto simp: update_where_def cas_matches_def)
  finally show ?thesis .
qed

definition after_others :: "nat \<Rightarrow> (store \<Rightarrow> store) list \<Rightarrow> store \<Rightarrow> store" where
  "after_others k env d = fold (\<lambda>f. f) (take k env) d"

lemma after_others_Suc:
  "after_others (Suc k) env d = after_others k (case env of [] \<Rightarrow> [] | _ # gs \<Rightarrow> gs)
     ((case env of [] \<Rightarrow> (\<lambda>s. s) | g # _ \<Rightarrow> g) d)"
  by (simp add: after_others_def split: list.splits)

text \<open>
  The write of a persisted plan, located: it lands on the store the other writers made of
  the initial one by the \<open>k\<close>-th round, and that store is the one whose plan was mutated.
\<close>

lemma persist_rounds_writes:
  assumes "persist_rounds n env mutate a se u row d = (Persisted p, row', d')"
    and "plan_cell u t d" "tr_id row = t" "get_task u t d = Some row"
    and "\<forall>f \<in> set env. other_writers_ok u t f"
  shows "\<exists>k r1 p1. k < n \<and> plan_cell u t (after_others (Suc k) env d)
     \<and> get_task u t (after_others (Suc k) env d) = Some r1 \<and> plan_from_dict (tr_plan r1) = Inr p1
     \<and> mutate p1 = Inr (Some p) \<and> get_task u t d' = Some row'
     \<and> row' = r1\<lparr>tr_plan := plan_to_dict p, tr_plan_version := tr_plan_version r1 + 1,
                tr_updated_at := clock (after_others (Suc k) env d)\<rparr>
     \<and> tasks d' = map (\<lambda>x. if tr_id x = t then row' else x) (tasks (after_others (Suc k) env d))"
  using assms
proof (induction n arbitrary: env row d)
  case 0
  then show ?case by simp
next
  case (Suc n)
  define f where "f = (case env of [] \<Rightarrow> (\<lambda>s. s) | g # _ \<Rightarrow> g)"
  define rest where "rest = (case env of [] \<Rightarrow> [] | _ # gs \<Rightarrow> gs)"
  have step: "after_others (Suc k) env d = after_others k rest (f d)" for k
    by (simp add: after_others_Suc f_def rest_def)
  let ?v = "tr_plan_version row"
  have ok: "other_writers_ok u t f" "\<forall>g \<in> set rest. other_writers_ok u t g"
    using Suc.prems(5) by (auto simp: f_def rest_def other_writers_ok_def split: list.splits)
  then have cell: "plan_cell u t (f d)" using Suc.prems(2) by (simp add: other_writers_ok_def)
  from Suc.prems(1) obtain p1 q where p1: "plan_from_dict (tr_plan row) = Inr p1"
    and q: "mutate p1 = Inr (Some q)"
    by (auto simp: Let_def rbind_def split: sum.splits option.splits)
  with Suc.prems(1) obtain wrote r2 d2 where c: "cas_update_plan u row (plan_to_dict q) ?v (f d) = (Some (wrote, r2), d2)"
    by (auto simp: Let_def simp flip: f_def rest_def split: option.splits prod.splits)
  note hit = cas_update_plan_hit [OF c [folded Suc.prems(3)], unfolded Suc.prems(3), OF cell]
  show ?case
  proof (cases wrote)
    case True
    with Suc.prems(1) p1 q c have res: "p = q" "row' = r2" "tasks d' = tasks d2"
      by (auto simp: Let_def emit_plan_update_def simp flip: f_def rest_def)
    from hit True obtain r0 where r0: "get_task u t (f d) = Some r0" "tr_plan_version r0 = ?v"
      "r2 = r0\<lparr>tr_plan := plan_to_dict q, tr_plan_version := ?v + 1, tr_updated_at := clock (f d)\<rparr>"
      by blast
    have "plan_version_of u t (f d) = plan_version_of u t d"
      using r0 Suc.prems(4) by (simp add: plan_version_of_def)
    with ok(1) Suc.prems(2,4) r0(1) have same: "tr_plan r0 = tr_plan row"
      by (auto simp: other_writers_ok_def plan_doc_of_def)
    have g: "get_task u t d' = Some row'" using hit res by (simp add: get_task_def)
    have all: "tasks d' = map (\<lambda>x. if tr_id x = t then row' else x) (tasks (f d))"
      using cas_update_plan_rewrites [of u row "plan_to_dict q" ?v "f d" r2 d2] c True cell Suc.prems(3) res
      by simp
    have "after_others (Suc 0) env d = f d" by (simp add: step) (simp add: after_others_def)
    with cell r0 same g all p1 q res show ?thesis
      by (intro exI [of _ 0] exI [of _ r0] exI [of _ p1]) simp
  next
    case False
    with Suc.prems(1) p1 q c
    have rec: "persist_rounds n rest mutate a se u r2 d2 = (Persisted p, row', d')"
      by (auto simp: Let_def simp flip: f_def rest_def)
    from hit False have d2: "d2 = f d" "plan_cell u t d2" "get_task u t d2 = Some r2" by auto
    moreover from this(3) have "tr_id r2 = t" by (auto dest: get_task_SomeD)
    ultimately obtain k r1 p1' where "k < n" and k: "plan_cell u t (after_others (Suc k) rest d2)
       \<and> get_task u t (after_others (Suc k) rest d2) = Some r1 \<and> plan_from_dict (tr_plan r1) = Inr p1'
       \<and> mutate p1' = Inr (Some p) \<and> get_task u t d' = Some row'
       \<and> row' = r1\<lparr>tr_plan := plan_to_dict p, tr_plan_version := tr_plan_version r1 + 1,
                  tr_updated_at := clock (after_others (Suc k) rest d2)\<rparr>
       \<and> tasks d' = map (\<lambda>x. if tr_id x = t then row' else x) (tasks (after_others (Suc k) rest d2))"
      using Suc.IH [OF rec] ok(2) by blast
    then show ?thesis
      using step [of "Suc k"] d2(1)
      by (intro exI [of _ "Suc k"] exI [of _ r1] exI [of _ p1']) simp
  qed
qed

lemma persist_rounds_lands:
  assumes "persist_rounds n env mutate a se u row d = (Persisted p, row', d')"
    and "plan_cell u t d" "tr_id row = t" "get_task u t d = Some row"
    and "\<forall>f \<in> set env. other_writers_ok u t f"
  shows "\<exists>d1 r1 p1. plan_cell u t d1 \<and> get_task u t d1 = Some r1 \<and> plan_from_dict (tr_plan r1) = Inr p1
     \<and> mutate p1 = Inr (Some p) \<and> get_task u t d' = Some row'
     \<and> tr_plan row' = plan_to_dict p \<and> tr_plan_version row' = tr_plan_version r1 + 1"
  using persist_rounds_writes [OF assms] by fastforce

lemma persist_rounds_no_trace:
  assumes "persist_rounds n env mutate a se u row d = (r, row', d')" and "\<forall>p. r \<noteq> Persisted p"
  shows "\<exists>k. d' = fold (\<lambda>f. f) (take k env) d"
  using assms
proof (induction n arbitrary: env row d)
  case 0
  then show ?case by (auto intro: exI [of _ 0])
next
  case (Suc n)
  define f where "f = (case env of [] \<Rightarrow> (\<lambda>s. s) | g # _ \<Rightarrow> g)"
  define rest where "rest = (case env of [] \<Rightarrow> [] | _ # gs \<Rightarrow> gs)"
  have fold1: "fold (\<lambda>f. f) (take (Suc k) env) d = fold (\<lambda>f. f) (take k rest) (f d)" for k
    by (auto simp: f_def rest_def split: list.splits)
  show ?case
  proof (cases "rbind (plan_from_dict (tr_plan row)) mutate")
    case (Inl e)
    with Suc.prems have "d' = d" by (auto simp: Let_def)
    then show ?thesis by (auto intro: exI [of _ 0])
  next
    case (Inr o')
    show ?thesis
    proof (cases o')
      case None
      with Inr Suc.prems have "d' = d" by (auto simp: Let_def)
      then show ?thesis by (auto intro: exI [of _ 0])
    next
      case (Some p)
      obtain res d2 where c: "cas_update_plan u row (plan_to_dict p) (tr_plan_version row) (f d) = (res, d2)"
        by fastforce
      show ?thesis
      proof (cases res)
        case None
        with c have "d2 = f d" by (auto intro: cas_update_plan_miss)
        moreover have "d' = d2"
          using Suc.prems(1) Inr Some c None by (auto simp: Let_def simp flip: f_def rest_def)
        ultimately show ?thesis using fold1 [of 0] by (auto intro: exI [of _ "Suc 0"])
      next
        case (Some wr)
        obtain w r2 where wr: "wr = (w, r2)" by (cases wr)
        have "\<not> w" using Suc.prems Inr \<open>o' = Some p\<close> c Some wr
          by (auto simp: Let_def simp flip: f_def rest_def)
        with c Some wr have "d2 = f d" by (auto intro: cas_update_plan_miss)
        moreover have "persist_rounds n rest mutate a se u r2 d2 = (r, row', d')"
          using Suc.prems(1) Inr \<open>o' = Some p\<close> c Some wr \<open>\<not> w\<close>
          by (auto simp: Let_def simp flip: f_def rest_def)
        ultimately obtain k where "d' = fold (\<lambda>f. f) (take k rest) (f d)"
          using Suc.IH Suc.prems(2) by blast
        then show ?thesis using fold1 [of k] by metis
      qed
    qed
  qed
qed

text \<open>Property C6: \<open>persist_plan\<close> never loses another writer's update: when it reports a persisted plan,
  the write happened in one of the \<open>plan_cas_retries\<close> rounds, on the store \<open>d1\<close> that the
  other writers had made of the initial one by that round, and the plan written is the
  caller's mutation of the document \<open>d1\<close> holds.  The write replaces that one row, by the
  row of \<open>d1\<close> with the new document, the next version and the time, and leaves every other
  row of \<open>d1\<close> alone.  The other writers are only assumed to keep ids unique and not to
  change a plan without changing its version.\<close>
theorem persist_plan_no_lost_update:
  assumes "persist_plan env mutate a se u row d = (Persisted p, row', d')"
    and "plan_cell u (tr_id row) d" "get_task u (tr_id row) d = Some row"
    and "\<forall>f \<in> set env. other_writers_ok u (tr_id row) f"
  shows "\<exists>k r1 p1. k < plan_cas_retries \<and> (let d1 = fold (\<lambda>f. f) (take (Suc k) env) d in
     get_task u (tr_id row) d1 = Some r1 \<and> plan_from_dict (tr_plan r1) = Inr p1
     \<and> mutate p1 = Inr (Some p) \<and> get_task u (tr_id row) d' = Some row'
     \<and> row' = r1\<lparr>tr_plan := plan_to_dict p, tr_plan_version := tr_plan_version r1 + 1,
                tr_updated_at := clock d1\<rparr>
     \<and> tasks d' = map (\<lambda>x. if tr_id x = tr_id row then row' else x) (tasks d1))"
  using persist_rounds_writes [OF assms(1) [unfolded persist_plan_def] assms(2) refl assms(3,4)]
  by (auto simp: after_others_def Let_def)

text \<open>A \<open>persist_plan\<close> that does not report a persisted plan (it declined, raised, or lost all
  five rounds) has written nothing: the store is what the other writers made of it.\<close>
theorem persist_plan_failure_writes_nothing:
  assumes "persist_plan env mutate a se u row d = (r, row', d')" and "\<forall>p. r \<noteq> Persisted p"
  shows "\<exists>k. d' = fold (\<lambda>f. f) (take k env) d"
  using assms unfolding persist_plan_def by (rule persist_rounds_no_trace)

end
