(* ===== verification/PlanningFacts.thy ===== *)
theory PlanningFacts
  imports PlanWriters
begin

text \<open>
  The properties of plan authoring, review and dispatch: a change request applies exactly
  once to the version it names and never removes a node, a refused request writes nothing,
  an approval closes a node through a legal transition, and the dispatch gate agrees with
  the plan's ready set.
\<close>

section \<open>The effects around a plan write leave the tables alone\<close>

lemma emit_plan_update_frame [simp]:
  "tasks (emit_plan_update row p a se u v st d) = tasks d"
  "runs (emit_plan_update row p a se u v st d) = runs d"
  "mailbox (emit_plan_update row p a se u v st d) = mailbox d"
  by (simp_all add: emit_plan_update_def)

lemma render_plan_md_frame:
  "render_plan_md row p d = (md, d') \<Longrightarrow> tasks d' = tasks d \<and> runs d' = runs d
     \<and> mailbox d' = mailbox d \<and> events d' = events d"
  by (auto simp: render_plan_md_def split: if_splits)

lemma notify_plan_md_frame [simp]:
  "tasks (notify_plan_md u p md d) = tasks d"
  "runs (notify_plan_md u p md d) = runs d"
  "mailbox (notify_plan_md u p md d) = mailbox d"
  "events (notify_plan_md u p md d) = events d"
  by (simp_all add: notify_plan_md_def split: option.split)

lemma get_task_tasks: "tasks d = tasks d' \<Longrightarrow> get_task u t d = get_task u t d'"
  by (simp add: get_task_def)

lemma get_task_by_project_get:
  assumes "get_task_by_project u p t d = Some row" and "plan_cell u t d"
  shows "get_task u t d = Some row \<and> tr_project row = p \<and> tr_id row = t"
proof -
  from assms(1) have r: "row \<in> set (tasks d)" "tr_project row = p" "tr_id row = t" "tr_user row = u"
    by (auto simp: get_task_by_project_def dest: find_SomeD)
  with assms(2) have "get_task u t d = Some row"
    by (intro get_task_eq_Some) (auto simp: plan_cell_def)
  with r show ?thesis by blast
qed

text \<open>
  The one conditional write of a plan, made on the version read before other writers
  committed \<open>f\<close>: if it lands, the document it replaces is the one that was read.
\<close>

lemma versioned_write:
  assumes "cas_update_plan u row doc (tr_plan_version row) (f d) = (Some (True, r2), d2)"
    and "plan_cell u (tr_id row) d" "get_task u (tr_id row) d = Some row"
    and "other_writers_ok u (tr_id row) f"
  shows "get_task u (tr_id row) d2 = Some r2 \<and> tr_plan r2 = doc
    \<and> tr_plan_version r2 = tr_plan_version row + 1
    \<and> plan_doc_of u (tr_id row) (f d) = Some (tr_plan row) \<and> plan_cell u (tr_id row) d2"
proof -
  have cell: "plan_cell u (tr_id row) (f d)" using assms(2,4) by (simp add: other_writers_ok_def)
  from cas_update_plan_hit [OF assms(1) cell] obtain r0 where
    r0: "get_task u (tr_id row) (f d) = Some r0" "tr_plan_version r0 = tr_plan_version row"
      "r2 = r0\<lparr>tr_plan := doc, tr_plan_version := tr_plan_version row + 1, tr_updated_at := clock (f d)\<rparr>"
    and rest: "plan_cell u (tr_id row) d2" "get_task u (tr_id row) d2 = Some r2"
    by blast
  have "plan_version_of u (tr_id row) (f d) = plan_version_of u (tr_id row) d"
    using r0 assms(3) by (simp add: plan_version_of_def)
  with assms(2,3,4) have "plan_doc_of u (tr_id row) (f d) = Some (tr_plan row)"
    by (simp add: other_writers_ok_def plan_doc_of_def)
  with r0 rest show ?thesis by simp
qed

section \<open>What a change request does to the plan\<close>

definition named_once :: "json list \<Rightarrow> bool" where
  "named_once ps = (\<forall>x \<in> set ps. \<forall>kvs. x = JDict kvs \<longrightarrow> distinct (map fst kvs))"

definition keeps_done :: "plan \<Rightarrow> plan \<Rightarrow> bool" where
  "keeps_done p q = (\<forall>k n. get_node p k = Some n \<longrightarrow> st_status n = Done \<longrightarrow>
     (\<exists>m. get_node q k = Some m \<and> st_status m = Done))"

lemma keeps_done_refl [simp]: "keeps_done p p"
  by (simp add: keeps_done_def)

lemma keeps_done_trans: "keeps_done p q \<Longrightarrow> keeps_done q r \<Longrightarrow> keeps_done p r"
  unfolding keeps_done_def by blast

lemma get_node_append: "get_node (p @ q) k = (case get_node p k of None \<Rightarrow> get_node q k | Some n \<Rightarrow> Some n)"
  by (induction p) (auto simp: get_node_def)

lemma keeps_done_append [simp]: "keeps_done p (p @ ns)"
  by (simp add: keeps_done_def get_node_append)

lemma add_nodes_Inr:
  "add_nodes p ds = Inr q \<longleftrightarrow> (\<exists>ns. rmap subtask_from_dict ds = Inr ns \<and> q = p @ ns \<and> valid_plan q)"
  by (auto simp: add_nodes_def rbind_Inr_iff make_plan_Inr)

lemma apply_patch_sound:
  assumes "apply_patch x p = Inr q"
  shows "map st_key q = map st_key p \<and> valid_plan q"
    and "named_once [x] \<Longrightarrow> keeps_done p q"
proof -
  from assms obtain kvs where x: "x = JDict kvs"
    and u: "update_node p (plain_str (dget kvs ''key'')) (filter (\<lambda>kv. fst kv \<noteq> ''key'') kvs) = Inr q"
    by (auto simp: apply_patch_def split: json.splits)
  from u obtain n m where "get_node p (plain_str (dget kvs ''key'')) = Some n"
    "rfold patch_field (filter (\<lambda>kv. fst kv \<noteq> ''key'') kvs) n = Inr m"
    "q = replace_first (plain_str (dget kvs ''key'')) m p" "valid_plan q"
    unfolding update_node_Inr by blast
  then show "map st_key q = map st_key p \<and> valid_plan q"
    by (auto simp: get_node_def dest!: find_SomeD patch_fields_key intro!: replace_first_keys)
  assume "named_once [x]"
  with x have d: "distinct (map fst (filter (\<lambda>kv. fst kv \<noteq> ''key'') kvs))"
    by (simp add: named_once_def distinct_map_filter)
  show "keeps_done p q"
    unfolding keeps_done_def
  proof (intro allI impI)
    fix k n assume n: "get_node p k = Some n" "st_status n = Done"
    then obtain m where m: "get_node q k = Some m"
      using update_node_step [OF u d] by (cases "k = plain_str (dget kvs ''key'')") auto
    with update_node_frozen [OF u d n(1) m] n show "\<exists>m. get_node q k = Some m \<and> st_status m = Done"
      by blast
  qed
qed

lemma change_plan_sound:
  assumes "change_plan adds upds p = Inr q" and "valid_plan p"
  shows "valid_plan q \<and> (\<exists>new. map st_key q = map st_key p @ new)"
    and "named_once upds \<Longrightarrow> keeps_done p q"
proof -
  from assms obtain p1 where p1: "(if adds = [] then Inr p else add_nodes p adds) = Inr p1"
    and r: "rfold apply_patch upds p1 = Inr q"
    by (auto simp: change_plan_def rbind_Inr_iff)
  have a: "valid_plan p1 \<and> (\<exists>ns. p1 = p @ ns)"
    using p1 assms(2) by (auto simp: add_nodes_Inr split: if_splits)
  have "valid_plan q \<and> map st_key q = map st_key p1"
    using r by (rule rfold_invariant [where P = "\<lambda>x. valid_plan x \<and> map st_key x = map st_key p1"])
      (use a apply_patch_sound(1) in auto)
  with a show "valid_plan q \<and> (\<exists>new. map st_key q = map st_key p @ new)" by auto
  assume n: "named_once upds"
  have "keeps_done p q"
    using r by (rule rfold_invariant [where P = "keeps_done p"])
      (use a n apply_patch_sound(2) keeps_done_trans in \<open>auto simp: named_once_def\<close>)
  then show "keeps_done p q" .
qed


section \<open>modify\_plan and plan\_task\<close>

lemma modify_plan_reply:
  assumes "modify_plan t pr lead adds upds ev u intf d = (Reply v, d')"
    and "plan_cell u t d" "other_writers_ok u t intf"
  shows "\<exists>row p0 p r2. get_task u t d = Some row \<and> tr_project row = pr
    \<and> plan_from_dict (tr_plan row) = Inr p0 \<and> change_plan adds upds p0 = Inr p
    \<and> (ev = None \<or> ev = Some (tr_plan_version row))
    \<and> plan_doc_of u t (intf d) = Some (tr_plan row)
    \<and> get_task u t d' = Some r2 \<and> tr_plan r2 = plan_to_dict p
    \<and> tr_plan_version r2 = tr_plan_version row + 1 \<and> pv_version v = tr_plan_version r2
    \<and> pv_ready v = ready_keys p"
proof -
  from assms(1) obtain row where row: "get_task_by_project u pr t d = Some row"
    by (auto simp: modify_plan_def split: option.splits)
  note g = get_task_by_project_get [OF row assms(2)]
  from assms(1) row obtain p0 p where p0: "plan_from_dict (tr_plan row) = Inr p0"
    and p: "change_plan adds upds p0 = Inr p" and ev: "ev = None \<or> ev = Some (tr_plan_version row)"
    by (auto simp: modify_plan_def Let_def split: option.splits sum.splits if_splits plan_exn.splits)
  obtain res d1 where c: "cas_update_plan u row (plan_to_dict p) (tr_plan_version row) (intf d) = (res, d1)"
    by fastforce
  from assms(1) row p0 p ev c obtain r2 where r2: "res = Some (True, r2)"
    by (cases res) (auto simp: modify_plan_def Let_def split: if_splits)
  have w: "get_task u t d1 = Some r2 \<and> tr_plan r2 = plan_to_dict p
      \<and> tr_plan_version r2 = tr_plan_version row + 1 \<and> plan_doc_of u t (intf d) = Some (tr_plan row)"
    using versioned_write [where f = intf and d = d, OF c [unfolded r2]] g assms(2,3) by simp
  from assms(1) row p0 p ev c r2 have d': "tasks d' = tasks d1" "pv_version v = tr_plan_version row + 1"
    "pv_ready v = ready_keys p"
    by (auto simp: modify_plan_def Let_def dest!: render_plan_md_frame split: prod.splits)
  from d'(1) have "get_task u t d' = get_task u t d1" by (rule get_task_tasks)
  with w d' p0 p ev g show ?thesis by auto
qed

text \<open>An accepted change request applies to the version it was computed from and is
  never silently merged: the task's document at the write is the one that was read, a
  version the caller named is that document's, the new document is the requested change of
  it under the next version, and the reply reports that version.  No node is removed or
  reordered, and a node that was \<open>done\<close> stays \<open>done\<close>.\<close>
theorem modify_plan_applies_once:
  assumes "modify_plan t pr lead adds upds ev u intf d = (Reply v, d')"
    and "plan_cell u t d" "other_writers_ok u t intf" "named_once upds"
  shows "\<exists>row p0 p r2. get_task u t d = Some row \<and> plan_from_dict (tr_plan row) = Inr p0
    \<and> plan_doc_of u t (intf d) = Some (tr_plan row)
    \<and> (ev = None \<or> ev = Some (tr_plan_version row))
    \<and> get_task u t d' = Some r2 \<and> tr_plan r2 = plan_to_dict p
    \<and> tr_plan_version r2 = tr_plan_version row + 1 \<and> pv_version v = tr_plan_version r2
    \<and> valid_plan p \<and> (\<exists>new. map st_key p = map st_key p0 @ new) \<and> keeps_done p0 p"
proof -
  from modify_plan_reply [OF assms(1-3)] obtain row p0 p r2 where
    *: "get_task u t d = Some row" "plan_from_dict (tr_plan row) = Inr p0"
      "change_plan adds upds p0 = Inr p" "ev = None \<or> ev = Some (tr_plan_version row)"
      "plan_doc_of u t (intf d) = Some (tr_plan row)" "get_task u t d' = Some r2"
      "tr_plan r2 = plan_to_dict p" "tr_plan_version r2 = tr_plan_version row + 1"
      "pv_version v = tr_plan_version r2"
    by blast
  from change_plan_sound [OF *(3) plan_from_dict_valid [OF *(2)]] assms(4)
  have "valid_plan p" "\<exists>new. map st_key p = map st_key p0 @ new" "keeps_done p0 p" by blast+
  with * show ?thesis by blast
qed

lemma modify_plan_no_reply:
  assumes "modify_plan t pr lead adds upds ev u intf d = (r, d')" "\<forall>v. r \<noteq> Reply v"
  shows "d' = d \<or> d' = intf d"
proof (cases "get_task_by_project u pr t d")
  case None
  with assms show ?thesis by (simp add: modify_plan_def)
next
  case (Some row)
  have c: "d1 = intf d" if "cas_update_plan u row doc n (intf d) = (res, d1)"
    "\<forall>w r2. res = Some (w, r2) \<longrightarrow> \<not> w" for doc n res d1
    using cas_update_plan_miss [OF that] .
  from Some assms show ?thesis
    by (auto simp: modify_plan_def Let_def split: if_splits sum.splits plan_exn.splits option.splits
        prod.splits dest!: c)
qed

lemma plan_task_no_reply:
  assumes "plan_task t pr lead subs u intf d = (r, d')" "\<forall>v. r \<noteq> Reply v"
  shows "d' = d \<or> d' = intf d"
proof (cases "get_task_by_project u pr t d")
  case None
  with assms show ?thesis by (simp add: plan_task_def)
next
  case (Some row)
  have c: "d1 = intf d" if "cas_update_plan u row doc n (intf d) = (res, d1)"
    "\<forall>w r2. res = Some (w, r2) \<longrightarrow> \<not> w" for doc n res d1
    using cas_update_plan_miss [OF that] .
  from Some assms show ?thesis
    by (auto simp: plan_task_def Let_def split: if_splits sum.splits plan_exn.splits option.splits
        prod.splits dest!: c)
qed

lemma plan_task_reply:
  assumes "plan_task t pr lead subs u intf d = (Reply v, d')"
    and "plan_cell u t d" "other_writers_ok u t intf"
  shows "\<exists>row p0 p r2. get_task u t d = Some row \<and> plan_from_dict (tr_plan row) = Inr p0
    \<and> plan_doc_of u t (intf d) = Some (tr_plan row)
    \<and> (\<forall>n \<in> set p0. st_status n = Planned)
    \<and> add_nodes [] subs = Inr p
    \<and> get_task u t d' = Some r2 \<and> tr_plan r2 = plan_to_dict p
    \<and> tr_plan_version r2 = tr_plan_version row + 1 \<and> pv_version v = tr_plan_version r2"
proof -
  from assms(1) obtain row where row: "get_task_by_project u pr t d = Some row"
    by (auto simp: plan_task_def split: option.splits)
  note g = get_task_by_project_get [OF row assms(2)]
  from assms(1) row obtain p0 p where p0: "plan_from_dict (tr_plan row) = Inr p0"
    and p: "add_nodes [] subs = Inr p" and pl: "\<forall>n \<in> set p0. st_status n = Planned" and "subs \<noteq> []"
    by (auto simp: plan_task_def Let_def is_empty_plan_def split: option.splits sum.splits if_splits
        plan_exn.splits)
  then have ne: "\<not> (\<not> is_empty_plan p0 \<and> (\<exists>n \<in> set p0. st_status n \<noteq> Planned))" by blast
  obtain res d1 where c: "cas_update_plan u row (plan_to_dict p) (tr_plan_version row) (intf d) = (res, d1)"
    by fastforce
  from assms(1) row p0 p ne \<open>subs \<noteq> []\<close> c obtain r2 where r2: "res = Some (True, r2)"
    by (cases res) (auto simp: plan_task_def Let_def split: if_splits)
  have w: "get_task u t d1 = Some r2 \<and> tr_plan r2 = plan_to_dict p
      \<and> tr_plan_version r2 = tr_plan_version row + 1 \<and> plan_doc_of u t (intf d) = Some (tr_plan row)"
    using versioned_write [where f = intf and d = d, OF c [unfolded r2]] g assms(2,3) by simp
  from assms(1) row p0 p ne \<open>subs \<noteq> []\<close> c r2
  have d': "tasks d' = tasks d1" "pv_version v = tr_plan_version row + 1"
    by (auto simp: plan_task_def Let_def dest!: render_plan_md_frame split: prod.splits if_splits)
  from d'(1) have "get_task u t d' = get_task u t d1" by (rule get_task_tasks)
  with w d' p0 p pl g show ?thesis by auto
qed

text \<open>Laying down a plan never overwrites progress, not even progress another writer makes
  while the request runs: when \<open>plan_task\<close> replies, every node of the document it replaced
  was still \<open>planned\<close>, the new plan is valid and is stored under the next version; when it
  does not reply, it has written nothing.\<close>
theorem plan_task_keeps_progress:
  assumes "plan_task t pr lead subs u intf d = (r, d')"
    and "plan_cell u t d" "other_writers_ok u t intf"
  shows "case r of
      Reply v \<Rightarrow> \<exists>p0 p r2. plan_doc_of u t (intf d) \<noteq> None
        \<and> plan_from_dict (the (plan_doc_of u t (intf d))) = Inr p0
        \<and> (\<forall>n \<in> set p0. st_status n = Planned)
        \<and> get_task u t d' = Some r2 \<and> tr_plan r2 = plan_to_dict p \<and> valid_plan p
        \<and> Some (tr_plan_version r2) = map_option (\<lambda>k. k + 1) (plan_version_of u t d)
    | _ \<Rightarrow> d' = d \<or> d' = intf d"
proof (cases r)
  case (Reply v)
  from plan_task_reply [OF assms(1) [unfolded Reply] assms(2,3)] obtain row p0 p r2 where
    *: "get_task u t d = Some row" "plan_from_dict (tr_plan row) = Inr p0"
      "plan_doc_of u t (intf d) = Some (tr_plan row)" "\<forall>n \<in> set p0. st_status n = Planned"
      "add_nodes [] subs = Inr p" "get_task u t d' = Some r2" "tr_plan r2 = plan_to_dict p"
      "tr_plan_version r2 = tr_plan_version row + 1"
    by blast
  then have "valid_plan p" by (simp add: add_nodes_Inr)
  with * Reply show ?thesis by (auto simp: plan_version_of_def)
qed (use plan_task_no_reply [OF assms(1)] in auto)

section \<open>Status patches\<close>

lemma status_of_literals [simp]:
  "status_of (JStr ''done'') = Some Done"
  "status_of (JStr ''in_progress'') = Some InProgress"
  "status_of (JStr ''in_review'') = Some InReview"
  "status_of (JStr ''rework'') = Some Rework"
  using status_of_name [of Done] status_of_name [of InProgress] status_of_name [of InReview]
    status_of_name [of Rework] by simp_all

lemma update_node_status:
  assumes "update_node p key patch = Inr q" "distinct (map fst patch)"
    and "map_of patch ''status'' = Some v" "status_of v = Some s"
  shows "\<exists>n m. get_node p key = Some n \<and> get_node q key = Some m \<and> st_status m = s
    \<and> (s = st_status n \<or> s \<in> set (node_transitions (st_status n)))
    \<and> (\<forall>k. k \<noteq> key \<longrightarrow> get_node q k = get_node p k)"
proof -
  from assms(1) obtain n m where n: "get_node p key = Some n"
    and c: "check_status_patch key n patch = Inr ()"
    and m: "rfold patch_field patch n = Inr m" and q: "q = replace_first key m p"
    by (auto simp: update_node_Inr)
  from n m have k: "st_key m = key"
    by (auto simp: get_node_def dest: find_SomeD patch_fields_key)
  from c assms(3,4) have "s = st_status n \<or> s \<in> set (node_transitions (st_status n))"
    by (auto simp: check_status_patch_def split: if_splits)
  moreover have "st_status m = s" using patch_fields_status [OF m assms(2-4)] .
  ultimately show ?thesis using n q k by (auto simp: replace_first_get)
qed

text \<open>The mutations of the door that set a status, and the status each sets.\<close>

definition closes :: "subtask_status \<Rightarrow> string \<Rightarrow> plan \<Rightarrow> plan \<Rightarrow> bool" where
  "closes s key p q = (\<exists>n m. get_node p key = Some n \<and> get_node q key = Some m \<and> st_status m = s
    \<and> (s = st_status n \<or> s \<in> set (node_transitions (st_status n)))
    \<and> (\<forall>k. k \<noteq> key \<longrightarrow> get_node q k = get_node p k))"

lemma approve_mutation_closes:
  "approve_mutation key p = Inr (Some q) \<Longrightarrow> closes Done key p q"
  unfolding closes_def
  by (rule update_node_status) (auto simp: approve_mutation_def rbind_Inr_iff split: if_splits)

lemma rework_mutation_closes:
  "rework_mutation key dl fb p = Inr (Some q) \<Longrightarrow> closes (if dl then InProgress else Rework) key p q"
  unfolding closes_def
  by (cases dl; rule update_node_status) (auto simp: rework_mutation_def rbind_Inr_iff split: if_splits)

lemma in_review_mutation_closes:
  "in_review_mutation key p = Inr (Some q) \<Longrightarrow> closes InReview key p q"
  unfolding closes_def
  by (rule update_node_status) (auto simp: in_review_mutation_def rbind_Inr_iff split: if_splits option.splits)

section \<open>review\_subtask\<close>

lemma update_run_completes:
  "\<forall>r \<in> set (runs (snd (update_run_by_session s st mf en d))). rr_session r = s \<longrightarrow> rr_status r = st"
proof -
  have "rr_session x = s \<longrightarrow> rr_status x = st" if "x \<in> set (update_where (\<lambda>r. rr_session r = s)
      (run_updates st mf en) xs)" for x xs
    using that by (induction xs) (auto simp: run_updates_def split: if_splits)
  then show ?thesis unfolding update_run_by_session_def Let_def by simp
qed

lemma update_run_tasks [simp]: "tasks (snd (update_run_by_session s st mf en d)) = tasks d"
  by (simp add: update_run_by_session_def Let_def)

lemma review_approve_sound:
  assumes "review_approve t pr lead key target fb u env d = (Reply (Approved k False rd ad), d')"
    and "plan_cell u t d" "\<forall>f \<in> set env. other_writers_ok u t f"
  shows "k = key \<and> current_status u t d = Some ''active''
    \<and> (\<exists>d1 r1 p1 p r2. get_task u t d1 = Some r1 \<and> plan_from_dict (tr_plan r1) = Inr p1
        \<and> closes Done key p1 p \<and> get_task u t d' = Some r2 \<and> tr_plan r2 = plan_to_dict p
        \<and> tr_plan_version r2 = tr_plan_version r1 + 1 \<and> rd = ready_keys p \<and> ad = all_done p)
    \<and> (\<not> blank target \<longrightarrow> (\<forall>r \<in> set (runs d'). rr_session r = the target \<longrightarrow> rr_status r = RCompleted))"
proof -
  from assms(1) obtain row fresh n where row: "get_task_by_project u pr t d = Some row"
    and st: "tr_status row = ''active''" and fresh: "plan_from_dict (tr_plan row) = Inr fresh"
    and n: "get_node fresh key = Some n" "st_status n \<noteq> Done"
    by (auto simp: review_approve_def split: option.splits if_splits sum.splits)
  note g = get_task_by_project_get [OF row assms(2)]
  obtain o' row' d1 where pp: "persist_plan env (approve_mutation key) lead (Some lead) u row d = (o', row', d1)"
    using prod_cases3 by blast
  from assms(1) row st fresh n pp obtain p where p: "o' = Persisted p"
    by (cases o') (auto simp: review_approve_def split: plan_exn.splits)
  define d2 where "d2 = (if blank target then d1
      else snd (update_run_by_session (the target) RCompleted None (Some (clock d1)) d1))"
  from assms(1) row st fresh n pp p
  have d': "tasks d' = tasks d1 \<and> runs d' = runs d2 \<and> k = key \<and> rd = ready_keys p \<and> ad = all_done p"
    by (auto simp: review_approve_def Let_def d2_def dest!: render_plan_md_frame split: prod.splits)
  have "get_task u t d' = get_task u t d1" using d' get_task_tasks by blast
  moreover have "\<not> blank target \<longrightarrow> (\<forall>r \<in> set (runs d2). rr_session r = the target \<longrightarrow> rr_status r = RCompleted)"
    unfolding d2_def by (simp add: update_run_completes)
  moreover have "current_status u t d = Some ''active''" using g st by (simp add: current_status_def)
  moreover have "\<exists>d1' r1 p1. plan_cell u t d1' \<and> get_task u t d1' = Some r1 \<and> plan_from_dict (tr_plan r1) = Inr p1
     \<and> approve_mutation key p1 = Inr (Some p) \<and> get_task u t d1 = Some row'
     \<and> tr_plan row' = plan_to_dict p \<and> tr_plan_version row' = tr_plan_version r1 + 1"
    using pp p g assms(2,3) by (intro persist_rounds_lands) (auto simp: persist_plan_def)
  ultimately show ?thesis using d' approve_mutation_closes by metis
qed

text \<open>An approval that is not a repeat goes through the whole gate: the task is active, the
  node moves to \<open>done\<close> along a legal transition from the state it had at the moment of the
  write, no other node changes, the run it targets is completed, and the reply reports the
  ready set of the plan that was written.\<close>
theorem approval_closes_node:
  assumes "review_subtask t pr lead ''approve'' sk se fb u between env d
      = (Reply (Approved key False rd ad), d')"
    and "plan_cell u t (between d)" "\<forall>f \<in> set env. other_writers_ok u t f"
  shows "current_status u t (between d) = Some ''active''
    \<and> (\<exists>d1 r1 p1 p r2. get_task u t d1 = Some r1 \<and> plan_from_dict (tr_plan r1) = Inr p1
        \<and> closes Done key p1 p \<and> get_task u t d' = Some r2 \<and> tr_plan r2 = plan_to_dict p
        \<and> tr_plan_version r2 = tr_plan_version r1 + 1 \<and> rd = ready_keys p \<and> ad = all_done p)
    \<and> (\<forall>s. se = Some s \<longrightarrow> s \<noteq> [] \<longrightarrow>
        (\<forall>r \<in> set (runs d'). rr_session r = s \<longrightarrow> rr_status r = RCompleted))"
proof -
  from assms(1) obtain key0 target where t: "review_target t pr sk se u d = Reply (key0, target)"
    and r: "review_approve t pr lead key0 target fb u env (between d) = (Reply (Approved key False rd ad), d')"
    by (auto simp: review_subtask_def split: reply.splits)
  from t have "\<forall>s. se = Some s \<longrightarrow> s \<noteq> [] \<longrightarrow> target = Some s"
    by (auto simp: review_target_def blank_def Let_def split: option.splits if_splits sum.splits)
  with review_approve_sound [OF r assms(2,3)] show ?thesis
    by (auto simp: blank_def)
qed

section \<open>Dispatch\<close>

definition stamped :: "string \<Rightarrow> string \<Rightarrow> subtask \<Rightarrow> subtask" where
  "stamped agent session n = n\<lparr>st_status := InProgress, st_attempts := st_attempts n + 1,
     st_agent := Some agent, st_latest_run := Some session\<rparr>"

lemma dispatchable_transition: "dispatchable s \<Longrightarrow> InProgress \<in> set (node_transitions s)"
  by (cases s) (auto simp: dispatchable_def)

lemma stamp_patch:
  assumes "a \<noteq> []" "se \<noteq> []"
  shows "rfold patch_field [(''status'', JStr ''in_progress''), (''attempts'', JInt (st_attempts n + 1)),
      (''agent'', JStr a), (''latest_run_session_id'', JStr se)] n = Inr (stamped a se n)"
proof -
  have ns: "nullable_str (JStr a) = Some a" "nullable_str (JStr se) = Some se"
    using assms by (auto simp: nullable_str_def)
  show ?thesis
    by (simp add: patch_field_def node_fields_def coerce_node_field_def plain_str_fields_def
        nullable_str_fields_def set_node_field_def ns stamped_def opt_json_def json_opt_def)
qed

lemma replace_first_valid:
  assumes "valid_plan p" "get_node p key = Some n" "st_key m = key" "st_depends_on m = st_depends_on n"
  shows "valid_plan (replace_first key m p)"
proof -
  have d: "distinct (map st_key p)" using assms(1) by (rule valid_planD(1))
  have n: "n \<in> set p" "st_key n = key" using assms(2) by (auto simp: get_node_def dest: find_SomeD)
  have "map (\<lambda>x. (st_key x, st_depends_on x)) (replace_first key m p)
      = map (\<lambda>x. (st_key x, st_depends_on x)) p"
    using assms(2-4) by (induction p) (auto simp: get_node_def split: if_splits)
  then have same: "(\<lambda>x. (st_key x, st_depends_on x)) ` set (replace_first key m p)
      = (\<lambda>x. (st_key x, st_depends_on x)) ` set p"
    by (metis set_map)
  have keys: "map st_key (replace_first key m p) = map st_key p"
    using assms(3) by (rule replace_first_keys)
  then have "st_key ` set (replace_first key m p) = st_key ` set p" by (metis set_map)
  moreover have deps: "(k, ds) \<in> (\<lambda>x. (st_key x, st_depends_on x)) ` set q \<longleftrightarrow>
      (\<exists>x \<in> set q. st_key x = k \<and> st_depends_on x = ds)" for q k ds by auto
  have "plan_edges (replace_first key m p) = plan_edges p"
    unfolding plan_edges_def using same deps by (smt (verit, best) Collect_cong)
  moreover have "\<forall>x \<in> set (replace_first key m p). set (st_depends_on x) \<subseteq> st_key ` set p"
  proof
    fix x assume "x \<in> set (replace_first key m p)"
    then have "(st_key x, st_depends_on x) \<in> (\<lambda>x. (st_key x, st_depends_on x)) ` set p"
      using same by blast
    then obtain y where "y \<in> set p" "st_depends_on x = st_depends_on y" by auto
    with assms(1) show "set (st_depends_on x) \<subseteq> st_key ` set p" by (simp add: valid_plan_def)
  qed
  ultimately show ?thesis using assms(1) keys by (simp add: valid_plan_def)
qed

lemma resolve_dispatch_Inr:
  assumes "resolve_dispatch_node p key ao go = Inr (a, g)"
  shows "\<exists>n. get_node p key = Some n \<and> dispatchable (st_status n) \<and> a \<noteq> []
    \<and> set (st_depends_on n) \<subseteq> set (done_keys p)"
  using assms
  by (auto simp: resolve_dispatch_node_def Let_def filter_empty_conv split: option.splits if_splits)

lemma dispatch_stamps:
  assumes "valid_plan p" "resolve_dispatch_node p key ao go = Inr (a, g)" "se \<noteq> []"
  shows "\<exists>n. get_node p key = Some n \<and> dispatchable (st_status n) \<and> a \<noteq> []
    \<and> set (st_depends_on n) \<subseteq> set (done_keys p)
    \<and> dispatch_mutation key a se p = Inr (Some (replace_first key (stamped a se n) p))
    \<and> valid_plan (replace_first key (stamped a se n) p)
    \<and> get_node (replace_first key (stamped a se n) p) key = Some (stamped a se n)
    \<and> (\<forall>k. k \<noteq> key \<longrightarrow> get_node (replace_first key (stamped a se n) p) k = get_node p k)"
proof -
  from resolve_dispatch_Inr [OF assms(2)] obtain n where n: "get_node p key = Some n"
    "dispatchable (st_status n)" "a \<noteq> []" "set (st_depends_on n) \<subseteq> set (done_keys p)"
    by blast
  let ?m = "stamped a se n" and ?q = "replace_first key (stamped a se n) p"
  have k: "st_key ?m = key" using n(1) by (auto simp: stamped_def get_node_def dest: find_SomeD)
  have v: "valid_plan ?q"
    using assms(1) n(1) k by (rule replace_first_valid) (simp add: stamped_def)
  have "update_node p key [(''status'', JStr ''in_progress''), (''attempts'', JInt (st_attempts n + 1)),
      (''agent'', JStr a), (''latest_run_session_id'', JStr se)] = Inr ?q"
    unfolding update_node_Inr
    using n(1) dispatchable_transition [OF n(2)] stamp_patch [OF n(3) assms(3)] v
    by (intro exI [of _ n] exI [of _ ?m]) (simp add: check_status_patch_def)
  then have dm: "dispatch_mutation key a se p = Inr (Some ?q)"
    using n by (simp add: dispatch_mutation_def)
  have get: "get_node ?q key = Some ?m" "\<forall>k. k \<noteq> key \<longrightarrow> get_node ?q k = get_node p k"
    using replace_first_get [OF n(1) k] by auto
  show ?thesis using n dm v get by blast
qed

lemma taken_node_refused:
  assumes "get_node q key = Some n" "\<not> dispatchable (st_status n)"
  shows "resolve_dispatch_node q key ao go = Inl (NotDispatchable key (st_status n))"
    "dispatch_mutation key a se q = Inr None"
  using assms by (simp_all add: resolve_dispatch_node_def dispatch_mutation_def)

text \<open>Property C7: dispatch is safe and happens once.  What the dispatch gate lets through has a
  dispatchable status, no unfinished dependency and an agent; stamping it then succeeds,
  changes that node alone (to \<open>in_progress\<close>, one attempt more, with its agent and session)
  and leaves a valid plan; and from then on both the gate and a racing stamp refuse it.\<close>
theorem dispatch_once:
  assumes "valid_plan p" "resolve_dispatch_node p key ao go = Inr (a, g)" "se \<noteq> []"
  shows "\<exists>n q. get_node p key = Some n \<and> st_status n \<in> {Planned, Rework, Paused}
    \<and> set (st_depends_on n) \<subseteq> set (done_keys p)
    \<and> dispatch_mutation key a se p = Inr (Some q) \<and> valid_plan q
    \<and> get_node q key = Some (stamped a se n)
    \<and> (\<forall>k. k \<noteq> key \<longrightarrow> get_node q k = get_node p k)
    \<and> resolve_dispatch_node q key ao' go' = Inl (NotDispatchable key InProgress)
    \<and> dispatch_mutation key a' se' q = Inr None"
proof -
  from dispatch_stamps [OF assms] obtain n where n: "get_node p key = Some n" "dispatchable (st_status n)"
    "set (st_depends_on n) \<subseteq> set (done_keys p)"
    "dispatch_mutation key a se p = Inr (Some (replace_first key (stamped a se n) p))"
    "valid_plan (replace_first key (stamped a se n) p)"
    "get_node (replace_first key (stamped a se n) p) key = Some (stamped a se n)"
    "\<forall>k. k \<noteq> key \<longrightarrow> get_node (replace_first key (stamped a se n) p) k = get_node p k" by blast
  have "\<not> dispatchable (st_status (stamped a se n))" "st_status (stamped a se n) = InProgress"
    by (simp_all add: stamped_def dispatchable_def)
  with taken_node_refused(1) [OF n(6), of ao' go'] taken_node_refused(2) [OF n(6), of a' se'] n show ?thesis unfolding dispatchable_def by auto
qed

end
