(* ===== verification/PlanAccess.thy ===== *)
theory PlanAccess
  imports PlanningFacts
begin

text \<open>
  \<^verbatim>\<open>backend/valuz_agent/modules/tasks/gate.py\<close> and \<^verbatim>\<open>plan_commands.py\<close>: who may read or
  write a task's plan, and the one authorized door both transports go through.  The kernel's
  session directory, which the gates read, is an argument.
\<close>

section \<open>Sessions\<close>

record session =
  se_id :: string
  se_metadata :: "(string \<times> json) list option"

type_synonym directory = "string \<Rightarrow> string \<Rightarrow> session option"

text \<open>\<open>getattr(sess, "metadata", None) or {}\<close> and its \<open>valuz\<close> entry when that is a dict.\<close>

definition metadata_of :: "session \<Rightarrow> (string \<times> json) list" where
  "metadata_of s = (case se_metadata s of None \<Rightarrow> [] | Some m \<Rightarrow> m)"

definition valuz_meta :: "session \<Rightarrow> (string \<times> json) list" where
  "valuz_meta s = (case dget (metadata_of s) ''valuz'' of JDict v \<Rightarrow> v | _ \<Rightarrow> [])"

definition caller_project_id :: "session \<Rightarrow> json" where
  "caller_project_id s = (case dget (metadata_of s) ''valuz'' of
     JDict v \<Rightarrow> py_or (dget v ''project_id'') (JStr [])
   | _ \<Rightarrow> JStr [])"

section \<open>gate.py\<close>

datatype gate_failure =
    NotLead string
  | LeadUnbound string
  | DraftHeld string json string
  | LeadOwned
  | TaskPaused string
  | PlanReadOnly string string
  | ForeignProject json string
  | NestedTask
  | NoProject

definition check_lead_gate :: "session \<Rightarrow> string \<Rightarrow> gate_failure + json \<times> json" where
  "check_lead_gate s tool =
     (let v = valuz_meta s in
      if dget v ''run_kind'' \<noteq> JStr ''lead'' then Inl (NotLead tool)
      else (let t = dget v ''task_id''; p = dget v ''project_id'' in
        if \<not> truthy t \<or> \<not> truthy p then Inl (LeadUnbound tool) else Inr (t, p)))"

definition check_plan_writer_gate :: "session \<Rightarrow> task_row \<Rightarrow> gate_failure option" where
  "check_plan_writer_gate s task =
     (let v = valuz_meta s in
      if tr_status task = ''draft'' then
        (if JStr (se_id s) = dget (tr_metadata task) ''originating_session_id'' then None
         else if caller_project_id s = JStr (tr_project task) then None
         else Some (DraftHeld (tr_id task) (caller_project_id s) (tr_project task)))
      else if tr_status task = ''active'' then
        (if dget v ''run_kind'' = JStr ''lead'' \<and> dget v ''task_id'' = JStr (tr_id task) then None
         else Some LeadOwned)
      else if tr_status task = ''paused'' then Some (TaskPaused (tr_id task))
      else Some (PlanReadOnly (tr_id task) (tr_status task)))"

definition check_plan_reader_gate :: "session \<Rightarrow> task_row \<Rightarrow> gate_failure option" where
  "check_plan_reader_gate s task =
     (if caller_project_id s \<noteq> JStr (tr_project task)
      then Some (ForeignProject (caller_project_id s) (tr_project task)) else None)"

definition check_orchestration_caller :: "session \<Rightarrow> gate_failure + json \<times> json" where
  "check_orchestration_caller s =
     (let v = valuz_meta s in
      if dget v ''run_kind'' \<in> {JStr ''lead'', JStr ''subtask''} then Inl NestedTask
      else if \<not> truthy (caller_project_id s) then Inl NoProject
      else Inr (caller_project_id s, py_or (dget v ''agent_slug'') (JStr [])))"

section \<open>plan\_commands.py\<close>

definition writable_statuses :: "string set" where
  "writable_statuses = {''draft'', ''active''}"

datatype plan_caller = AgentCaller string string | is_owner: OwnerCaller string

fun caller_user :: "plan_caller \<Rightarrow> string" where
  "caller_user (AgentCaller session user) = user"
| "caller_user (OwnerCaller user) = user"

datatype command_error =
    CmdTaskNotFound string
  | CmdReadOnly string string
  | CmdNoSession
  | CmdGate gate_failure
  | CmdCommitted
  | CmdVersionRequired int

text \<open>
  A command is denied, raises while it parses the plan itself, or runs the planning
  operation and returns its reply.
\<close>

datatype 'a command_reply = Denied command_error | CmdRaised plan_exn | Ran "'a reply"

definition load_task :: "plan_caller \<Rightarrow> string \<Rightarrow> store \<Rightarrow> task_row option" where
  "load_task c tid d = get_task (caller_user c) tid d"

definition authorize_write :: "directory \<Rightarrow> plan_caller \<Rightarrow> task_row \<Rightarrow> command_error option" where
  "authorize_write dir c task =
     (if tr_status task \<notin> writable_statuses then Some (CmdReadOnly (tr_id task) (tr_status task))
      else (case c of
        OwnerCaller _ \<Rightarrow> None
      | AgentCaller se user \<Rightarrow>
          (case dir user se of
             None \<Rightarrow> Some CmdNoSession
           | Some s \<Rightarrow> map_option CmdGate (check_plan_writer_gate s task))))"

definition authorize_read :: "directory \<Rightarrow> plan_caller \<Rightarrow> task_row \<Rightarrow> command_error option" where
  "authorize_read dir c task = (case c of
     OwnerCaller _ \<Rightarrow> None
   | AgentCaller se user \<Rightarrow>
       (case dir user se of
          None \<Rightarrow> Some CmdNoSession
        | Some s \<Rightarrow> map_option CmdGate (check_plan_reader_gate s task)))"

fun actor_of :: "plan_caller \<Rightarrow> string" where
  "actor_of (AgentCaller session user) = session"
| "actor_of (OwnerCaller user) = ''user''"

text \<open>
  The commands.  \<open>between\<close> is what others commit between the authorization and the planning
  operation, \<open>intf\<close> what they commit inside it.
\<close>

definition cmd_plan_task :: "directory \<Rightarrow> plan_caller \<Rightarrow> string \<Rightarrow> json list \<Rightarrow> (store \<Rightarrow> store)
    \<Rightarrow> (store \<Rightarrow> store) \<Rightarrow> store \<Rightarrow> plan_view command_reply \<times> store" where
  "cmd_plan_task dir c tid subtasks between intf d =
     (case load_task c tid d of
        None \<Rightarrow> (Denied (CmdTaskNotFound tid), d)
      | Some task \<Rightarrow>
     (case authorize_write dir c task of
        Some e \<Rightarrow> (Denied e, d)
      | None \<Rightarrow>
          (let run = (\<lambda>_::unit. apfst Ran (plan_task tid (tr_project task) (actor_of c) subtasks
                        (caller_user c) intf (between d)))
           in if tr_committed_at task \<noteq> None \<or> tr_status task = ''active'' then
                (case plan_from_dict (tr_plan task) of
                   Inl e \<Rightarrow> (CmdRaised e, d)
                 | Inr p \<Rightarrow> if \<not> is_empty_plan p then (Denied CmdCommitted, d) else run ())
              else run ())))"

definition cmd_modify_plan :: "directory \<Rightarrow> plan_caller \<Rightarrow> string \<Rightarrow> json list \<Rightarrow> json list
    \<Rightarrow> int option \<Rightarrow> (store \<Rightarrow> store) \<Rightarrow> (store \<Rightarrow> store) \<Rightarrow> store
    \<Rightarrow> plan_view command_reply \<times> store" where
  "cmd_modify_plan dir c tid adds updates expected between intf d =
     (case load_task c tid d of
        None \<Rightarrow> (Denied (CmdTaskNotFound tid), d)
      | Some task \<Rightarrow>
     (case authorize_write dir c task of
        Some e \<Rightarrow> (Denied e, d)
      | None \<Rightarrow>
          if is_owner c \<and> tr_status task = ''active'' \<and> expected = None
          then (Denied (CmdVersionRequired (tr_plan_version task)), d)
          else apfst Ran (modify_plan tid (tr_project task) (actor_of c) adds updates expected
                 (caller_user c) intf (between d))))"

definition cmd_get_plan :: "directory \<Rightarrow> plan_caller \<Rightarrow> string \<Rightarrow> (store \<Rightarrow> store) \<Rightarrow> store
    \<Rightarrow> plan_status_view command_reply" where
  "cmd_get_plan dir c tid between d =
     (case load_task c tid d of
        None \<Rightarrow> Denied (CmdTaskNotFound tid)
      | Some task \<Rightarrow>
     (case authorize_read dir c task of
        Some e \<Rightarrow> Denied e
      | None \<Rightarrow> Ran (get_plan tid (tr_project task) (caller_user c) (between d))))"

section \<open>Who may write\<close>

text \<open>
  The policy, stated over the caller's role: an owner writes a draft or a running task, an
  agent writes a draft from the session it was drafted in or from its project, and a running
  task only as its lead.
\<close>

definition leads :: "session \<Rightarrow> string \<Rightarrow> bool" where
  "leads s tid \<longleftrightarrow> dget (valuz_meta s) ''run_kind'' = JStr ''lead''
     \<and> dget (valuz_meta s) ''task_id'' = JStr tid"

definition may_write :: "directory \<Rightarrow> plan_caller \<Rightarrow> task_row \<Rightarrow> bool" where
  "may_write dir c task = (case c of
     OwnerCaller u \<Rightarrow> tr_status task \<in> {''draft'', ''active''}
   | AgentCaller se u \<Rightarrow> (\<exists>s. dir u se = Some s
       \<and> (tr_status task = ''draft''
            \<and> (dget (tr_metadata task) ''originating_session_id'' = JStr (se_id s)
               \<or> caller_project_id s = JStr (tr_project task))
          \<or> tr_status task = ''active'' \<and> leads s (tr_id task))))"

lemma check_plan_writer_gate_None:
  "check_plan_writer_gate s task = None \<longleftrightarrow>
     tr_status task = ''draft'' \<and> (dget (tr_metadata task) ''originating_session_id'' = JStr (se_id s)
        \<or> caller_project_id s = JStr (tr_project task))
   \<or> tr_status task = ''active'' \<and> leads s (tr_id task)"
  by (auto simp: check_plan_writer_gate_def leads_def Let_def)

lemma authorize_write_None: "authorize_write dir c task = None \<longleftrightarrow> may_write dir c task"
  by (cases c) (auto simp: authorize_write_def may_write_def writable_statuses_def
      check_plan_writer_gate_None split: option.split)

text \<open>The write door enforces the policy: a planning operation runs exactly for a caller the
  policy admits to the task as it was loaded, with the two extra refusals of the commands (a
  committed plan is not laid down again, an owner names the version when the task runs); and
  a refused command leaves the store alone.\<close>
theorem write_door_policy:
  "((\<exists>r. fst (cmd_modify_plan dir c t adds upds ev between intf d) = Ran r) \<longleftrightarrow>
      (\<exists>task. get_task (caller_user c) t d = Some task \<and> may_write dir c task
        \<and> (is_owner c \<and> tr_status task = ''active'' \<longrightarrow> ev \<noteq> None)))
   \<and> ((\<exists>r. fst (cmd_plan_task dir c t subs between intf d) = Ran r) \<longleftrightarrow>
      (\<exists>task. get_task (caller_user c) t d = Some task \<and> may_write dir c task
        \<and> (tr_committed_at task \<noteq> None \<or> tr_status task = ''active''
             \<longrightarrow> plan_from_dict (tr_plan task) = Inr [])))
   \<and> (\<forall>e. fst (cmd_modify_plan dir c t adds upds ev between intf d) = Denied e
        \<longrightarrow> snd (cmd_modify_plan dir c t adds upds ev between intf d) = d)
   \<and> (\<forall>e. fst (cmd_plan_task dir c t subs between intf d) = Denied e
        \<longrightarrow> snd (cmd_plan_task dir c t subs between intf d) = d)"
proof (cases "get_task (caller_user c) t d")
  case None
  then show ?thesis by (simp add: cmd_modify_plan_def cmd_plan_task_def load_task_def)
next
  case (Some task)
  show ?thesis
  proof (cases "authorize_write dir c task")
    case None
    with Some show ?thesis
      by (auto simp: cmd_modify_plan_def cmd_plan_task_def load_task_def is_empty_plan_def Let_def
          simp flip: authorize_write_None split: sum.split)
  next
    case (Some e)
    with \<open>get_task (caller_user c) t d = Some task\<close> show ?thesis
      by (simp add: cmd_modify_plan_def cmd_plan_task_def load_task_def flip: authorize_write_None)
  qed
qed

text \<open>An owner's edit of a running task never silently overwrites the lead: if it is
  accepted, the owner named the version of the document that was current at the write.\<close>
theorem owner_edit_names_version:
  assumes "cmd_modify_plan dir (OwnerCaller u) t adds upds ev between intf d = (Ran (Reply v), d')"
    and "current_status u t d = Some ''active''"
    and "plan_cell u t (between d)" "other_writers_ok u t intf"
  shows "ev \<noteq> None \<and> plan_version_of u t (between d) = ev
    \<and> plan_doc_of u t (intf (between d)) = plan_doc_of u t (between d)
    \<and> plan_version_of u t d' = map_option (\<lambda>k. k + 1) ev"
proof -
  from assms(2) obtain task where task: "get_task u t d = Some task" "tr_status task = ''active''"
    by (auto simp: current_status_def)
  from assms(1) task have ev: "ev \<noteq> None"
    by (auto simp: cmd_modify_plan_def load_task_def split: option.splits if_splits)
  with assms(1) task
  have m: "modify_plan t (tr_project task) ''user'' adds upds ev u intf (between d) = (Reply v, d')"
    by (cases "modify_plan t (tr_project task) ''user'' adds upds ev u intf (between d)")
      (auto simp: cmd_modify_plan_def load_task_def split: option.splits)
  from modify_plan_reply [OF m assms(3,4)] ev show ?thesis
    by (auto simp: plan_version_of_def plan_doc_of_def)
qed

end
