(* ===== verification/Messaging.thy ===== *)
theory Messaging
  imports PlanAccess
begin

text \<open>
  \<^verbatim>\<open>backend/valuz_agent/modules/tasks/messaging.py\<close>: text delivery between a task's lead,
  its members and the chat, through the durable mailbox.  A delivery and the timeline event
  that records it are one transaction.
\<close>

section \<open>Envelopes\<close>

text \<open>The dash of the goal envelope is outside Latin-1 and is written as its UTF-8 bytes.\<close>

definition newline :: char where
  "newline = char_of (10 :: nat)"

definition wrap_user_instruction :: "string \<Rightarrow> string" where
  "wrap_user_instruction txt =
     ''<user-instruction source='' @ [CHR 0x22] @ ''chat'' @ [CHR 0x22] @ ''>'' @ [newline]
     @ txt @ [newline] @ ''</user-instruction>''"

definition wrap_goal_revision :: "string \<Rightarrow> string" where
  "wrap_goal_revision goal =
     ''<goal-revised source='' @ [CHR 0x22] @ ''user'' @ [CHR 0x22] @ ''>'' @ [newline]
     @ ''The task goal has been revised by the user to:'' @ [newline, newline]
     @ goal @ [newline, newline]
     @ ''Re-evaluate your current plan against this revised goal. If the plan has ''
     @ ''drifted, use modify_plan to adjust, then continue; call finish_task only ''
     @ ''when the REVISED goal is met. (Goal-mode auto-completion may still track ''
     @ ''the original goal '' @ [CHR 0xE2, CHR 0x80, CHR 0x94] @ '' treat this revision as authoritative.)'' @ [newline]
     @ ''</goal-revised>''"

section \<open>Delivery\<close>

datatype delivery =
    Delivered string
  | NotAMember string
  | DeliveryTaskNotFound
  | TaskHalted string
  | DeliveryNotActive
  | NoLead
  | BadKind

text \<open>An enqueue and its event, in one transaction, then the doorbell.\<close>

definition record_and_send :: "string \<Rightarrow> string \<Rightarrow> string \<Rightarrow> string \<Rightarrow> string \<Rightarrow> (string \<times> json) list
    \<Rightarrow> string \<Rightarrow> string \<Rightarrow> string \<Rightarrow> string \<Rightarrow> store \<Rightarrow> delivery \<times> store" where
  "record_and_send user project tid ty actor pl target txt from_session origin d =
     (case enqueue target tid project user ''text'' txt from_session origin []
             (append_event user project tid ty actor (Some target) (PDict pl) d) of
        None \<Rightarrow> (BadKind, d)
      | Some d' \<Rightarrow> (Delivered target, ring_for target d'))"

text \<open>\<open>between\<close> is what others commit between the check and the delivery.\<close>

definition send_to_member :: "string \<Rightarrow> string \<Rightarrow> string \<Rightarrow> string \<Rightarrow> string \<Rightarrow> string
    \<Rightarrow> (store \<Rightarrow> store) \<Rightarrow> store \<Rightarrow> delivery \<times> store" where
  "send_to_member from_session target txt project tid user between d =
     (case get_run target d of
        None \<Rightarrow> (NotAMember target, d)
      | Some r \<Rightarrow>
          if rr_task r \<noteq> Some tid \<or> rr_project r \<noteq> project then (NotAMember target, d)
          else record_and_send user project tid ''subtask_message'' ''lead''
                 [(''direction'', JStr ''lead->member''), (''text'', JStr txt)]
                 target txt from_session ''lead-send'' (between d))"

definition inject_into_task :: "string \<Rightarrow> string \<Rightarrow> string \<Rightarrow> string \<Rightarrow> string
    \<Rightarrow> (store \<Rightarrow> store) \<Rightarrow> (store \<Rightarrow> store) \<Rightarrow> store \<Rightarrow> delivery \<times> store" where
  "inject_into_task tid project txt from_session user between between' d =
     (case get_task_by_project user project tid d of
        None \<Rightarrow> (DeliveryTaskNotFound, d)
      | Some row \<Rightarrow>
          if tr_status row \<in> {''paused'', ''blocked'', ''stopped''} then (TaskHalted (tr_status row), d)
          else if tr_status row \<noteq> ''active'' then (DeliveryNotActive, d)
          else (let d1 = between d in
            case pick_lead_run (list_runs user tid d1) of
              None \<Rightarrow> (NoLead, d1)
            | Some lead \<Rightarrow>
                record_and_send user project tid ''user_inject'' from_session
                  [(''text'', JStr txt), (''lead_session_id'', JStr (rr_session lead))]
                  (rr_session lead) (wrap_user_instruction txt) from_session ''user-inject''
                  (between' d1)))"

text \<open>On the caller's transaction; the doorbell is left to the caller.\<close>

definition notify_lead_goal_revised :: "string \<Rightarrow> string \<Rightarrow> string \<Rightarrow> string \<Rightarrow> store
    \<Rightarrow> delivery \<times> store" where
  "notify_lead_goal_revised tid project new_goal user d =
     (case pick_lead_run (list_runs user tid d) of
        None \<Rightarrow> (NoLead, d)
      | Some lead \<Rightarrow>
          (case enqueue (rr_session lead) tid project user ''revise_goal''
                  (wrap_goal_revision new_goal) [] ''goal-revised''
                  [(''goal'', JStr new_goal)] d of
             None \<Rightarrow> (BadKind, d)
           | Some d' \<Rightarrow> (Delivered (rr_session lead), d')))"

section \<open>Properties\<close>

text \<open>
  What a delivery adds to the store: one pending message at the end of the target's queue,
  one timeline event, one ring; and nothing else changes.
\<close>

definition delivers :: "string \<Rightarrow> string \<Rightarrow> string \<Rightarrow> string \<Rightarrow> store \<Rightarrow> store \<Rightarrow> bool" where
  "delivers target tid ty txt d d' = (\<exists>m e.
     mailbox d' = mailbox d @ [m] \<and> mb_session m = target \<and> mb_task m = tid \<and> mb_text m = txt
     \<and> mb_state m = MPending \<and> (\<forall>x \<in> set (mailbox d). mb_session x = target \<longrightarrow> mb_position x < mb_position m)
     \<and> events d' = events d @ [e] \<and> ev_task e = tid \<and> ev_type e = ty \<and> ev_session e = Some target
     \<and> rung d' = rung d @ [target] \<and> tasks d' = tasks d \<and> runs d' = runs d)"

lemma enqueue_text: "enqueue s t p u ''text'' tx fr og pl d \<noteq> None"
  by (simp add: enqueue_def deliverable_kinds_def)

lemma position_fresh: "x \<in> set (mailbox d) \<Longrightarrow> mb_session x = s \<Longrightarrow> mb_position x < max_or_0 (positions_of s d) + 1"
  using max_or_0_ge [of "mb_position x" "positions_of s d"] by (auto simp: positions_of_def)

lemma record_and_send_delivers:
  assumes "record_and_send u p t ty a pl s tx fr og d = (r, d')"
  shows "r = Delivered s \<and> delivers s t ty tx d d'"
proof -
  let ?d = "append_event u p t ty a (Some s) (PDict pl) d"
  obtain d1 where d1: "enqueue s t p u ''text'' tx fr og [] ?d = Some d1"
    using enqueue_text by blast
  then obtain m where m: "d1 = ?d\<lparr>mailbox := mailbox ?d @ [m]\<rparr>" "mb_session m = s"
    "mb_state m = MPending" "mb_position m = max_or_0 (positions_of s ?d) + 1" "mb_text m = tx"
    "mb_task m = t"
    by (auto dest!: enqueue_Some)
  have pos: "positions_of s ?d = positions_of s d" by (simp add: positions_of_def)
  from assms d1 have d': "r = Delivered s" "d' = ring_for s d1" by (auto simp: record_and_send_def)
  have "delivers s t ty tx d d'"
    unfolding delivers_def using m pos position_fresh [of _ d s]
    by (intro exI [of _ m]) (simp add: d' ring_for_def append_event_store)
  with d' show ?thesis by simp
qed

text \<open>Messages stay inside their task and are never lost between the record and the inbox: a
  lead reaches only a session whose run belongs to its own task and project; a chat reaches
  only the lead of an active task, and never the rejected lead of a lost commit race while
  another lead exists; and every reported delivery is one pending message behind the
  target's other messages, together with its timeline event.  A refusal changes nothing.\<close>
theorem messages_stay_in_task:
  "(case send_to_member fr target tx p t u btw d of
      (Delivered s, d') \<Rightarrow> s = target \<and> (\<exists>r \<in> set (runs d). rr_session r = target \<and> rr_task r = Some t \<and> rr_project r = p)
         \<and> delivers target t ''subtask_message'' tx (btw d) d'
    | (_, d') \<Rightarrow> d' = d)
   \<and> (case inject_into_task t p tx fr u btw btw' d of
      (Delivered s, d') \<Rightarrow> (\<exists>row. get_task_by_project u p t d = Some row \<and> tr_status row = ''active'')
         \<and> (\<exists>r \<in> set (runs (btw d)). rr_session r = s \<and> rr_task r = Some t \<and> rr_user r = u \<and> rr_kind r = LeadRun
              \<and> (rr_status r = RRejected \<longrightarrow> (\<forall>x \<in> set (list_runs u t (btw d)). rr_kind x = LeadRun \<longrightarrow> rr_status x = RRejected)))
         \<and> delivers s t ''user_inject'' (wrap_user_instruction tx) (btw' (btw d)) d'
    | (_, d') \<Rightarrow> d' = d \<or> d' = btw d)"
proof (rule conjI)
  show "case send_to_member fr target tx p t u btw d of
      (Delivered s, d') \<Rightarrow> s = target \<and> (\<exists>r \<in> set (runs d). rr_session r = target \<and> rr_task r = Some t \<and> rr_project r = p)
         \<and> delivers target t ''subtask_message'' tx (btw d) d'
    | (_, d') \<Rightarrow> d' = d"
  proof (cases "get_run target d")
    case None
    then show ?thesis by (simp add: send_to_member_def)
  next
    case (Some r)
    then have r: "r \<in> set (runs d)" "rr_session r = target" by (auto simp: get_run_def dest: find_SomeD)
    show ?thesis
    proof (cases "rr_task r = Some t \<and> rr_project r = p")
      case True
      obtain x d' where sent: "record_and_send u p t ''subtask_message'' ''lead''
          [(''direction'', JStr ''lead->member''), (''text'', JStr tx)] target tx fr ''lead-send'' (btw d) = (x, d')"
        by fastforce
      from record_and_send_delivers [OF sent] True Some r sent show ?thesis
        by (auto simp: send_to_member_def)
    next
      case False
      with Some show ?thesis by (auto simp: send_to_member_def)
    qed
  qed
next
  show "case inject_into_task t p tx fr u btw btw' d of
      (Delivered s, d') \<Rightarrow> (\<exists>row. get_task_by_project u p t d = Some row \<and> tr_status row = ''active'')
         \<and> (\<exists>r \<in> set (runs (btw d)). rr_session r = s \<and> rr_task r = Some t \<and> rr_user r = u \<and> rr_kind r = LeadRun
              \<and> (rr_status r = RRejected \<longrightarrow> (\<forall>x \<in> set (list_runs u t (btw d)). rr_kind x = LeadRun \<longrightarrow> rr_status x = RRejected)))
         \<and> delivers s t ''user_inject'' (wrap_user_instruction tx) (btw' (btw d)) d'
    | (_, d') \<Rightarrow> d' = d \<or> d' = btw d"
  proof (cases "pick_lead_run (list_runs u t (btw d))")
    case None
    then show ?thesis by (auto simp: inject_into_task_def Let_def split: option.split)
  next
    case (Some r)
    note lead = pick_lead_run_SomeD [OF Some]
    obtain x d' where sent: "record_and_send u p t ''user_inject'' fr
        [(''text'', JStr tx), (''lead_session_id'', JStr (rr_session r))] (rr_session r)
        (wrap_user_instruction tx) fr ''user-inject'' (btw' (btw d)) = (x, d')"
      by fastforce
    from record_and_send_delivers [OF sent] Some sent lead show ?thesis
      by (auto simp: inject_into_task_def list_runs_def Let_def split: option.split)
  qed
qed

end
