(* ===== verification/Terminal.thy ===== *)
theory Terminal
  imports Messaging "HOL-Library.Char_ord" "HOL-Library.List_Lexorder"
begin

text \<open>
  \<^verbatim>\<open>backend/valuz_agent/modules/tasks/events.py\<close> and \<^verbatim>\<open>finalization.py\<close>: everything that
  ends a task or settles a member's run.  What the code asks other subsystems is an
  argument: whether a memory scheduler is registered (and whether recording its review
  candidate succeeds), the stop reason of the lead's kernel session, a member's manifest and
  the message catalogue.  \<open>intf\<close> stands for what others commit inside the status door.
\<close>

section \<open>The terminal write\<close>

datatype memory_port = MemoryOff | MemoryRecords | MemoryFails

datatype final_exn = BadTransition state_error | CandidateFailed

datatype final_reply = FinRaised final_exn | FinLost | FinEvent event_row

definition publish_task_finalized :: "string \<Rightarrow> string \<Rightarrow> string \<Rightarrow> store \<Rightarrow> store" where
  "publish_task_finalized tid owner status d = d\<lparr>announced := announced d @ [(tid, owner, status)]\<rparr>"

text \<open>
  The status flip.  With memory registered, the flip and the review candidate share one
  commit: a failing candidate rolls both back, and what others committed stays.
\<close>

definition flip_status :: "memory_port \<Rightarrow> string \<Rightarrow> string \<Rightarrow> string \<Rightarrow> (store \<Rightarrow> store) \<Rightarrow> store
    \<Rightarrow> (final_exn + bool) \<times> store" where
  "flip_status mem user tid status intf d =
     (case update_task_status user tid status None intf d of
        (Inl e, d1) \<Rightarrow> (Inl (BadTransition e), d1)
      | (Inr changed, d1) \<Rightarrow>
          if mem \<noteq> MemoryOff \<and> status \<in> {''completed'', ''blocked'', ''stopped'', ''failed''} \<and> changed
          then (if mem = MemoryFails
                then (Inl CandidateFailed, if current_status user tid d = Some status then d else intf d)
                else (Inr True, d1\<lparr>candidates := candidates d1 @ [(tid, user)]\<rparr>))
          else (Inr changed, d1))"

definition notify_user :: "string \<Rightarrow> string \<Rightarrow> string \<Rightarrow> store \<Rightarrow> store" where
  "notify_user tid ty txt d = d\<lparr>notices := notices d @ [(tid, ty, txt)]\<rparr>"

definition finalize_task :: "memory_port \<Rightarrow> string \<Rightarrow> string \<Rightarrow> string \<Rightarrow> string \<Rightarrow> string \<Rightarrow> string
    \<Rightarrow> string option \<Rightarrow> (string \<times> json) list \<Rightarrow> (store \<Rightarrow> store) \<Rightarrow> store \<Rightarrow> final_reply \<times> store" where
  "finalize_task mem user project tid status ty actor sess pl intf d =
     (case flip_status mem user tid status intf d of
        (Inl e, d1) \<Rightarrow> (FinRaised e, d1)
      | (Inr changed, d1) \<Rightarrow>
          if \<not> changed then (FinLost, d1)
          else (let d2 = publish_task_finalized tid user status d1;
                    d3 = append_event user project tid ty actor sess (PDict pl) d2
                in (FinEvent (last (events d3)),
                    if status = ''completed''
                    then notify_user tid ''task_completed'' (plain_str (dget pl ''summary'')) d3
                    else d3)))"

definition block_task :: "memory_port \<Rightarrow> string \<Rightarrow> string \<Rightarrow> string \<Rightarrow> string \<Rightarrow> string \<Rightarrow> string
    \<Rightarrow> string option \<Rightarrow> (string \<times> json) list \<Rightarrow> (store \<Rightarrow> store) \<Rightarrow> store \<Rightarrow> final_reply \<times> store" where
  "block_task mem user project tid ty actor reason sess pl intf d =
     (case finalize_task mem user project tid ''blocked'' ty actor sess
             (filter (\<lambda>kv. fst kv \<noteq> ''error'') pl @ [(''error'', JStr reason)]) intf d of
        (FinEvent e, d1) \<Rightarrow>
          (let d2 = (if blank sess then d1
                     else snd (update_run_by_session (the sess) RPaused None (Some (clock d1)) d1))
           in (FinEvent e, notify_user tid ty reason d2))
      | other \<Rightarrow> other)"

section \<open>Subtask outcomes\<close>

definition record_subtask_failed :: "string \<Rightarrow> string \<Rightarrow> string \<Rightarrow> string option \<Rightarrow> string \<Rightarrow> string
    \<Rightarrow> string option \<Rightarrow> string \<Rightarrow> string \<Rightarrow> json \<Rightarrow> store \<Rightarrow> store" where
  "record_subtask_failed user project tid sess agent agent_name key summary reason artifacts d =
     append_event user project tid ''subtask_failed'' agent sess (PDict
       [(''agent'', JStr agent), (''agent_name'', JStr agent_name), (''subtask_key'', opt_json key),
        (''status'', JStr ''failed''), (''summary'', JStr summary), (''reason'', JStr reason),
        (''artifacts'', py_or artifacts (JList []))]) d"

definition record_subtask_stopped :: "string \<Rightarrow> string \<Rightarrow> string \<Rightarrow> string option \<Rightarrow> string \<Rightarrow> string
    \<Rightarrow> string option \<Rightarrow> store \<Rightarrow> store" where
  "record_subtask_stopped user project tid sess agent agent_name key d =
     append_event user project tid ''subtask_stopped'' ''user'' sess (PDict
       [(''agent'', JStr agent), (''agent_name'', JStr agent_name), (''subtask_key'', opt_json key)]) d"

definition record_awaiting_user :: "string \<Rightarrow> string \<Rightarrow> string \<Rightarrow> string option \<Rightarrow> string
    \<Rightarrow> string option \<Rightarrow> string \<Rightarrow> string \<Rightarrow> string \<Rightarrow> store \<Rightarrow> store" where
  "record_awaiting_user tid project session key agent agent_name question pending user d =
     append_event user project tid ''awaiting_user'' agent (Some session) (PDict
       ([(''agent_name'', opt_json agent_name), (''question'', JStr question),
         (''pending_id'', JStr pending)]
        @ (if blank key then [] else [(''subtask_key'', opt_json key)]))) d"

definition record_user_answered :: "string \<Rightarrow> string \<Rightarrow> string \<Rightarrow> string option \<Rightarrow> string \<Rightarrow> store \<Rightarrow> store" where
  "record_user_answered tid project pending session user d =
     append_event user project tid ''user_answered'' ''user'' session
       (PDict [(''pending_id'', JStr pending)]) d"

section \<open>Completing a task\<close>

definition complete_task :: "memory_port \<Rightarrow> string \<Rightarrow> string \<Rightarrow> string \<Rightarrow> string \<Rightarrow> string
    \<Rightarrow> json list \<Rightarrow> bool \<Rightarrow> (store \<Rightarrow> store) \<Rightarrow> store \<Rightarrow> final_reply \<times> store" where
  "complete_task mem user project tid lead summary artifacts auto_finalized intf d =
     (let d1 = snd (update_run_by_session lead RCompleted None (Some (clock d)) d) in
      finalize_task mem user project tid ''completed'' ''task_completed'' lead (Some lead)
        ([(''summary'', JStr summary), (''artifacts'', JList artifacts)]
         @ (if auto_finalized then [(''auto_finalized'', JBool True)] else [])) intf d1)"

text \<open>
  The error of the lead's last turn: from the stop reason when its type names an error,
  else from the driver's final status.  \<open>None\<close> is a turn that did not fail.
\<close>

fun contains_sub :: "string \<Rightarrow> string \<Rightarrow> bool" where
  "contains_sub p [] = (p = [])"
| "contains_sub p (c # cs) = (take (length p) (c # cs) = p \<or> contains_sub p cs)"

definition stop_error :: "json option \<Rightarrow> (string \<times> json) option" where
  "stop_error sr = (case sr of
     Some (JDict kvs) \<Rightarrow>
       (case dget kvs ''type'' of
          JStr ty \<Rightarrow> if contains_sub ''error'' ty
            then Some (py_str (py_or (dget kvs ''message'') (JStr ''lead turn errored'')),
                       dget kvs ''category'')
            else None
        | _ \<Rightarrow> None)
   | _ \<Rightarrow> None)"

definition turn_error :: "json option \<Rightarrow> string \<Rightarrow> (string \<times> json) option" where
  "turn_error sr final_status = (case stop_error sr of
     Some e \<Rightarrow> Some e
   | None \<Rightarrow> if final_status \<in> {''terminated'', ''error''}
       then Some (''lead turn ended with status='' @ final_status, JNull) else None)"

text \<open>The outstanding nodes, where a plan that does not parse counts as having none.\<close>

definition outstanding :: "json \<Rightarrow> plan_exn + string list" where
  "outstanding doc = (case plan_from_dict doc of
     Inr p \<Rightarrow> Inr (unresolved_keys p)
   | Inl (PlanError _) \<Rightarrow> Inr []
   | Inl e \<Rightarrow> Inl e)"

datatype auto_outcome =
    AutoSkipped
  | AutoRaised plan_exn
  | AutoParked "state_error + bool"
  | AutoBlocked final_reply
  | AutoCompleted final_reply

definition auto_finalize_lead_task :: "memory_port \<Rightarrow> (string \<Rightarrow> string) \<Rightarrow> json option \<Rightarrow> string
    \<Rightarrow> string \<Rightarrow> string \<Rightarrow> string \<Rightarrow> string \<Rightarrow> string \<Rightarrow> (store \<Rightarrow> store) \<Rightarrow> store
    \<Rightarrow> auto_outcome \<times> store" where
  "auto_finalize_lead_task mem msg sr last_text lead tid project final_status user intf d =
     (case get_task_by_project user project tid d of
        None \<Rightarrow> (AutoSkipped, d)
      | Some task \<Rightarrow>
      if tr_status task \<noteq> ''active'' then (AutoSkipped, d)
      else if has_active_members tid d then (AutoSkipped, d)
      else (case outstanding (tr_plan task) of
        Inl e \<Rightarrow> (AutoRaised e, d)
      | Inr unresolved \<Rightarrow>
          (case turn_error sr final_status of
             Some (err, category) \<Rightarrow>
               if category \<in> {JStr ''user_interrupt'', JStr ''interrupted''} \<and> unresolved = []
               then (case update_task_status user tid ''paused'' None intf d of
                       (Inr True, d1) \<Rightarrow> (AutoParked (Inr True),
                          append_event user project tid ''paused'' lead None
                            (PDict [(''reason'', JStr ''kickoff_cancelled'')]) d1)
                     | (r, d1) \<Rightarrow> (AutoParked r, d1))
               else apfst AutoBlocked (block_task mem user project tid ''task_blocked'' lead err
                      (Some lead) [(''reason'', JStr ''lead_turn_error''), (''category'', category),
                                   (''pending_subtasks'', JList (map JStr unresolved))] intf d)
           | None \<Rightarrow>
               if unresolved \<noteq> []
               then apfst AutoBlocked (block_task mem user project tid ''task_blocked'' lead
                      (msg ''task.blockedLeadEndedIncomplete'') (Some lead)
                      [(''reason'', JStr ''unresolved_subtasks''),
                       (''pending_subtasks'', JList (map JStr unresolved))] intf d)
               else apfst AutoCompleted (complete_task mem user project tid lead
                      (if last_text = [] then
                         ''(auto-finalized) Lead ended its turn with no pending subtasks; ''
                         @ ''task closed automatically.''
                       else last_text) [] True intf d))))"

section \<open>finish\_task\<close>

datatype finish_reply =
    FinishBadStatus string
  | FinishLiveMembers "string list"
  | FinishNoTask string
  | FinishPending "string list"
  | FinishRaised plan_exn
  | FinishFailed final_exn
  | FinishOk string

definition live_subtask_keys :: "string \<Rightarrow> string \<Rightarrow> store \<Rightarrow> string list" where
  "live_subtask_keys user tid d = sort (map (\<lambda>r. the (rr_subtask_key r))
     (filter (\<lambda>r. rr_kind r = SubtaskRun \<and> \<not> blank (rr_subtask_key r) \<and> rr_status r = RActive)
        (list_runs user tid d)))"

definition park_member :: "run_row \<Rightarrow> store \<Rightarrow> store" where
  "park_member r d =
     (if rr_kind r = SubtaskRun \<and> rr_status r = RActive
      then snd (cancel_pending (rr_session r)
             (snd (update_run_by_session (rr_session r) RPaused None (Some (clock d)) d)))
      else d)"

definition park_members :: "string \<Rightarrow> string \<Rightarrow> store \<Rightarrow> store" where
  "park_members user tid d = fold park_member (list_runs user tid d) d"

text \<open>
  The whole command.  \<open>between\<close> and \<open>between'\<close> are what others commit between its units of
  work; resetting the lead session's mode and removing a clean worktree are outside the
  task store.
\<close>

definition finish_task :: "memory_port \<Rightarrow> string \<Rightarrow> string \<Rightarrow> string \<Rightarrow> string \<Rightarrow> json list
    \<Rightarrow> string \<Rightarrow> bool \<Rightarrow> string \<Rightarrow> (store \<Rightarrow> store) \<Rightarrow> (store \<Rightarrow> store) \<Rightarrow> (store \<Rightarrow> store)
    \<Rightarrow> store \<Rightarrow> finish_reply \<times> store" where
  "finish_task mem tid project lead summary artifacts status force user between intf between' d =
     (if status \<notin> {''completed'', ''stopped''} then (FinishBadStatus status, d)
      else (let live = (if status = ''stopped'' \<and> \<not> force then live_subtask_keys user tid d else []) in
      if live \<noteq> [] then (FinishLiveMembers live, d)
      else (let d0 = between d in
      case get_task_by_project user project tid d0 of
        None \<Rightarrow> (FinishNoTask tid, d0)
      | Some row \<Rightarrow>
          (case (if status = ''completed'' then map_sum id unresolved_keys (plan_from_dict (tr_plan row))
                 else Inr []) of
             Inl e \<Rightarrow> (FinishRaised e, d0)
           | Inr unresolved \<Rightarrow>
               if unresolved \<noteq> [] then (FinishPending unresolved, d0)
               else (case (if status = ''completed''
                           then complete_task mem user project tid lead summary artifacts False intf d0
                           else finalize_task mem user project tid ''stopped'' ''task_stopped'' lead (Some lead)
                                  [(''summary'', JStr summary), (''artifacts'', JList artifacts)] intf
                                  (snd (update_run_by_session lead RCompleted None (Some (clock d0)) d0))) of
                 (FinRaised e, d1) \<Rightarrow> (FinishFailed e, d1)
               | (_, d1) \<Rightarrow> (FinishOk status, park_members user tid (between' d1)))))))"

section \<open>update\_deliverable\<close>

datatype deliverable_reply = DeliverableUpdated | DeliverableNoTask string | DeliverableNotCompleted string

definition update_deliverable :: "string \<Rightarrow> string \<Rightarrow> string \<Rightarrow> string \<Rightarrow> json list \<Rightarrow> string
    \<Rightarrow> store \<Rightarrow> deliverable_reply \<times> store" where
  "update_deliverable tid project lead summary artifacts user d =
     (case get_task_by_project user project tid d of
        None \<Rightarrow> (DeliverableNoTask tid, d)
      | Some row \<Rightarrow>
          if tr_status row \<noteq> ''completed'' then (DeliverableNotCompleted (tr_status row), d)
          else (DeliverableUpdated,
             append_event user project tid ''deliverable_updated'' lead (Some lead)
               (PDict [(''summary'', JStr summary), (''artifacts'', JList artifacts)]) d))"

section \<open>A member's loop ends\<close>

text \<open>Parking a dead or stopped member's node for another attempt.\<close>

definition park_rework :: "string \<Rightarrow> json \<Rightarrow> mutation" where
  "park_rework key feedback p =
     (case get_node p key of
        None \<Rightarrow> Inr None
      | Some n \<Rightarrow>
          if st_status n \<notin> {InProgress, InReview, Rework, Paused} then Inr None
          else rbind (update_node p key
                 [(''status'', JStr ''rework''), (''review_feedback'', feedback)])
               (\<lambda>q. Inr (Some q)))"

definition park_node :: "(store \<Rightarrow> store) list \<Rightarrow> string option \<Rightarrow> json \<Rightarrow> string \<Rightarrow> string option
    \<Rightarrow> string \<Rightarrow> string \<Rightarrow> string \<Rightarrow> store \<Rightarrow> (plan_exn + unit) \<times> store" where
  "park_node env key feedback actor sess user project tid d =
     (if blank key then (Inr (), d)
      else (case get_task_by_project user project tid d of
        None \<Rightarrow> (Inr (), d)
      | Some row \<Rightarrow>
          (case persist_plan_best_effort env (park_rework (the key) feedback) actor sess user row d of
             (PlanRaised e, _, d1) \<Rightarrow> (Inl e, d1)
           | (_, _, d1) \<Rightarrow> (Inr (), d1))))"

definition cancelled_payload :: "string \<Rightarrow> string \<Rightarrow> (string \<times> json) list" where
  "cancelled_payload agent summary = [(''agent'', JStr agent), (''status'', JStr ''cancelled''),
     (''summary'', JStr summary), (''artifacts'', JList [])]"

definition finalize_interrupted_member :: "(string \<Rightarrow> string) \<Rightarrow> (store \<Rightarrow> store) list \<Rightarrow> string
    \<Rightarrow> string \<Rightarrow> string \<Rightarrow> string \<Rightarrow> store \<Rightarrow> (plan_exn + unit) \<times> store" where
  "finalize_interrupted_member msg env session tid project user d =
     (case get_run session d of
        None \<Rightarrow> (Inr (), d)
      | Some run \<Rightarrow>
      if rr_status run \<noteq> RActive then (Inr (), d)
      else (let lead = text_or (rr_dispatched_by run);
                d1 = snd (update_run_by_session session RRejected None (Some (clock d)) d)
        in (case park_node env (rr_subtask_key run) (JStr (msg ''task.reworkUserInterrupted''))
                   ''user'' (Some session) user project tid d1 of
              (Inl e, d2) \<Rightarrow> (Inl e, d2)
            | (Inr _, d2) \<Rightarrow>
               (let d3 = record_subtask_stopped user project tid (Some session) (rr_agent run)
                           (resolve_agent_display_name project (rr_agent run) d2) (rr_subtask_key run) d2;
                    d4 = snd (cancel_pending session d3)
                in (Inr (), if lead = [] then d4
                    else (case enqueue lead tid project user ''member_done'' [] session
                             ''member-interrupted''
                             (cancelled_payload (rr_agent run) (msg ''task.reworkUserInterrupted'')) d4 of
                            None \<Rightarrow> d4 | Some d5 \<Rightarrow> d5))))))"

text \<open>
  The member's loop ended with a status of its own.  \<open>intf\<close> is what others commit between
  reading the run and the conditional settle.  Every exception is logged and swallowed; what
  was committed before it stays.
\<close>

definition settle_member :: "(string \<Rightarrow> string) \<Rightarrow> (string \<times> json) list \<Rightarrow> (store \<Rightarrow> store)
    \<Rightarrow> (store \<Rightarrow> store) list \<Rightarrow> string \<Rightarrow> string \<Rightarrow> string \<Rightarrow> string \<Rightarrow> string \<Rightarrow> store \<Rightarrow> store" where
  "settle_member msg manifest intf env session final_status tid project user d =
     (let run = get_run session d in
      if run \<noteq> None \<and> rr_status (the run) \<noteq> RActive then d
      else (let ok = (final_status \<notin> {''terminated'', ''error''});
                agent = (case run of None \<Rightarrow> [] | Some r \<Rightarrow> rr_agent r);
                d0 = intf d;
                (settled, d1) = settle_run_if_active session (if ok then RCompleted else RArchived)
                   (Some (JDict manifest)) (Some (clock d0)) d0
        in if run \<noteq> None \<and> \<not> settled then d1
           else if ok then d1
           else (let key = (case run of None \<Rightarrow> None | Some r \<Rightarrow> rr_subtask_key r);
                     fb = py_or (dget manifest ''summary'') (JStr (msg ''task.reworkRunErrored''))
             in (case park_node env key fb agent (Some session) user project tid d1 of
                   (Inl e, d2) \<Rightarrow> d2
                 | (Inr _, d2) \<Rightarrow>
                     record_subtask_failed user project tid (Some session) agent
                       (resolve_agent_display_name project agent d2) key
                       (plain_str (dget manifest ''summary'')) ''run_error''
                       (dget manifest ''artifacts'') d2))))"

datatype actor_role = LeadRole | MemberRole

text \<open>
  \<open>finalize_actor\<close>; \<open>kernel_finalize\<close> is the session module's own finalization, given the
  session, its last content and the kernel status.
\<close>

definition finalize_actor :: "memory_port \<Rightarrow> (string \<Rightarrow> string) \<Rightarrow> (string \<Rightarrow> string \<Rightarrow> string \<Rightarrow> store \<Rightarrow> store)
    \<Rightarrow> json option \<Rightarrow> string \<Rightarrow> (string \<times> json) list \<Rightarrow> (store \<Rightarrow> store) \<Rightarrow> (store \<Rightarrow> store) list
    \<Rightarrow> string \<Rightarrow> string \<Rightarrow> string \<Rightarrow> actor_role \<Rightarrow> string \<Rightarrow> string \<Rightarrow> bool \<Rightarrow> string \<Rightarrow> store
    \<Rightarrow> auto_outcome \<times> store" where
  "finalize_actor mem msg kernel_finalize sr last_text manifest intf env session last_content
     final_status role tid project via_shutdown user d =
     (let kernel_status = (if final_status = ''interrupted'' then ''idle'' else final_status);
          d1 = kernel_finalize session last_content kernel_status d
      in (case role of
            LeadRole \<Rightarrow> if via_shutdown then (AutoSkipped, d1)
              else auto_finalize_lead_task mem msg sr last_text session tid project final_status user intf d1
          | MemberRole \<Rightarrow>
              (AutoSkipped,
               if final_status = ''interrupted''
               then snd (finalize_interrupted_member msg env session tid project user d1)
               else settle_member msg manifest intf env session final_status tid project user d1)))"

end
