(* ===== verification/TerminalFacts.thy ===== *)
theory TerminalFacts
  imports Terminal
begin

text \<open>
  The properties of ending a task: the terminal write is all or nothing, an ended lead never
  leaves its task orphaned, a task is not completed over unresolved work, and a member's
  recorded outcome is never overwritten.
\<close>

section \<open>The status door as the handlers use it\<close>

definition legal_from :: "string \<Rightarrow> string \<Rightarrow> bool" where
  "legal_from c s \<longleftrightarrow> c = s \<or> \<not> is_valid_status c \<or> assert_transition (Some c) s = Inr ()"

text \<open>Nothing but the tasks (and the review candidates) changed.\<close>

definition keeps_rest :: "store \<Rightarrow> store \<Rightarrow> bool" where
  "keeps_rest b d \<longleftrightarrow> events d = events b \<and> announced d = announced b \<and> notices d = notices b
     \<and> runs d = runs b \<and> mailbox d = mailbox b \<and> clock d = clock b \<and> spawned d = spawned b"

lemma keeps_rest_refl [simp]: "keeps_rest d d"
  by (simp add: keeps_rest_def)

lemma set_status_where_frame_all:
  "set_status_where u t a s d = (n, d') \<Longrightarrow> keeps_rest d d'"
  by (auto simp: set_status_where_def Let_def keeps_rest_def)

lemma set_status_where_miss:
  assumes "set_status_where u t a s d = (0, d')"
  shows "d' = d"
proof -
  let ?m = "\<lambda>x. tr_id x = t \<and> tr_user x = u \<and> tr_status x = a"
  from assms have "\<forall>x \<in> set (tasks d). \<not> ?m x"
    unfolding set_status_where_def Let_def by (simp add: matched_zero_iff)
  then have "update_where ?m (\<lambda>x. x\<lparr>tr_status := s, tr_updated_at := clock d\<rparr>) (tasks d) = tasks d"
    by (rule update_where_none)
  with assms show ?thesis by (simp add: set_status_where_def Let_def)
qed

lemma door_True:
  assumes "update_task_status u t s ex intf d = (Inr True, d')" and "task_ids_unique (intf d)"
  shows "\<exists>b c. (b = d \<or> b = intf d) \<and> current_status u t b = Some c \<and> legal_from c s
    \<and> current_status u t d' = Some s \<and> keeps_rest b d'"
proof (cases "current_status u t d = Some s")
  case True
  with assms(1) have "d' = d" by (auto simp: update_task_status_def split: if_splits)
  with True show ?thesis by (auto simp: legal_from_def)
next
  case False
  from assms(1) obtain a where a: "current_status u t d = Some a"
    by (auto simp: update_task_status_def split: if_splits option.splits)
  obtain n d2 where n: "set_status_where u t a s (intf d) = (n, d2)" by fastforce
  from assms(1) False a n have leg: "legal_from a s" and d2: "d' = d2"
    and r: "0 < n \<or> current_status u t d2 = Some s"
    by (auto simp: update_task_status_def legal_from_def Let_def split: if_splits sum.splits option.splits)
  show ?thesis
  proof (cases "0 < n")
    case True
    with set_status_where_hit [OF n True assms(2)] leg d2 set_status_where_frame_all [OF n]
    show ?thesis by blast
  next
    case False
    with n have "d2 = intf d" using set_status_where_miss by simp
    with r False d2 show ?thesis by (auto simp: legal_from_def)
  qed
qed

lemma door_not_True:
  assumes "update_task_status u t s ex intf d = (r, d')" and "r \<noteq> Inr True"
  shows "d' = d \<or> d' = intf d"
proof (cases "current_status u t d")
  case None
  with assms show ?thesis by (auto simp: update_task_status_def split: if_splits)
next
  case (Some a)
  obtain n d2 where n: "set_status_where u t a s (intf d) = (n, d2)" by fastforce
  with assms Some have "d' = d \<or> (n = 0 \<and> d' = d2)"
    by (auto simp: update_task_status_def Let_def split: if_splits sum.splits)
  with n show ?thesis using set_status_where_miss by auto
qed

lemma door_expect:
  assumes "update_task_status u t s (Some c) intf d = (Inr True, d')" and "c \<noteq> s"
    and "task_ids_unique (intf d)"
  shows "current_status u t d = Some c \<and> current_status u t (intf d) = Some c
    \<and> current_status u t d' = Some s \<and> keeps_rest (intf d) d'"
proof -
  from assms(1,2) have c: "current_status u t d = Some c"
    by (auto simp: update_task_status_def split: if_splits option.splits)
  obtain n d2 where n: "set_status_where u t c s (intf d) = (n, d2)" by fastforce
  with assms(1,2) c have "0 < n" "d' = d2"
    by (auto simp: update_task_status_def Let_def split: if_splits sum.splits)
  with set_status_where_hit [OF n _ assms(3)] set_status_where_frame_all [OF n] c show ?thesis by simp
qed

lemma door_alone:
  assumes "task_ids_unique d" "current_status u t d = Some c" "legal_from c s" "is_valid_status s"
  shows "\<exists>d'. update_task_status u t s None (\<lambda>x. x) d = (Inr True, d') \<and> current_status u t d' = Some s
    \<and> keeps_rest d d'"
proof (cases "c = s")
  case True
  with assms show ?thesis by (auto simp: update_task_status_def)
next
  case False
  obtain n d2 where n: "set_status_where u t c s d = (n, d2)" by fastforce
  from assms(2) obtain x where "x \<in> set (tasks d)" "tr_id x = t" "tr_user x = u" "tr_status x = c"
    by (auto simp: current_status_def dest: get_task_SomeD)
  with n have "0 < n"
    unfolding set_status_where_def Let_def by (auto simp: matched_pos_iff)
  with set_status_where_hit [OF n this assms(1)] assms n False set_status_where_frame_all [OF n]
  show ?thesis by (auto simp: update_task_status_def legal_from_def)
qed

section \<open>The terminal write\<close>

lemma flip_True:
  assumes "flip_status mem u t s intf d = (Inr True, d')" and "task_ids_unique (intf d)"
  shows "\<exists>b c. (b = d \<or> b = intf d) \<and> current_status u t b = Some c \<and> legal_from c s
    \<and> current_status u t d' = Some s \<and> keeps_rest b d'"
proof -
  obtain r d1 where r: "update_task_status u t s None intf d = (r, d1)" by fastforce
  with assms(1) have rT: "r = Inr True" and f: "tasks d' = tasks d1" "keeps_rest d1 d'"
    by (auto simp: flip_status_def keeps_rest_def split: sum.splits if_splits)
  from f(1) have "current_status u t d' = current_status u t d1"
    by (simp add: current_status_def get_task_def)
  moreover from door_True [where intf = intf, OF r [unfolded rT] assms(2)] obtain b c where
    "b = d \<or> b = intf d" "current_status u t b = Some c" "legal_from c s"
    "current_status u t d1 = Some s" "keeps_rest b d1" by blast
  ultimately show ?thesis using f(2) unfolding keeps_rest_def by (intro exI [of _ b] exI [of _ c]) simp
qed

lemma flip_not_True:
  assumes "flip_status mem u t s intf d = (r, d')" and "r \<noteq> Inr True"
  shows "d' = d \<or> d' = intf d"
proof -
  obtain r1 d1 where r: "update_task_status u t s None intf d = (r1, d1)" by fastforce
  show ?thesis
  proof (cases "r1 = Inr True")
    case True
    with r assms show ?thesis by (auto simp: flip_status_def split: if_splits)
  next
    case False
    from door_not_True [OF r False] r assms show ?thesis
      by (auto simp: flip_status_def split: if_splits sum.splits)
  qed
qed

lemma publish_frame [simp]:
  "tasks (publish_task_finalized t u s d) = tasks d" "events (publish_task_finalized t u s d) = events d"
  "runs (publish_task_finalized t u s d) = runs d" "notices (publish_task_finalized t u s d) = notices d"
  "announced (publish_task_finalized t u s d) = announced d @ [(t, u, s)]"
  "mailbox (publish_task_finalized t u s d) = mailbox d" "clock (publish_task_finalized t u s d) = clock d"
  by (simp_all add: publish_task_finalized_def)

lemma notify_user_frame [simp]:
  "tasks (notify_user t ty x d) = tasks d" "events (notify_user t ty x d) = events d"
  "runs (notify_user t ty x d) = runs d" "announced (notify_user t ty x d) = announced d"
  "mailbox (notify_user t ty x d) = mailbox d" "clock (notify_user t ty x d) = clock d"
  "notices (notify_user t ty x d) = notices d @ [(t, ty, x)]"
  by (simp_all add: notify_user_def)

lemma current_status_tasks: "tasks d = tasks d' \<Longrightarrow> current_status u t d = current_status u t d'"
  by (simp add: current_status_def get_task_def)

lemma current_status_frame [simp]:
  "current_status u t (notify_user tid ty x d) = current_status u t d"
  "current_status u t (append_event u' p' t' ty a se pl d) = current_status u t d"
  "current_status u t (publish_task_finalized t' u' s d) = current_status u t d"
  by (simp_all add: current_status_def get_task_def)

lemma finalize_task_event:
  assumes "finalize_task mem u p t s ty a se pl intf d = (FinEvent e, d')" and "task_ids_unique (intf d)"
  shows "\<exists>b c. (b = d \<or> b = intf d) \<and> current_status u t b = Some c \<and> legal_from c s
    \<and> current_status u t d' = Some s \<and> events d' = events b @ [e] \<and> ev_type e = ty \<and> ev_task e = t
    \<and> announced d' = announced b @ [(t, u, s)] \<and> runs d' = runs b
    \<and> (s = ''completed'' \<longrightarrow> length (notices d') = Suc (length (notices b)))
    \<and> (s \<noteq> ''completed'' \<longrightarrow> notices d' = notices b)"
proof -
  obtain r d1 where r: "flip_status mem u t s intf d = (r, d1)" by fastforce
  with assms(1) have rT: "r = Inr True" by (auto simp: finalize_task_def Let_def split: sum.splits if_splits)
  from flip_True [where intf = intf, OF r [unfolded rT] assms(2)] obtain b c where
    b: "b = d \<or> b = intf d" "current_status u t b = Some c" "legal_from c s"
    "current_status u t d1 = Some s" "keeps_rest b d1" by blast
  from assms(1) r rT have e: "e = last (events d')" and ts: "tasks d' = tasks d1"
    and ev: "events d' = events (append_event u p t ty a se (PDict pl) (publish_task_finalized t u s d1))"
    and rest: "announced d' = announced d1 @ [(t, u, s)]" "runs d' = runs d1"
      "notices d' = notices d1 @ (if s = ''completed'' then [(t, ''task_completed'', plain_str (dget pl ''summary''))] else [])"
    by (auto simp: finalize_task_def Let_def split: if_splits)
  from ts b(4) have "current_status u t d' = Some s" by (simp add: current_status_tasks [of d' d1])
  with b e ev rest show ?thesis
    unfolding keeps_rest_def by (intro exI [of _ b] exI [of _ c]) (simp add: append_event_store)
qed

lemma finalize_task_no_event:
  assumes "finalize_task mem u p t s ty a se pl intf d = (r, d')" "\<forall>e. r \<noteq> FinEvent e"
  shows "d' = d \<or> d' = intf d"
proof -
  obtain r1 d1 where r: "flip_status mem u t s intf d = (r1, d1)" by fastforce
  with assms have "r1 \<noteq> Inr True" "d' = d1"
    by (auto simp: finalize_task_def Let_def split: sum.splits if_splits)
  with flip_not_True [OF r] show ?thesis by simp
qed

text \<open>The terminal write is all or nothing.  If it reports an event, the task's status is the
  terminal one, reached by a legal transition (or found already reached, or left by a legacy
  value) from the state that was there, and exactly one event and one announcement were
  added; otherwise (the flip lost a race or raised, or the review candidate failed) it has
  written nothing at all.\<close>
theorem terminal_write_all_or_nothing:
  assumes "finalize_task mem u p t s ty a se pl intf d = (r, d')" and "task_ids_unique (intf d)"
  shows "case r of
      FinEvent e \<Rightarrow> \<exists>b c. (b = d \<or> b = intf d) \<and> current_status u t b = Some c \<and> legal_from c s
        \<and> current_status u t d' = Some s \<and> events d' = events b @ [e] \<and> ev_type e = ty \<and> ev_task e = t
        \<and> announced d' = announced b @ [(t, u, s)]
    | _ \<Rightarrow> d' = d \<or> d' = intf d"
proof (cases r)
  case (FinEvent e)
  from finalize_task_event [where intf = intf, OF assms(1) [unfolded FinEvent] assms(2)] FinEvent
  show ?thesis by auto
qed (use finalize_task_no_event [OF assms(1)] in auto)

section \<open>An ended lead\<close>

lemma get_task_by_project_status:
  assumes "get_task_by_project u p t d = Some row" and "task_ids_unique d"
  shows "current_status u t d = Some (tr_status row)"
proof -
  from assms(1) have "row \<in> set (tasks d)" "tr_id row = t" "tr_user row = u"
    by (auto simp: get_task_by_project_def dest: find_SomeD)
  with get_task_eq_Some [OF assms(2)] show ?thesis by (simp add: current_status_def)
qed

lemma flip_alone:
  assumes "task_ids_unique d" "current_status u t d = Some c" "legal_from c s" "is_valid_status s"
    and "mem \<noteq> MemoryFails"
  shows "\<exists>d'. flip_status mem u t s (\<lambda>x. x) d = (Inr True, d')"
  using door_alone [OF assms(1-4)] assms(5) by (auto simp: flip_status_def)

lemma finalize_alone:
  assumes "task_ids_unique d" "current_status u t d = Some c" "legal_from c s" "is_valid_status s"
    and "mem \<noteq> MemoryFails"
  shows "\<exists>e d'. finalize_task mem u p t s ty a se pl (\<lambda>x. x) d = (FinEvent e, d')
    \<and> current_status u t d' = Some s"
proof -
  from flip_alone [OF assms] obtain d1 where d1: "flip_status mem u t s (\<lambda>x. x) d = (Inr True, d1)" ..
  then obtain e d' where f: "finalize_task mem u p t s ty a se pl (\<lambda>x. x) d = (FinEvent e, d')"
    by (simp add: finalize_task_def Let_def)
  with finalize_task_event [where intf = "\<lambda>x. x", OF f assms(1)] show ?thesis by blast
qed

lemma legal_from_active [simp]:
  "legal_from ''active'' ''completed''" "legal_from ''active'' ''blocked''"
  "legal_from ''active'' ''paused''" "legal_from ''active'' ''stopped''"
proof -
  have "assert_transition (Some (task_status_name TActive)) (task_status_name b) = Inr ()"
    if "b \<in> {TCompleted, TBlocked, TPaused, TStopped}" for b
    unfolding assert_transition_Inr using that by (intro exI [of _ TActive] exI [of _ b]) auto
  from this [of TCompleted] this [of TBlocked] this [of TPaused] this [of TStopped]
  show "legal_from ''active'' ''completed''" "legal_from ''active'' ''blocked''"
    "legal_from ''active'' ''paused''" "legal_from ''active'' ''stopped''"
    by (simp_all add: legal_from_def)
qed

lemma update_run_status [simp]:
  "current_status u t (snd (update_run_by_session s st mf en d)) = current_status u t d"
  "task_ids_unique (snd (update_run_by_session s st mf en d)) = task_ids_unique d"
  by (simp_all add: update_run_by_session_def current_status_def get_task_def task_ids_unique_def Let_def)

lemma block_alone:
  assumes "task_ids_unique d" "current_status u t d = Some ''active''" "mem \<noteq> MemoryFails"
  shows "\<exists>e d'. block_task mem u p t ty a re se pl (\<lambda>x. x) d = (FinEvent e, d')
    \<and> current_status u t d' = Some ''blocked''"
proof -
  let ?pl = "filter (\<lambda>kv. fst kv \<noteq> ''error'') pl @ [(''error'', JStr re)]"
  from finalize_alone [OF assms(1,2), of "''blocked''" mem p ty a se ?pl] assms(3)
  obtain e d1 where f: "finalize_task mem u p t ''blocked'' ty a se ?pl (\<lambda>x. x) d = (FinEvent e, d1)"
    "current_status u t d1 = Some ''blocked''" by auto
  then show ?thesis
    by (auto simp: block_task_def Let_def)
qed

lemma complete_alone:
  assumes "task_ids_unique d" "current_status u t d = Some ''active''" "mem \<noteq> MemoryFails"
  shows "\<exists>e d'. complete_task mem u p t l sm ar au (\<lambda>x. x) d = (FinEvent e, d')
    \<and> current_status u t d' = Some ''completed''"
  unfolding complete_task_def Let_def using assms by (intro finalize_alone [where c = "''active''"]) simp_all

lemma ended_lead_closes:
  assumes "auto_finalize_lead_task mem msg sr txt l t p fs u (\<lambda>x. x) d = (o', d')"
    and "task_ids_unique d" "mem \<noteq> MemoryFails"
    and "get_task_by_project u p t d = Some row" "tr_status row = ''active''"
    and "\<not> has_active_members t d" "outstanding (tr_plan row) = Inr un"
  shows "current_status u t d' = Some (case turn_error sr fs of
      None \<Rightarrow> if un = [] then ''completed'' else ''blocked''
    | Some (e, c) \<Rightarrow> if un = [] \<and> c \<in> {JStr ''user_interrupt'', JStr ''interrupted''}
        then ''paused'' else ''blocked'')"
proof -
  have act: "current_status u t d = Some ''active''"
    using get_task_by_project_status [OF assms(4,2)] assms(5) by simp
  show ?thesis
  proof (cases "turn_error sr fs")
    case None
    show ?thesis
    proof (cases "un = []")
      case True
      define sm where "sm = (if txt = [] then ''(auto-finalized) Lead ended its turn with no pending subtasks; ''
          @ ''task closed automatically.'' else txt)"
      from complete_alone [OF assms(2) act assms(3), of p l sm "[]" True] assms None True show ?thesis
        by (auto simp: auto_finalize_lead_task_def sm_def)
    next
      case False
      from block_alone [OF assms(2) act assms(3), of p "''task_blocked''" l
          "msg ''task.blockedLeadEndedIncomplete''" "Some l" "[(''reason'', JStr ''unresolved_subtasks''),
           (''pending_subtasks'', JList (map JStr un))]"] assms None False show ?thesis
        by (auto simp: auto_finalize_lead_task_def)
    qed
  next
    case (Some ec)
    obtain e c where ec: "ec = (e, c)" by (cases ec)
    show ?thesis
    proof (cases "un = [] \<and> c \<in> {JStr ''user_interrupt'', JStr ''interrupted''}")
      case True
      from door_alone [OF assms(2) act, of "''paused''"] True assms Some ec show ?thesis
        by (auto simp: auto_finalize_lead_task_def)
    next
      case False
      from block_alone [OF assms(2) act assms(3), of p "''task_blocked''" l e "Some l"
          "[(''reason'', JStr ''lead_turn_error''), (''category'', c), (''pending_subtasks'', JList (map JStr un))]"]
        assms Some ec False show ?thesis
        by (auto simp: auto_finalize_lead_task_def)
    qed
  qed
qed

text \<open>Property C17: the finalization of an ended lead closes its task.  When the lead of an active task with no member
  at work is finalized without having finished it, and nobody else writes, the plan parses and
  the review candidate can be recorded, the task leaves \<open>active\<close>: to \<open>completed\<close> exactly when the turn did not fail and
  the plan has nothing outstanding, to \<open>paused\<close> when the user cancelled the turn with nothing
  outstanding, else to \<open>blocked\<close>.\<close>
theorem ended_lead_closes_task:
  assumes "auto_finalize_lead_task mem msg sr txt l t p fs u (\<lambda>x. x) d = (o', d')"
    and "task_ids_unique d" "mem \<noteq> MemoryFails"
    and "get_task_by_project u p t d = Some row" "tr_status row = ''active''"
    and "\<not> has_active_members t d" "outstanding (tr_plan row) = Inr un"
  shows "current_status u t d' = Some (case turn_error sr fs of
      None \<Rightarrow> if un = [] then ''completed'' else ''blocked''
    | Some (e, c) \<Rightarrow> if un = [] \<and> c \<in> {JStr ''user_interrupt'', JStr ''interrupted''}
        then ''paused'' else ''blocked'')"
  using ended_lead_closes [OF assms] .

section \<open>finish\_task\<close>

definition same_run :: "run_row \<Rightarrow> run_row \<Rightarrow> bool" where
  "same_run x y \<longleftrightarrow> rr_session x = rr_session y \<and> rr_task x = rr_task y \<and> rr_user x = rr_user y
     \<and> rr_kind x = rr_kind y"

lemma cancel_pending_frame [simp]:
  "runs (snd (cancel_pending s d)) = runs d" "tasks (snd (cancel_pending s d)) = tasks d"
  "events (snd (cancel_pending s d)) = events d"
  by (simp_all add: cancel_pending_def)

definition parks :: "run_row \<Rightarrow> bool" where
  "parks r \<longleftrightarrow> rr_kind r = SubtaskRun \<and> rr_status r = RActive"

lemma park_member_run:
  assumes "x \<in> set (runs (park_member r d))"
  shows "\<exists>y \<in> set (runs d). same_run x y \<and> (rr_status x = rr_status y \<or> rr_status x = RPaused)
    \<and> (parks r \<and> rr_session r = rr_session y \<longrightarrow> rr_status x = RPaused)"
proof (cases "parks r")
  case True
  with assms have "x \<in> (\<lambda>y. if rr_session y = rr_session r
      then run_updates RPaused None (Some (clock d)) y else y) ` set (runs d)"
    by (simp add: park_member_def parks_def update_run_by_session_def Let_def set_update_where)
  then obtain y where "y \<in> set (runs d)" "x = (if rr_session y = rr_session r
      then run_updates RPaused None (Some (clock d)) y else y)" by blast
  then show ?thesis by (intro bexI [of _ y]) (auto simp: same_run_def run_updates_def)
next
  case False
  then have "park_member r d = d" by (auto simp: park_member_def parks_def)
  with assms False show ?thesis by (intro bexI [of _ x]) (auto simp: same_run_def)
qed

lemma park_fold_run:
  "x \<in> set (runs (fold park_member rs d)) \<Longrightarrow>
     \<exists>y \<in> set (runs d). same_run x y \<and> (rr_status x = rr_status y \<or> rr_status x = RPaused)
       \<and> ((\<exists>r \<in> set rs. parks r \<and> rr_session r = rr_session y) \<longrightarrow> rr_status x = RPaused)"
proof (induction rs arbitrary: d)
  case Nil
  then show ?case by (auto simp: same_run_def)
next
  case (Cons r rs)
  from Cons.prems have "x \<in> set (runs (fold park_member rs (park_member r d)))" by simp
  from Cons.IH [OF this] obtain y where y: "y \<in> set (runs (park_member r d))" "same_run x y"
    "rr_status x = rr_status y \<or> rr_status x = RPaused"
    "(\<exists>r \<in> set rs. parks r \<and> rr_session r = rr_session y) \<longrightarrow> rr_status x = RPaused" by blast
  from park_member_run [OF y(1)] obtain z where z: "z \<in> set (runs d)" "same_run y z"
    "rr_status y = rr_status z \<or> rr_status y = RPaused"
    "parks r \<and> rr_session r = rr_session z \<longrightarrow> rr_status y = RPaused" by blast
  with y show ?case by (intro bexI [of _ z]) (auto simp: same_run_def)
qed

lemma park_members_none_active:
  assumes "x \<in> set (runs (park_members u t d))" "rr_task x = Some t" "rr_user x = u" "rr_kind x = SubtaskRun"
  shows "rr_status x \<noteq> RActive"
proof
  assume act: "rr_status x = RActive"
  from park_fold_run [OF assms(1) [unfolded park_members_def]] obtain y where
    y: "y \<in> set (runs d)" "same_run x y" "rr_status x = rr_status y \<or> rr_status x = RPaused"
    "(\<exists>r \<in> set (list_runs u t d). parks r \<and> rr_session r = rr_session y) \<longrightarrow> rr_status x = RPaused"
    by blast
  with act assms have "y \<in> set (list_runs u t d)" "parks y"
    by (auto simp: list_runs_def parks_def same_run_def)
  with y act show False by auto
qed

text \<open>Property C18: a task is not finished over unfinished work.  \<open>finish_task\<close> reports success only if the
  plan it read parses and (for \<open>completed\<close>) has no unresolved node, and (for an unforced
  \<open>stopped\<close>) no member was running when it looked; afterwards no member run of the task is
  active.  Every rejection leaves the store as the others made it.\<close>
theorem finish_task_guards:
  assumes "finish_task mem t p lead sm ar status force u btw intf btw' d = (r, d')"
  shows "case r of
      FinishOk st \<Rightarrow> st = status \<and> status \<in> {''completed'', ''stopped''}
        \<and> (\<exists>row. get_task_by_project u p t (btw d) = Some row
             \<and> (status = ''completed'' \<longrightarrow> (\<exists>pl. plan_from_dict (tr_plan row) = Inr pl
                  \<and> (\<forall>n \<in> set pl. st_status n = Done \<or> st_status n = Failed))))
        \<and> (status = ''stopped'' \<longrightarrow> force \<or> live_subtask_keys u t d = [])
        \<and> (\<forall>x \<in> set (runs d'). rr_task x = Some t \<and> rr_user x = u \<and> rr_kind x = SubtaskRun
             \<longrightarrow> rr_status x \<noteq> RActive)
    | FinishFailed e \<Rightarrow> True
    | _ \<Rightarrow> d' = d \<or> d' = btw d"
proof (cases "status \<in> {''completed'', ''stopped''}")
  case False
  with assms show ?thesis by (auto simp: finish_task_def)
next
  case st: True
  define live where "live = (if status = ''stopped'' \<and> \<not> force then live_subtask_keys u t d else [])"
  show ?thesis
  proof (cases "live = []")
    case False
    with assms st show ?thesis by (auto simp: finish_task_def live_def)
  next
    case True
    show ?thesis
    proof (cases "get_task_by_project u p t (btw d)")
      case None
      with assms st True show ?thesis by (auto simp: finish_task_def live_def Let_def split: if_splits)
    next
      case (Some row)
      define un where "un = (if status = ''completed''
          then map_sum id unresolved_keys (plan_from_dict (tr_plan row)) else Inr [])"
      define fin where "fin = (if status = ''completed''
          then complete_task mem u p t lead sm ar False intf (btw d)
          else finalize_task mem u p t ''stopped'' ''task_stopped'' lead (Some lead)
                 [(''summary'', JStr sm), (''artifacts'', JList ar)] intf
                 (snd (update_run_by_session lead RCompleted None (Some (clock (btw d))) (btw d))))"
      have unf: "finish_task mem t p lead sm ar status force u btw intf btw' d =
          (case un of Inl e \<Rightarrow> (FinishRaised e, btw d)
           | Inr ks \<Rightarrow> if ks \<noteq> [] then (FinishPending ks, btw d)
               else (case fin of (FinRaised e, d1) \<Rightarrow> (FinishFailed e, d1)
                 | (_, d1) \<Rightarrow> (FinishOk status, park_members u t (btw' d1))))"
        using st True Some unfolding finish_task_def live_def un_def fin_def Let_def by simp
      show ?thesis
      proof (cases un)
        case (Inl e)
        with assms unf show ?thesis by auto
      next
        case (Inr ks)
        show ?thesis
        proof (cases "ks = []")
          case False
          with assms unf Inr show ?thesis by auto
        next
          case ks: True
          obtain fr d1 where fr: "fin = (fr, d1)" by fastforce
          show ?thesis
          proof (cases "\<exists>e. fr = FinRaised e")
            case True
            with assms unf Inr ks fr show ?thesis by auto
          next
            case False
            with assms unf Inr ks fr have r: "r = FinishOk status" "d' = park_members u t (btw' d1)"
              by (auto split: final_reply.splits)
            have "status = ''completed'' \<longrightarrow> (\<exists>pl. plan_from_dict (tr_plan row) = Inr pl \<and> unresolved_keys pl = [])"
              using Inr ks unfolding un_def by (cases "plan_from_dict (tr_plan row)") auto
            then have "status = ''completed'' \<longrightarrow> (\<exists>pl. plan_from_dict (tr_plan row) = Inr pl
                \<and> (\<forall>n \<in> set pl. st_status n = Done \<or> st_status n = Failed))"
              by (simp add: unresolved_keys_Nil)
            moreover have "status = ''stopped'' \<longrightarrow> force \<or> live_subtask_keys u t d = []"
              using \<open>live = []\<close> by (auto simp: live_def split: if_splits)
            moreover have "\<forall>x \<in> set (runs d'). rr_task x = Some t \<and> rr_user x = u \<and> rr_kind x = SubtaskRun
                \<longrightarrow> rr_status x \<noteq> RActive"
              using park_members_none_active r(2) by blast
            ultimately show ?thesis using r(1) st Some by simp
          qed
        qed
      qed
    qed
  qed
qed

section \<open>Outcomes already recorded\<close>

text \<open>A run that is not active stays as it is, wherever it stands in the table.\<close>

definition outcomes_kept :: "store \<Rightarrow> store \<Rightarrow> bool" where
  "outcomes_kept d d' \<longleftrightarrow> list_all2 (\<lambda>x y. rr_status x \<noteq> RActive \<longrightarrow> y = x) (runs d) (runs d')"

lemma outcomes_kept_runs: "runs d' = runs d \<Longrightarrow> outcomes_kept d d'"
  by (auto simp: outcomes_kept_def intro: list_all2_same [THEN iffD2])

text \<open>
  Persisting a plan touches the tasks and the events and nothing else: any other reading of
  the store that the other writers leave alone is left alone.
\<close>

definition reads_elsewhere :: "(store \<Rightarrow> 'a) \<Rightarrow> bool" where
  "reads_elsewhere g \<longleftrightarrow> (\<forall>d x y. map tr_id x = map tr_id (tasks d) \<longrightarrow> g (d\<lparr>tasks := x, events := y\<rparr>) = g d)"

lemma reads_elsewhereD:
  assumes "reads_elsewhere g"
  shows "map tr_id x = map tr_id (tasks d) \<Longrightarrow> g (d\<lparr>tasks := x\<rparr>) = g d" "g (d\<lparr>events := y\<rparr>) = g d"
proof -
  have "g (d\<lparr>tasks := x, events := events (d\<lparr>tasks := x\<rparr>)\<rparr>) = g d" if "map tr_id x = map tr_id (tasks d)"
    using assms that unfolding reads_elsewhere_def by blast
  then show "map tr_id x = map tr_id (tasks d) \<Longrightarrow> g (d\<lparr>tasks := x\<rparr>) = g d" by simp
  have "g (d\<lparr>tasks := tasks d, events := y\<rparr>) = g d"
    using assms unfolding reads_elsewhere_def by blast
  then show "g (d\<lparr>events := y\<rparr>) = g d" by simp
qed

lemma reads_elsewhere_fields [simp]:
  "reads_elsewhere runs" "reads_elsewhere clock" "reads_elsewhere spawned" "reads_elsewhere interrupts"
  "reads_elsewhere task_ids_unique"
  by (simp_all add: reads_elsewhere_def task_ids_unique_def)

lemma reads_elsewhere_append [simp]:
  "reads_elsewhere g \<Longrightarrow> g (append_event u p t ty a se pl d) = g d"
  by (simp add: append_event_store reads_elsewhereD(2))

lemma reads_elsewhere_cas:
  assumes "reads_elsewhere g" "cas_update_plan u row doc n d = (r, d')"
  shows "g d' = g d"
proof -
  from assms(2) have "d' = d\<lparr>tasks := tasks d'\<rparr>" "map tr_id (tasks d') = map tr_id (tasks d)"
    by (auto simp: cas_update_plan_def Let_def intro!: map_update_where_frame)
  with reads_elsewhereD(1) [OF assms(1)] show ?thesis by metis
qed

lemma persist_rounds_elsewhere:
  assumes "persist_rounds n env mutate a se u row d = (r, row', d')" "reads_elsewhere g"
    and "\<forall>f \<in> set env. \<forall>s. g (f s) = g s"
  shows "g d' = g d"
  using assms
proof (induction n arbitrary: env row d)
  case 0
  then show ?case by simp
next
  case (Suc n)
  define f where "f = (case env of [] \<Rightarrow> (\<lambda>s. s) | g # _ \<Rightarrow> g)"
  define rest where "rest = (case env of [] \<Rightarrow> [] | _ # gs \<Rightarrow> gs)"
  have ok: "g (f s) = g s" "\<forall>h \<in> set rest. \<forall>s. g (h s) = g s" for s
    using Suc.prems(3) by (auto simp: f_def rest_def split: list.splits)
  show ?case
  proof (cases "rbind (plan_from_dict (tr_plan row)) mutate")
    case (Inl e)
    with Suc.prems show ?thesis by (auto simp: Let_def)
  next
    case (Inr o')
    show ?thesis
    proof (cases o')
      case None
      with Inr Suc.prems show ?thesis by (auto simp: Let_def)
    next
      case (Some p)
      obtain res d2 where c: "cas_update_plan u row (plan_to_dict p) (tr_plan_version row) (f d) = (res, d2)"
        by fastforce
      then have d2: "g d2 = g d" using reads_elsewhere_cas [OF Suc.prems(2) c] ok(1) by simp
      show ?thesis
      proof (cases res)
        case None
        with Suc.prems(1) Inr Some c d2 show ?thesis by (auto simp: Let_def simp flip: f_def rest_def)
      next
        case (Some wr)
        obtain w r2 where wr: "wr = (w, r2)" by (cases wr)
        with Suc.prems(1,2) Inr \<open>o' = Some p\<close> c Some
        have "if w then g d' = g d2 else persist_rounds n rest mutate a se u r2 d2 = (r, row', d')"
          by (auto simp: Let_def emit_plan_update_def simp flip: f_def rest_def)
        with Suc.IH Suc.prems(2) ok(2) d2 show ?thesis by (metis (full_types))
      qed
    qed
  qed
qed

lemma persist_best_effort_elsewhere:
  assumes "persist_plan_best_effort env mutate a se u row d = (r, row', d')" "reads_elsewhere g"
    and "\<forall>f \<in> set env. \<forall>s. g (f s) = g s"
  shows "g d' = g d"
proof -
  obtain r0 row0 d0 where p: "persist_plan env mutate a se u row d = (r0, row0, d0)"
    using prod_cases3 by blast
  with assms(1) have "d' = d0"
    by (auto simp: persist_plan_best_effort_def split: persist_outcome.splits)
  with persist_rounds_elsewhere [OF p [unfolded persist_plan_def] assms(2,3)] show ?thesis by simp
qed

lemma park_node_runs:
  assumes "park_node env key fb a se u p t d = (r, d')"
    and "\<forall>f \<in> set env. \<forall>s. runs (f s) = runs s"
  shows "runs d' = runs d"
  using assms(1) persist_best_effort_elsewhere [OF _ reads_elsewhere_fields(1) assms(2)]
  by (auto simp: park_node_def split: if_splits option.splits prod.splits persist_outcome.splits)

lemma enqueue_runs: "enqueue s t p u k tx fr og pl d = Some d' \<Longrightarrow> runs d' = runs d"
  by (auto dest!: enqueue_Some)

lemma outcomes_kept_settle:
  "settle_run_if_active s st mf en d = (b, d') \<Longrightarrow> outcomes_kept d d'"
  unfolding outcomes_kept_def by (rule settle_run_keeps_outcome(1))

text \<open>A member's recorded outcome is final for the loop that ends after it.  When a member's
  loop ends, whatever its final status, every run whose outcome others had recorded by the
  time of the settle is left exactly as it was.  (Others writing the plan meanwhile are only
  assumed to leave the run rows alone.)\<close>
theorem settle_member_keeps_outcomes:
  assumes "\<forall>f \<in> set env. \<forall>s. runs (f s) = runs s"
  shows "settle_member msg mf intf env se fs t p u d = d
    \<or> outcomes_kept (intf d) (settle_member msg mf intf env se fs t p u d)"
proof -
  let ?run = "get_run se d"
  show ?thesis
  proof (cases "?run \<noteq> None \<and> rr_status (the ?run) \<noteq> RActive")
    case True
    then show ?thesis by (auto simp: settle_member_def)
  next
    case False
    define ok where "ok = (fs \<notin> {''terminated'', ''error''})"
    obtain b d1 where s: "settle_run_if_active se (if ok then RCompleted else RArchived)
        (Some (JDict mf)) (Some (clock (intf d))) (intf d) = (b, d1)" by fastforce
    have kept: "outcomes_kept (intf d) d1" by (rule outcomes_kept_settle [OF s])
    define key where "key = (case ?run of None \<Rightarrow> None | Some r \<Rightarrow> rr_subtask_key r)"
    define agent where "agent = (case ?run of None \<Rightarrow> [] | Some r \<Rightarrow> rr_agent r)"
    define fb where "fb = py_or (dget mf ''summary'') (JStr (msg ''task.reworkRunErrored''))"
    obtain pr d2 where pn: "park_node env key fb agent (Some se) u p t d1 = (pr, d2)" by fastforce
    have "runs d2 = runs d1" by (rule park_node_runs [OF pn assms])
    moreover have "runs (settle_member msg mf intf env se fs t p u d) \<in> {runs d1, runs d2}"
      using False s pn
      unfolding settle_member_def Let_def ok_def key_def agent_def fb_def
      by (auto simp: record_subtask_failed_def split: sum.split)
    ultimately show ?thesis using kept by (auto simp: outcomes_kept_def)
  qed
qed

section \<open>Two terminal writes that say more than they do\<close>

text \<open>
  The comment in \<open>block_task\<close> says the lead's run is parked only if it is still active; the
  update is unconditional, so a run that had settled is parked all the same.
\<close>

theorem block_task_parks_settled_run:
  assumes "block_task mem u p t ty a re (Some s) pl intf d = (FinEvent e, d')" "s \<noteq> []"
  shows "\<forall>r \<in> set (runs d'). rr_session r = s \<longrightarrow> rr_status r = RPaused"
proof -
  from assms obtain d1 where
    "runs d' = runs (snd (update_run_by_session s RPaused None (Some (clock d1)) d1))"
    by (auto simp: block_task_def blank_def Let_def split: final_reply.splits prod.splits)
  then show ?thesis by (simp add: update_run_completes)
qed

text \<open>
  \<open>finish_task\<close> ignores that the terminal write lost its race: if another writer pauses the
  task between the read and the write, the command still reports that the task completed.
\<close>

lemma park_members_status [simp]: "current_status v k (park_members u t d) = current_status v k d"
proof -
  have "tasks (fold park_member rs e) = tasks e" for rs e
    by (induction rs arbitrary: e) (simp_all add: park_member_def update_run_by_session_def Let_def)
  then show ?thesis by (simp add: park_members_def current_status_def get_task_def)
qed

theorem finish_task_reports_lost_race:
  assumes "get_task_by_project u p t d = Some row" "plan_from_dict (tr_plan row) = Inr pl"
    and "unresolved_keys pl = []" "tr_status row = ''active''" "task_ids_unique d"
    and "\<forall>s. task_ids_unique s \<and> current_status u t s = Some ''active'' \<longrightarrow>
        task_ids_unique (intf s) \<and> current_status u t (intf s) = Some ''paused''"
  shows "\<exists>d1. finish_task mem t p lead sm ar ''completed'' force u (\<lambda>x. x) intf (\<lambda>x. x) d
      = (FinishOk ''completed'', d1) \<and> current_status u t d1 = Some ''paused''"
proof -
  let ?d = "snd (update_run_by_session lead RCompleted None (Some (clock d)) d)"
  have act: "current_status u t ?d = Some ''active''"
    using get_task_by_project_status [OF assms(1,5)] assms(4) by simp
  obtain n d2 where n: "set_status_where u t ''active'' ''completed'' (intf ?d) = (n, d2)" by fastforce
  have "task_ids_unique ?d" using assms(5) by simp
  with act assms(6) have intf: "task_ids_unique (intf ?d)" "current_status u t (intf ?d) = Some ''paused''"
    by blast+
  then have "n = 0"
    using set_status_where_hit [OF n] by force
  with n have "d2 = intf ?d" using set_status_where_miss by blast
  with n \<open>n = 0\<close> intf act legal_from_active(1)
  have "update_task_status u t ''completed'' None intf ?d = (Inr False, intf ?d)"
    by (auto simp: update_task_status_def legal_from_def)
  then have "complete_task mem u p t lead sm ar False intf d = (FinLost, intf ?d)"
    by (simp add: complete_task_def finalize_task_def flip_status_def)
  with assms(1-3) intf(2) show ?thesis by (simp add: finish_task_def)
qed

end
