(* ===== verification/Lifecycle.thy ===== *)
theory Lifecycle
  imports TerminalFacts "HOL-Library.AList"
begin

text \<open>
  \<^verbatim>\<open>backend/valuz_agent/modules/tasks/lifecycle.py\<close> and \<^verbatim>\<open>provenance.py\<close>: authoring a
  task: kickoff, the detached start of its lead, drafting, committing and abandoning.  What
  the session resolver finds (\<open>resolution.py\<close>: project, membership, credentials), the fresh
  ids and paths, and whether the kernel session comes up are arguments.
\<close>

section \<open>What triggered a task\<close>

record provenance =
  pv_type :: string
  pv_task :: "string option"
  pv_agent :: "string option"
  pv_automation :: "string option"

definition resolve_trigger_provenance :: "string option \<Rightarrow> string option \<Rightarrow> string option \<Rightarrow> store
    \<Rightarrow> provenance" where
  "resolve_trigger_provenance origin trigger_type automation d =
     (let run = (if blank origin then None else get_run (the origin) d);
          task = (case run of None \<Rightarrow> None | Some r \<Rightarrow> if blank (rr_task r) then None else rr_task r);
          agent = (case run of None \<Rightarrow> None
                   | Some r \<Rightarrow> if blank (rr_task r) then None else Some (rr_agent r))
      in if trigger_type = Some ''automation''
         then \<lparr>pv_type = ''automation'', pv_task = task, pv_agent = agent, pv_automation = automation\<rparr>
         else if task \<noteq> None
         then \<lparr>pv_type = ''agent'', pv_task = task, pv_agent = agent, pv_automation = None\<rparr>
         else if \<not> blank origin
         then \<lparr>pv_type = ''chat'', pv_task = None, pv_agent = None, pv_automation = None\<rparr>
         else \<lparr>pv_type = ''user'', pv_task = None, pv_agent = None, pv_automation = None\<rparr>)"

section \<open>Resolution\<close>

text \<open>
  The resolver's answer for a lead brief: a reason it cannot build the session, or the
  session with its (possibly spilled) brief, its credential gap and the roster's gaps.
\<close>

datatype resolution =
    ResolveFailure string
  | ResolvedLead string string "string option" "string list"

definition bullet_list :: "string list \<Rightarrow> string" where
  "bullet_list xs = concat (map (\<lambda>(i, x). (if i = 0 then [] else [newline]) @ ''- '' @ x)
     (enumerate 0 xs))"

definition spawn_actor :: "string \<Rightarrow> string \<Rightarrow> store \<Rightarrow> store" where
  "spawn_actor session prompt d = d\<lparr>spawned := spawned d @ [(session, prompt)]\<rparr>"

definition lead_run :: "project_id \<Rightarrow> task_id \<Rightarrow> session_id \<Rightarrow> string \<Rightarrow> string \<Rightarrow> string \<Rightarrow> string \<Rightarrow> run_row" where
  "lead_run project tid session agent label goal cwd =
     \<lparr>rr_user = [], rr_project = project, rr_task = Some tid, rr_session = session,
      rr_agent = agent, rr_sequence = 0, rr_kind = LeadRun, rr_subtask_key = None,
      rr_status = RActive, rr_label = Some label, rr_goal = Some goal, rr_dispatched_by = None,
      rr_project_mode = ''shared'', rr_run_dir = Some cwd, rr_manifest = None, rr_ended_at = None\<rparr>"

section \<open>kickoff\<close>

datatype kickoff_reply =
    KickoffNoProject
  | KickoffUnresolved string
  | KickoffBlocked string final_reply
  | KickedOff task_row string string  \<comment> \<open>the row; the lead session and brief to start\<close>

definition kickoff_metadata :: "json option \<Rightarrow> string option \<Rightarrow> json option \<Rightarrow> string option
    \<Rightarrow> (string \<times> json) list" where
  "kickoff_metadata check_config origin worktree automation_run =
     [(''dispatch_mode'', JStr ''async'')]
     @ (case check_config of None \<Rightarrow> [] | Some c \<Rightarrow> [(''optional_check_config'', c)])
     @ (if blank origin then [] else [(''originating_session_id'', JStr (the origin))])
     @ (case worktree of None \<Rightarrow> [] | Some w \<Rightarrow> [(''worktree'', w)])
     @ (if blank automation_run then [] else [(''automation_run_id'', JStr (the automation_run))])"

definition lead_brief :: "string \<Rightarrow> string list \<Rightarrow> string" where
  "lead_brief goal refs = goal @ (if bullet_list refs = [] then []
     else [newline, newline] @ ''## References'' @ [newline, newline] @ bullet_list refs)"

definition kickoff :: "memory_port \<Rightarrow> string \<times> string \<Rightarrow> bool \<Rightarrow> json option \<Rightarrow> json option
    \<Rightarrow> (string \<Rightarrow> resolution) \<Rightarrow> string \<Rightarrow> string \<Rightarrow> string \<Rightarrow> string list \<Rightarrow> string
    \<Rightarrow> string option \<Rightarrow> string option \<Rightarrow> string option \<Rightarrow> string option \<Rightarrow> string option
    \<Rightarrow> string \<Rightarrow> (store \<Rightarrow> store) \<Rightarrow> store \<Rightarrow> kickoff_reply \<times> store" where
  "kickoff mem fresh project_exists check_config worktree resolve project goal lead refs created_by title origin
     trigger_type automation automation_run user intf d =
     (case fresh of (tid, file_path) \<Rightarrow>
      if \<not> project_exists then (KickoffNoProject, d)
      else (let prov = resolve_trigger_provenance origin trigger_type automation d;
                row = \<lparr>tr_id = tid, tr_user = user, tr_project = project, tr_file_path = file_path,
                  tr_title = (if blank title then take 100 goal else the title), tr_goal = goal,
                  tr_status = ''active'', tr_created_by = created_by, tr_lead_agent = lead,
                  tr_holder = lead,
                  tr_metadata = kickoff_metadata check_config origin worktree automation_run,
                  tr_plan = JDict [], tr_plan_version = 0, tr_committed_at = None,
                  tr_trigger_type = pv_type prov, tr_trigger_task = pv_task prov,
                  tr_trigger_agent = pv_agent prov, tr_trigger_automation = pv_automation prov,
                  tr_created_at = clock d, tr_updated_at = clock d\<rparr>;
                d1 = create_task user row d
        in (case resolve (lead_brief goal refs) of
              ResolveFailure reason \<Rightarrow> (KickoffUnresolved reason, d1)
            | ResolvedLead session brief gap member_gaps \<Rightarrow>
                (let block = (\<lambda>reason. apfst (KickoffBlocked reason)
                        (block_task mem user project tid ''kickoff_failed'' created_by reason None [] intf d1))
                 in if gap \<noteq> None then block (the gap)
                    else if member_gaps \<noteq> []
                    then block (''model configuration check failed for project members:'' @ [newline]
                           @ bullet_list member_gaps)
                    else (KickedOff row session brief, d1)))))"

text \<open>
  The detached half.  \<open>startup\<close> is the exception of creating the kernel session, if it
  raises; \<open>between\<close> what others commit while the sandbox comes up.
\<close>

definition start_lead :: "memory_port \<Rightarrow> string option \<Rightarrow> session_id \<Rightarrow> string \<Rightarrow> task_id \<Rightarrow> project_id
    \<Rightarrow> string \<Rightarrow> string \<Rightarrow> string \<Rightarrow> string \<Rightarrow> user_id \<Rightarrow> (store \<Rightarrow> store) \<Rightarrow> (store \<Rightarrow> store)
    \<Rightarrow> store \<Rightarrow> store" where
  "start_lead mem startup session brief tid project lead goal cwd created_by user between intf d =
     (let d1 = between d in
      case startup of
        Some exc \<Rightarrow> snd (block_task mem user project tid ''kickoff_failed'' created_by
                          (''lead startup failed: '' @ exc) None [] intf d1)
      | None \<Rightarrow>
          (case get_task_by_project user project tid d1 of
             None \<Rightarrow> d1
           | Some row \<Rightarrow>
               if tr_status row \<noteq> ''active'' then d1
               else spawn_actor session brief
                 (append_event user project tid ''kickoff'' created_by (Some session)
                    (PDict [(''goal'', JStr goal), (''lead_agent_slug'', JStr lead)])
                    (create_run user (lead_run project tid session lead ''Kickoff'' goal cwd) d1))))"

section \<open>draft, commit, abandon\<close>

datatype draft_reply = DraftNoProject | DraftNotMember | Drafted task_row

definition draft_task :: "string \<times> string \<Rightarrow> bool \<Rightarrow> bool \<Rightarrow> string \<Rightarrow> string \<Rightarrow> string \<Rightarrow> string
    \<Rightarrow> string list \<Rightarrow> string option \<Rightarrow> string \<Rightarrow> store \<Rightarrow> draft_reply \<times> store" where
  "draft_task fresh project_exists member_exists project goal lead origin refs title user d =
     (case fresh of (tid, file_path) \<Rightarrow>
      if \<not> project_exists then (DraftNoProject, d)
      else if \<not> member_exists then (DraftNotMember, d)
      else (let prov = resolve_trigger_provenance (Some origin) None None d;
                row = \<lparr>tr_id = tid, tr_user = user, tr_project = project, tr_file_path = file_path,
                  tr_title = (if blank title then take 100 goal else the title), tr_goal = goal,
                  tr_status = ''draft'', tr_created_by = ''user'', tr_lead_agent = lead,
                  tr_holder = lead,
                  tr_metadata = [(''originating_session_id'', JStr origin), (''dispatch_mode'', JStr ''async'')]
                    @ (if refs = [] then [] else [(''refs'', JList (map JStr refs))]),
                  tr_plan = JDict [], tr_plan_version = 0, tr_committed_at = None,
                  tr_trigger_type = pv_type prov, tr_trigger_task = pv_task prov,
                  tr_trigger_agent = pv_agent prov, tr_trigger_automation = pv_automation prov,
                  tr_created_at = clock d, tr_updated_at = clock d\<rparr>
            in (Drafted row,
                append_event user project tid ''task_drafted'' origin None
                  (PDict [(''goal'', JStr goal), (''lead_agent_slug'', JStr lead),
                          (''refs'', JList (map JStr refs))]) (create_task user row d))))"

datatype commit_reply =
    CommitNotFound string
  | CommitNotDraft string
  | CommitRaised plan_exn
  | CommitEmptyPlan
  | CommitNothingToDo
  | CommitNoProject
  | CommitUnresolved string
  | CommitGap string
  | CommitMemberGaps "string list"
  | CommitBadTransition state_error
  | CommitLost
  | CommitRowGone
  | Committed string int

definition commit_brief :: "task_row \<Rightarrow> plan \<Rightarrow> string" where
  "commit_brief row p =
     tr_goal row @ [newline, newline] @ ''## Plan Summary (already committed; do not re-plan)''
     @ [newline, newline] @ bullet_list (map (\<lambda>n. st_key n @ '': '' @ st_title n) p) @ [newline]
     @ (case dget (tr_metadata row) ''refs'' of
          JList (r # rs) \<Rightarrow> [newline] @ ''## References'' @ [newline, newline]
            @ bullet_list (map py_str (r # rs)) @ [newline]
        | _ \<Rightarrow> [])"

text \<open>
  The row object after the flip: the attributes it assigns are written by \<open>update_task\<close>.
\<close>

definition commit_assign :: "string \<Rightarrow> int \<Rightarrow> task_row \<Rightarrow> task_row \<Rightarrow> task_row" where
  "commit_assign session at loaded t = t\<lparr>tr_status := ''active'', tr_committed_at := Some at,
     tr_holder := session,
     tr_metadata := AList.update ''dispatch_mode'' (JStr ''async'')
       (AList.update ''lead_session_id'' (JStr session) (tr_metadata loaded))\<rparr>"

definition commit_task :: "bool \<Rightarrow> (string \<Rightarrow> resolution) \<Rightarrow> string \<Rightarrow> string \<Rightarrow> string \<Rightarrow> string
    \<Rightarrow> string option \<Rightarrow> string \<Rightarrow> (store \<Rightarrow> store) \<Rightarrow> (store \<Rightarrow> store) \<Rightarrow> (store \<Rightarrow> store)
    \<Rightarrow> store \<Rightarrow> commit_reply \<times> store" where
  "commit_task project_exists resolve cwd tid project caller lead_override user between intf between' d =
     (case get_task_by_project user project tid d of
        None \<Rightarrow> (CommitNotFound tid, d)
      | Some row \<Rightarrow>
      if tr_status row \<noteq> ''draft'' then (CommitNotDraft (tr_status row), d)
      else (case plan_from_dict (tr_plan row) of
        Inl e \<Rightarrow> (CommitRaised e, d)
      | Inr p \<Rightarrow>
      if is_empty_plan p then (CommitEmptyPlan, d)
      else if all_done p then (CommitNothingToDo, d)
      else if \<not> project_exists then (CommitNoProject, d)
      else (case resolve (commit_brief row p) of
        ResolveFailure reason \<Rightarrow> (CommitUnresolved reason, d)
      | ResolvedLead session brief gap member_gaps \<Rightarrow>
      if gap \<noteq> None then (CommitGap (the gap), d)
      else if member_gaps \<noteq> [] then (CommitMemberGaps member_gaps, d)
      else (let lead = (if blank lead_override then tr_lead_agent row else the lead_override);
                d1 = create_run user (lead_run project tid session lead ''Committed'' (tr_goal row) cwd)
                       (between d);
                at = clock d1
            in (case update_task_status user tid ''active'' (Some ''draft'') intf d1 of
                  (Inl e, d2) \<Rightarrow> (CommitBadTransition e, d2)
                | (Inr False, d2) \<Rightarrow>
                    (CommitLost, snd (update_run_by_session session RRejected None (Some (clock d2)) d2))
                | (Inr True, d2) \<Rightarrow>
                    (let (hit, d3) = update_task tid (commit_assign session at row) (between' d2) in
                     if \<not> hit then (CommitRowGone, d3)
                     else (Committed session at,
                       spawn_actor session brief
                         (append_event user project tid ''committed'' caller (Some session)
                            (PDict [(''lead_session_id'', JStr session),
                                    (''plan_version'', JInt (tr_plan_version row)),
                                    (''plan_summary'', JDict (map (\<lambda>(s, n). (status_name s, JInt (int n)))
                                       (counts p)))]) d3))))))))"

datatype abandon_reply =
    AbandonNotFound string | AbandonNotDraft string | AbandonRaised state_error | AbandonLost | Abandoned

definition abandon_task :: "string \<Rightarrow> string \<Rightarrow> string \<Rightarrow> string \<Rightarrow> string \<Rightarrow> (store \<Rightarrow> store)
    \<Rightarrow> store \<Rightarrow> abandon_reply \<times> store" where
  "abandon_task tid project caller reason user intf d =
     (case get_task_by_project user project tid d of
        None \<Rightarrow> (AbandonNotFound tid, d)
      | Some row \<Rightarrow>
      if tr_status row \<noteq> ''draft'' then (AbandonNotDraft (tr_status row), d)
      else (case update_task_status user tid ''abandoned'' (Some ''draft'') intf d of
          (Inl e, d1) \<Rightarrow> (AbandonRaised e, d1)
        | (Inr False, d1) \<Rightarrow> (AbandonLost, d1)
        | (Inr True, d1) \<Rightarrow> (Abandoned,
            append_event user project tid ''abandoned'' caller None
              (PDict (if reason = [] then [] else [(''reason'', JStr reason)])) d1)))"

end
