(* ===== verification/LifecycleFacts.thy ===== *)
theory LifecycleFacts
  imports Lifecycle
begin

text \<open>
  The properties of task authoring: a draft is committed at most once, and only the winner's
  lead runs.
\<close>

section \<open>Committing\<close>

lemma get_task_update:
  assumes "update_task tid assign d = (hit, d')"
    and "\<And>r. tr_id (assign r) = tr_id r \<and> tr_user (assign r) = tr_user r"
  shows "get_task u tid d' = map_option (\<lambda>r. (assign r)\<lparr>tr_updated_at := clock d\<rparr>) (get_task u tid d)"
proof -
  have "get_task u tid d' = map_option (\<lambda>x. if tr_id x = tid then (assign x)\<lparr>tr_updated_at := clock d\<rparr> else x)
      (get_task u tid d)"
    using assms(1) unfolding update_task_def get_task_def
    by (auto simp: assms(2) intro!: find_update_where_same)
  also have "\<dots> = map_option (\<lambda>r. (assign r)\<lparr>tr_updated_at := clock d\<rparr>) (get_task u tid d)"
    by (cases "get_task u tid d") (auto dest: get_task_SomeD)
  finally show ?thesis .
qed

lemma create_run_frame [simp]:
  "tasks (create_run u r d) = tasks d" "spawned (create_run u r d) = spawned d"
  "task_ids_unique (create_run u r d) = task_ids_unique d"
  by (simp_all add: create_run_def task_ids_unique_def)

lemma spawn_actor_frame [simp]:
  "tasks (spawn_actor s b d) = tasks d" "runs (spawn_actor s b d) = runs d"
  "spawned (spawn_actor s b d) = spawned d @ [(s, b)]"
  by (simp_all add: spawn_actor_def)

lemma get_task_frame [simp]:
  "get_task u t (spawn_actor s b d) = get_task u t d"
  "get_task u t (append_event u' p' t' ty a se pl d) = get_task u t d"
  by (simp_all add: get_task_def)

lemma update_task_ids:
  assumes "update_task tid assign d = (hit, d')" "\<And>r. tr_id (assign r) = tr_id r"
  shows "task_ids_unique d' = task_ids_unique d"
proof -
  have "map tr_id (tasks d') = map tr_id (tasks d)"
    using assms unfolding update_task_def by (auto intro!: map_update_where_frame)
  then show ?thesis by (simp add: task_ids_unique_def)
qed

lemma door_ids:
  assumes "update_task_status u t s (Some c) intf d = (Inr True, d')" "c \<noteq> s"
  shows "task_ids_unique d' = task_ids_unique (intf d)"
proof -
  from assms obtain n where "set_status_where u t c s (intf d) = (n, d')"
    by (auto simp: update_task_status_def Let_def split: if_splits sum.splits option.splits prod.splits)
  then have "map tr_id (tasks d') = map tr_id (tasks (intf d))"
    unfolding set_status_where_def Let_def by (auto intro!: map_update_where_frame)
  then show ?thesis by (simp add: task_ids_unique_def)
qed

lemma commit_task_cases:
  assumes "commit_task ex rs cwd t p ca lo u btw intf btw' d = (r, d')"
  obtains (refused) "d' = d" "(\<forall>s at. r \<noteq> Committed s at) \<and> r \<noteq> CommitLost"
    | (tried) row pl se br d1 where "get_task_by_project u p t d = Some row" "tr_status row = ''draft''"
      "plan_from_dict (tr_plan row) = Inr pl" "pl \<noteq> []" "\<not> all_done pl"
      "rs (commit_brief row pl) = ResolvedLead se br None []"
      "d1 = create_run u (lead_run p t se (if blank lo then tr_lead_agent row else the lo)
              ''Committed'' (tr_goal row) cwd) (btw d)"
      "(r, d') = (case update_task_status u t ''active'' (Some ''draft'') intf d1 of
          (Inl e, d2) \<Rightarrow> (CommitBadTransition e, d2)
        | (Inr False, d2) \<Rightarrow> (CommitLost, snd (update_run_by_session se RRejected None (Some (clock d2)) d2))
        | (Inr True, d2) \<Rightarrow>
            (let (hit, d3) = update_task t (commit_assign se (clock d1) row) (btw' d2) in
             if \<not> hit then (CommitRowGone, d3)
             else (Committed se (clock d1),
               spawn_actor se br (append_event u p t ''committed'' ca (Some se)
                 (PDict [(''lead_session_id'', JStr se), (''plan_version'', JInt (tr_plan_version row)),
                   (''plan_summary'', JDict (map (\<lambda>(s, n). (status_name s, JInt (int n))) (counts pl)))]) d3))))"
proof (cases "get_task_by_project u p t d")
  case None
  with assms have "d' = d \<and> r = CommitNotFound t" by (simp add: commit_task_def)
  with refused show ?thesis by simp
next
  case (Some row)
  show ?thesis
  proof (cases "\<exists>pl se br. tr_status row = ''draft'' \<and> plan_from_dict (tr_plan row) = Inr pl \<and> pl \<noteq> []
      \<and> \<not> all_done pl \<and> ex \<and> rs (commit_brief row pl) = ResolvedLead se br None []")
    case True
    then obtain pl se br where *: "tr_status row = ''draft''" "plan_from_dict (tr_plan row) = Inr pl"
      "pl \<noteq> []" "\<not> all_done pl" "ex" "rs (commit_brief row pl) = ResolvedLead se br None []" by blast
    show ?thesis
      by (rule tried [OF Some *(1-4,6) refl])
        (use assms Some * in \<open>simp add: commit_task_def is_empty_plan_def Let_def\<close>)
  next
    case False
    with assms Some have "d' = d \<and> (\<forall>s at. r \<noteq> Committed s at) \<and> r \<noteq> CommitLost"
      unfolding commit_task_def is_empty_plan_def Let_def
      by (auto split: if_splits sum.splits resolution.splits)
    with refused show ?thesis by blast
  qed
qed

text \<open>Property C19: a draft is committed at most once.  A commit that reports success found the task still a
  draft at the moment of the flip, with work in its plan; the task is then active under the
  new lead, exactly that lead's loop was started, and any later commit of the task is
  refused.  Every other outcome starts no loop, and the lead run of a commit that lost the
  race is rejected.\<close>
theorem commit_at_most_once:
  assumes "commit_task ex rs cwd t p ca lo u btw intf (\<lambda>x. x) d = (r, d')"
    and "\<forall>x. task_ids_unique (intf x) = task_ids_unique x \<and> spawned (intf x) = spawned x"
    and "task_ids_unique (btw d)" "spawned (btw d) = spawned d"
  shows "case r of
      Committed se at \<Rightarrow> (\<exists>row pl br row'. get_task_by_project u p t d = Some row
        \<and> plan_from_dict (tr_plan row) = Inr pl \<and> pl \<noteq> [] \<and> \<not> all_done pl
        \<and> get_task u t d' = Some row' \<and> tr_status row' = ''active'' \<and> tr_committed_at row' = Some at
        \<and> tr_holder row' = se \<and> spawned d' = spawned d @ [(se, br)])
        \<and> (\<exists>d1. current_status u t (intf d1) = Some ''draft'')
        \<and> fst (commit_task ex' rs' cwd' t p' ca' lo' u btwx intfx btwy d')
            \<in> {CommitNotFound t, CommitNotDraft ''active''}
    | CommitLost \<Rightarrow> spawned d' = spawned d \<and> (\<exists>se br row pl. rs (commit_brief row pl) = ResolvedLead se br None []
        \<and> (\<forall>x \<in> set (runs d'). rr_session x = se \<longrightarrow> rr_status x = RRejected))
    | _ \<Rightarrow> spawned d' = spawned d"
proof (rule commit_task_cases [OF assms(1)])
  assume "d' = d" "(\<forall>s at. r \<noteq> Committed s at) \<and> r \<noteq> CommitLost"
  then show ?thesis by (cases r) auto
next
  fix row pl se br d1
  assume row: "get_task_by_project u p t d = Some row" and pl: "plan_from_dict (tr_plan row) = Inr pl"
    "pl \<noteq> []" "\<not> all_done pl" and rs: "rs (commit_brief row pl) = ResolvedLead se br None []"
    and d1: "d1 = create_run u (lead_run p t se (if blank lo then tr_lead_agent row else the lo)
              ''Committed'' (tr_goal row) cwd) (btw d)"
    and run: "(r, d') = (case update_task_status u t ''active'' (Some ''draft'') intf d1 of
          (Inl e, d2) \<Rightarrow> (CommitBadTransition e, d2)
        | (Inr False, d2) \<Rightarrow> (CommitLost, snd (update_run_by_session se RRejected None (Some (clock d2)) d2))
        | (Inr True, d2) \<Rightarrow>
            (let (hit, d3) = update_task t (commit_assign se (clock d1) row) d2 in
             if \<not> hit then (CommitRowGone, d3)
             else (Committed se (clock d1),
               spawn_actor se br (append_event u p t ''committed'' ca (Some se)
                 (PDict [(''lead_session_id'', JStr se), (''plan_version'', JInt (tr_plan_version row)),
                   (''plan_summary'', JDict (map (\<lambda>(s, n). (status_name s, JInt (int n))) (counts pl)))]) d3))))"
  obtain fr d2 where fr: "update_task_status u t ''active'' (Some ''draft'') intf d1 = (fr, d2)" by fastforce
  have sp1: "spawned d1 = spawned d" using assms(4) d1 by simp
  have "task_ids_unique d1" using assms(3) d1 by (simp add: create_run_def task_ids_unique_def)
  with assms(2) have ids: "task_ids_unique (intf d1)" by simp
  show ?thesis
  proof (cases "fr = Inr True")
    case False
    have "d2 = d1 \<or> d2 = intf d1" using door_not_True [OF fr False] .
    with sp1 assms(2) have sp: "spawned d2 = spawned d" by auto
    show ?thesis
    proof (cases fr)
      case (Inl e)
      with run fr sp show ?thesis by simp
    next
      case (Inr b)
      with False run fr have r: "r = CommitLost"
        "d' = snd (update_run_by_session se RRejected None (Some (clock d2)) d2)" by auto
      have "\<forall>x \<in> set (runs d'). rr_session x = se \<longrightarrow> rr_status x = RRejected"
        unfolding r(2) by (rule update_run_completes)
      moreover have "spawned d' = spawned d"
        unfolding r(2) using sp by (simp add: update_run_by_session_def Let_def)
      ultimately show ?thesis using r(1) rs by auto
    qed
  next
    case True
    note door = door_expect [where intf = intf, OF fr [unfolded True] _ ids]
    then have draft: "current_status u t (intf d1) = Some ''draft''"
      and act: "current_status u t d2 = Some ''active''" and kr: "keeps_rest (intf d1) d2" by auto
    from kr assms(2) sp1 have sp2: "spawned d2 = spawned d" by (simp add: keeps_rest_def)
    obtain hit d3 where up: "update_task t (commit_assign se (clock d1) row) d2 = (hit, d3)" by fastforce
    have sp3: "spawned d3 = spawned d" using up sp2 by (auto simp: update_task_def)
    from act obtain r2 where r2: "get_task u t d2 = Some r2" by (auto simp: current_status_def)
    have g3: "get_task u t d3 = Some ((commit_assign se (clock d1) row r2)\<lparr>tr_updated_at := clock d2\<rparr>)"
      using get_task_update [OF up, of u] r2 by (simp add: commit_assign_def)
    have "hit"
      using up r2 unfolding update_task_def by (auto simp: matched_pos_iff dest: get_task_SomeD)
    with run fr True up have r: "r = Committed se (clock d1)" and d': "tasks d' = tasks d3"
      "spawned d' = spawned d3 @ [(se, br)]" by auto
    from g3 d'(1) have g: "get_task u t d' = Some ((commit_assign se (clock d1) row r2)\<lparr>tr_updated_at := clock d2\<rparr>)"
      by (simp add: get_task_def)
    have "task_ids_unique d2" using door_ids [OF fr [unfolded True]] ids by simp
    then have "task_ids_unique d3" using update_task_ids [OF up] by (simp add: commit_assign_def)
    then have "task_ids_unique d'" using d'(1) by (simp add: task_ids_unique_def)
    moreover have "current_status u t d' = Some ''active''"
      using g by (simp add: current_status_def commit_assign_def)
    ultimately have "tr_status row2 = ''active''" if "get_task_by_project u p' t d' = Some row2" for row2
      using get_task_by_project_status [OF that] by simp
    then have "fst (commit_task ex' rs' cwd' t p' ca' lo' u btwx intfx btwy d')
        \<in> {CommitNotFound t, CommitNotDraft ''active''}"
      by (cases "get_task_by_project u p' t d'") (auto simp: commit_task_def)
    with r row pl g d'(2) sp3 draft show ?thesis by (auto simp: commit_assign_def)
  qed
qed

section \<open>A kickoff that cannot build its lead\<close>

text \<open>
  The row is committed before the lead is resolved, and a lead that cannot be built raises
  without the \<open>blocked\<close> landing the other start-up failures get: the task stays active with
  no run, no event and no notification.
\<close>

theorem kickoff_unresolved_leaves_active:
  assumes "\<forall>b. rs b = ResolveFailure why" "tid \<notin> tr_id ` set (tasks d)"
  shows "\<exists>d'. kickoff mem (tid, fp) True cc wt rs p g lead refs cb ti og tt au ar u intf d
      = (KickoffUnresolved why, d') \<and> current_status u tid d' = Some ''active''
      \<and> runs d' = runs d \<and> events d' = events d \<and> notices d' = notices d \<and> spawned d' = spawned d"
proof -
  have "List.find (\<lambda>t. tr_id t = tid \<and> tr_user t = u) (tasks d @ [x]) = Some x"
    if "tr_id x = tid" "tr_user x = u" for x
  proof -
    have "tid \<notin> tr_id ` set xs \<Longrightarrow> List.find (\<lambda>t. tr_id t = tid \<and> tr_user t = u) (xs @ [x]) = Some x" for xs
      using that by (induction xs) auto
    with assms(2) show ?thesis by blast
  qed
  then show ?thesis
    using assms(1) by (simp add: kickoff_def Let_def create_task_def current_status_def get_task_def)
qed

lemma start_lead_stands_down:
  assumes "get_task_by_project u p t (btw d) = Some row" "tr_status row \<noteq> ''active''"
  shows "start_lead mem None se br t p lead g cwd cb u btw intf d = btw d"
  using assms by (simp add: start_lead_def)

end
