(* ===== verification/Lease.thy ===== *)
theory Lease
  imports Prelude
begin

text \<open>
  \<^verbatim>\<open>backend/valuz_agent/infra/execution_lease.py\<close> and the actor view of it in
  \<^verbatim>\<open>backend/valuz_agent/modules/tasks/lease.py\<close>: the row that names who may run a key, its
  conditional acquisition, the fenced renewal and release, and what an observer reads.
  The clock reading, this process's identity and whether it is the proven single writer are
  arguments; so is whether the database answers.
\<close>

section \<open>Rows and leases\<close>

datatype lease_mark = LHeld | LReleased

record lease_row =
  lr_holder :: string
  lr_fence :: int
  lr_mark :: lease_mark
  lr_heartbeat :: int
  lr_expires :: int
  lr_note :: string

type_synonym lease_table = "string \<times> string \<Rightarrow> lease_row option"

definition lease_ttl_ms :: int where
  "lease_ttl_ms = 90000"

definition never_ms :: int where
  "never_ms = 2 ^ 62"

record lease =
  xl_scope :: string
  xl_key :: string
  xl_fence :: int
  xl_holder :: string
  xl_last_renewed :: int
  xl_renewal_required :: bool

record lease_state =
  ls_scope :: string
  ls_key :: string
  ls_holder :: string
  ls_mark :: lease_mark
  ls_fence :: int
  ls_expires :: int

definition is_live :: "int \<Rightarrow> lease_state \<Rightarrow> bool" where
  "is_live now s = (ls_mark s = LHeld \<and> ls_expires s > now)"

definition is_foreign :: "string \<Rightarrow> lease_state \<Rightarrow> bool" where
  "is_foreign me s = (ls_holder s \<noteq> me)"

section \<open>Acquisition\<close>

text \<open>The \<open>WHERE\<close> clause of the conditional update, and the update.\<close>

definition claimable :: "string \<Rightarrow> bool \<Rightarrow> int \<Rightarrow> lease_row \<Rightarrow> bool" where
  "claimable me exclusive now r =
     (exclusive \<or> lr_holder r = me \<or> lr_mark r = LReleased \<or> lr_expires r \<le> now)"

definition claim_expires :: "bool \<Rightarrow> int \<Rightarrow> int" where
  "claim_expires exclusive now = (if exclusive then never_ms else now + lease_ttl_ms)"

definition claim_update :: "string \<Rightarrow> bool \<Rightarrow> int \<Rightarrow> string \<Rightarrow> string \<times> string \<Rightarrow> lease_table
    \<Rightarrow> int option \<times> lease_table" where
  "claim_update me exclusive now note k T = (case T k of
     None \<Rightarrow> (None, T)
   | Some r \<Rightarrow>
       if claimable me exclusive now r
       then (Some (lr_fence r + 1),
             T(k \<mapsto> \<lparr>lr_holder = me, lr_fence = lr_fence r + 1, lr_mark = LHeld,
                     lr_heartbeat = now, lr_expires = claim_expires exclusive now, lr_note = note\<rparr>))
       else (None, T))"

text \<open>The insert: \<open>None\<close> is the \<open>IntegrityError\<close> on the primary key.\<close>

definition claim_insert :: "string \<Rightarrow> bool \<Rightarrow> int \<Rightarrow> string \<Rightarrow> string \<times> string \<Rightarrow> lease_table
    \<Rightarrow> int option \<times> lease_table" where
  "claim_insert me exclusive now note k T = (case T k of
     Some _ \<Rightarrow> (None, T)
   | None \<Rightarrow> (Some 1,
       T(k \<mapsto> \<lparr>lr_holder = me, lr_fence = 1, lr_mark = LHeld, lr_heartbeat = now,
               lr_expires = claim_expires exclusive now, lr_note = note\<rparr>)))"

definition lease_of :: "string \<Rightarrow> bool \<Rightarrow> int \<Rightarrow> string \<times> string \<Rightarrow> int \<Rightarrow> lease" where
  "lease_of me exclusive now k token =
     \<lparr>xl_scope = fst k, xl_key = snd k, xl_fence = token, xl_holder = me,
      xl_last_renewed = now, xl_renewal_required = (\<not> exclusive)\<rparr>"

text \<open>
  \<open>acquire_lease\<close>: the update, and when it matches nothing and there is no row, the insert
  in a second transaction; \<open>intf\<close> is what others commit between the two.
\<close>

definition acquire_lease :: "string \<Rightarrow> bool \<Rightarrow> int \<Rightarrow> string \<Rightarrow> string \<times> string
    \<Rightarrow> (lease_table \<Rightarrow> lease_table) \<Rightarrow> lease_table \<Rightarrow> lease option \<times> lease_table" where
  "acquire_lease me exclusive now note k intf T =
     (case claim_update me exclusive now note k T of
        (Some token, T1) \<Rightarrow> (Some (lease_of me exclusive now k token), T1)
      | (None, T1) \<Rightarrow>
          (case T1 k of
             Some _ \<Rightarrow> (None, T1)
           | None \<Rightarrow> apfst (map_option (lease_of me exclusive now k))
                       (claim_insert me exclusive now note k (intf T1))))"

section \<open>Renewal and release\<close>

definition xl_cell :: "lease \<Rightarrow> string \<times> string" where
  "xl_cell l = (xl_scope l, xl_key l)"

definition fence_matches :: "lease \<Rightarrow> lease_row \<Rightarrow> bool" where
  "fence_matches l r = (lr_holder r = xl_holder l \<and> lr_fence r = xl_fence l)"

definition renew_row :: "lease \<Rightarrow> int \<Rightarrow> lease_table \<Rightarrow> bool \<times> lease_table" where
  "renew_row l now T = (case T (xl_cell l) of
     None \<Rightarrow> (False, T)
   | Some r \<Rightarrow>
       if fence_matches l r \<and> lr_mark r = LHeld
       then (True, T(xl_cell l \<mapsto> r\<lparr>lr_heartbeat := now, lr_expires := now + lease_ttl_ms\<rparr>))
       else (False, T))"

text \<open>
  The database answers, or the statement raises before it took effect, or it raises after
  (the commit went through and the reply was lost).
\<close>

datatype db_outcome = DbAnswers | DbRaisesBefore | DbRaisesAfter

definition renew :: "db_outcome \<Rightarrow> int \<Rightarrow> lease \<Rightarrow> lease_table \<Rightarrow> bool \<times> lease \<times> lease_table" where
  "renew out now l T =
     (if \<not> xl_renewal_required l then (True, l, T)
      else (case out of
        DbAnswers \<Rightarrow>
          (let (hit, T') = renew_row l now T in
           if hit then (True, l\<lparr>xl_last_renewed := now\<rparr>, T') else (False, l, T'))
      | _ \<Rightarrow>
          (let stale_for = now - xl_last_renewed l;
               T' = (if out = DbRaisesAfter then snd (renew_row l now T) else T)
           in (\<not> 2 * stale_for > lease_ttl_ms, l, T'))))"

definition release_lease :: "lease \<Rightarrow> lease_table \<Rightarrow> lease_table" where
  "release_lease l T = (case T (xl_cell l) of
     None \<Rightarrow> T
   | Some r \<Rightarrow>
       if fence_matches l r
       then T(xl_cell l \<mapsto> r\<lparr>lr_mark := LReleased, lr_expires := 0\<rparr>) else T)"

text \<open>
  \<open>hold_lease\<close> around a body.  The body is given the lease it runs under, if any, and
  returns its result with the table as it left it, background renewals included.
\<close>

definition hold_lease :: "string \<Rightarrow> bool \<Rightarrow> int \<Rightarrow> string \<Rightarrow> string \<times> string
    \<Rightarrow> (lease_table \<Rightarrow> lease_table) \<Rightarrow> (lease option \<Rightarrow> lease_table \<Rightarrow> 'a \<times> lease_table)
    \<Rightarrow> lease_table \<Rightarrow> 'a \<times> lease_table" where
  "hold_lease me exclusive now note k intf body T =
     (case acquire_lease me exclusive now note k intf T of
        (None, T1) \<Rightarrow> body None T1
      | (Some l, T1) \<Rightarrow> (case body (Some l) T1 of (x, T2) \<Rightarrow> (x, release_lease l T2)))"

section \<open>Observers\<close>

definition load_lease_states :: "string \<Rightarrow> string list \<Rightarrow> lease_table \<Rightarrow> string \<Rightarrow> lease_state option" where
  "load_lease_states scope keys T key =
     (if key \<in> set keys then
        map_option (\<lambda>r. \<lparr>ls_scope = scope, ls_key = key, ls_holder = lr_holder r,
          ls_mark = lr_mark r, ls_fence = lr_fence r, ls_expires = lr_expires r\<rparr>) (T (scope, key))
      else None)"

definition is_held_elsewhere :: "string \<Rightarrow> int \<Rightarrow> string \<Rightarrow> string \<Rightarrow> lease_table \<Rightarrow> bool" where
  "is_held_elsewhere me now scope key T =
     (case load_lease_states scope [key] T key of
        None \<Rightarrow> False
      | Some s \<Rightarrow> is_live now s \<and> is_foreign me s)"

text \<open>The actor scope.\<close>

definition actor_lease_scope :: string where
  "actor_lease_scope = ''actor''"

definition acquire_actor_lease :: "string \<Rightarrow> bool \<Rightarrow> int \<Rightarrow> string \<Rightarrow> string
    \<Rightarrow> (lease_table \<Rightarrow> lease_table) \<Rightarrow> lease_table \<Rightarrow> lease option \<times> lease_table" where
  "acquire_actor_lease me exclusive now session tid =
     acquire_lease me exclusive now tid (actor_lease_scope, session)"

definition load_actor_lease_states :: "string list \<Rightarrow> lease_table \<Rightarrow> string \<Rightarrow> lease_state option" where
  "load_actor_lease_states = load_lease_states actor_lease_scope"

definition is_running_elsewhere :: "string \<Rightarrow> int \<Rightarrow> string \<Rightarrow> lease_table \<Rightarrow> bool" where
  "is_running_elsewhere me now session T = is_held_elsewhere me now actor_lease_scope session T"

end
