(* ===== verification/LeaseFacts.thy ===== *)
theory LeaseFacts
  imports Lease
begin

text \<open>
  What the lease guarantees.  The interface \<open>fenced_cell\<close> states what a holder relies on;
  inside it, any interleaving of processes that take, extend, drop and abandon the cell is
  shown to leave at most one of them trusting its lease.  The interface is interpreted on
  the lease table.
\<close>

section \<open>The interface\<close>

text \<open>
  \<open>cell\<close> is the holder, fence token and expiry of the cell while it is held; \<open>take\<close> is
  given the holder, whether it is the proven single writer, and its clock reading.
\<close>

locale fenced_cell =
  fixes cell :: "'s \<Rightarrow> (string \<times> int \<times> int) option"
    and fence :: "'s \<Rightarrow> int"
    and take_cell :: "string \<Rightarrow> bool \<Rightarrow> int \<Rightarrow> 's \<Rightarrow> 's option"
    and extend_cell :: "string \<Rightarrow> int \<Rightarrow> int \<Rightarrow> 's \<Rightarrow> bool \<times> 's"
    and drop_cell :: "string \<Rightarrow> int \<Rightarrow> 's \<Rightarrow> 's"
    and ttl :: int
    and never :: int
  assumes cell_fence: "cell s = Some (h, f, e) \<Longrightarrow> f = fence s"
    and take_took: "take_cell h x now s = Some s' \<Longrightarrow>
      cell s' = Some (h, fence s', if x then never else now + ttl) \<and> fence s < fence s'
      \<and> (\<forall>g f e. cell s = Some (g, f, e) \<longrightarrow> x \<or> g = h \<or> e \<le> now)"
    and extend_hit: "extend_cell h f now s = (True, s') \<Longrightarrow>
      (\<exists>e. cell s = Some (h, f, e)) \<and> cell s' = Some (h, f, now + ttl) \<and> fence s' = fence s"
    and extend_miss: "extend_cell h f now s = (False, s') \<Longrightarrow> s' = s"
    and drop_dropped: "cell (drop_cell h f s) = (if \<exists>e. cell s = Some (h, f, e) then None else cell s)
      \<and> fence (drop_cell h f s) = fence s"
begin

text \<open>
  The processes: the time, the cell, and per process the lease it works under: its fence,
  when it was last renewed, and whether it needs renewal.  A process reads the clock before
  its statement runs, so a statement carries a reading that may be older than the time.  A
  statement may take effect although its reply is lost (\<open>extend_lost\<close>); a process may stop
  without releasing (\<open>stand_down\<close>); a release may come from a lease that was superseded.
\<close>

type_synonym ('t) procs = "int \<times> 't \<times> (string \<Rightarrow> (int \<times> int \<times> bool) option)"

inductive lease_step :: "'s procs \<Rightarrow> 's procs \<Rightarrow> bool" where
  tick: "t \<le> t' \<Longrightarrow> t' < never \<Longrightarrow> lease_step (t, s, H) (t', s, H)"
| take: "now \<le> t \<Longrightarrow> (x \<Longrightarrow> \<forall>g. g \<noteq> h \<longrightarrow> H g = None) \<Longrightarrow> take_cell h x now s = Some s' \<Longrightarrow>
    lease_step (t, s, H) (t, s', H(h \<mapsto> (fence s', now, \<not> x)))"
| extend: "H h = Some (f, l, True) \<Longrightarrow> now \<le> t \<Longrightarrow> extend_cell h f now s = (True, s') \<Longrightarrow>
    lease_step (t, s, H) (t, s', H(h \<mapsto> (f, now, True)))"
| extend_lost: "H h = Some (f, l, True) \<Longrightarrow> l \<le> now \<Longrightarrow> now \<le> t \<Longrightarrow> extend_cell h f now s = (b, s') \<Longrightarrow>
    lease_step (t, s, H) (t, s', H)"
| zombie: "f < fence s \<Longrightarrow> extend_cell h f now s = (b, s') \<Longrightarrow> lease_step (t, s, H) (t, s', H)"
| stand_down: "lease_step (t, s, H) (t, s, H(h := None))"
| drop: "H' = (if \<exists>l r. H h = Some (f, l, r) then H(h := None) else H) \<Longrightarrow>
    lease_step (t, s, H) (t, drop_cell h f s, H')"

inductive lease_reach :: "'s procs \<Rightarrow> bool" where
  lease_init: "t < never \<Longrightarrow> lease_reach (t, s, Map.empty)"
| lease_next: "lease_reach c \<Longrightarrow> lease_step c c' \<Longrightarrow> lease_reach c'"

definition backed :: "'s procs \<Rightarrow> bool" where
  "backed c = (case c of (t, s, H) \<Rightarrow> t < never \<and> (\<forall>h f l r. H h = Some (f, l, r) \<longrightarrow>
     (\<exists>e. cell s = Some (h, f, e) \<and> (r \<longrightarrow> l + ttl \<le> e) \<and> (\<not> r \<longrightarrow> e = never))
     \<or> (r \<and> l + ttl \<le> t)))"

lemma backedD:
  assumes "backed (t, s, H)" "H h = Some (f, l, r)"
  shows "(\<exists>e. cell s = Some (h, f, e) \<and> (r \<longrightarrow> l + ttl \<le> e) \<and> (\<not> r \<longrightarrow> e = never))
     \<or> (r \<and> l + ttl \<le> t)"
  using assms unfolding backed_def by blast

lemma zombie_same: "f < fence s \<Longrightarrow> extend_cell h f now s = (b, s') \<Longrightarrow> s' = s"
  using extend_hit [of h f now s s'] extend_miss [of h f now s s'] cell_fence by (cases b) force+

lemma lease_step_backed: "lease_step c c' \<Longrightarrow> backed c \<Longrightarrow> backed c'"
proof (induction rule: lease_step.induct)
  case (tick t t' s H)
  then show ?case by (fastforce simp: backed_def)
next
  case (take now t x h H s s')
  note took = take_took [OF take(3)]
  have "r \<and> l + ttl \<le> t" if g: "g \<noteq> h" "H g = Some (f, l, r)" for g f l r
  proof -
    show ?thesis
    proof (rule disjE [OF backedD [OF take(4) g(2)]])
      assume "\<exists>e. cell s = Some (g, f, e) \<and> (r \<longrightarrow> l + ttl \<le> e) \<and> (\<not> r \<longrightarrow> e = never)"
      then obtain e where 1: "cell s = Some (g, f, e)" "r \<longrightarrow> l + ttl \<le> e" "\<not> r \<longrightarrow> e = never"
        by blast
      with took g take(2) have "e \<le> now" by auto
      moreover have "t < never" using take(4) by (simp add: backed_def)
      ultimately show ?thesis using 1 take(1) by (cases r) auto
    qed
  qed
  with took take(4) show ?case by (auto simp: backed_def)
next
  case (extend H h f l now t s s')
  with extend_hit [OF extend(3)] show ?case by (fastforce simp: backed_def)
next
  case (extend_lost H h f l now t s b s')
  show ?case
  proof (cases b)
    case True
    with extend_lost have "extend_cell h f now s = (True, s')" by simp
    note hit = extend_hit [OF this]
    have *: "(\<exists>e. cell s' = Some (g, f', e) \<and> (r \<longrightarrow> l' + ttl \<le> e) \<and> (\<not> r \<longrightarrow> e = never)) \<or> (r \<and> l' + ttl \<le> t)"
      if "H g = Some (f', l', r)" for g f' l' r
    proof (cases "g = h")
      case True
      with that extend_lost hit show ?thesis by auto
    next
      case False
      with that extend_lost hit show ?thesis by (fastforce simp: backed_def)
    qed
    then show ?thesis using extend_lost(5) by (simp add: backed_def)
  next
    case False
    with extend_lost(4) have "s' = s" using extend_miss by simp
    with extend_lost(5) show ?thesis by simp
  qed
next
  case (zombie f s h now b s' t H)
  then show ?case using zombie_same by blast
next
  case (stand_down t s H h)
  then show ?case by (auto simp: backed_def)
next
  case (drop H' H h f t s)
  with drop_dropped [of h f s] show ?case
    by (fastforce simp: backed_def split: if_splits)
qed

lemma lease_reach_backed: "lease_reach c \<Longrightarrow> backed c"
proof (induction rule: lease_reach.induct)
  case (lease_init t s)
  then show ?case by (simp add: backed_def)
next
  case (lease_next c c')
  then show ?case by (blast intro: lease_step_backed)
qed

text \<open>A process trusts its lease until it expires by the last renewal it knows of.\<close>

definition trusts :: "'s procs \<Rightarrow> string \<Rightarrow> bool" where
  "trusts c h = (case c of (t, s, H) \<Rightarrow>
     (\<exists>f l r. H h = Some (f, l, r) \<and> (r \<longrightarrow> t < l + ttl)))"

lemma trusts_cell:
  assumes "lease_reach (t, s, H)" "trusts (t, s, H) h"
  shows "\<exists>f e. cell s = Some (h, f, e) \<and> t < e \<and> f = fence s"
proof -
  from assms(2) obtain f l r where h: "H h = Some (f, l, r)" "r \<longrightarrow> t < l + ttl"
    by (auto simp: trusts_def)
  with lease_reach_backed [OF assms(1)] obtain e where
    "cell s = Some (h, f, e)" "r \<longrightarrow> l + ttl \<le> e" "\<not> r \<longrightarrow> e = never" "t < never"
    by (fastforce simp: backed_def)
  with h cell_fence show ?thesis by (cases r) fastforce+
qed

lemma mutual_exclusion:
  assumes "lease_reach (t, s, H)" "trusts (t, s, H) h" "trusts (t, s, H) g"
  shows "h = g"
  using trusts_cell [OF assms(1,2)] trusts_cell [OF assms(1,3)] by auto

lemma extend_fence: "extend_cell h f now s = (b, s') \<Longrightarrow> fence s' = fence s"
  using extend_hit [of h f now s s'] extend_miss [of h f now s s'] by (cases b) auto

lemma fence_monotone: "lease_step c c' \<Longrightarrow> fence (fst (snd c)) \<le> fence (fst (snd c'))"
proof (induction rule: lease_step.induct)
  case (take now t x h H s s')
  with take_took [OF take(3)] show ?case by simp
qed (simp_all add: extend_fence drop_dropped)

end

section \<open>The lease table as a fenced cell\<close>

definition cell_of :: "string \<times> string \<Rightarrow> lease_table \<Rightarrow> (string \<times> int \<times> int) option" where
  "cell_of k T = (case T k of None \<Rightarrow> None
     | Some r \<Rightarrow> if lr_mark r = LHeld then Some (lr_holder r, lr_fence r, lr_expires r) else None)"

definition fence_of :: "string \<times> string \<Rightarrow> lease_table \<Rightarrow> int" where
  "fence_of k T = (case T k of None \<Rightarrow> 0 | Some r \<Rightarrow> lr_fence r)"

text \<open>One acquisition with nothing in between: the update, or the insert where there is no row.\<close>

definition claim :: "string \<times> string \<Rightarrow> string \<Rightarrow> string \<Rightarrow> bool \<Rightarrow> int \<Rightarrow> lease_table \<Rightarrow> lease_table option" where
  "claim k note me x now T = (case claim_update me x now note k T of
     (Some _, T') \<Rightarrow> Some T'
   | (None, _) \<Rightarrow> (case claim_insert me x now note k T of (Some _, T') \<Rightarrow> Some T' | (None, _) \<Rightarrow> None))"

definition extend_row :: "string \<times> string \<Rightarrow> string \<Rightarrow> int \<Rightarrow> int \<Rightarrow> lease_table \<Rightarrow> bool \<times> lease_table" where
  "extend_row k h f now T = renew_row (lease_of h False now k f) now T"

definition drop_row :: "string \<times> string \<Rightarrow> string \<Rightarrow> int \<Rightarrow> lease_table \<Rightarrow> lease_table" where
  "drop_row k h f T = release_lease (lease_of h False 0 k f) T"

lemma xl_cell_lease_of [simp]: "xl_cell (lease_of me x now k token) = k"
  by (simp add: xl_cell_def lease_of_def)

lemma lease_of_sel [simp]:
  "xl_fence (lease_of me x now k token) = token" "xl_holder (lease_of me x now k token) = me"
  "xl_last_renewed (lease_of me x now k token) = now"
  "xl_renewal_required (lease_of me x now k token) = (\<not> x)"
  by (simp_all add: lease_of_def)

lemma claim_Some:
  assumes "claim k note me x now T = Some T'"
  shows "cell_of k T' = Some (me, fence_of k T', claim_expires x now) \<and> fence_of k T' = fence_of k T + 1
    \<and> (\<forall>g f e. cell_of k T = Some (g, f, e) \<longrightarrow> x \<or> g = me \<or> e \<le> now)
    \<and> (\<forall>j. j \<noteq> k \<longrightarrow> T' j = T j)"
  using assms
  by (cases "T k")
    (auto simp: claim_def claim_update_def claim_insert_def cell_of_def fence_of_def claimable_def
      split: if_splits)

lemma renew_row_cell:
  "renew_row l now T = (b, T') \<Longrightarrow>
     (b \<longrightarrow> (\<exists>e. cell_of (xl_cell l) T = Some (xl_holder l, xl_fence l, e))
        \<and> cell_of (xl_cell l) T' = Some (xl_holder l, xl_fence l, now + lease_ttl_ms)
        \<and> fence_of (xl_cell l) T' = fence_of (xl_cell l) T)
     \<and> (\<not> b \<longrightarrow> T' = T)"
  by (auto simp: renew_row_def cell_of_def fence_of_def fence_matches_def split: option.splits if_splits)

lemma release_cell:
  "cell_of (xl_cell l) (release_lease l T) =
     (if \<exists>e. cell_of (xl_cell l) T = Some (xl_holder l, xl_fence l, e) then None else cell_of (xl_cell l) T)
   \<and> fence_of (xl_cell l) (release_lease l T) = fence_of (xl_cell l) T"
  by (auto simp: release_lease_def cell_of_def fence_of_def fence_matches_def split: option.splits if_splits)

interpretation lease_cells: fenced_cell "cell_of k" "fence_of k" "claim k nt" "extend_row k"
    "drop_row k" lease_ttl_ms never_ms
  for k nt
proof (unfold_locales)
  show "cell_of k s = Some (h, f, e) \<Longrightarrow> f = fence_of k s" for s h f e
    by (auto simp: cell_of_def fence_of_def split: option.splits if_splits)
  show "claim k nt h x now s = Some s' \<Longrightarrow>
      cell_of k s' = Some (h, fence_of k s', if x then never_ms else now + lease_ttl_ms)
      \<and> fence_of k s < fence_of k s' \<and> (\<forall>g f e. cell_of k s = Some (g, f, e) \<longrightarrow> x \<or> g = h \<or> e \<le> now)"
    for h x now s s'
    using claim_Some [of k nt h x now s s'] by (simp add: claim_expires_def)
  show "extend_row k h f now s = (True, s') \<Longrightarrow>
      (\<exists>e. cell_of k s = Some (h, f, e)) \<and> cell_of k s' = Some (h, f, now + lease_ttl_ms)
      \<and> fence_of k s' = fence_of k s" for h f now s s'
    using renew_row_cell [of "lease_of h False now k f" now s True s'] by (simp add: extend_row_def)
  show "extend_row k h f now s = (False, s') \<Longrightarrow> s' = s" for h f now s s'
    using renew_row_cell [of "lease_of h False now k f" now s False s'] by (simp add: extend_row_def)
  show "cell_of k (drop_row k h f s) = (if \<exists>e. cell_of k s = Some (h, f, e) then None else cell_of k s)
      \<and> fence_of k (drop_row k h f s) = fence_of k s" for h f s
    using release_cell [of "lease_of h False 0 k f" s] by (simp add: drop_row_def)
qed

text \<open>Property C10: one holder at a time: in any interleaving of processes that acquire, renew (with replies
  lost), stand down, release late or crash, at most one process trusts its lease on a key,
  and the row names it, held and not expired.  (A process only claims exclusivity when no
  other process holds anything.)\<close>
theorem lease_mutual_exclusion:
  assumes "lease_cells.lease_reach k note (t, T, H)"
    and "lease_cells.trusts (t, T, H) h" "lease_cells.trusts (t, T, H) g"
  shows "h = g \<and> (\<exists>r. T k = Some r \<and> lr_holder r = h \<and> lr_mark r = LHeld \<and> t < lr_expires r)"
  using lease_cells.mutual_exclusion [OF assms] lease_cells.trusts_cell [OF assms(1,2)]
  by (auto simp: cell_of_def split: option.splits if_splits)

section \<open>The operations\<close>

text \<open>\<open>acquire_lease\<close> refuses exactly a live lease held elsewhere, or a row another process
  inserted while it was about to insert its own; a success is a claim of the cell as it was
  then, and its fence token is one more than any the cell has seen.\<close>
theorem acquire_lease_decides:
  assumes "acquire_lease me x now note k intf T = (res, T')"
  shows "case res of
      Some l \<Rightarrow> xl_cell l = k \<and> xl_holder l = me \<and> xl_last_renewed l = now
        \<and> fence_of k T' = xl_fence l \<and> cell_of k T' = Some (me, xl_fence l, claim_expires x now)
        \<and> (claim k note me x now T = Some T' \<and> xl_fence l = fence_of k T + 1
           \<or> T k = None \<and> intf T k = None \<and> claim k note me x now (intf T) = Some T' \<and> xl_fence l = 1)
    | None \<Rightarrow> T' = T \<and> (\<exists>r. T k = Some r \<and> \<not> x \<and> lr_mark r = LHeld \<and> lr_holder r \<noteq> me \<and> now < lr_expires r)
        \<or> T k = None \<and> T' = intf T \<and> intf T k \<noteq> None"
proof (cases "T k")
  case None
  with assms show ?thesis
    by (cases "intf T k")
      (auto simp: acquire_lease_def claim_update_def claim_insert_def claim_def cell_of_def fence_of_def)
next
  case (Some r)
  have "lr_mark r \<noteq> LReleased \<longleftrightarrow> lr_mark r = LHeld" by (cases "lr_mark r") auto
  with Some assms show ?thesis
    by (cases "claimable me x now r")
      (auto simp: acquire_lease_def claim_update_def claim_def cell_of_def fence_of_def claimable_def)
qed

text \<open>Property C12: renewal and fencing.  A lease whose cell has moved on is never renewed and its release
  touches nothing.  A lease that needs no renewal (the single writer's) is kept as it is.
  Otherwise: when the database answers, the renewal succeeds exactly when the row is still
  this holder's under this fence, and then extends it by the TTL and remembers the time;
  when the statement raises, the lease is unchanged and the renewal counts as successful
  exactly while the last one that was answered is at most half the TTL old.  So a success
  never leaves the holder on a lease that was last proved more than half the TTL ago.\<close>
theorem renew_fences:
  assumes "renew out now l T = (b, l', T')"
  shows "(xl_fence l < fence_of (xl_cell l) T \<longrightarrow> T' = T \<and> release_lease l T = T)
    \<and> (if \<not> xl_renewal_required l then b \<and> l' = l \<and> T' = T
       else if out = DbAnswers
       then b = (\<exists>e. cell_of (xl_cell l) T = Some (xl_holder l, xl_fence l, e))
         \<and> (b \<longrightarrow> l' = l\<lparr>xl_last_renewed := now\<rparr>
              \<and> cell_of (xl_cell l) T' = Some (xl_holder l, xl_fence l, now + lease_ttl_ms))
         \<and> (\<not> b \<longrightarrow> l' = l \<and> T' = T)
       else l' = l \<and> b = (2 * (now - xl_last_renewed l) \<le> lease_ttl_ms))
    \<and> (xl_renewal_required l \<and> b \<longrightarrow> 2 * (now - xl_last_renewed l') \<le> lease_ttl_ms)"
proof -
  have stale: "renew_row l now T = (False, T) \<and> release_lease l T = T"
    if "xl_fence l < fence_of (xl_cell l) T"
    using that by (auto simp: renew_row_def release_lease_def fence_of_def fence_matches_def
        split: option.splits)
  have hit: "fst (renew_row l now T) = (\<exists>e. cell_of (xl_cell l) T = Some (xl_holder l, xl_fence l, e))"
    by (auto simp: renew_row_def cell_of_def fence_matches_def split: option.splits)
  have ttl: "0 \<le> lease_ttl_ms" by (simp add: lease_ttl_ms_def)
  obtain b0 T0 where r: "renew_row l now T = (b0, T0)" by fastforce
  note cell = renew_row_cell [OF r]
  show ?thesis
  proof (cases "out = DbAnswers \<and> xl_renewal_required l")
    case True
    with assms r ttl hit stale cell show ?thesis by (cases b0) (auto simp: renew_def)
  next
    case False
    with assms r stale show ?thesis
      by (cases out) (auto simp: renew_def Let_def split: if_splits)
  qed
qed

lemma trusted_lease_refuses:
  assumes "lease_cells.lease_reach (sc, ky) note (t, T, H)" "lease_cells.trusts (t, T, H) h"
    and "g \<noteq> h" "now \<le> t"
  shows "is_held_elsewhere g now sc ky T
    \<and> acquire_lease g False now note' (sc, ky) intf T = (None, T)"
proof -
  from lease_cells.trusts_cell [OF assms(1,2)] obtain f e where
    "cell_of (sc, ky) T = Some (h, f, e)" "t < e" by blast
  with assms(3,4) show ?thesis
    by (auto simp: cell_of_def is_held_elsewhere_def load_lease_states_def is_live_def is_foreign_def
        acquire_lease_def claim_update_def claimable_def split: option.splits if_splits)
qed

text \<open>A holder that trusts its lease is visible as such: every other process reads the key as
  held elsewhere, and none that is not the proven single writer can acquire it.\<close>
theorem trusted_lease_visible:
  assumes "lease_cells.lease_reach (sc, ky) note (t, T, H)" "lease_cells.trusts (t, T, H) h"
    and "g \<noteq> h" "now \<le> t"
  shows "is_held_elsewhere g now sc ky T
    \<and> acquire_lease g False now note' (sc, ky) intf T = (None, T)"
  using assms by (rule trusted_lease_refuses)

end
