(* ===== verification/Recovery.thy ===== *)
theory Recovery
  imports LifecycleFacts LeaseFacts
begin

text \<open>
  \<^verbatim>\<open>backend/valuz_agent/modules/tasks/recovery.py\<close>: reconciling a task whose actors died,
  user stop and resume, stopping one member, and the live watchdog.  The kernel's session
  states, the manifests of finished members, the message catalogue and the spilling of long
  briefs are arguments; the lease table is a second component of the state.
\<close>

section \<open>Reconciling the members\<close>

text \<open>\<open>ks\<close> gives a session's kernel status (\<open>None\<close> when there is no session) and stop reason.\<close>

type_synonym kernel_states = "string \<Rightarrow> string option \<times> stop_reason"

definition recon_runs :: "string \<Rightarrow> string \<Rightarrow> store \<Rightarrow> run_row list" where
  "recon_runs user tid d =
     filter (\<lambda>r. rr_kind r = SubtaskRun \<and> rr_status r \<in> {RActive, RPaused}) (list_runs user tid d)"

definition recon_node :: "plan \<Rightarrow> run_row \<Rightarrow> subtask option" where
  "recon_node p r = (if blank (rr_subtask_key r) then None else get_node p (the (rr_subtask_key r)))"

definition recon_of :: "kernel_states \<Rightarrow> plan \<Rightarrow> run_row \<Rightarrow> member_reconcile" where
  "recon_of ks p r = reconcile (fst (ks (rr_session r))) (snd (ks (rr_session r)))
     (case recon_node p r of None \<Rightarrow> 0 | Some n \<Rightarrow> st_attempts n) resume_retry_cap"

definition recon_run :: "kernel_states \<Rightarrow> (string \<Rightarrow> (string \<times> json) list) \<Rightarrow> plan \<Rightarrow> run_row
    \<Rightarrow> store \<Rightarrow> store" where
  "recon_run ks mf p r d = (let rec = recon_of ks p r in
     case mr_run_status rec of
       None \<Rightarrow> d
     | Some st \<Rightarrow> snd (update_run_by_session (rr_session r) st
         (if mr_disposition rec = DCompleted then Some (JDict (mf (rr_session r))) else None) None d))"

type_synonym recon_write = "string \<times> (string \<times> json) list \<times> bool"

definition recon_change :: "kernel_states \<Rightarrow> plan \<Rightarrow> run_row \<Rightarrow> recon_write option" where
  "recon_change ks p r = (let rec = recon_of ks p r in
     case (recon_node p r, mr_node_status rec) of
       (Some n, Some s) \<Rightarrow> Some (st_key n,
          (''status'', JStr (status_name s))
            # (if mr_reason rec \<noteq> [] \<and> s = Rework then [(''review_feedback'', JStr (mr_reason rec))] else []),
          mr_resume rec)
     | _ \<Rightarrow> None)"

text \<open>One change against the freshest plan; an illegal write is logged and skipped.\<close>

definition apply_change :: "recon_write \<Rightarrow> plan \<times> bool \<Rightarrow> plan_exn + plan \<times> bool" where
  "apply_change c pc = (case (c, pc) of ((key, patch, bump), (p, changed)) \<Rightarrow>
     (case get_node p key of
        None \<Rightarrow> Inr (p, changed)
      | Some n \<Rightarrow>
          (case update_node p key (patch @ (if bump then [(''attempts'', JInt (st_attempts n + 1))] else [])) of
             Inr q \<Rightarrow> Inr (q, True)
           | Inl (PlanError _) \<Rightarrow> Inr (p, changed)
           | Inl e \<Rightarrow> Inl e)))"

definition apply_changes :: "recon_write list \<Rightarrow> mutation" where
  "apply_changes cs p = rbind (rfold apply_change cs (p, False))
     (\<lambda>(q, changed). Inr (if changed then Some q else None))"

text \<open>The database half of \<open>_recover_one_task\<close>: the runs, then the plan.\<close>

definition reconcile_task :: "kernel_states \<Rightarrow> (string \<Rightarrow> (string \<times> json) list) \<Rightarrow> (store \<Rightarrow> store) list
    \<Rightarrow> task_row \<Rightarrow> plan \<Rightarrow> string \<Rightarrow> string \<Rightarrow> store \<Rightarrow> (plan_exn + unit) \<times> store" where
  "reconcile_task ks mf env row p lead user d =
     (let rs = recon_runs user (tr_id row) d;
          d1 = fold (recon_run ks mf p) rs d;
          changes = List.map_filter (recon_change ks p) rs
      in if changes = [] then (Inr (), d1)
         else (case persist_plan_best_effort env (apply_changes changes) ''system'' (Some lead) user row d1 of
                 (PlanRaised e, _, d2) \<Rightarrow> (Inl e, d2)
               | (_, _, d2) \<Rightarrow> (Inr (), d2)))"

section \<open>Respawning\<close>

fun disposition_name :: "disposition \<Rightarrow> string" where
  "disposition_name DInFlight = ''in_flight''"
| "disposition_name DResume = ''resume''"
| "disposition_name DCompleted = ''completed''"
| "disposition_name DFailed = ''failed''"

definition summary_line :: "kernel_states \<Rightarrow> plan \<Rightarrow> run_row \<Rightarrow> string" where
  "summary_line ks p r = ''- '' @ (case rr_subtask_key r of None \<Rightarrow> ''None'' | Some k \<Rightarrow> k)
     @ ''('' @ rr_agent r @ ''): '' @ disposition_name (mr_disposition (recon_of ks p r))"

text \<open>
  \<open>recovery_text\<close> renders the localized recovery brief around its summary; \<open>spill\<close> replaces
  an over-long member brief by a pointer to the document it was spilled to.
\<close>

definition recovery_brief :: "(string \<Rightarrow> string) \<Rightarrow> (string \<Rightarrow> string) \<Rightarrow> string list \<Rightarrow> string option
    \<Rightarrow> string" where
  "recovery_brief msg recovery_text lines instruction =
     ''<system-recovery>'' @ [newline]
     @ recovery_text (if lines = [] then msg ''task.brief.recoveryNoMembers''
                      else concat (map (\<lambda>(i, x). (if i = 0 then [] else [newline]) @ x) (enumerate 0 lines)))
     @ [newline] @ ''</system-recovery>''
     @ (if strip (text_or instruction) = [] then []
        else [newline] @ ''<user-instruction source='' @ [CHR 0x22] @ ''resume'' @ [CHR 0x22] @ ''>''
          @ [newline] @ strip (text_or instruction) @ [newline] @ ''</user-instruction>'' @ [newline]
          @ msg ''task.brief.recoveryUserInstruction'')"

definition reseed_member :: "string \<Rightarrow> string \<Rightarrow> string \<Rightarrow> string \<Rightarrow> (string \<Rightarrow> (string \<times> json) list)
    \<Rightarrow> run_row \<Rightarrow> store \<Rightarrow> store" where
  "reseed_member lead tid project user mf r d =
     (case enqueue lead tid project user ''member_done'' [] (rr_session r) ''recovery-reseed''
             (mf (rr_session r)) d of
        None \<Rightarrow> d | Some d' \<Rightarrow> d')"

definition respawn_member :: "(string \<Rightarrow> string) \<Rightarrow> (string \<Rightarrow> string \<Rightarrow> string) \<Rightarrow> run_row \<Rightarrow> store \<Rightarrow> store" where
  "respawn_member msg spill r d =
     (let brief = text_or (rr_goal r);
          prompt = (if brief = [] then msg ''task.brief.memberResumeDefault''
                    else if blank (rr_run_dir r) then brief
                    else spill (rr_agent r @ ''-'' @ text_or (rr_subtask_key r)) brief)
      in spawn_actor (rr_session r) prompt d)"

definition respawn :: "(string \<Rightarrow> string) \<Rightarrow> (string \<Rightarrow> string) \<Rightarrow> (string \<Rightarrow> string \<Rightarrow> string)
    \<Rightarrow> kernel_states \<Rightarrow> (string \<Rightarrow> (string \<times> json) list) \<Rightarrow> run_row list \<Rightarrow> plan \<Rightarrow> string
    \<Rightarrow> string \<Rightarrow> string \<Rightarrow> string \<Rightarrow> string option \<Rightarrow> store \<Rightarrow> store" where
  "respawn msg recovery_text spill ks mf rs p lead tid project user instruction d =
     (let d1 = fold (reseed_member lead tid project user mf)
                 (filter (\<lambda>r. mr_deliver (recon_of ks p r)) rs) d;
          d2 = fold (respawn_member msg spill) (filter (\<lambda>r. mr_resume (recon_of ks p r)) rs) d1
      in spawn_actor lead (recovery_brief msg recovery_text (map (summary_line ks p) rs) instruction) d2)"

section \<open>One task\<close>

text \<open>
  What recovery is run with: the process and its clock for the lease, the kernel's states,
  manifests, catalogue, recovery text, brief spilling, and the rounds of \<open>persist_plan\<close>.
\<close>

record recovery_env =
  rc_me :: string
  rc_exclusive :: bool
  rc_ks :: kernel_states
  rc_manifest :: "string \<Rightarrow> (string \<times> json) list"
  rc_msg :: "string \<Rightarrow> string"
  rc_text :: "string \<Rightarrow> string"
  rc_spill :: "string \<Rightarrow> string \<Rightarrow> string"
  rc_writers :: "(store \<Rightarrow> store) list"

definition recover_one_task :: "recovery_env \<Rightarrow> string \<Rightarrow> string \<Rightarrow> string \<Rightarrow> string option
    \<Rightarrow> store \<times> lease_table \<Rightarrow> (plan_exn + bool) \<times> store \<times> lease_table" where
  "recover_one_task rc tid project user instruction s =
     (case s of (d, L) \<Rightarrow>
     (case get_task_by_project user project tid d of
        None \<Rightarrow> (Inr False, d, L)
      | Some row \<Rightarrow>
      if tr_status row \<notin> {''active'', ''paused''} then (Inr False, d, L)
      else (case pick_lead_run (list_runs user tid d) of
        None \<Rightarrow> (Inr False, d, L)
      | Some lead \<Rightarrow>
      (case plan_from_dict (tr_plan row) of
        Inl e \<Rightarrow> (Inl e, d, L)
      | Inr p \<Rightarrow>
      (case reconcile_task (rc_ks rc) (rc_manifest rc) (rc_writers rc) row p (rr_session lead) user d of
        (Inl e, d1) \<Rightarrow> (Inl e, d1, L)
      | (Inr _, d1) \<Rightarrow>
         (case acquire_actor_lease (rc_me rc) (rc_exclusive rc) (clock d1) (rr_session lead) tid (\<lambda>T. T) L of
            (None, L1) \<Rightarrow> (Inr False, d1, L1)
          | (Some l, L1) \<Rightarrow>
              (Inr True, respawn (rc_msg rc) (rc_text rc) (rc_spill rc) (rc_ks rc) (rc_manifest rc)
                 (recon_runs user tid d) p (rr_session lead) tid project user instruction d1, L1)))))))"

text \<open>Boot recovery: every active task in turn; an exception skips to the next.\<close>

definition recover_active_tasks :: "recovery_env \<Rightarrow> store \<times> lease_table \<Rightarrow> nat \<times> store \<times> lease_table" where
  "recover_active_tasks rc s =
     fold (\<lambda>t (n, s). case recover_one_task rc (tr_id t) (tr_project t) (tr_user t) None s of
              (r, s') \<Rightarrow> (if r = Inr True then Suc n else n, s'))
       (list_active (fst s)) (0, s)"

section \<open>stop\_task\<close>

definition interrupt_session :: "string \<Rightarrow> store \<Rightarrow> store" where
  "interrupt_session session d = d\<lparr>interrupts := interrupts d @ [session]\<rparr>"

definition park_running_node :: "subtask \<Rightarrow> plan \<times> bool \<Rightarrow> plan_exn + plan \<times> bool" where
  "park_running_node n pc = (case pc of (p, parked) \<Rightarrow>
     if st_status n = InProgress
     then rbind (update_node p (st_key n) [(''status'', JStr ''paused'')]) (\<lambda>q. Inr (q, True))
     else Inr (p, parked))"

definition park_running :: mutation where
  "park_running p = rbind (rfold park_running_node p (p, False))
     (\<lambda>(q, parked). Inr (if parked then Some q else None))"

datatype stop_reply = StopRaised plan_exn | StopFailed final_exn | StopRefused | StopDone

definition stop_task :: "memory_port \<Rightarrow> string \<Rightarrow> string \<Rightarrow> string \<Rightarrow> string \<Rightarrow> (store \<Rightarrow> store) list
    \<Rightarrow> (store \<Rightarrow> store) \<Rightarrow> store \<Rightarrow> stop_reply \<times> store" where
  "stop_task mem tid project target user env intf d =
     (case get_task_by_project user project tid d of
        None \<Rightarrow> (StopRefused, d)
      | Some row \<Rightarrow>
      if tr_status row \<notin> (if target = ''paused'' then {''active''} else {''active'', ''paused''})
      then (StopRefused, d)
      else (let rs = list_runs user tid d;
                lead = pick_lead_run rs;
                members = map rr_session (filter (\<lambda>r. rr_kind r = SubtaskRun \<and> rr_status r = RActive) rs);
                d1 = fold (\<lambda>s d. snd (update_run_by_session s RPaused None None d)) members d;
                d2 = (case lead of None \<Rightarrow> d1
                      | Some l \<Rightarrow> if rr_session l \<noteq> [] \<and> rr_status l = RActive
                          then snd (update_run_by_session (rr_session l) RPaused None None d1) else d1)
            in (case persist_plan_best_effort env park_running ''user'' (map_option rr_session lead) user row d2 of
                  (PlanRaised e, _, d3) \<Rightarrow> (StopRaised e, d3)
                | (_, _, d3) \<Rightarrow>
                   (let done = (\<lambda>d. (StopDone, (case lead of None \<Rightarrow> (\<lambda>x. x) | Some l \<Rightarrow> interrupt_session (rr_session l))
                            (fold interrupt_session members d)));
                        pl = [(''members_paused'', JInt (int (length members)))]
                    in if target = ''stopped''
                       then (case finalize_task mem user project tid ''stopped'' ''stopped'' ''user'' None pl intf d3 of
                               (FinRaised e, d4) \<Rightarrow> (StopFailed e, d4)
                             | (_, d4) \<Rightarrow> done d4)
                       else (case update_task_status user tid ''paused'' None intf d3 of
                               (Inl e, d4) \<Rightarrow> (StopFailed (BadTransition e), d4)
                             | (Inr False, d4) \<Rightarrow> (StopRefused, d4)
                             | (Inr True, d4) \<Rightarrow>
                                 done (append_event user project tid ''paused'' ''user'' None (PDict pl) d4))))))"

section \<open>resume\_task\<close>

datatype resume_reply =
    ResumeNotFound string
  | ResumeRejected string
  | ResumeRaised state_error
  | ResumeLost string
  | ResumePlanRaised plan_exn
  | Resumed string bool

text \<open>The prior status named in the reply is the one the flip started from.\<close>

definition resumable :: "string \<Rightarrow> bool" where
  "resumable s = (s \<in> {''paused'', ''blocked'', ''stopped'', ''completed'', ''failed''})"

definition revive_lead_run :: "string \<Rightarrow> string \<Rightarrow> string \<Rightarrow> store \<Rightarrow> store" where
  "revive_lead_run prior user tid d =
     (if prior \<in> {''stopped'', ''completed'', ''failed''}
      then (case pick_lead_run (list_runs user tid d) of
              None \<Rightarrow> d
            | Some l \<Rightarrow> if rr_status l \<noteq> RActive
                then snd (update_run_by_session (rr_session l) RActive None None d) else d)
      else d)"

definition resume_task :: "recovery_env \<Rightarrow> string \<Rightarrow> string \<Rightarrow> string \<Rightarrow> string \<Rightarrow> string option
    \<Rightarrow> (store \<Rightarrow> store) \<Rightarrow> store \<times> lease_table \<Rightarrow> resume_reply \<times> store \<times> lease_table" where
  "resume_task rc tid project actor user instruction intf s =
     (case s of (d, L) \<Rightarrow>
     (case get_task_by_project user project tid d of
        None \<Rightarrow> (ResumeNotFound tid, d, L)
      | Some row \<Rightarrow>
      (let prior = tr_status row in
      if \<not> resumable prior then (ResumeRejected prior, d, L)
      else (case (if prior = ''failed'' then Inr () else assert_transition (Some prior) ''active'') of
        Inl e \<Rightarrow> (ResumeRaised e, d, L)
      | Inr _ \<Rightarrow>
      (case update_task_status user tid ''active'' None intf d of
        (Inl e, d1) \<Rightarrow> (ResumeRaised e, d1, L)
      | (Inr False, d1) \<Rightarrow> (ResumeLost prior, d1, L)
      | (Inr True, d1) \<Rightarrow>
          (let d2 = revive_lead_run prior user tid d1;
               d3 = append_event user project tid ''resumed'' actor None (PDict [(''from'', JStr prior)]) d2;
               d4 = (if strip (text_or instruction) = [] then d3
                     else append_event user project tid ''user_inject'' actor None
                       (PDict [(''text'', JStr (strip (text_or instruction))), (''via'', JStr ''resume'')]) d3)
           in (case recover_one_task rc tid project user instruction (d4, L) of
                 (Inl e, s') \<Rightarrow> (ResumePlanRaised e, s')
               | (Inr ok, s') \<Rightarrow> (Resumed prior ok, s'))))))))"

datatype inject_reply = Injected delivery | Revived bool

definition inject_or_revive :: "recovery_env \<Rightarrow> string \<Rightarrow> string \<Rightarrow> string \<Rightarrow> string \<Rightarrow> string
    \<Rightarrow> (store \<Rightarrow> store) \<Rightarrow> store \<times> lease_table \<Rightarrow> inject_reply \<times> store \<times> lease_table" where
  "inject_or_revive rc tid project txt from_session user intf s =
     (case inject_into_task tid project txt from_session user (\<lambda>x. x) (\<lambda>x. x) (fst s) of
        (TaskHalted st, d1) \<Rightarrow>
          (case resume_task rc tid project ''user'' user (Some txt) intf (d1, snd s) of
             (r, s') \<Rightarrow> (Revived (\<exists>p. r = Resumed p True), s'))
      | (r, d1) \<Rightarrow> (Injected r, d1, snd s))"

section \<open>stop\_member\<close>

text \<open>\<open>between\<close> is what others commit between the two units of work.\<close>

definition stop_member :: "(string \<Rightarrow> string) \<Rightarrow> (store \<Rightarrow> store) list \<Rightarrow> string \<Rightarrow> string
    \<Rightarrow> (store \<Rightarrow> store) \<Rightarrow> store \<Rightarrow> (plan_exn + bool) \<times> store" where
  "stop_member msg env session user between d =
     (case get_run session d of
        None \<Rightarrow> (Inr False, d)
      | Some run \<Rightarrow>
      if rr_kind run \<noteq> SubtaskRun then (Inr False, d)
      else (let tid = text_or (rr_task run); project = rr_project run;
                lead = text_or (rr_dispatched_by run); agent = rr_agent run;
                d1 = snd (update_run_by_session session RRejected None None d)
        in (case park_node env (rr_subtask_key run) (JStr (msg ''task.reworkUserStopped'')) ''user''
                   (if lead = [] then None else Some lead) user project tid d1 of
              (Inl e, d2) \<Rightarrow> (Inl e, d2)
            | (Inr _, d2) \<Rightarrow>
               (let d3 = record_subtask_stopped user project tid (Some session) agent
                           (resolve_agent_display_name project agent d2) (rr_subtask_key run) d2;
                    d4 = between (interrupt_session session d3)
                in (Inr True, if lead = [] then d4
                    else (let d5 = snd (cancel_pending session d4) in
                      case enqueue lead tid project user ''member_done'' [] session ''member-stopped''
                             (cancelled_payload agent (msg ''task.summaryUserStopped'')) d5 of
                        None \<Rightarrow> d5 | Some d6 \<Rightarrow> d6))))))"

section \<open>The watchdog\<close>

text \<open>
  The monitor's memory: per task the consecutive dead-looking sweeps, and the tasks it has
  already tried to adopt in this outage.
\<close>

record monitor =
  mo_suspect :: "string \<Rightarrow> nat"
  mo_attempted :: "string \<Rightarrow> bool"

definition forget :: "string \<Rightarrow> monitor \<Rightarrow> monitor" where
  "forget tid m = m\<lparr>mo_suspect := (mo_suspect m)(tid := 0), mo_attempted := (mo_attempted m)(tid := False)\<rparr>"

text \<open>\<open>list_active_lead_bindings\<close>: one binding per active task, no rejected lead.\<close>

definition lead_bindings :: "store \<Rightarrow> (string \<times> string \<times> string \<times> string option) list" where
  "lead_bindings d = map (\<lambda>t. (tr_id t, tr_user t, tr_project t,
       map_option rr_session (List.find (\<lambda>r. rr_task r = Some (tr_id t) \<and> rr_kind r = LeadRun
          \<and> rr_status r \<noteq> RRejected) (runs d)))) (list_active d)"

text \<open>
  The last look before the write, and the write; what \<open>block_task\<close> raises goes through.
\<close>

definition mark_blocked :: "memory_port \<Rightarrow> string \<Rightarrow> string \<Rightarrow> string \<Rightarrow> string \<Rightarrow> (store \<Rightarrow> store)
    \<Rightarrow> store \<times> lease_table \<Rightarrow> (final_exn + bool) \<times> store \<times> lease_table" where
  "mark_blocked mem tid user project lead intf s =
     (case s of (d, L) \<Rightarrow>
     (case get_task_by_project user project tid d of
        None \<Rightarrow> (Inr False, d, L)
      | Some row \<Rightarrow>
      if tr_status row \<noteq> ''active'' then (Inr False, d, L)
      else (case load_actor_lease_states [lead] L lead of
        None \<Rightarrow> (Inr False, d, L)
      | Some ls \<Rightarrow>
      if is_live (clock d) ls then (Inr False, d, L)
      else (case block_task mem user project tid ''task_blocked'' lead
             (''The lead stopped without finishing the task (the process ''
              @ ''stayed up but its loop exited). Resume to rebuild the lead ''
              @ ''and continue.'') (Some lead) [(''reason'', JStr ''lead_dead'')] intf d of
                (FinRaised e, d') \<Rightarrow> (Inl e, d', L)
              | (_, d') \<Rightarrow> (Inr True, d', L)))))"

text \<open>
  One candidate.  \<open>leases\<close> and \<open>now\<close> are what the sweep read at its start; \<open>recover\<close> is the
  injected adoption, false when it raises.
\<close>

datatype watch = WNone | WAdopted | WBlocked | WDeclined | WRaised final_exn

fun marked :: "final_exn + bool \<Rightarrow> watch" where
  "marked (Inl e) = WRaised e"
| "marked (Inr b) = (if b then WBlocked else WDeclined)"

definition sweep_task :: "memory_port \<Rightarrow> nat \<Rightarrow> (string \<Rightarrow> lease_state option) \<Rightarrow> int
    \<Rightarrow> (string \<Rightarrow> string \<Rightarrow> string \<Rightarrow> store \<times> lease_table \<Rightarrow> bool \<times> store \<times> lease_table)
    \<Rightarrow> (store \<Rightarrow> store) \<Rightarrow> string \<times> string \<times> string \<times> string option
    \<Rightarrow> monitor \<times> store \<times> lease_table \<Rightarrow> watch \<times> monitor \<times> store \<times> lease_table" where
  "sweep_task mem confirm leases now recover intf c ms =
     (case (c, ms) of ((tid, user, project, lead), (m, s)) \<Rightarrow>
     (case lead of
        None \<Rightarrow> (WNone, forget tid m, s)
      | Some sid \<Rightarrow>
     (case leases sid of
        None \<Rightarrow> (WNone, forget tid m, s)
      | Some ls \<Rightarrow>
      if is_live now ls then (WNone, forget tid m, s)
      else (let n = mo_suspect m tid + 1 in
        if n < confirm then (WNone, m\<lparr>mo_suspect := (mo_suspect m)(tid := n)\<rparr>, s)
        else (let m1 = m\<lparr>mo_suspect := (mo_suspect m)(tid := 0)\<rparr> in
          if \<not> mo_attempted m tid
          then (let m2 = m1\<lparr>mo_attempted := (mo_attempted m1)(tid := True)\<rparr> in
            case recover tid project user s of
              (True, s') \<Rightarrow> (WAdopted, m2, s')
            | (False, s') \<Rightarrow>
                (case mark_blocked mem tid user project sid intf s' of
                   (b, s'') \<Rightarrow> (marked b, m2, s'')))
          else (case mark_blocked mem tid user project sid intf s of
                  (b, s') \<Rightarrow> (marked b, m1, s')))))))"

text \<open>The pass over the candidates; an exception ends it.\<close>

fun sweep_loop :: "memory_port \<Rightarrow> nat \<Rightarrow> (string \<Rightarrow> lease_state option) \<Rightarrow> int
    \<Rightarrow> (string \<Rightarrow> string \<Rightarrow> string \<Rightarrow> store \<times> lease_table \<Rightarrow> bool \<times> store \<times> lease_table)
    \<Rightarrow> (store \<Rightarrow> store) \<Rightarrow> (string \<times> string \<times> string \<times> string option) list
    \<Rightarrow> monitor \<times> store \<times> lease_table \<Rightarrow> (final_exn + string list) \<times> monitor \<times> store \<times> lease_table" where
  "sweep_loop mem confirm leases now recover intf [] ms = (Inr [], ms)"
| "sweep_loop mem confirm leases now recover intf (c # cs) ms =
     (case sweep_task mem confirm leases now recover intf c ms of
        (WRaised e, ms') \<Rightarrow> (Inl e, ms')
      | (w, ms') \<Rightarrow> (case sweep_loop mem confirm leases now recover intf cs ms' of
          (r, ms'') \<Rightarrow> (map_sum id (\<lambda>acted. if w = WBlocked then fst c # acted else acted) r, ms'')))"

definition sweep_once :: "memory_port \<Rightarrow> nat \<Rightarrow> bool
    \<Rightarrow> (string \<Rightarrow> string \<Rightarrow> string \<Rightarrow> store \<times> lease_table \<Rightarrow> bool \<times> store \<times> lease_table)
    \<Rightarrow> (store \<Rightarrow> store) \<Rightarrow> monitor \<times> store \<times> lease_table
    \<Rightarrow> (final_exn + string list) \<times> monitor \<times> store \<times> lease_table" where
  "sweep_once mem confirm draining recover intf ms =
     (if draining then (Inr [], ms)
      else (case ms of (m, d, L) \<Rightarrow>
        (let cs = lead_bindings d;
             sids = List.map_filter (\<lambda>(_, _, _, l). if blank l then None else l) cs;
             leases = load_actor_lease_states sids L;
             live = map fst cs
         in (case sweep_loop mem confirm leases (clock d) recover intf cs (m, d, L) of
               (Inl e, ms') \<Rightarrow> (Inl e, ms')
             | (Inr acted, m', s') \<Rightarrow> (Inr acted,
                  m'\<lparr>mo_suspect := (\<lambda>t. if t \<in> set live then mo_suspect m' t else 0),
                     mo_attempted := (\<lambda>t. t \<in> set live \<and> mo_attempted m' t)\<rparr>, s')))))"

end
