(* ===== verification/RecoveryFacts.thy ===== *)
theory RecoveryFacts
  imports Recovery
begin

text \<open>
  The properties of recovery and intervention: a task someone is running is never respawned,
  the watchdog blocks only a lead confirmed dead, and a pause halts everything that ran.
\<close>

section \<open>The watchdog, one task at a time\<close>

text \<open>
  What a sweep sees of one task: somebody may be running it (no lead, no lease row, or a live
  lease), or it looks dead.  The memory of the monitor about the task is a count and a flag.
\<close>

datatype sighting = SeenAlive | SeenDead



definition sighting_of :: "(string \<Rightarrow> lease_state option) \<Rightarrow> int \<Rightarrow> string option \<Rightarrow> sighting" where
  "sighting_of leases now lead = (case lead of None \<Rightarrow> SeenAlive
     | Some s \<Rightarrow> (case leases s of None \<Rightarrow> SeenAlive
         | Some ls \<Rightarrow> if is_live now ls then SeenAlive else SeenDead))"

lemma marked_cases [simp]:
  "marked b = WBlocked \<longleftrightarrow> b = Inr True" "marked b \<noteq> WNone" "marked b \<noteq> WAdopted"
  by (cases b; auto)+







section \<open>The sweeps as a history\<close>

text \<open>
  The monitor's life as one task sees it: sweeps over the task, which extend its history,
  sweeps over other tasks, and sweeps that find the task no longer active, which end it.
\<close>

inductive monitored :: "nat \<Rightarrow> string \<Rightarrow> sighting list \<Rightarrow> monitor \<Rightarrow> bool" for confirm tid where
  mon_fresh: "mo_suspect m tid = 0 \<Longrightarrow> \<not> mo_attempted m tid \<Longrightarrow> monitored confirm tid [] m"
| mon_sweep: "monitored confirm tid hs m \<Longrightarrow>
    sweep_task mem confirm leases now recover intf (tid, u, p, lead) (m, s) = (w, m', s') \<Longrightarrow>
    monitored confirm tid (hs @ [sighting_of leases now lead]) m'"
| mon_other: "monitored confirm tid hs m \<Longrightarrow>
    sweep_task mem confirm leases now recover intf (t, u, p, lead) (m, s) = (w, m', s') \<Longrightarrow>
    t \<noteq> tid \<Longrightarrow> monitored confirm tid hs m'"
| mon_gone: "monitored confirm tid hs m \<Longrightarrow> monitored confirm tid [] (forget tid m)"

inductive_cases monitoredE: "monitored confirm tid hs m"





section \<open>Recovery under the lease\<close>

lemma recon_run_frame [simp]:
  "clock (recon_run ks mf p r d) = clock d" "spawned (recon_run ks mf p r d) = spawned d"
  "tasks (recon_run ks mf p r d) = tasks d"
  by (simp_all add: recon_run_def update_run_by_session_def Let_def split: option.split)

lemma recon_fold_frame [simp]:
  "clock (fold (recon_run ks mf p) rs d) = clock d" "spawned (fold (recon_run ks mf p) rs d) = spawned d"
  "tasks (fold (recon_run ks mf p) rs d) = tasks d"
  by (induction rs arbitrary: d) simp_all

lemma reconcile_task_frame:
  assumes "reconcile_task ks mf env row p lead u d = (r, d')"
    and "\<forall>f \<in> set env. \<forall>s. clock (f s) = clock s \<and> spawned (f s) = spawned s"
  shows "clock d' = clock d \<and> spawned d' = spawned d"
  using assms persist_best_effort_elsewhere [of env _ _ _ _ _ _ _ _ _ clock]
    persist_best_effort_elsewhere [of env _ _ _ _ _ _ _ _ _ spawned]
  by (fastforce simp: reconcile_task_def Let_def split: if_splits prod.splits persist_outcome.splits)

text \<open>Property C21: recovery never duplicates a running lead.  While another process trusts its lease on the
  task's lead session, recovering the task (at boot, from the watchdog or on resume) starts
  no actor loop, does not take the lease and does not report the task recovered.\<close>
theorem recovery_respects_lease:
  assumes "recover_one_task rc tid p u ins (d, L) = (r, d', L')"
    and "pick_lead_run (list_runs u tid d) = Some lead"
    and "lease_cells.lease_reach (actor_lease_scope, rr_session lead) nt (t, L, H)"
    and "lease_cells.trusts (t, L, H) h" "rc_me rc \<noteq> h" "\<not> rc_exclusive rc" "clock d \<le> t"
    and "\<forall>f \<in> set (rc_writers rc). \<forall>s. clock (f s) = clock s \<and> spawned (f s) = spawned s"
  shows "spawned d' = spawned d \<and> L' = L \<and> r \<noteq> Inr True"
proof -
  have refused: "acquire_actor_lease (rc_me rc) (rc_exclusive rc) now (rr_session lead) tid (\<lambda>T. T) L = (None, L)"
    if "now \<le> t" for now
    using trusted_lease_refuses [OF assms(3,4,5) that] assms(6) by (simp add: acquire_actor_lease_def)
  show ?thesis
  proof (cases "\<exists>row pl. get_task_by_project u p tid d = Some row \<and> tr_status row \<in> {''active'', ''paused''}
      \<and> plan_from_dict (tr_plan row) = Inr pl")
    case False
    with assms(1,2) show ?thesis
      by (auto simp: recover_one_task_def split: option.splits if_splits sum.splits)
  next
    case True
    then obtain row pl where row: "get_task_by_project u p tid d = Some row"
      "tr_status row \<in> {''active'', ''paused''}" "plan_from_dict (tr_plan row) = Inr pl" by blast
    obtain rr d1 where rt: "reconcile_task (rc_ks rc) (rc_manifest rc) (rc_writers rc) row pl (rr_session lead) u d = (rr, d1)"
      by fastforce
    from reconcile_task_frame [OF rt assms(8)] have fr: "clock d1 = clock d" "spawned d1 = spawned d" by auto
    with refused [of "clock d1"] assms(7) have "acquire_actor_lease (rc_me rc) (rc_exclusive rc) (clock d1)
        (rr_session lead) tid (\<lambda>T. T) L = (None, L)" by simp
    with assms(1,2) row rt fr show ?thesis
      by (auto simp: recover_one_task_def split: sum.splits)
  qed
qed

section \<open>Pausing\<close>

lemma park_sessions:
  "\<forall>x \<in> set (runs (fold (\<lambda>s d. snd (update_run_by_session s RPaused None None d)) ss d)).
     rr_session x \<in> set ss \<longrightarrow> rr_status x = RPaused"
proof -
  have keep: "rr_status x = RPaused" if "x \<in> set (runs (fold (\<lambda>s d. snd (update_run_by_session s RPaused None None d)) ss d))"
    "\<forall>y \<in> set (runs d). rr_session y = rr_session x \<longrightarrow> rr_status y = RPaused" for x ss d
    using that
  proof (induction ss arbitrary: d)
    case Nil
    then show ?case by simp
  next
    case (Cons s ss)
    from Cons.prems(1) have x: "x \<in> set (runs (fold (\<lambda>s d. snd (update_run_by_session s RPaused None None d)) ss
        (snd (update_run_by_session s RPaused None None d))))" by simp
    have "\<forall>y \<in> set (runs (snd (update_run_by_session s RPaused None None d))).
        rr_session y = rr_session x \<longrightarrow> rr_status y = RPaused"
    proof (intro ballI impI)
      fix y assume y: "y \<in> set (runs (snd (update_run_by_session s RPaused None None d)))" "rr_session y = rr_session x"
      then obtain z where "z \<in> set (runs d)" "y = (if rr_session z = s then run_updates RPaused None None z else z)"
        by (auto simp: update_run_by_session_def Let_def set_update_where split: if_splits)
      with y(2) Cons.prems(2) show "rr_status y = RPaused"
        by (auto simp: run_updates_def split: if_splits)
    qed
    with Cons.IH [OF x] show ?case by blast
  qed
  have "x \<in> set (runs (fold (\<lambda>s d. snd (update_run_by_session s RPaused None None d)) ss d)) \<Longrightarrow>
     rr_session x \<in> set ss \<Longrightarrow> rr_status x = RPaused" for x
  proof (induction ss arbitrary: d)
    case Nil
    then show ?case by simp
  next
    case (Cons s ss)
    show ?case
    proof (cases "rr_session x \<in> set ss")
      case True
      with Cons show ?thesis by simp
    next
      case False
      with Cons.prems have "rr_session x = s" by simp
      moreover have "\<forall>y \<in> set (runs (snd (update_run_by_session s RPaused None None d))).
          rr_session y = s \<longrightarrow> rr_status y = RPaused" by (rule update_run_completes)
      ultimately show ?thesis using keep Cons.prems(1) by simp
    qed
  qed
  then show ?thesis by blast
qed

lemma update_run_park_keeps:
  assumes "\<forall>x \<in> set (runs d). rr_session x \<in> S \<longrightarrow> rr_status x = RPaused"
  shows "\<forall>x \<in> set (runs (snd (update_run_by_session s RPaused None None d))). rr_session x \<in> S \<longrightarrow> rr_status x = RPaused"
proof
  fix x assume "x \<in> set (runs (snd (update_run_by_session s RPaused None None d)))"
  then obtain z where "z \<in> set (runs d)" "x = (if rr_session z = s then run_updates RPaused None None z else z)"
    by (auto simp: update_run_by_session_def Let_def set_update_where split: if_splits)
  with assms show "rr_session x \<in> S \<longrightarrow> rr_status x = RPaused"
    by (auto simp: run_updates_def split: if_splits)
qed

lemma interrupt_fold:
  "interrupts (fold interrupt_session ss d) = interrupts d @ ss" "runs (fold interrupt_session ss d) = runs d"
  "tasks (fold interrupt_session ss d) = tasks d"
  by (induction ss arbitrary: d) (simp_all add: interrupt_session_def)

lemma update_run_interrupts [simp]:
  "interrupts (snd (update_run_by_session s st mf en d)) = interrupts d"
  by (simp add: update_run_by_session_def Let_def)

lemma park_fold_ids [simp]:
  "task_ids_unique (fold (\<lambda>s d. snd (update_run_by_session s RPaused None None d)) ss d) = task_ids_unique d"
  by (induction ss arbitrary: d) simp_all

lemma park_fold_interrupts [simp]:
  "interrupts (fold (\<lambda>s d. snd (update_run_by_session s RPaused None None d)) ss d) = interrupts d"
  by (induction ss arbitrary: d) simp_all

text \<open>A pause halts everything that ran.  When \<open>stop_task\<close> reports a pause, the task is paused,
  every member that was running and the lead's active run are parked, and exactly those
  members' sessions and the lead's have been sent an interrupt.  (Others writing meanwhile
  are only assumed to leave the task ids, the run rows and the interrupt log alone.)\<close>
theorem pause_halts_everything:
  assumes "stop_task mem t p ''paused'' u env intf d = (StopDone, d')"
    and "task_ids_unique d"
    and "\<forall>f \<in> set (intf # env). \<forall>x. task_ids_unique (f x) = task_ids_unique x
          \<and> runs (f x) = runs x \<and> interrupts (f x) = interrupts x"
    and "ms = map rr_session (filter (\<lambda>r. rr_kind r = SubtaskRun \<and> rr_status r = RActive) (list_runs u t d))"
    and "ld = pick_lead_run (list_runs u t d)"
  shows "current_status u t d' = Some ''paused''
    \<and> (\<forall>x \<in> set (runs d'). rr_session x \<in> set ms \<longrightarrow> rr_status x = RPaused)
    \<and> (\<forall>l. ld = Some l \<longrightarrow> rr_session l \<noteq> [] \<longrightarrow> rr_status l = RActive \<longrightarrow>
         (\<forall>x \<in> set (runs d'). rr_session x = rr_session l \<longrightarrow> rr_status x = RPaused))
    \<and> interrupts d' = interrupts d @ ms @ (case ld of None \<Rightarrow> [] | Some l \<Rightarrow> [rr_session l])"
proof -
  from assms(1) obtain row where row: "get_task_by_project u p t d = Some row" "tr_status row = ''active''"
    by (auto simp: stop_task_def split: option.splits if_splits)
  define d1 where "d1 = fold (\<lambda>s d. snd (update_run_by_session s RPaused None None d)) ms d"
  define d2 where "d2 = (case ld of None \<Rightarrow> d1
      | Some l \<Rightarrow> if rr_session l \<noteq> [] \<and> rr_status l = RActive
          then snd (update_run_by_session (rr_session l) RPaused None None d1) else d1)"
  obtain o' row' d3 where pp: "persist_plan_best_effort env park_running ''user'' (map_option rr_session ld) u row d2
      = (o', row', d3)" using prod_cases3 by blast
  obtain fr d4 where fr: "update_task_status u t ''paused'' None intf d3 = (fr, d4)" by fastforce
  let ?pl = "[(''members_paused'', JInt (int (length ms)))]"
  have run: "stop_task mem t p ''paused'' u env intf d =
      (case o' of PlanRaised e \<Rightarrow> (StopRaised e, d3)
       | _ \<Rightarrow> (case fr of Inl e \<Rightarrow> (StopFailed (BadTransition e), d4) | Inr False \<Rightarrow> (StopRefused, d4)
         | Inr True \<Rightarrow> (StopDone, (case ld of None \<Rightarrow> (\<lambda>x. x) | Some l \<Rightarrow> interrupt_session (rr_session l))
            (fold interrupt_session ms (append_event u p t ''paused'' ''user'' None (PDict ?pl) d4)))))"
    using row pp fr unfolding stop_task_def d1_def d2_def assms(4,5) Let_def
    by (auto split: persist_outcome.splits sum.splits bool.splits)
  with assms(1) have frT: "fr = Inr True" and d': "d' = (case ld of None \<Rightarrow> (\<lambda>x. x) | Some l \<Rightarrow> interrupt_session (rr_session l))
            (fold interrupt_session ms (append_event u p t ''paused'' ''user'' None (PDict ?pl) d4))"
    by (auto split: persist_outcome.splits sum.splits bool.splits)
  have others: "task_ids_unique (intf x) = task_ids_unique x" "runs (intf x) = runs x"
    "interrupts (intf x) = interrupts x" for x
    using assms(3) by simp_all
  have kept: "runs d3 = runs d2" "interrupts d3 = interrupts d2" "task_ids_unique d3 = task_ids_unique d2"
    using persist_best_effort_elsewhere [OF pp, of runs] persist_best_effort_elsewhere [OF pp, of interrupts]
      persist_best_effort_elsewhere [OF pp, of task_ids_unique] assms(3) by simp_all
  have "task_ids_unique d2"
    using assms(2) by (simp add: d2_def d1_def split: option.split)
  then have "task_ids_unique (intf d3)" using others kept by simp
  from door_True [where intf = intf, OF fr [unfolded frT] this] obtain b where
    b: "b = d3 \<or> b = intf d3" "current_status u t d4 = Some ''paused''" "keeps_rest b d4" by blast
  have "interrupts d4 = interrupts d3"
    using fr frT others by (auto simp: update_task_status_def set_status_where_def Let_def
        split: if_splits sum.splits option.splits)
  moreover have "runs d4 = runs d3" using b(1,3) others by (auto simp: keeps_rest_def)
  moreover note kept(1,2)
  moreover have "interrupts d2 = interrupts d" by (simp add: d2_def d1_def split: option.split)
  ultimately have r: "runs d4 = runs d2" and i: "interrupts d4 = interrupts d" by simp_all
  have members: "\<forall>x \<in> set (runs d2). rr_session x \<in> set ms \<longrightarrow> rr_status x = RPaused"
    using park_sessions [of ms d] update_run_park_keeps [of d1 "set ms"]
    by (auto simp: d2_def d1_def split: option.split)
  have lead: "\<forall>l. ld = Some l \<longrightarrow> rr_session l \<noteq> [] \<longrightarrow> rr_status l = RActive \<longrightarrow>
      (\<forall>x \<in> set (runs d2). rr_session x = rr_session l \<longrightarrow> rr_status x = RPaused)"
  proof (intro allI impI)
    fix l assume l: "ld = Some l" "rr_session l \<noteq> []" "rr_status l = RActive"
    then have d2: "d2 = snd (update_run_by_session (rr_session l) RPaused None None d1)" by (simp add: d2_def)
    show "\<forall>x \<in> set (runs d2). rr_session x = rr_session l \<longrightarrow> rr_status x = RPaused"
      unfolding d2 by (rule update_run_completes)
  qed
  let ?e = "append_event u p t ''paused'' ''user'' None (PDict ?pl) d4"
  have e: "runs ?e = runs d2" "tasks ?e = tasks d4" "interrupts ?e = interrupts d"
    using r i by (simp_all add: append_event_store)
  have fin: "runs d' = runs d2 \<and> tasks d' = tasks d4
      \<and> interrupts d' = interrupts d @ ms @ (case ld of None \<Rightarrow> [] | Some l \<Rightarrow> [rr_session l])"
    unfolding d' using e by (cases ld) (simp_all add: interrupt_fold interrupt_session_def)
  then have "current_status u t d' = current_status u t d4" by (simp add: current_status_def get_task_def)
  with b(2) have st: "current_status u t d' = Some ''paused''" by simp
  from fin have r': "runs d' = runs d2" by blast
  from fin have i': "interrupts d' = interrupts d @ ms @ (case ld of None \<Rightarrow> [] | Some l \<Rightarrow> [rr_session l])"
    by blast
  show ?thesis
    unfolding r' by (intro conjI st members lead i')
qed

section \<open>A pause is not undone\<close>

lemma update_run_other:
  assumes "\<forall>x \<in> set (runs d). rr_session x = q \<longrightarrow> P x" "s \<noteq> q"
  shows "\<forall>x \<in> set (runs (snd (update_run_by_session s st mf en d))). rr_session x = q \<longrightarrow> P x"
  using assms
  by (auto simp: update_run_by_session_def Let_def set_update_where run_updates_def)

lemma recon_fold_other:
  assumes "\<forall>x \<in> set (runs d). rr_session x = q \<longrightarrow> P x" "\<forall>r \<in> set rs. rr_session r \<noteq> q"
  shows "\<forall>x \<in> set (runs (fold (recon_run ks mf p) rs d)). rr_session x = q \<longrightarrow> P x"
  using assms
proof (induction rs arbitrary: d)
  case Nil
  then show ?case by simp
next
  case (Cons r rs)
  have "\<forall>x \<in> set (runs (recon_run ks mf p r d)). rr_session x = q \<longrightarrow> P x"
    using Cons.prems update_run_other [of d q P "rr_session r"]
    by (auto simp: recon_run_def Let_def split: option.split)
  with Cons show ?case by simp
qed

lemma respawn_runs: "runs (respawn msg txt spill ks mf rs p lead t pr u ins d) = runs d"
proof -
  have "runs (fold (reseed_member lead t pr u mf) xs e) = runs e" for xs e
    by (induction xs arbitrary: e) (auto simp: reseed_member_def enqueue_runs split: option.split)
  moreover have "runs (fold (respawn_member msg spill) xs e) = runs e" for xs e
    by (induction xs arbitrary: e) (simp_all add: respawn_member_def Let_def)
  ultimately show ?thesis by (simp add: respawn_def Let_def)
qed

lemma recover_one_task_runs:
  assumes "recover_one_task rc t p u ins (d, L) = (r, d', L')"
  shows "runs d' = runs d \<or> (\<exists>row pl sid rr d5. reconcile_task (rc_ks rc) (rc_manifest rc) (rc_writers rc)
     row pl sid u d = (rr, d5) \<and> runs d' = runs d5)"
proof (cases "\<exists>row lead pl. get_task_by_project u p t d = Some row \<and> tr_status row \<in> {''active'', ''paused''}
    \<and> pick_lead_run (list_runs u t d) = Some lead \<and> plan_from_dict (tr_plan row) = Inr pl")
  case False
  with assms show ?thesis
    by (auto simp: recover_one_task_def split: option.splits if_splits sum.splits)
next
  case True
  then obtain row lead pl where *: "get_task_by_project u p t d = Some row" "tr_status row \<in> {''active'', ''paused''}"
    "pick_lead_run (list_runs u t d) = Some lead" "plan_from_dict (tr_plan row) = Inr pl" by blast
  obtain rr d5 where rt: "reconcile_task (rc_ks rc) (rc_manifest rc) (rc_writers rc) row pl (rr_session lead) u d = (rr, d5)"
    by fastforce
  obtain la L5 where la: "acquire_actor_lease (rc_me rc) (rc_exclusive rc) (clock d5) (rr_session lead) t (\<lambda>T. T) L = (la, L5)"
    by fastforce
  from assms * rt la have "runs d' = runs d5"
    by (cases rr; cases la) (auto simp: recover_one_task_def respawn_runs)
  with rt show ?thesis by blast
qed

text \<open>
  \<open>stop_task\<close> parks the lead's run, and \<open>resume_task\<close> reactivates it only when the task was
  stopped, completed or failed: after a pause and a resume the lead's loop runs again while
  its run row still reads \<open>paused\<close>.
\<close>

theorem resume_leaves_lead_run_parked:
  assumes "resume_task rc t p a u ins intf (d, L) = (Resumed ''paused'' ok, d', L')"
    and "\<forall>x \<in> set (runs d). rr_session x = q \<longrightarrow> rr_kind x = LeadRun \<and> rr_status x = RPaused"
    and "\<forall>x. runs (intf x) = runs x" "\<forall>f \<in> set (rc_writers rc). \<forall>x. runs (f x) = runs x"
  shows "\<forall>x \<in> set (runs d'). rr_session x = q \<longrightarrow> rr_status x = RPaused"
proof -
  let ?Q = "\<lambda>d. \<forall>x \<in> set (runs d). rr_session x = q \<longrightarrow> rr_kind x = LeadRun \<and> rr_status x = RPaused"
  obtain fr d1 where fr: "update_task_status u t ''active'' None intf d = (fr, d1)" by fastforce
  have d1: "runs d1 = runs d"
    using fr assms(3) by (auto simp: update_task_status_def set_status_where_def Let_def
        split: if_splits sum.splits option.splits)
  have "\<exists>d4. recover_one_task rc t p u ins (d4, L) = (Inr ok, d', L') \<and> runs d4 = runs d1"
    using assms(1) fr
    by (auto simp: resume_task_def resumable_def Let_def revive_lead_run_def
        split: option.splits if_splits sum.splits bool.splits prod.splits)
  then obtain d4 where d4: "runs d4 = runs d1"
    and rec: "recover_one_task rc t p u ins (d4, L) = (Inr ok, d', L')" by blast
  have q4: "?Q d4" using d4 d1 assms(2) by simp
  show ?thesis
  proof (cases "runs d' = runs d4")
    case True
    with q4 show ?thesis by simp
  next
    case False
    with recover_one_task_runs [OF rec] obtain row pl sid rr d5 where
      rt: "reconcile_task (rc_ks rc) (rc_manifest rc) (rc_writers rc) row pl sid u d4 = (rr, d5)"
      and d': "runs d' = runs d5" by blast
    have "\<forall>r \<in> set (recon_runs u (tr_id row) d4). rr_session r \<noteq> q"
      using q4 by (auto simp: recon_runs_def list_runs_def)
    from recon_fold_other [OF q4 this] have "?Q (fold (recon_run (rc_ks rc) (rc_manifest rc) pl) (recon_runs u (tr_id row) d4) d4)" .
    moreover have "runs d5 = runs (fold (recon_run (rc_ks rc) (rc_manifest rc) pl) (recon_runs u (tr_id row) d4) d4)"
      using rt assms(4) persist_best_effort_elsewhere [of "rc_writers rc" _ _ _ _ _ _ _ _ _ runs]
      by (auto simp: reconcile_task_def Let_def split: if_splits prod.splits persist_outcome.splits)
    ultimately show ?thesis using d' by simp
  qed
qed

end
