(* ===== verification/Members.thy ===== *)
theory Members
  imports RecoveryFacts
begin

text \<open>
  What a lead asks about its members: \<^verbatim>\<open>backend/valuz_agent/modules/tasks/member_probe.py\<close> and
  the operations of \<^verbatim>\<open>coordination.py\<close> but the wait itself, which is in \<open>AwaitMembers\<close>.  A
  kernel session's state, a finished member's manifest, the decision inbox and the background
  work of a session are read from outside the task store and are arguments.
\<close>

section \<open>Entries and open runs\<close>

type_synonym entry = "(string \<times> json) list"

definition member_result :: "string option \<Rightarrow> string \<Rightarrow> json \<Rightarrow> json \<Rightarrow> json \<Rightarrow> json \<Rightarrow> entry" where
  "member_result key session agent status summary artifacts =
     [(''subtask_key'', opt_json key), (''session_id'', JStr session), (''agent'', py_or agent (JStr [])),
      (''status'', status), (''summary'', summary), (''artifacts'', py_or artifacts (JList []))]"

definition open_member :: "run_row \<Rightarrow> bool" where
  "open_member r = (rr_kind r = SubtaskRun \<and> \<not> blank (rr_subtask_key r) \<and> rr_status r = RActive)"

text \<open>\<open>{r.subtask_key: r for r in runs if ...}\<close> at a key: the last run of the key wins.\<close>

definition open_run :: "run_row list \<Rightarrow> string \<Rightarrow> run_row option" where
  "open_run rs key = (case filter (\<lambda>r. open_member r \<and> rr_subtask_key r = Some key) rs of
     [] \<Rightarrow> None | r # rest \<Rightarrow> Some (last (r # rest)))"

section \<open>heartbeat\_pending\<close>

text \<open>A node mutation: the key, the fields, and the statuses it applies from.\<close>

type_synonym node_write = "string \<times> (string \<times> json) list \<times> subtask_status list"

record heartbeat =
  hb_settled :: "(string \<times> entry) list"
  hb_terminal :: "string list"

definition no_beat :: heartbeat where
  "no_beat = \<lparr>hb_settled = [], hb_terminal = []\<rparr>"

text \<open>
  What is outside: the kernel's sessions, the manifests, what others commit while the session
  and the manifest of a key are read, and in the rounds of \<open>persist_plan\<close>.
\<close>

record probe_env =
  pe_ks :: kernel_states
  pe_manifest :: "string \<Rightarrow> entry"
  pe_meanwhile :: "string \<Rightarrow> store \<Rightarrow> store"
  pe_writers :: "(store \<Rightarrow> store) list"

definition settle_stopped :: "probe_env \<Rightarrow> string \<Rightarrow> string \<Rightarrow> string \<Rightarrow> string \<Rightarrow> run_row \<Rightarrow> store
    \<Rightarrow> (entry \<times> node_write) option \<times> store" where
  "settle_stopped pe tid project user key r d =
     (let se = rr_session r in
      case classify_member (fst (pe_ks pe se)) (snd (pe_ks pe se)) of
        DCompleted \<Rightarrow>
          (let m = pe_manifest pe se in
           (Some (member_result (Some key) se (JStr (rr_agent r)) (dget_or m ''status'' (JStr ''completed''))
                    (dget_or m ''summary'' (JStr [])) (dget_or m ''artifacts'' (JList [])),
                  (key, [(''status'', JStr ''in_review'')], [InProgress, Rework])),
            snd (update_run_by_session se RCompleted (Some (JDict m)) None d)))
      | DFailed \<Rightarrow>
          (let d1 = snd (update_run_by_session se RArchived None None d) in
           (Some (member_result (Some key) se (JStr (rr_agent r)) (JStr ''failed'')
                    (JStr ''member session errored'') (JList []),
                  (key, [(''status'', JStr ''rework''),
                         (''review_feedback'', JStr ''member session errored (heartbeat)'')],
                   [InProgress, InReview, Rework, Paused])),
            record_subtask_failed user project tid (Some se) (rr_agent r)
              (resolve_agent_display_name project (rr_agent r) d1) (Some key)
              ''member session errored'' ''heartbeat_detected'' JNull d1))
      | _ \<Rightarrow> (None, d))"

text \<open>\<open>settle\<close> is \<open>settle_keys\<close>; the order of the keys is the set's.\<close>

fun heartbeat_keys :: "probe_env \<Rightarrow> string \<Rightarrow> string \<Rightarrow> string \<Rightarrow> run_row list \<Rightarrow> string list option
    \<Rightarrow> string list \<Rightarrow> store \<Rightarrow> heartbeat \<times> node_write list \<times> store" where
  "heartbeat_keys pe tid project user rs settle [] d = (no_beat, [], d)"
| "heartbeat_keys pe tid project user rs settle (key # keys) d =
     (case open_run rs key of
        None \<Rightarrow> heartbeat_keys pe tid project user rs settle keys d
      | Some r \<Rightarrow>
          (let d1 = pe_meanwhile pe key d in
           if fst (pe_ks pe (rr_session r)) = Some ''running''
           then heartbeat_keys pe tid project user rs settle keys d1
           else (case (if settle \<noteq> None \<and> key \<notin> set (the settle) then (None, d1)
                       else settle_stopped pe tid project user key r d1) of
             (acted, d2) \<Rightarrow>
               (case heartbeat_keys pe tid project user rs settle keys d2 of (b, ws, d3) \<Rightarrow>
                 (\<lparr>hb_settled = (case acted of None \<Rightarrow> [] | Some (e, _) \<Rightarrow> [(key, e)]) @ hb_settled b,
                    hb_terminal = key # hb_terminal b\<rparr>,
                  (case acted of None \<Rightarrow> [] | Some (_, w) \<Rightarrow> [w]) @ ws, d3)))))"

text \<open>The closure \<open>_apply\<close> over the freshest plan.\<close>

definition apply_node_write :: "node_write \<Rightarrow> plan \<times> bool \<Rightarrow> plan_exn + plan \<times> bool" where
  "apply_node_write w pc = (case (w, pc) of ((key, patch, from_statuses), (p, changed)) \<Rightarrow>
     (case get_node p key of
        None \<Rightarrow> Inr (p, changed)
      | Some n \<Rightarrow>
          if st_status n \<notin> set from_statuses then Inr (p, changed)
          else rbind (update_node p key patch) (\<lambda>q. Inr (q, True))))"

definition apply_node_writes :: "node_write list \<Rightarrow> mutation" where
  "apply_node_writes ws p = rbind (rfold apply_node_write ws (p, False))
     (\<lambda>(q, changed). Inr (if changed then Some q else None))"

definition heartbeat_pending :: "probe_env \<Rightarrow> string \<Rightarrow> string \<Rightarrow> string list \<Rightarrow> string
    \<Rightarrow> string list option \<Rightarrow> store \<Rightarrow> (plan_exn + heartbeat) \<times> store" where
  "heartbeat_pending pe tid project keys user settle d =
     (if keys = [] then (Inr no_beat, d)
      else (let rs = list_runs user tid d in
      if \<not> list_ex (\<lambda>k. open_run rs k \<noteq> None) keys then (Inr no_beat, d)
      else (let row = get_task_by_project user project tid d in
       case heartbeat_keys pe tid project user rs settle keys d of (b, ws, d1) \<Rightarrow>
         (case (ws, row) of
            (_ # _, Some t) \<Rightarrow>
              (case persist_plan_best_effort (pe_writers pe) (apply_node_writes ws) ''system'' None user t d1 of
                 (PlanRaised e, _, d2) \<Rightarrow> (Inl e, d2)
               | (_, _, d2) \<Rightarrow> (Inr b, d2))
          | _ \<Rightarrow> (Inr b, d1)))))"

section \<open>probe\_pending\_members\<close>

record probe_entry =
  pb_key :: string
  pb_session :: string
  pb_agent :: string
  pb_state :: string
  pb_question :: "string option"

text \<open>The decision inbox: sessions with the payload of the question they wait on.\<close>

definition question_text :: "json \<Rightarrow> string" where
  "question_text payload =
     (let questions = (case py_or payload (JDict []) of JDict kvs \<Rightarrow> py_or (dget kvs ''questions'') (JList [])
                       | _ \<Rightarrow> JList []);
          first = (case questions of JList (q # _) \<Rightarrow> q | _ \<Rightarrow> JDict []);
          txt = (case first of JDict kvs \<Rightarrow> strip (py_str (py_or (dget kvs ''question'') (JStr []))) | _ \<Rightarrow> [])
      in if take 200 txt = [] then ''(question pending)'' else take 200 txt)"

definition pending_asks :: "(string \<times> json) list \<Rightarrow> string \<Rightarrow> string option" where
  "pending_asks inbox session = map_option question_text (map_of inbox session)"

text \<open>\<open>reads_ok\<close> is whether a session could be read.\<close>

definition probe_entry_of :: "probe_env \<Rightarrow> (string \<Rightarrow> bool) \<Rightarrow> (string \<times> json) list \<Rightarrow> string \<Rightarrow> run_row
    \<Rightarrow> probe_entry" where
  "probe_entry_of pe reads_ok inbox key r =
     (let se = rr_session r;
          kernel = (if reads_ok se then fst (pe_ks pe se) else None);
          ask = pending_asks inbox se
      in \<lparr>pb_key = key, pb_session = se, pb_agent = rr_agent r,
          pb_state = (if ask \<noteq> None then ''awaiting_user''
                      else case kernel of Some (c # s) \<Rightarrow> c # s | _ \<Rightarrow> ''unknown''),
          pb_question = ask\<rparr>)"

definition probe_pending_members :: "probe_env \<Rightarrow> (string \<Rightarrow> bool) \<Rightarrow> (string \<times> json) list \<Rightarrow> string
    \<Rightarrow> string list \<Rightarrow> string \<Rightarrow> store \<Rightarrow> probe_entry list" where
  "probe_pending_members pe reads_ok inbox tid keys user d =
     (let rs = list_runs user tid d in
      List.map_filter (\<lambda>k. map_option (probe_entry_of pe reads_ok inbox k) (open_run rs k))
        (sorted_list_of_set (set keys)))"

section \<open>What an actor asks between turns\<close>

text \<open>\<open>db_ok\<close>: a failed read is not a stop order.\<close>

definition actor_still_wanted :: "bool \<Rightarrow> string \<Rightarrow> actor_role \<Rightarrow> string \<Rightarrow> string \<Rightarrow> string \<Rightarrow> store \<Rightarrow> bool" where
  "actor_still_wanted db_ok session role tid project user d =
     (\<not> db_ok \<or> (case role of
        LeadRole \<Rightarrow> (case get_task_by_project user project tid d of
            None \<Rightarrow> True | Some t \<Rightarrow> tr_status t = ''active'')
      | MemberRole \<Rightarrow> (case get_run session d of
            None \<Rightarrow> True | Some r \<Rightarrow> rr_status r = RActive)))"

definition member_already_settled :: "string \<Rightarrow> string \<Rightarrow> string \<Rightarrow> string \<Rightarrow> store \<Rightarrow> plan_exn + bool" where
  "member_already_settled tid project member user d =
     (case get_task_by_project user project tid d of
        None \<Rightarrow> Inr True
      | Some t \<Rightarrow>
          if tr_status t \<noteq> ''active'' then Inr True
          else (let run = (if member = [] then None else get_run member d);
                    key = (case run of None \<Rightarrow> None | Some r \<Rightarrow> rr_subtask_key r)
                in if blank key then Inr False
                   else rbind (plan_from_dict (tr_plan t)) (\<lambda>p.
                     (case get_node p (the key) of
                        None \<Rightarrow> Inr False
                      | Some n \<Rightarrow> Inr (st_status n \<in> {Done, Failed})))))"

text \<open>\<open>background\<close>: the session runs a background task; \<open>between\<close> is what others commit between
  the two reads.  A plan that does not parse ends the loop.\<close>

definition lead_idle_with_no_pending :: "bool \<Rightarrow> (store \<Rightarrow> store) \<Rightarrow> string \<Rightarrow> string \<Rightarrow> string \<Rightarrow> string
    \<Rightarrow> store \<Rightarrow> plan_exn + bool" where
  "lead_idle_with_no_pending background between tid project user lead d =
     (if has_active_members tid d then Inr False
      else if lead \<noteq> [] \<and> background then Inr False
      else (case get_task_by_project user project tid (between d) of
        None \<Rightarrow> Inr True
      | Some t \<Rightarrow>
          if tr_status t \<noteq> ''active'' then Inr True
          else (case plan_from_dict (tr_plan t) of
             Inr p \<Rightarrow> Inr (unresolved_keys p = [])
           | Inl (PlanError _) \<Rightarrow> Inr True
           | Inl e \<Rightarrow> Inl e)))"

section \<open>Crash recovery of members\<close>

definition enqueue_recovered :: "string \<Rightarrow> string \<Rightarrow> string \<Rightarrow> string \<Rightarrow> entry \<Rightarrow> store \<Rightarrow> store" where
  "enqueue_recovered lead tid project user e d =
     (case enqueue lead tid project user ''member_done'' [] (plain_str (dget e ''session_id'')) ''reconcile'' e d of
        None \<Rightarrow> d | Some d' \<Rightarrow> d')"

text \<open>\<open>between\<close> is what others commit between the heartbeat's transaction and the one that
  enqueues what it found.\<close>

definition recover_crashed_members :: "probe_env \<Rightarrow> (store \<Rightarrow> store) \<Rightarrow> string \<Rightarrow> string \<Rightarrow> string
    \<Rightarrow> store \<Rightarrow> (plan_exn + nat) \<times> store" where
  "recover_crashed_members pe between tid project user d =
     (case get_task_by_project user project tid d of
        None \<Rightarrow> (Inr 0, d)
      | Some t \<Rightarrow>
     (case plan_from_dict (tr_plan t) of
        Inl e \<Rightarrow> (Inl e, d)
      | Inr p \<Rightarrow>
     (let pending = map st_key (filter (\<lambda>n. st_status n = InProgress) p) in
      if pending = [] then (Inr 0, d)
      else (case heartbeat_pending pe tid project pending user None d of
        (Inl e, d1) \<Rightarrow> (Inl e, d1)
      | (Inr b, d1) \<Rightarrow>
          if hb_settled b = [] then (Inr 0, d1)
          else (let d2 = between d1 in
            case pick_lead_run (list_runs user tid d2) of
              None \<Rightarrow> (Inr 0, d2)
            | Some lead \<Rightarrow>
                (Inr (length (hb_settled b)),
                 ring_for (rr_session lead)
                   (fold (enqueue_recovered (rr_session lead) tid project user)
                      (map snd (hb_settled b)) d2)))))))"

section \<open>A member reports to its lead\<close>

text \<open>The delivery first, then the timeline event, whose failure (\<open>log_ok\<close>) is swallowed.\<close>

definition notify_lead_member_idle :: "(string \<Rightarrow> entry) \<Rightarrow> bool \<Rightarrow> (store \<Rightarrow> store) \<Rightarrow> string \<Rightarrow> string
    \<Rightarrow> string \<Rightarrow> store \<Rightarrow> store" where
  "notify_lead_member_idle manifest log_ok between session status user d =
     (case get_run session d of
        None \<Rightarrow> d
      | Some r \<Rightarrow>
          (let lead = text_or (rr_dispatched_by r);
               tid = text_or (rr_task r);
               m = manifest session;
               d1 = between d;
               d2 = (if lead = [] then d1
                     else (case enqueue lead tid (rr_project r) user ''member_done'' [] session ''member-idle'' m d1 of
                             None \<Rightarrow> d1 | Some x \<Rightarrow> ring_for lead x))
           in if log_ok then append_event user (rr_project r) tid ''subtask_reported'' (rr_agent r) (Some session)
                (PDict [(''agent_name'', JStr (resolve_agent_display_name (rr_project r) (rr_agent r) d2)),
                        (''summary'', dget_or m ''summary'' (JStr [])), (''status'', JStr status)]) d2
              else d2))"

end
