(* ===== verification/AwaitMembers.thy ===== *)
theory AwaitMembers
  imports Members
begin

text \<open>
  \<^verbatim>\<open>CoordinationService.await_member_results\<close> of
  \<^verbatim>\<open>backend/valuz_agent/modules/tasks/coordination.py\<close>: the lead's wait, inside a turn, for
  members it dispatched.  One pass of the loop is a function of what the pass meets; the
  wait is given the passes up to its deadline as a list.  The texts of the hints in the
  reply are left out.
\<close>

section \<open>What a wait is given\<close>

text \<open>Times are in milliseconds.\<close>

definition max_await_window :: int where
  "max_await_window = 600000"

definition probe_every :: nat where
  "probe_every = 4"

record await_call =
  ac_lead :: string
  ac_project :: string
  ac_task :: string
  ac_user :: string
  ac_target :: "string list"
  ac_mode :: string
  ac_deadline :: int

text \<open>
  One pass: the clock, whether the stop state and the inbox can be read, whether the process
  drains, what others commit before the pass and between the claims of the inbox, and what
  the probes read.
\<close>

record wait_slice =
  ws_now :: int
  ws_db_ok :: bool
  ws_draining :: bool
  ws_inbox_ok :: bool
  ws_before :: "store \<Rightarrow> store"
  ws_claims :: "(store \<Rightarrow> store) list"
  ws_probe :: probe_env
  ws_reads_ok :: "string \<Rightarrow> bool"
  ws_asks :: "(string \<times> json) list"

record await_state =
  aw_collected :: "(string \<times> entry) list"
  aw_terminal :: "string list"
  aw_slices :: nat
  aw_inject :: "(string \<times> string) option"
  aw_parked :: "probe_entry list"

definition await_start :: await_state where
  "await_start = \<lparr>aw_collected = [], aw_terminal = [], aw_slices = 0, aw_inject = None, aw_parked = []\<rparr>"

section \<open>One pass\<close>

text \<open>The message drained, if any: at most one is claimed, and none while the process drains.\<close>

definition drain_one :: "bool \<Rightarrow> bool \<Rightarrow> string \<Rightarrow> (store \<Rightarrow> store) list \<Rightarrow> store
    \<Rightarrow> inbox_msg option \<times> store" where
  "drain_one draining inbox_ok session env d =
     (if draining \<or> \<not> inbox_ok then (None, d)
      else (case drain session 1 env d of
         ([], d') \<Rightarrow> (None, d') | (m # _, d') \<Rightarrow> (Some m, d')))"

definition still_pending :: "await_call \<Rightarrow> await_state \<Rightarrow> string list" where
  "still_pending c st = filter (\<lambda>k. k \<notin> fst ` set (aw_collected st)) (ac_target c)"

definition everyone_asks :: "probe_entry list \<Rightarrow> string list \<Rightarrow> bool" where
  "everyone_asks probe keys = (probe \<noteq> [] \<and> length probe = length keys
     \<and> list_all (\<lambda>p. pb_state p = ''awaiting_user'') probe)"

text \<open>A pass without a message: the backstop, then every fourth time the probe.\<close>

definition idle_pass :: "await_call \<Rightarrow> wait_slice \<Rightarrow> await_state \<Rightarrow> store
    \<Rightarrow> (plan_exn + bool \<times> await_state) \<times> store" where
  "idle_pass c w st d =
     (let st1 = st\<lparr>aw_slices := Suc (aw_slices st)\<rparr>;
          pending = still_pending c st1
      in case (if pending = [] then (Inr no_beat, d)
               else heartbeat_pending (ws_probe w) (ac_task c) (ac_project c) pending (ac_user c)
                      (Some (filter (\<lambda>k. k \<in> set (aw_terminal st)) pending)) d) of
           (Inl e, d1) \<Rightarrow> (Inl e, d1)
         | (Inr b, d1) \<Rightarrow>
             (let st2 = st1\<lparr>aw_collected := AList.updates (map fst (hb_settled b)) (map snd (hb_settled b))
                              (aw_collected st1),
                            aw_terminal := aw_terminal st1 @ hb_terminal b\<rparr>;
                  left = still_pending c st2;
                  probe = (if left \<noteq> [] \<and> aw_slices st2 mod probe_every = 0
                           then probe_pending_members (ws_probe w) (ws_reads_ok w) (ws_asks w) (ac_task c)
                                  left (ac_user c) d1
                           else [])
              in if everyone_asks probe left then (Inr (False, st2\<lparr>aw_parked := probe\<rparr>), d1)
                 else (Inr (True, st2), d1)))"

text \<open>A member's report.\<close>

definition report_key :: "string \<Rightarrow> store \<Rightarrow> string" where
  "report_key from_session d = (case get_run from_session d of
     None \<Rightarrow> from_session
   | Some r \<Rightarrow> if blank (rr_subtask_key r) then from_session else the (rr_subtask_key r))"

definition report_entry :: "inbox_msg \<Rightarrow> store \<Rightarrow> entry" where
  "report_entry m d =
     (let run = get_run (im_from m) d;
          key = (case run of None \<Rightarrow> None | Some r \<Rightarrow> if blank (rr_subtask_key r) then None else rr_subtask_key r);
          pl = im_payload m
      in member_result key (im_from m) (dget_or pl ''agent'' (JStr [])) (dget_or pl ''status'' (JStr []))
           (dget_or pl ''summary'' (JStr [])) (dget_or pl ''artifacts'' (JList [])))"

definition reviewable :: "inbox_msg \<Rightarrow> bool" where
  "reviewable m = (plain_str (dget (im_payload m) ''status'') \<notin> set non_reviewable_done)"

definition take_report :: "await_call \<Rightarrow> wait_slice \<Rightarrow> inbox_msg \<Rightarrow> await_state \<Rightarrow> store \<Rightarrow> await_state \<times> store" where
  "take_report c w m st d =
     (let known = (case get_run (im_from m) d of None \<Rightarrow> False | Some r \<Rightarrow> \<not> blank (rr_subtask_key r));
          d1 = (if known \<and> reviewable m
                then mark_in_review (ac_task c) (ac_project c) (im_from m) (ac_user c)
                       (pe_writers (ws_probe w)) d
                else d)
      in (st\<lparr>aw_collected := AList.update (report_key (im_from m) d) (report_entry m d) (aw_collected st)\<rparr>, d1))"

text \<open>The condition at the top of the loop.\<close>

definition await_done :: "await_call \<Rightarrow> await_state \<Rightarrow> bool" where
  "await_done c st =
     (ac_mode c = ''all'' \<and> ac_target c \<noteq> [] \<and> still_pending c st = []
      \<or> ac_mode c = ''any'' \<and> aw_collected st \<noteq> [])"

text \<open>One pass: whether the loop goes on, and the message it claimed.\<close>

definition await_pass :: "await_call \<Rightarrow> wait_slice \<Rightarrow> await_state \<Rightarrow> store
    \<Rightarrow> (plan_exn + bool \<times> await_state) \<times> inbox_msg option \<times> store" where
  "await_pass c w st d0 =
     (let d = ws_before w d0 in
      if await_done c st \<or> ac_deadline c \<le> ws_now w then (Inr (False, st), None, d)
      else if \<not> actor_still_wanted (ws_db_ok w) (ac_lead c) LeadRole (ac_task c) (ac_project c) (ac_user c) d
      then (Inr (False, st), None, d)
      else (case drain_one (ws_draining w) (ws_inbox_ok w) (ac_lead c) (ws_claims w) d of
        (None, d1) \<Rightarrow> (case idle_pass c w st d1 of (r, d2) \<Rightarrow> (r, None, d2))
      | (Some m, d1) \<Rightarrow>
          if im_kind m = ''text'' \<or> im_kind m = ''revise_goal''
          then (Inr (False, st\<lparr>aw_inject := Some (im_text m, im_from m)\<rparr>), Some m, d1)
          else if im_kind m \<noteq> ''member_done'' then (Inr (True, st), Some m, d1)
          else (case take_report c w m st d1 of (st', d2) \<Rightarrow> (Inr (True, st'), Some m, d2))))"

fun await_loop :: "await_call \<Rightarrow> wait_slice list \<Rightarrow> await_state \<Rightarrow> store
    \<Rightarrow> (plan_exn + await_state) \<times> store" where
  "await_loop c [] st d = (Inr st, d)"
| "await_loop c (w # ws) st d =
     (case await_pass c w st d of
        (Inl e, _, d1) \<Rightarrow> (Inl e, d1)
      | (Inr (True, st1), _, d1) \<Rightarrow> await_loop c ws st1 d1
      | (Inr (False, st1), _, d1) \<Rightarrow> (Inr st1, d1))"

section \<open>The call\<close>

record await_reply =
  ar_results :: "entry list"
  ar_pending :: "string list"
  ar_collected :: nat
  ar_timed_out :: bool
  ar_status :: "probe_entry list option"
  ar_awaiting_user :: bool
  ar_still_running :: bool
  ar_inject :: "(string \<times> string) option"

datatype await_outcome =
    AwaitRaised plan_exn
  | NoDispatchedMembers "string list" "string list"  \<comment> \<open>the keys asked for, the ready keys\<close>
  | Awaited await_reply

definition live_keys :: "string \<Rightarrow> string \<Rightarrow> store \<Rightarrow> string list" where
  "live_keys user tid d = map (\<lambda>r. the (rr_subtask_key r)) (filter open_member (list_runs user tid d))"

definition await_target :: "string list \<Rightarrow> plan \<Rightarrow> string list" where
  "await_target keys p = remdups (if keys \<noteq> [] then filter (\<lambda>k. k \<noteq> []) keys
     else map st_key (filter (\<lambda>n. st_status n \<in> {InProgress, InReview}) p))"

text \<open>The reply, with the probe of the members that are still pending.\<close>

definition await_reply_of :: "await_call \<Rightarrow> wait_slice \<Rightarrow> await_state \<Rightarrow> store \<Rightarrow> await_reply" where
  "await_reply_of c w st d =
     (let left = still_pending c st;
          pending = sorted_list_of_set (set left);
          parked = (aw_parked st \<noteq> []);
          status = (if parked then aw_parked st
                    else probe_pending_members (ws_probe w) (ws_reads_ok w) (ws_asks w) (ac_task c)
                           pending (ac_user c) d)
      in \<lparr>ar_results = map snd (aw_collected st), ar_pending = pending,
          ar_collected = length (aw_collected st),
          ar_timed_out = (pending \<noteq> [] \<and> ac_mode c = ''all'' \<and> \<not> parked),
          ar_status = (if pending = [] then None else Some status),
          ar_awaiting_user = (pending \<noteq> [] \<and> parked),
          ar_still_running = (pending \<noteq> [] \<and> \<not> parked
             \<and> list_ex (\<lambda>p. pb_state p = ''running'') status),
          ar_inject = aw_inject st\<rparr>)"

text \<open>\<open>keys\<close> is empty when the caller names none; \<open>final\<close> is what the last probe meets.\<close>

definition await_member_results :: "string \<Rightarrow> string \<Rightarrow> string \<Rightarrow> string list \<Rightarrow> string
    \<Rightarrow> int option \<Rightarrow> int \<Rightarrow> string \<Rightarrow> wait_slice list \<Rightarrow> wait_slice \<Rightarrow> store
    \<Rightarrow> await_outcome \<times> store" where
  "await_member_results lead project tid keys mode timeout now user slices final d =
     (let live = live_keys user tid d in
      case (case get_task_by_project user project tid d of
              None \<Rightarrow> Inr [] | Some t \<Rightarrow> plan_from_dict (tr_plan t)) of
        Inl e \<Rightarrow> (AwaitRaised e, d)
      | Inr p \<Rightarrow>
          (let target = await_target keys p;
               awaitable = (if target \<noteq> [] then filter (\<lambda>k. k \<in> set live) target else live)
           in if awaitable = []
              then (NoDispatchedMembers (sorted_list_of_set (set target)) (ready_keys p), d)
              else (let window = (case timeout of None \<Rightarrow> max_await_window | Some s \<Rightarrow> min s max_await_window);
                        c = \<lparr>ac_lead = lead, ac_project = project, ac_task = tid, ac_user = user,
                             ac_target = target, ac_mode = mode, ac_deadline = now + window\<rparr>
                    in case await_loop c slices await_start d of
                         (Inl e, d1) \<Rightarrow> (AwaitRaised e, d1)
                       | (Inr st, d1) \<Rightarrow>
                           (let d2 = ws_before final d1 in (Awaited (await_reply_of c final st d2), d2)))))"

end
