(* ===== verification/MemberFacts.thy ===== *)
theory MemberFacts
  imports AwaitMembers
begin

text \<open>
  The heartbeat acts only on members whose kernel session has stopped, a wait hands over
  everything it claims from the inbox, and where crash recovery promises more than its two
  transactions keep.
\<close>

section \<open>The heartbeat\<close>

lemma open_run_SomeD:
  assumes "open_run rs key = Some r"
  shows "r \<in> set rs \<and> open_member r \<and> rr_subtask_key r = Some key"
proof -
  let ?fs = "filter (\<lambda>r. open_member r \<and> rr_subtask_key r = Some key) rs"
  from assms have "?fs \<noteq> []" "r = last ?fs" by (auto simp: open_run_def split: list.splits)
  then have "r \<in> set ?fs" using last_in_set by blast
  then show ?thesis by simp
qed

definition stopped_member :: "probe_env \<Rightarrow> run_row list \<Rightarrow> string \<Rightarrow> bool" where
  "stopped_member pe rs key = (\<exists>r. open_run rs key = Some r \<and> fst (pe_ks pe (rr_session r)) \<noteq> Some ''running'')"

lemma heartbeat_keys_sound:
  assumes "heartbeat_keys pe tid project user rs settle keys d = (b, ws, d')"
  shows "set (hb_terminal b) = {k \<in> set keys. stopped_member pe rs k}
    \<and> fst ` set (hb_settled b) \<subseteq> set (hb_terminal b) \<inter> (case settle of None \<Rightarrow> UNIV | Some ss \<Rightarrow> set ss)
    \<and> fst ` set ws = fst ` set (hb_settled b)"
  using assms
proof (induction keys arbitrary: d b ws)
  case Nil
  then show ?case by (auto simp: no_beat_def)
next
  case (Cons key keys)
  show ?case
  proof (cases "open_run rs key")
    case None
    with Cons.prems have rest: "heartbeat_keys pe tid project user rs settle keys d = (b, ws, d')" by simp
    from None have "\<not> stopped_member pe rs key" by (simp add: stopped_member_def)
    with Cons.IH [OF rest] show ?thesis by auto
  next
    case (Some r)
    show ?thesis
    proof (cases "fst (pe_ks pe (rr_session r)) = Some ''running''")
      case True
      with Cons.prems Some have rest: "heartbeat_keys pe tid project user rs settle keys (pe_meanwhile pe key d) = (b, ws, d')"
        by (simp add: Let_def)
      from True Some have "\<not> stopped_member pe rs key" by (simp add: stopped_member_def)
      with Cons.IH [OF rest] show ?thesis by auto
    next
      case False
      define d1 where "d1 = pe_meanwhile pe key d"
      obtain acted d2 where a: "(if settle \<noteq> None \<and> key \<notin> set (the settle) then (None, d1)
          else settle_stopped pe tid project user key r d1) = (acted, d2)"
        by (cases "if settle \<noteq> None \<and> key \<notin> set (the settle) then (None, d1)
          else settle_stopped pe tid project user key r d1") auto
      obtain b1 ws1 d3 where rest: "heartbeat_keys pe tid project user rs settle keys d2 = (b1, ws1, d3)"
        using prod_cases3 by blast
      have "heartbeat_keys pe tid project user rs settle (key # keys) d =
          (\<lparr>hb_settled = (case acted of None \<Rightarrow> [] | Some (e, _) \<Rightarrow> [(key, e)]) @ hb_settled b1,
            hb_terminal = key # hb_terminal b1\<rparr>, (case acted of None \<Rightarrow> [] | Some (_, w) \<Rightarrow> [w]) @ ws1, d3)"
        by (simp only: heartbeat_keys.simps Some option.case Let_def False if_False a [unfolded d1_def] prod.case rest)
      with Cons.prems have out: "b = \<lparr>hb_settled = (case acted of None \<Rightarrow> [] | Some (e, _) \<Rightarrow> [(key, e)]) @ hb_settled b1,
            hb_terminal = key # hb_terminal b1\<rparr>" "ws = (case acted of None \<Rightarrow> [] | Some (_, w) \<Rightarrow> [w]) @ ws1"
        and d3: "d3 = d'" by simp_all
      have acted: "acted \<noteq> None \<Longrightarrow> (settle = None \<or> key \<in> set (the settle)) \<and> fst (snd (the acted)) = key"
        using a by (auto simp: settle_stopped_def Let_def split: if_splits disposition.splits)
      have "stopped_member pe rs key" using Some False by (simp add: stopped_member_def)
      with Cons.IH [OF rest [unfolded d3]] acted show ?thesis
        unfolding out by (cases acted) (auto split: option.splits)
    qed
  qed
qed

lemma heartbeat_pending_sound:
  assumes "heartbeat_pending pe tid project keys user settle d = (Inr b, d')"
  shows "(\<forall>k \<in> set (hb_terminal b). k \<in> set keys \<and> stopped_member pe (list_runs user tid d) k)
    \<and> fst ` set (hb_settled b) \<subseteq> set (hb_terminal b) \<inter> (case settle of None \<Rightarrow> UNIV | Some ss \<Rightarrow> set ss)"
proof -
  obtain b1 ws d1 where hk: "heartbeat_keys pe tid project user (list_runs user tid d) settle keys d = (b1, ws, d1)"
    using prod_cases3 by blast
  have "b = no_beat \<or> b = b1"
    using assms hk by (auto simp: heartbeat_pending_def Let_def
        split: if_splits list.splits option.splits prod.splits persist_outcome.splits)
  with heartbeat_keys_sound [OF hk] show ?thesis by (auto simp: no_beat_def)
qed

section \<open>What a wait claims\<close>

text \<open>The messages a wait claims, each with the key and the entry of its report at that time.\<close>

fun await_claims :: "await_call \<Rightarrow> wait_slice list \<Rightarrow> await_state \<Rightarrow> store \<Rightarrow> (inbox_msg \<times> string \<times> entry) list" where
  "await_claims c [] st d = []"
| "await_claims c (w # ws) st d =
     (let d1 = snd (drain_one (ws_draining w) (ws_inbox_ok w) (ac_lead c) (ws_claims w) (ws_before w d)) in
      case await_pass c w st d of (r, m, d2) \<Rightarrow>
        (case m of None \<Rightarrow> [] | Some x \<Rightarrow> [(x, report_key (im_from x) d1, report_entry x d1)])
        @ (case r of Inr (True, st1) \<Rightarrow> await_claims c ws st1 d2 | _ \<Rightarrow> []))"

lemma map_of_updates_other:
  "length ks = length vs \<Longrightarrow> k \<notin> set ks \<Longrightarrow> map_of (AList.updates ks vs al) k = map_of al k"
  by (simp add: updates_conv' map_upds_apply_nontin)

lemma updates_keys:
  "fst ` set (AList.updates (map fst ps) (map snd ps) al) = fst ` set al \<union> fst ` set ps"
proof (induction ps arbitrary: al)
  case (Cons p ps)
  have "fst ` set (AList.update k v xs) = insert k (fst ` set xs)" for k v and xs :: "('a \<times> 'b) list"
    by (simp flip: dom_map_of_conv_image_fst add: update_conv')
  with Cons show ?case by (cases p) (auto simp: AList.updates_def)
qed simp

lemma idle_pass_sound:
  assumes "idle_pass c w st d = (Inr (go, st'), d')"
  shows "aw_inject st' = aw_inject st
    \<and> (\<forall>k e. map_of (aw_collected st) k = Some e \<longrightarrow> map_of (aw_collected st') k = Some e)
    \<and> fst ` set (aw_collected st') \<subseteq> fst ` set (aw_collected st) \<union> set (aw_terminal st)
    \<and> (\<forall>k \<in> set (aw_terminal st') - set (aw_terminal st). k \<in> set (ac_target c)
         \<and> stopped_member (ws_probe w) (list_runs (ac_user c) (ac_task c) d) k)"
proof -
  define pending where "pending = still_pending c st"
  define settle where "settle = filter (\<lambda>k. k \<in> set (aw_terminal st)) pending"
  obtain r d1 where beat: "(if pending = [] then (Inr no_beat, d)
      else heartbeat_pending (ws_probe w) (ac_task c) (ac_project c) pending (ac_user c) (Some settle) d) = (r, d1)"
    by fastforce
  have "still_pending c (st\<lparr>aw_slices := Suc (aw_slices st)\<rparr>) = pending"
    by (simp add: pending_def still_pending_def)
  with assms beat obtain b where r: "r = Inr b"
    and st': "aw_collected st' = AList.updates (map fst (hb_settled b)) (map snd (hb_settled b)) (aw_collected st)"
      "aw_terminal st' = aw_terminal st @ hb_terminal b" "aw_inject st' = aw_inject st"
    by (auto simp: idle_pass_def Let_def settle_def split: sum.splits if_splits)
  have b: "(\<forall>k \<in> set (hb_terminal b). k \<in> set pending \<and> stopped_member (ws_probe w) (list_runs (ac_user c) (ac_task c) d) k)
      \<and> fst ` set (hb_settled b) \<subseteq> set settle"
  proof (cases "pending = []")
    case True
    with beat r show ?thesis by (auto simp: no_beat_def)
  next
    case False
    with beat r heartbeat_pending_sound [of "ws_probe w" "ac_task c" "ac_project c" pending "ac_user c" "Some settle" d b d1]
    show ?thesis by auto
  qed
  have pend: "set settle \<subseteq> set pending" "set settle \<subseteq> set (aw_terminal st)"
    "set pending \<subseteq> set (ac_target c)" "set pending \<inter> fst ` set (aw_collected st) = {}"
    by (auto simp: settle_def pending_def still_pending_def)
  have "map_of (aw_collected st') k = Some e" if k: "map_of (aw_collected st) k = Some e" for k e
  proof -
    from k have "k \<in> fst ` set (aw_collected st)" by (metis dom_map_of_conv_image_fst domI)
    with b pend have "k \<notin> fst ` set (hb_settled b)" by blast
    with k show ?thesis unfolding st'(1) by (simp add: map_of_updates_other)
  qed
  moreover have "fst ` set (aw_collected st') = fst ` set (aw_collected st) \<union> fst ` set (hb_settled b)"
    unfolding st'(1) by (rule updates_keys)
  moreover have "\<forall>k \<in> set (aw_terminal st') - set (aw_terminal st). k \<in> set (ac_target c)
      \<and> stopped_member (ws_probe w) (list_runs (ac_user c) (ac_task c) d) k"
    unfolding st'(2) using b pend(3) by auto
  moreover have "fst ` set (hb_settled b) \<subseteq> set (aw_terminal st)" using b pend(2) by blast
  ultimately show ?thesis using st'(3) by blast
qed

section \<open>One pass and the whole wait\<close>

lemma drain_one_fields: "drain_one draining ok s env d = (m, d') \<Longrightarrow> m = None \<Longrightarrow> \<not> draining \<and> ok \<Longrightarrow> drain s 1 env d = ([], d')"
  by (auto simp: drain_one_def split: prod.splits list.splits)

text \<open>The last report of each key, and the last instruction, among the claimed messages.\<close>

definition instruction :: "inbox_msg \<Rightarrow> bool" where
  "instruction m = (im_kind m \<in> {''text'', ''revise_goal''})"

definition last_report :: "(inbox_msg \<times> string \<times> entry) list \<Rightarrow> string \<Rightarrow> entry option" where
  "last_report L = map_of (rev (map snd (filter (\<lambda>x. im_kind (fst x) = ''member_done'') L)))"

definition last_instruction :: "(inbox_msg \<times> string \<times> entry) list \<Rightarrow> (string \<times> string) option" where
  "last_instruction L = (case rev (filter (\<lambda>x. instruction (fst x)) L) of
     [] \<Rightarrow> None | x # _ \<Rightarrow> Some (im_text (fst x), im_from (fst x)))"

lemma last_report_append: "last_report (L @ M) k = (case last_report M k of None \<Rightarrow> last_report L k | Some e \<Rightarrow> Some e)"
  unfolding last_report_def by (simp add: map_add_def)

lemma last_instruction_append:
  "last_instruction (L @ M) = (case last_instruction M of None \<Rightarrow> last_instruction L | Some x \<Rightarrow> Some x)"
  by (simp add: last_instruction_def split: list.split)

text \<open>What a wait with these claims does to what it had.\<close>

definition hands_over :: "(inbox_msg \<times> string \<times> entry) list \<Rightarrow> await_state \<Rightarrow> await_state \<Rightarrow> bool" where
  "hands_over L st st' =
     ((\<forall>k e. last_report L k = Some e \<or> last_report L k = None \<and> map_of (aw_collected st) k = Some e
         \<longrightarrow> map_of (aw_collected st') k = Some e)
      \<and> aw_inject st' = (case last_instruction L of None \<Rightarrow> aw_inject st | Some x \<Rightarrow> Some x))"

lemma hands_over_refl [simp]: "hands_over [] st st"
  by (simp add: hands_over_def last_report_def last_instruction_def)

lemma hands_over_trans: "hands_over L st st1 \<Longrightarrow> hands_over M st1 st2 \<Longrightarrow> hands_over (L @ M) st st2"
  unfolding hands_over_def last_report_append last_instruction_append by (auto split: option.splits)

definition pass_claims :: "await_call \<Rightarrow> wait_slice \<Rightarrow> store \<Rightarrow> inbox_msg option \<Rightarrow> (inbox_msg \<times> string \<times> entry) list" where
  "pass_claims c w d m = (case m of None \<Rightarrow> []
     | Some x \<Rightarrow> (let d1 = snd (drain_one (ws_draining w) (ws_inbox_ok w) (ac_lead c) (ws_claims w) (ws_before w d))
         in [(x, report_key (im_from x) d1, report_entry x d1)]))"

lemma hands_over_one:
  "im_kind x = ''member_done'' \<Longrightarrow> hands_over [(x, k, e)] st (st\<lparr>aw_collected := AList.update k e (aw_collected st)\<rparr>)"
  "instruction x \<Longrightarrow> hands_over [(x, k, e)] st (st\<lparr>aw_inject := Some (im_text x, im_from x)\<rparr>)"
  "im_kind x \<noteq> ''member_done'' \<Longrightarrow> \<not> instruction x \<Longrightarrow> hands_over [(x, k, e)] st st"
  by (auto simp: hands_over_def last_report_def last_instruction_def instruction_def update_conv')

lemma await_pass_hands_over:
  assumes "await_pass c w st d0 = (Inr (go, st'), m, d')"
  shows "hands_over (pass_claims c w d0 m) st st' \<and> (go \<longrightarrow> (\<forall>x. m = Some x \<longrightarrow> \<not> instruction x))"
proof -
  let ?d = "ws_before w d0"
  obtain m1 d1 where dr: "drain_one (ws_draining w) (ws_inbox_ok w) (ac_lead c) (ws_claims w) ?d = (m1, d1)"
    by fastforce
  show ?thesis
  proof (cases "await_done c st \<or> ac_deadline c \<le> ws_now w
      \<or> \<not> actor_still_wanted (ws_db_ok w) (ac_lead c) LeadRole (ac_task c) (ac_project c) (ac_user c) ?d")
    case True
    then have "await_pass c w st d0 = (Inr (False, st), None, ?d)"
      unfolding await_pass_def Let_def by (auto split: if_split)
    with assms show ?thesis by (auto simp: pass_claims_def)
  next
    case False
    show ?thesis
    proof (cases m1)
      case None
      with assms False dr obtain d2 where "idle_pass c w st d1 = (Inr (go, st'), d2)" "m = None"
        by (auto simp: await_pass_def Let_def split: prod.splits)
      with idle_pass_sound [OF this(1)] show ?thesis
        by (simp add: pass_claims_def hands_over_def last_report_def last_instruction_def)
    next
      case (Some x)
      with assms False dr have m: "m = Some x" by (auto simp: await_pass_def Let_def split: prod.splits if_splits)
      consider (instr) "instruction x" | (report) "im_kind x = ''member_done''"
        | (other) "\<not> instruction x" "im_kind x \<noteq> ''member_done''" by blast
      then show ?thesis
      proof cases
        case instr
        with assms False dr Some hands_over_one(2) [OF instr] m show ?thesis
          by (auto simp: await_pass_def Let_def pass_claims_def instruction_def)
      next
        case report
        with assms False dr Some hands_over_one(1) [OF report] m show ?thesis
          by (auto simp: await_pass_def Let_def pass_claims_def instruction_def take_report_def)
      next
        case other
        with assms False dr Some hands_over_one(3) [OF other(2,1)] m show ?thesis
          by (auto simp: await_pass_def Let_def pass_claims_def instruction_def)
      qed
    qed
  qed
qed

lemma await_claims_Cons:
  "await_claims c (w # ws) st d = (case await_pass c w st d of (r, m, d2) \<Rightarrow>
     pass_claims c w d m @ (case r of Inr (True, st1) \<Rightarrow> await_claims c ws st1 d2 | _ \<Rightarrow> []))"
  by (simp add: pass_claims_def Let_def split: prod.split option.split)

lemma await_loop_hands_over:
  assumes "await_loop c ws st d = (Inr st', d')"
  shows "hands_over (await_claims c ws st d) st st'"
  using assms
proof (induction ws arbitrary: st d)
  case (Cons w ws)
  obtain r m d1 where pass: "await_pass c w st d = (r, m, d1)" using prod_cases3 by blast
  with Cons.prems obtain go st1 where r: "r = Inr (go, st1)" by (cases r) auto
  note one = conjunct1 [OF await_pass_hands_over [OF pass [unfolded r]]]
  have "hands_over (if go then await_claims c ws st1 d1 else []) st1 st'"
    using Cons.IH [of st1 d1] Cons.prems pass r by auto
  with hands_over_trans [OF one this] show ?case
    unfolding await_claims_Cons pass r by (cases go) simp_all
qed simp

lemma instruction_ends_claims:
  "await_claims c ws st d = xs @ (m, k, e) # ys \<Longrightarrow> instruction m \<Longrightarrow> ys = []"
proof (induction ws arbitrary: st d xs)
  case (Cons w ws)
  obtain r m1 d1 where pass: "await_pass c w st d = (r, m1, d1)" using prod_cases3 by blast
  have stop: "instruction x \<Longrightarrow> m1 = Some x \<Longrightarrow> r = Inr (go, st1) \<Longrightarrow> \<not> go" for x go st1
    using await_pass_hands_over pass by blast
  show ?case
  proof (cases xs)
    case Nil
    with Cons.prems pass stop show ?thesis
      unfolding await_claims_Cons pass
      by (cases m1) (auto simp: pass_claims_def Let_def split: sum.splits prod.splits bool.splits dest: Cons.IH [of _ _ "[]", simplified])
  next
    case (Cons y zs)
    with Cons.prems pass show ?thesis
      unfolding await_claims_Cons pass
      by (cases m1) (auto simp: pass_claims_def Let_def split: sum.splits prod.splits bool.splits dest: Cons.IH Cons.IH [of _ _ "_ # _", simplified])
  qed
qed simp

text \<open>Property C13: a wait never swallows a message.  What it claims from the lead's inbox it
  hands to the lead: a member's report is among the results unless a later report of the same
  subtask replaced it, and an instruction of the user ends the wait and is in the reply.\<close>
theorem wait_hands_over_what_it_claims:
  assumes "await_loop c ws await_start d = (Inr st, d')"
    and "await_claims c ws await_start d = xs @ (m, k, e) # ys"
  shows "(im_kind m = ''member_done'' \<and> \<not> list_ex (\<lambda>x. im_kind (fst x) = ''member_done'' \<and> fst (snd x) = k) ys
            \<longrightarrow> e \<in> set (ar_results (await_reply_of c final st d')))
    \<and> (instruction m \<longrightarrow> ys = [] \<and> ar_inject (await_reply_of c final st d') = Some (im_text m, im_from m))"
proof -
  from await_loop_hands_over [OF assms(1)]
  have over: "hands_over (xs @ [(m, k, e)] @ ys) await_start st" using assms(2) by simp
  have "map_of (aw_collected st) k = Some e"
    if "im_kind m = ''member_done''" "\<not> list_ex (\<lambda>x. im_kind (fst x) = ''member_done'' \<and> fst (snd x) = k) ys"
  proof -
    have "last_report ys k = None"
      using that(2) by (auto simp: last_report_def map_of_eq_None_iff list_ex_iff)
    moreover have "last_report [(m, k, e)] k = Some e" using that(1) by (simp add: last_report_def)
    ultimately have "last_report (xs @ [(m, k, e)] @ ys) k = Some e"
      by (simp only: last_report_append option.case)
    with over show ?thesis unfolding hands_over_def by blast
  qed
  moreover have "ys = [] \<and> aw_inject st = Some (im_text m, im_from m)" if "instruction m"
  proof -
    have "ys = []" by (rule instruction_ends_claims [OF assms(2) that])
    moreover from this that have "last_instruction (xs @ [(m, k, e)] @ ys) = Some (im_text m, im_from m)"
      by (simp add: last_instruction_def)
    ultimately show ?thesis using over by (simp add: hands_over_def)
  qed
  ultimately show ?thesis
    by (force simp: await_reply_of_def Let_def dest: map_of_SomeD)
qed

text \<open>The backstop leaves a member time to report: a pass without a message adds
  results only for members an earlier pass of the same wait had seen stopped, and it marks
  as stopped only members whose session does not run.\<close>
theorem backstop_gives_a_pass_of_grace:
  assumes "await_pass c w st d = (Inr (go, st'), None, d')"
  shows "fst ` set (aw_collected st') \<subseteq> fst ` set (aw_collected st) \<union> set (aw_terminal st)
    \<and> (\<forall>k. k \<in> set (aw_terminal st') \<and> k \<notin> set (aw_terminal st) \<longrightarrow>
          (\<exists>d1. stopped_member (ws_probe w) (list_runs (ac_user c) (ac_task c) d1) k))"
proof (cases "aw_collected st' = aw_collected st \<and> aw_terminal st' = aw_terminal st")
  case False
  with assms obtain d1 d2 where "idle_pass c w st d1 = (Inr (go, st'), d2)"
    by (auto simp: await_pass_def Let_def split: if_splits option.splits prod.splits)
  from idle_pass_sound [OF this] show ?thesis by blast
qed auto

end
