(* ===== verification/Actor.thy ===== *)
theory Actor
  imports MemberFacts
begin

text \<open>
  \<^verbatim>\<open>backend/valuz_agent/modules/tasks/actor_runner.py\<close>: the persistent loop of a lead or a
  member: run a turn, wait for a message that warrants another, until somebody stops the
  actor, its lease is lost, a turn fails or nothing is left to wait for; then finalize, once,
  while the actor still owns its session.  What a loop meets (the outcome of its turns, the
  clock, the drain flag, the fence, what other processes commit) is given as lists, one
  element per turn, wait and pass.
\<close>

section \<open>Tuning\<close>

definition actor_max_turns :: nat where "actor_max_turns = 60"

text \<open>Times are in milliseconds.\<close>

definition idle_ttl :: "actor_role \<Rightarrow> int" where
  "idle_ttl role = (case role of LeadRole \<Rightarrow> 1800000 | MemberRole \<Rightarrow> 600000)"

definition max_idle_extensions :: nat where "max_idle_extensions = 6"

definition lead_reconcile_slice :: int where "lead_reconcile_slice = 30000"

section \<open>One turn\<close>

text \<open>What a turn's message says of it; \<open>None\<close> is a turn without a message.\<close>

definition interrupt_categories :: "json list" where
  "interrupt_categories = [JStr ''user_interrupt'', JStr ''interrupted'']"

definition resolve_turn_status :: "stop_reason option \<Rightarrow> string" where
  "resolve_turn_status msg = (case msg of
     None \<Rightarrow> ''idle''
   | Some sr \<Rightarrow> (case dget (stop_reason_dict sr) ''type'' of
        JStr ty \<Rightarrow> if contains_sub ''error'' ty
          then (if dget (stop_reason_dict sr) ''category'' \<in> set interrupt_categories then ''interrupted'' else ''terminated'')
          else ''idle''
      | _ \<Rightarrow> ''idle''))"

text \<open>The kernel returns, or raises; then the session is read again, if that works.\<close>

datatype turn_outcome = TurnReturned "stop_reason option" | TurnRaised "stop_reason option option"

definition run_turn :: "turn_outcome \<Rightarrow> string" where
  "run_turn out = (case out of
     TurnReturned msg \<Rightarrow> resolve_turn_status msg
   | TurnRaised loaded \<Rightarrow> (case loaded of
        Some s \<Rightarrow> if resolve_turn_status s = ''interrupted'' then ''interrupted'' else ''terminated''
      | None \<Rightarrow> ''terminated''))"

section \<open>Prompts\<close>

definition task_goal :: "bool \<Rightarrow> string \<Rightarrow> string \<Rightarrow> string \<Rightarrow> store \<Rightarrow> string" where
  "task_goal read_ok tid project user d = (if \<not> read_ok then [] else
     (case get_task_by_project user project tid d of None \<Rightarrow> [] | Some t \<Rightarrow> strip (tr_goal t)))"

text \<open>The dash is written as its UTF-8 bytes.\<close>

definition with_goal_restated :: "string \<Rightarrow> string \<Rightarrow> string" where
  "with_goal_restated goal body = (if goal = [] then body
     else ''<task-goal>'' @ goal @ ''</task-goal>'' @ [newline, newline]
       @ ''The goal above is unchanged '' @ [CHR 0xE2, CHR 0x80, CHR 0x94]
       @ '' it is what you are still driving.'' @ [newline, newline] @ body)"

definition done_guidance :: "string \<Rightarrow> string" where
  "done_guidance status =
     (if status \<in> set non_reviewable_done then
        ''The member above did NOT deliver '' @ [CHR 0xE2, CHR 0x80, CHR 0x94] @ '' its run ''
        @ ''ended with status '' @ [CHR 0x27] @ status @ [CHR 0x27] @ '' and its plan node is now in ''
        @ [CHR 0x27] @ ''rework'' @ [CHR 0x27] @ ''. There is nothing to review. Decide next: re-dispatch ''
        @ ''the subtask (dispatch + await_members), adjust the plan ''
        @ ''(modify_plan), or '' @ [CHR 0xE2, CHR 0x80, CHR 0x94] @ '' if the user cancelled it on purpose and the ''
        @ ''goal is unreachable without it '' @ [CHR 0xE2, CHR 0x80, CHR 0x94] @ '' finish_task(status=''
        @ [CHR 0x27] @ ''stopped'' @ [CHR 0x27] @ '').''
      else
        ''The member above went idle. Review its result (review_subtask), ''
        @ ''then either send it a follow-up (send), dispatch more work ''
        @ ''(dispatch + await_members), or call finish_task if the overall ''
        @ ''goal is met.'')"

text \<open>The artifacts of a manifest are dicts.\<close>

definition artifact_line :: "json \<Rightarrow> string" where
  "artifact_line a = ''- '' @ py_str (case a of JDict kvs \<Rightarrow> dget kvs ''path'' | _ \<Rightarrow> JNull)"

definition format_member_done :: "inbox_msg \<Rightarrow> string" where
  "format_member_done m =
     (let pl = im_payload m;
          status = plain_str (dget pl ''status'');
          arts = (case dget pl ''artifacts'' of JList (a # as) \<Rightarrow>
                    join_with [newline] (map artifact_line (a # as)) | _ \<Rightarrow> ''(none)'');
          quoted = (\<lambda>s. [CHR 0x22] @ s @ [CHR 0x22])
      in ''<member-result agent='' @ quoted (py_str (dget_or pl ''agent'' (JStr [])))
         @ '' session='' @ quoted (im_from m) @ '' status='' @ quoted status @ ''>'' @ [newline]
         @ py_str (dget_or pl ''summary'' (JStr [])) @ [newline, newline]
         @ ''Artifacts:'' @ [newline] @ arts @ [newline]
         @ ''</member-result>'' @ [newline, newline] @ done_guidance status)"

text \<open>The next turn's prompt, and the goal to restate from then on.\<close>

definition next_prompt :: "actor_role \<Rightarrow> string \<Rightarrow> inbox_msg \<Rightarrow> string \<times> string" where
  "next_prompt role goal m =
     (let restated = (\<lambda>body. if role = LeadRole then with_goal_restated goal body else body) in
      if im_kind m = ''member_done'' then (restated (format_member_done m), goal)
      else if im_kind m = ''revise_goal'' then (im_text m, if role = LeadRole then im_text m else goal)
      else (restated (im_text m), goal))"

section \<open>Waiting for a message\<close>

record actor_call =
  xc_session :: string
  xc_role :: actor_role
  xc_task :: string
  xc_project :: string
  xc_user :: string

text \<open>
  One pass of the wait: the clock at its start, at the check of the slower cadence and before
  parking; whether the stop state can be read, the fence is raised, the process drains (at
  the drain and at the recovery), the inbox can be read; and what others commit.
\<close>

record wake_slice =
  wk_now :: int
  wk_later :: int
  wk_last :: int
  wk_db_ok :: bool
  wk_fenced :: bool
  wk_draining :: bool
  wk_draining_later :: bool
  wk_inbox_ok :: bool
  wk_before :: "store \<Rightarrow> store"
  wk_claims :: "(store \<Rightarrow> store) list"
  wk_probe :: probe_env
  wk_between :: "store \<Rightarrow> store"

datatype wake = Woken inbox_msg | StoppedExternally | OwnershipMoved | TimedOut

text \<open>The slower duty of a lead: members that crashed.  \<open>True\<close>: look at the inbox again at once.\<close>

definition reconcile_pass :: "actor_call \<Rightarrow> int \<Rightarrow> wake_slice \<Rightarrow> store \<Rightarrow> bool \<times> int \<times> store" where
  "reconcile_pass c next w d =
     (if xc_role c = LeadRole \<and> \<not> wk_draining_later w \<and> next \<le> wk_later w
      then (case recover_crashed_members (wk_probe w) (wk_between w) (xc_task c) (xc_project c) (xc_user c) d of
              (Inl e, d1) \<Rightarrow> (False, wk_later w + lead_reconcile_slice, d1)
            | (Inr n, d1) \<Rightarrow> (0 < n, wk_later w + lead_reconcile_slice, d1))
      else (False, next, d))"

text \<open>A list of passes that ends is a wait that ran into its deadline.\<close>

fun await_wakeup :: "actor_call \<Rightarrow> int \<Rightarrow> int \<Rightarrow> wake_slice list \<Rightarrow> store \<Rightarrow> wake \<times> store" where
  "await_wakeup c deadline next [] d = (TimedOut, d)"
| "await_wakeup c deadline next (w # ws) d0 =
     (let d = wk_before w d0 in
      if deadline \<le> wk_now w then (TimedOut, d)
      else if \<not> actor_still_wanted (wk_db_ok w) (xc_session c) (xc_role c) (xc_task c) (xc_project c) (xc_user c) d
      then (StoppedExternally, d)
      else if wk_fenced w then (OwnershipMoved, d)
      else (case drain_one (wk_draining w) (wk_inbox_ok w) (xc_session c) (wk_claims w) d of
        (Some m, d1) \<Rightarrow> (Woken m, d1)
      | (None, d1) \<Rightarrow>
          (case reconcile_pass c next w d1 of (again, next', d2) \<Rightarrow>
             if \<not> again \<and> deadline \<le> wk_last w then (TimedOut, d2)
             else await_wakeup c deadline next' ws d2)))"

text \<open>One wait: when it starts, its passes, and whether the session then still has background
  work.\<close>

record idle_wait =
  wt_start :: int
  wt_passes :: "wake_slice list"
  wt_background :: bool

datatype wait_end = Wake inbox_msg | LeaveQuietly | IdleExpired | WaitRaised plan_exn

text \<open>A report the lead has nothing left to do about.\<close>

definition needs_no_turn :: "actor_call \<Rightarrow> inbox_msg \<Rightarrow> store \<Rightarrow> plan_exn + bool" where
  "needs_no_turn c m d = (if im_kind m = ''member_done'' \<and> xc_role c = LeadRole
     then member_already_settled (xc_task c) (xc_project c) (im_from m) (xc_user c) d else Inr False)"

fun wait_for_work :: "actor_call \<Rightarrow> idle_wait list \<Rightarrow> nat \<Rightarrow> store \<Rightarrow> wait_end \<times> nat \<times> store" where
  "wait_for_work c [] ext d = (IdleExpired, ext, d)"
| "wait_for_work c (w # ws) ext d =
     (case await_wakeup c (wt_start w + idle_ttl (xc_role c)) (wt_start w + lead_reconcile_slice) (wt_passes w) d of
        (StoppedExternally, d1) \<Rightarrow> (LeaveQuietly, ext, d1)
      | (OwnershipMoved, d1) \<Rightarrow> (LeaveQuietly, ext, d1)
      | (TimedOut, d1) \<Rightarrow>
          (if ext < max_idle_extensions \<and> wt_background w then wait_for_work c ws (Suc ext) d1
           else (IdleExpired, ext, d1))
      | (Woken m, d1) \<Rightarrow>
          (case needs_no_turn c m d1 of
             Inl e \<Rightarrow> (WaitRaised e, ext, d1)
           | Inr True \<Rightarrow> wait_for_work c ws ext d1
           | Inr False \<Rightarrow> (Wake m, ext, d1)))"

section \<open>The loop\<close>

text \<open>
  One turn and what follows it: the drain flag and the fence before it, the turn itself (its
  tool calls and what others do meanwhile) and its outcome, the member's report, the
  questions and the waits after it.
\<close>

record turn_env =
  te_before :: "store \<Rightarrow> store"
  te_draining :: bool
  te_fenced :: bool
  te_turn :: "string \<Rightarrow> store \<Rightarrow> store"
  te_outcome :: turn_outcome
  te_manifest :: "string \<Rightarrow> entry"
  te_log_ok :: bool
  te_between :: "store \<Rightarrow> store"
  te_background :: bool
  te_idle_between :: "store \<Rightarrow> store"
  te_waits :: "idle_wait list"
  te_goal_ok :: bool
  te_writers :: "(store \<Rightarrow> store) list"

record loop_state =
  lp_prompt :: string
  lp_goal :: string
  lp_status :: string
  lp_turns :: nat
  lp_extensions :: nat
  lp_shutdown :: bool

definition failed_turn :: "string \<Rightarrow> bool" where
  "failed_turn status = (status \<in> {''terminated'', ''error'', ''interrupted''})"

text \<open>After the turn: whether the loop ends here, by itself or by an exception.\<close>

definition lead_is_done :: "actor_call \<Rightarrow> turn_env \<Rightarrow> store \<Rightarrow> plan_exn + bool" where
  "lead_is_done c t d = (if xc_role c = LeadRole \<and> \<not> has_pending (xc_session c) d
     then lead_idle_with_no_pending (te_background t) (te_idle_between t) (xc_task c) (xc_project c)
            (xc_user c) (xc_session c) d
     else Inr False)"

definition after_turn :: "actor_call \<Rightarrow> turn_env \<Rightarrow> string \<Rightarrow> store \<Rightarrow> store" where
  "after_turn c t status d = (if xc_role c = MemberRole \<and> status \<noteq> ''interrupted''
     then notify_lead_member_idle (te_manifest t) (te_log_ok t) (te_between t) (xc_session c) status (xc_user c) d
     else d)"

text \<open>What a message turns into: the loop's next prompt and goal, and the reviewed node.\<close>

definition take_message :: "actor_call \<Rightarrow> turn_env \<Rightarrow> inbox_msg \<Rightarrow> loop_state \<Rightarrow> store \<Rightarrow> loop_state \<times> store" where
  "take_message c t m lp d =
     (let goal = (if xc_role c = LeadRole \<and> lp_goal lp = []
                  then task_goal (te_goal_ok t) (xc_task c) (xc_project c) (xc_user c) d else lp_goal lp);
          d1 = (if im_kind m = ''member_done'' \<and> xc_role c = LeadRole \<and> im_from m \<noteq> [] \<and> reviewable m
                then mark_in_review (xc_task c) (xc_project c) (im_from m) (xc_user c) (te_writers t) d else d)
      in (lp\<lparr>lp_prompt := fst (next_prompt (xc_role c) goal m), lp_goal := snd (next_prompt (xc_role c) goal m)\<rparr>, d1))"

text \<open>A list of turns that ends is a process that drains.\<close>

fun actor_turns :: "actor_call \<Rightarrow> turn_env list \<Rightarrow> loop_state \<Rightarrow> store
    \<Rightarrow> (loop_state \<times> plan_exn option) \<times> store" where
  "actor_turns c [] lp d = ((lp\<lparr>lp_shutdown := True\<rparr>, None), d)"
| "actor_turns c (t # ts) lp d0 =
     (let d = te_before t d0 in
      if te_draining t \<or> te_fenced t then ((lp\<lparr>lp_shutdown := True\<rparr>, None), d)
      else
       (let status = run_turn (te_outcome t);
            lp1 = lp\<lparr>lp_status := status, lp_turns := Suc (lp_turns lp)\<rparr>;
            d1 = after_turn c t status (te_turn t (lp_prompt lp) d)
        in if failed_turn status \<or> actor_max_turns \<le> lp_turns lp1 then ((lp1, None), d1)
           else (case lead_is_done c t d1 of
              Inl e \<Rightarrow> ((lp1, Some e), d1)
            | Inr True \<Rightarrow> ((lp1, None), d1)
            | Inr False \<Rightarrow>
                (case wait_for_work c (te_waits t) (lp_extensions lp1) d1 of
                   (LeaveQuietly, ext, d2) \<Rightarrow> ((lp1\<lparr>lp_extensions := ext, lp_shutdown := True\<rparr>, None), d2)
                 | (IdleExpired, ext, d2) \<Rightarrow> ((lp1\<lparr>lp_extensions := ext\<rparr>, None), d2)
                 | (WaitRaised e, ext, d2) \<Rightarrow> ((lp1\<lparr>lp_extensions := ext\<rparr>, Some e), d2)
                 | (Wake m, ext, d2) \<Rightarrow>
                     (case take_message c t m (lp1\<lparr>lp_extensions := ext\<rparr>) d2 of
                        (lp2, d3) \<Rightarrow> actor_turns c ts lp2 d3)))))"

section \<open>Start and end of a loop\<close>

text \<open>
  The ends of a loop: who runs it and when it acquires its lease, what the renewer and other
  processes do to the lease meanwhile, the fence and the last renewal, the drain flag at the
  end, and what finalization reads.
\<close>

record actor_env =
  ae_me :: string
  ae_exclusive :: bool
  ae_start :: int
  ae_grab :: "lease_table \<Rightarrow> lease_table"
  ae_leases :: "lease \<times> lease_table \<Rightarrow> lease \<times> lease_table"
  ae_fenced :: bool
  ae_renewal :: db_outcome
  ae_end :: int
  ae_draining :: bool
  ae_goal_ok :: bool
  ae_memory :: memory_port
  ae_msg :: "string \<Rightarrow> string"
  ae_kernel :: "string \<Rightarrow> string \<Rightarrow> string \<Rightarrow> store \<Rightarrow> store"
  ae_stop_reason :: "json option"
  ae_last_text :: string
  ae_manifest :: "string \<Rightarrow> entry"
  ae_intf :: "store \<Rightarrow> store"
  ae_writers :: "(store \<Rightarrow> store) list"

definition first_state :: "actor_call \<Rightarrow> bool \<Rightarrow> string \<Rightarrow> store \<Rightarrow> loop_state" where
  "first_state c goal_ok prompt d =
     \<lparr>lp_prompt = prompt, lp_goal = (if xc_role c = LeadRole
        then task_goal goal_ok (xc_task c) (xc_project c) (xc_user c) d else []),
      lp_status = ''idle'', lp_turns = 0, lp_extensions = 0, lp_shutdown = False\<rparr>"

text \<open>An exception of the finalization leaves the \<open>finally\<close> block before the release.\<close>

fun auto_raised :: "auto_outcome \<Rightarrow> bool" where
  "auto_raised (AutoRaised e) = True"
| "auto_raised (AutoParked r) = (\<exists>e. r = Inl e)"
| "auto_raised (AutoBlocked r) = (\<exists>e. r = FinRaised e)"
| "auto_raised (AutoCompleted r) = (\<exists>e. r = FinRaised e)"
| "auto_raised AutoSkipped = False"

lemma auto_raised_code [code]:
  "auto_raised (AutoParked r) = (case r of Inl _ \<Rightarrow> True | Inr _ \<Rightarrow> False)"
  "auto_raised (AutoBlocked f) = (case f of FinRaised _ \<Rightarrow> True | _ \<Rightarrow> False)"
  "auto_raised (AutoCompleted f) = (case f of FinRaised _ \<Rightarrow> True | _ \<Rightarrow> False)"
  "auto_raised (AutoRaised e) = True" "auto_raised AutoSkipped = False"
  by (auto split: sum.split final_reply.split)

text \<open>The \<open>finally\<close> block.\<close>

definition close_actor :: "actor_call \<Rightarrow> actor_env \<Rightarrow> lease \<Rightarrow> loop_state \<Rightarrow> store \<times> lease_table
    \<Rightarrow> store \<times> lease_table" where
  "close_actor c e l lp s =
     (case s of (d, L) \<Rightarrow>
     (case (if ae_fenced e then (False, l, L) else renew (ae_renewal e) (ae_end e) l L) of
        (False, l1, L1) \<Rightarrow> (d, L1)
      | (True, l1, L1) \<Rightarrow>
          (case (if ae_draining e then (AutoSkipped, d)
                 else finalize_actor (ae_memory e) (ae_msg e) (ae_kernel e) (ae_stop_reason e) (ae_last_text e)
                        (ae_manifest e (xc_session c)) (ae_intf e) (ae_writers e) (xc_session c) (lp_prompt lp)
                        (lp_status lp) (xc_role c) (xc_task c) (xc_project c) (lp_shutdown lp) (xc_user c) d) of
             (out, d1) \<Rightarrow> (d1, if auto_raised out then L1 else release_lease l1 L1))))"

datatype actor_end = NotRun | Ran loop_state "plan_exn option"

text \<open>\<open>handed\<close> is a lease the caller already holds.\<close>

definition run_actor_loop :: "actor_call \<Rightarrow> actor_env \<Rightarrow> lease option \<Rightarrow> string \<Rightarrow> turn_env list
    \<Rightarrow> store \<times> lease_table \<Rightarrow> actor_end \<times> store \<times> lease_table" where
  "run_actor_loop c e handed prompt turns s =
     (case s of (d, L) \<Rightarrow>
     (case (case handed of
              Some l \<Rightarrow> (Some l, L)
            | None \<Rightarrow> acquire_actor_lease (ae_me e) (ae_exclusive e) (ae_start e) (xc_session c) (xc_task c) (ae_grab e) L) of
        (None, L1) \<Rightarrow> (NotRun, d, L1)
      | (Some l, L1) \<Rightarrow>
          (case actor_turns c turns (first_state c (ae_goal_ok e) prompt d) d of
             ((lp, exn), d1) \<Rightarrow>
               (case ae_leases e (l, L1) of (l2, L2) \<Rightarrow>
                  (Ran lp exn, close_actor c e l2 lp (d1, L2))))))"

end
