(* ===== verification/ActorFacts.thy ===== *)
theory ActorFacts
  imports Actor
begin

text \<open>
  The loop of an actor: it runs no turn without a message of its own inbox, it ends within a
  fixed number of turns, it takes the oldest message while it is wanted, and it writes
  nothing once it lost its session.  The first section follows the mailbox through
  everything a loop does.
\<close>

section \<open>The mailbox only moves forward\<close>

text \<open>No row disappears or changes hands, and a consumed row stays consumed.\<close>

definition mail_later :: "store \<Rightarrow> store \<Rightarrow> bool" where
  "mail_later d d' = (mail_ok d \<longrightarrow> mail_ok d' \<and> (\<forall>m \<in> set (mailbox d). \<exists>m' \<in> set (mailbox d').
     mb_id m' = mb_id m \<and> mb_session m' = mb_session m \<and> (mb_state m = MConsumed \<longrightarrow> mb_state m' = MConsumed)))"

lemma mail_later_same: "mailbox d' = mailbox d \<Longrightarrow> mail_later d d'"
  by (auto simp: mail_later_def mail_ok_def)

lemma mail_later_refl [simp]: "mail_later d d"
  by (rule mail_later_same) simp

lemma mail_later_trans [trans]: "mail_later d d1 \<Longrightarrow> mail_later d1 d2 \<Longrightarrow> mail_later d d2"
  unfolding mail_later_def by (metis (no_types, lifting))

lemma mail_later_ok: "mail_later d d' \<Longrightarrow> mail_ok d \<Longrightarrow> mail_ok d'"
  by (simp add: mail_later_def)

text \<open>The messages of a session that some loop has taken.\<close>

definition taken :: "string \<Rightarrow> store \<Rightarrow> nat set" where
  "taken s d = {i. \<exists>m \<in> set (mailbox d). mb_id m = i \<and> mb_session m = s \<and> mb_state m = MConsumed}"

lemma finite_taken [simp]: "finite (taken s d)"
proof -
  have "taken s d \<subseteq> mb_id ` set (mailbox d)" by (auto simp: taken_def)
  then show ?thesis by (rule finite_subset) simp
qed

lemma mail_later_taken: "mail_later d d' \<Longrightarrow> mail_ok d \<Longrightarrow> taken s d \<subseteq> taken s d'"
  unfolding mail_later_def taken_def by fastforce

lemma enqueue_later: "enqueue s t p u k tx fr og pl d = Some d' \<Longrightarrow> mail_later d d'"
  using enqueue_ok [of s t p u k tx fr og pl d d']
  by (auto simp: mail_later_def dest!: enqueue_Some)

lemma claim_row_later: "mail_later d (snd (claim_row i d))"
proof (cases "mail_ok d")
  case True
  obtain w d' where c: "claim_row i d = (w, d')" by fastforce
  have "mail_ok d'" using claim_row_ok [OF c True] .
  moreover have "\<exists>m' \<in> set (mailbox d'). mb_id m' = mb_id m \<and> mb_session m' = mb_session m
      \<and> (mb_state m = MConsumed \<longrightarrow> mb_state m' = MConsumed)" if m: "m \<in> set (mailbox d)" for m
  proof -
    let ?m' = "if mb_id m = i \<and> mb_state m = MPending then mark_consumed d m else m"
    have "?m' \<in> set (mailbox d')"
      using c m by (force simp: claim_row_def Let_def set_update_where)
    then show ?thesis by (rule bexI [rotated]) (simp add: mark_consumed_def)
  qed
  ultimately show ?thesis using c by (simp add: mail_later_def)
qed (simp add: mail_later_def)

text \<open>What others do is only assumed to move the mailbox forward.\<close>

definition mail_env :: "(store \<Rightarrow> store) \<Rightarrow> bool" where
  "mail_env f = (\<forall>d. mail_later d (f d))"

lemma mail_envD: "mail_env f \<Longrightarrow> mail_later d (f d)"
  by (simp add: mail_env_def)

lemma mail_env_id [simp]: "mail_env (\<lambda>d. d)"
  by (simp add: mail_env_def)

lemma persist_rounds_later:
  assumes "persist_rounds n env mutate a se u row d = (r, row', d')" "list_all mail_env env"
  shows "mail_later d d'"
  using assms
proof (induction n arbitrary: env row d)
  case (Suc n)
  define f where "f = (case env of [] \<Rightarrow> (\<lambda>s. s) | g # _ \<Rightarrow> g)"
  define rest where "rest = (case env of [] \<Rightarrow> [] | _ # gs \<Rightarrow> gs)"
  have ok: "mail_later d (f d)" "list_all mail_env rest"
    using Suc.prems(2) by (auto simp: f_def rest_def mail_envD split: list.splits)
  show ?case
  proof (cases "rbind (plan_from_dict (tr_plan row)) mutate")
    case (Inl e)
    with Suc.prems show ?thesis by (auto simp: Let_def)
  next
    case (Inr o')
    show ?thesis
    proof (cases o')
      case None
      with Inr Suc.prems show ?thesis by (auto simp: Let_def)
    next
      case (Some p)
      obtain res d2 where c: "cas_update_plan u row (plan_to_dict p) (tr_plan_version row) (f d) = (res, d2)"
        by fastforce
      then have "mailbox d2 = mailbox (f d)" by (auto simp: cas_update_plan_def Let_def)
      with ok(1) have d2: "mail_later d d2" by (blast intro: mail_later_trans mail_later_same)
      show ?thesis
      proof (cases res)
        case None
        with Suc.prems(1) Inr Some c d2 show ?thesis by (auto simp: Let_def simp flip: f_def rest_def)
      next
        case (Some wr)
        obtain w r2 where wr: "wr = (w, r2)" by (cases wr)
        with Suc.prems(1) Inr \<open>o' = Some p\<close> c Some
        have "if w then mailbox d' = mailbox d2 else persist_rounds n rest mutate a se u r2 d2 = (r, row', d')"
          by (auto simp: Let_def emit_plan_update_def append_event_store simp flip: f_def rest_def)
        then have "mail_later d2 d'" using Suc.IH ok(2) mail_later_same by (cases w) auto
        with d2 show ?thesis by (rule mail_later_trans)
      qed
    qed
  qed
qed simp

lemma persist_best_effort_later:
  assumes "persist_plan_best_effort env mutate a se u row d = (r, row', d')" "list_all mail_env env"
  shows "mail_later d d'"
proof -
  obtain r0 row0 d0 where p: "persist_plan env mutate a se u row d = (r0, row0, d0)"
    using prod_cases3 by blast
  with assms(1) have "d' = d0"
    by (auto simp: persist_plan_best_effort_def split: persist_outcome.splits)
  with persist_rounds_later [OF p [unfolded persist_plan_def] assms(2)] show ?thesis by simp
qed

section \<open>What a loop does to the mailbox\<close>

lemma mark_in_review_later:
  assumes "list_all mail_env env"
  shows "mail_later d (mark_in_review t p m u env d)"
proof -
  have "mail_later d (snd (snd (persist_plan_best_effort env f a se u row d)))" for f a se row
    using persist_best_effort_later [OF _ assms] by (metis prod.collapse)
  then show ?thesis by (auto simp: mark_in_review_def Let_def split: option.splits)
qed

definition probe_ok :: "probe_env \<Rightarrow> bool" where
  "probe_ok pe = ((\<forall>k. mail_env (pe_meanwhile pe k)) \<and> list_all mail_env (pe_writers pe))"

lemma settle_stopped_mailbox:
  "mailbox (snd (settle_stopped pe t p u k r d)) = mailbox d"
  by (auto simp: settle_stopped_def Let_def update_run_by_session_def record_subtask_failed_def
      append_event_store split: disposition.split)

lemma heartbeat_keys_later:
  assumes "probe_ok pe"
  shows "mail_later d (snd (snd (heartbeat_keys pe t p u rs settle keys d)))"
proof (induction keys arbitrary: d)
  case (Cons key keys)
  show ?case
  proof (cases "open_run rs key")
    case None
    with Cons show ?thesis by simp
  next
    case (Some r)
    let ?d1 = "pe_meanwhile pe key d"
    let ?acted = "if settle \<noteq> None \<and> key \<notin> set (the settle) then (None, ?d1)
      else settle_stopped pe t p u key r ?d1"
    have d1: "mail_later d ?d1" using assms by (simp add: probe_ok_def mail_envD)
    have d2: "mail_later ?d1 (snd ?acted)" by (rule mail_later_same) (simp add: settle_stopped_mailbox)
    have "mail_later d (snd (snd (heartbeat_keys pe t p u rs settle keys ?d1)))"
      "mail_later d (snd (snd (heartbeat_keys pe t p u rs settle keys (snd ?acted))))"
      using mail_later_trans [OF d1 Cons] mail_later_trans [OF mail_later_trans [OF d1 d2] Cons] .
    with Some show ?thesis by (auto simp: Let_def split: prod.splits)
  qed
qed simp

lemma heartbeat_pending_later:
  assumes "probe_ok pe" "heartbeat_pending pe t p keys u settle d = (r, d')"
  shows "mail_later d d'"
proof -
  obtain b ws d1 where hk: "heartbeat_keys pe t p u (list_runs u t d) settle keys d = (b, ws, d1)"
    using prod_cases3 by blast
  with heartbeat_keys_later [OF assms(1)] have d1: "mail_later d d1" by (metis snd_conv)
  have w: "list_all mail_env (pe_writers pe)" using assms(1) by (simp add: probe_ok_def)
  from assms(2) hk have "d' = d \<or> d' = d1
      \<or> (\<exists>f se row x y. persist_plan_best_effort (pe_writers pe) f ''system'' se u row d1 = (x, y, d'))"
    by (auto simp: heartbeat_pending_def Let_def split: if_splits list.splits option.splits
        prod.splits persist_outcome.splits)
  with d1 persist_best_effort_later [OF _ w] show ?thesis by (blast intro: mail_later_trans mail_later_refl)
qed

lemma enqueue_recovered_later: "mail_later d (fold (enqueue_recovered l t p u) es d)"
proof (induction es arbitrary: d)
  case (Cons e es)
  have "mail_later d (enqueue_recovered l t p u e d)"
    by (auto simp: enqueue_recovered_def intro: enqueue_later split: option.split)
  with Cons show ?case by (auto intro: mail_later_trans)
qed simp

lemma ring_for_mailbox [simp]: "mailbox (ring_for s d) = mailbox d"
  by (simp add: ring_for_def)

lemma recover_crashed_later:
  assumes "probe_ok pe" "mail_env between" "recover_crashed_members pe between t p u d = (r, d')"
  shows "mail_later d d'"
proof -
  from assms(3) consider "d' = d"
    | keys b d1 where "heartbeat_pending pe t p keys u None d = (b, d1)" "d' = d1 \<or> d' = between d1"
    | keys b d1 l es where "heartbeat_pending pe t p keys u None d = (b, d1)"
        "d' = ring_for l (fold (enqueue_recovered l t p u) es (between d1))"
    unfolding recover_crashed_members_def Let_def
    by (auto split: option.splits sum.splits if_splits prod.splits)
  moreover have "mail_later x (ring_for l y)" if "mail_later x y" for x y l
    using that by (rule mail_later_trans) (rule mail_later_same, simp)
  ultimately show ?thesis
    using heartbeat_pending_later [OF assms(1)] mail_envD [OF assms(2)] enqueue_recovered_later
    by cases (metis mail_later_refl mail_later_trans)+
qed

lemma notify_lead_later:
  assumes "mail_env between"
  shows "mail_later d (notify_lead_member_idle mf ok between s st u d)"
proof -
  have "mail_later d (append_event u p t ty a se pl x)" if "mail_later d x" for p t ty a se pl x
    using that by (rule mail_later_trans) (rule mail_later_same, simp add: append_event_store)
  moreover have "mail_later d (ring_for l x)" if "mail_later d x" for l x
    using that by (rule mail_later_trans) (rule mail_later_same, simp)
  moreover have "mail_later d x" if "enqueue l t p u k tx fr og pl (between d) = Some x" for l t p k tx fr og pl x
    using mail_later_trans [OF mail_envD [OF assms] enqueue_later [OF that]] .
  ultimately show ?thesis
    using mail_envD [OF assms, of d] by (auto simp: notify_lead_member_idle_def Let_def split: option.splits)
qed


section \<open>A claimed message\<close>

text \<open>Claiming one row of a session takes one more of its messages.\<close>

lemma drain_one_later:
  assumes "list_all mail_env env"
  shows "mail_later d (snd (drain_one dr ok s env d))"
proof -
  let ?f = "case env of [] \<Rightarrow> (\<lambda>s. s) | g # _ \<Rightarrow> g"
  have "mail_env ?f" using assms by (auto split: list.split)
  then have claim: "mail_later d x" if "claim_row i (?f d) = (w, x)" for i w x
    using mail_later_trans [OF mail_envD claim_row_later, of ?f d i] that by simp
  moreover have "pending_rows s 1 d = [] \<or> (\<exists>r. pending_rows s 1 d = [r])"
    unfolding pending_rows_def
    by (cases "sort_key mb_position (sort_key mb_id (filter (is_pending s) (mailbox d)))") simp_all
  ultimately show ?thesis
    by (auto simp: drain_one_def drain_def Let_def split: prod.splits list.split if_splits dest: claim)
qed

lemma drain_one_takes:
  assumes "drain_one dr ok s env d = (Some m, d')" "list_all mail_env env" "mail_ok d"
  shows "\<exists>i. i \<notin> taken s d \<and> i \<in> taken s d'"
proof -
  define f where "f = (case env of [] \<Rightarrow> (\<lambda>s. s) | g # _ \<Rightarrow> g)"
  have f: "mail_later d (f d)" using assms(2) by (auto simp: f_def mail_envD split: list.split)
  have one: "pending_rows s 1 d = [] \<or> (\<exists>r. pending_rows s 1 d = [r])"
    unfolding pending_rows_def
    by (cases "sort_key mb_position (sort_key mb_id (filter (is_pending s) (mailbox d)))") simp_all
  with assms(1) obtain r where r: "pending_rows s 1 d = [r]" "claim_row (mb_id r) (f d) = (True, d')"
    by (auto simp: drain_one_def drain_def Let_def simp flip: f_def split: if_splits prod.splits list.splits)
  then have row: "r \<in> set (mailbox d)" "is_pending s r"
    by (auto simp: pending_rows_def dest!: arg_cong [where f = set] in_set_takeD)
  have ok: "mail_ok (f d)" using mail_later_ok [OF f assms(3)] .
  from f assms(3) row obtain r' where r': "r' \<in> set (mailbox (f d))" "mb_id r' = mb_id r" "mb_session r' = s"
    unfolding mail_later_def is_pending_def by metis
  from claim_row_won [OF r(2) ok] obtain x where x: "x \<in> set (mailbox d')" "mb_id x = mb_id r" "mb_state x = MConsumed"
    by blast
  from mail_later_ok [OF claim_row_later ok, of "mb_id r"] r(2) have ok': "mail_ok d'" by simp
  have "mail_later (f d) d'" using claim_row_later [of "f d" "mb_id r"] r(2) by simp
  with ok r' obtain y where y: "y \<in> set (mailbox d')" "mb_id y = mb_id r" "mb_session y = s"
    unfolding mail_later_def by metis
  with x mail_idD [OF ok'] have "mb_session x = s" by metis
  with x have "mb_id r \<in> taken s d'" by (auto simp: taken_def)
  moreover have "mb_id r \<notin> taken s d"
    using row mail_idD [OF assms(3)] by (fastforce simp: taken_def is_pending_def)
  ultimately show ?thesis by blast
qed

section \<open>A wait between two turns\<close>

definition pass_ok :: "wake_slice \<Rightarrow> bool" where
  "pass_ok w = (mail_env (wk_before w) \<and> list_all mail_env (wk_claims w) \<and> probe_ok (wk_probe w)
     \<and> mail_env (wk_between w))"

definition wait_ok :: "idle_wait \<Rightarrow> bool" where
  "wait_ok w = list_all pass_ok (wt_passes w)"

definition turn_ok :: "turn_env \<Rightarrow> bool" where
  "turn_ok t = (mail_env (te_before t) \<and> (\<forall>p. mail_env (te_turn t p)) \<and> mail_env (te_between t)
     \<and> list_all wait_ok (te_waits t) \<and> list_all mail_env (te_writers t))"

text \<open>From one store to a later one, with at least one more message of the session taken.\<close>

definition took_one :: "string \<Rightarrow> store \<Rightarrow> store \<Rightarrow> bool" where
  "took_one s d d' = (mail_later d d' \<and> (mail_ok d \<longrightarrow> (\<exists>i. i \<notin> taken s d \<and> i \<in> taken s d')))"

lemma took_one_card:
  assumes "took_one s d d'" "mail_ok d"
  shows "card (taken s d) < card (taken s d')"
proof (rule psubset_card_mono)
  from assms mail_later_taken show "taken s d \<subset> taken s d'" unfolding took_one_def by blast
qed simp

lemma took_one_after: "mail_later d d1 \<Longrightarrow> took_one s d1 d' \<Longrightarrow> took_one s d d'"
  unfolding took_one_def
  by (meson mail_later_ok mail_later_taken mail_later_trans subsetD)

lemma took_one_before: "took_one s d d1 \<Longrightarrow> mail_later d1 d' \<Longrightarrow> took_one s d d'"
  unfolding took_one_def
  by (meson mail_later_ok mail_later_taken mail_later_trans subsetD)

lemma reconcile_pass_later:
  assumes "pass_ok w" "reconcile_pass c next w d = (again, next', d')"
  shows "mail_later d d'"
proof -
  from assms(2) consider "d' = d"
    | r where "recover_crashed_members (wk_probe w) (wk_between w) (xc_task c) (xc_project c) (xc_user c) d = (r, d')"
    by (auto simp: reconcile_pass_def split: if_splits prod.splits sum.splits)
  then show ?thesis
    using recover_crashed_later assms(1) by cases (auto simp: pass_ok_def)
qed

lemma await_wakeup_later:
  assumes "await_wakeup c deadline nx ws d = (r, d')" "list_all pass_ok ws"
  shows "mail_later d d' \<and> (\<forall>m. r = Woken m \<longrightarrow> took_one (xc_session c) d d')"
  using assms
proof (induction ws arbitrary: d nx)
  case (Cons w ws)
  let ?d = "wk_before w d"
  have w: "mail_later d ?d" "list_all mail_env (wk_claims w)"
    using Cons.prems(2) by (simp_all add: pass_ok_def mail_envD)
  obtain m1 d1 where dr: "drain_one (wk_draining w) (wk_inbox_ok w) (xc_session c) (wk_claims w) ?d = (m1, d1)"
    by fastforce
  have d1: "mail_later ?d d1" using drain_one_later [OF w(2)] dr by (metis snd_conv)
  obtain again nx' d2 where rp: "reconcile_pass c nx w d1 = (again, nx', d2)"
    using prod_cases3 by blast
  have d2: "mail_later d1 d2" using reconcile_pass_later [OF _ rp] Cons.prems(2) by simp
  show ?case
  proof (cases "r = TimedOut \<and> d' = ?d \<or> r = StoppedExternally \<and> d' = ?d \<or> r = OwnershipMoved \<and> d' = ?d")
    case True
    with w(1) show ?thesis by auto
  next
    case False
    note goes_on = this
    show ?thesis
    proof (cases m1)
      case (Some m)
      with goes_on Cons.prems(1) dr have "r = Woken m" "d' = d1"
        by (auto simp: Let_def split: if_splits)
      moreover have "took_one (xc_session c) ?d d1"
        using drain_one_takes [OF dr [unfolded Some] w(2)] d1 by (auto simp: took_one_def)
      ultimately show ?thesis using w(1) d1 took_one_after mail_later_trans by blast
    next
      case None
      from goes_on Cons.prems(1) have "\<not> deadline \<le> wk_now w" "\<not> wk_fenced w"
        "actor_still_wanted (wk_db_ok w) (xc_session c) (xc_role c) (xc_task c) (xc_project c) (xc_user c) ?d"
        by (simp_all add: Let_def split: if_split_asm)
      then have "await_wakeup c deadline nx (w # ws) d =
          (if \<not> again \<and> deadline \<le> wk_last w then (TimedOut, d2) else await_wakeup c deadline nx' ws d2)"
        using dr rp None by (simp add: Let_def)
      with Cons.prems(1) consider "r = TimedOut" "d' = d2" | "await_wakeup c deadline nx' ws d2 = (r, d')"
        by (metis prod.inject)
      moreover have to_d2: "mail_later d d2" using w(1) d1 d2 mail_later_trans by blast
      moreover have "mail_later d2 d' \<and> (\<forall>m. r = Woken m \<longrightarrow> took_one (xc_session c) d2 d')"
        if "await_wakeup c deadline nx' ws d2 = (r, d')"
        using that Cons.prems(2) by (intro Cons.IH) simp_all
      ultimately show ?thesis
        by cases (simp, blast intro: took_one_after mail_later_trans)
    qed
  qed
qed auto

lemma wait_for_work_later:
  assumes "wait_for_work c ws ext d = (r, ext', d')" "list_all wait_ok ws"
  shows "mail_later d d' \<and> (\<forall>m. r = Wake m \<longrightarrow> took_one (xc_session c) d d')"
  using assms
proof (induction ws arbitrary: d ext)
  case (Cons w ws)
  obtain o1 d1 where aw: "await_wakeup c (wt_start w + idle_ttl (xc_role c)) (wt_start w + lead_reconcile_slice)
      (wt_passes w) d = (o1, d1)" by fastforce
  have d1: "mail_later d d1 \<and> (\<forall>m. o1 = Woken m \<longrightarrow> took_one (xc_session c) d d1)"
    using await_wakeup_later [OF aw] Cons.prems(2) by (simp add: wait_ok_def)
  have "d' = d1 \<and> (\<forall>m. r = Wake m \<longrightarrow> o1 = Woken m) \<or> (\<exists>x. wait_for_work c ws x d1 = (r, ext', d'))"
    using Cons.prems(1) aw by (auto split: wake.splits if_splits sum.splits bool.splits)
  with Cons.IH Cons.prems(2) d1 show ?case
    using took_one_after mail_later_trans by fastforce
qed simp

section \<open>The loop\<close>

lemma after_turn_later:
  assumes "turn_ok t"
  shows "mail_later d (after_turn c t status (te_turn t p (te_before t d)))"
proof -
  have d: "mail_later d (te_before t d)" "mail_later (te_before t d) (te_turn t p (te_before t d))"
    using assms by (simp_all add: turn_ok_def mail_envD)
  have b: "mail_env (te_between t)" using assms by (simp add: turn_ok_def)
  have "mail_later x (after_turn c t status x)" for x
    using notify_lead_later [OF b] by (simp add: after_turn_def)
  with d mail_later_trans show ?thesis by blast
qed

lemma take_message_later:
  assumes "turn_ok t" "take_message c t m lp d = (lp', d')"
  shows "mail_later d d' \<and> lp_turns lp' = lp_turns lp \<and> lp_extensions lp' = lp_extensions lp
    \<and> lp_shutdown lp' = lp_shutdown lp"
  using assms mark_in_review_later [of "te_writers t" d] by (auto simp: take_message_def Let_def turn_ok_def)

text \<open>One round of the loop: it ends here, or it goes on with a message.\<close>

definition round_of :: "actor_call \<Rightarrow> turn_env \<Rightarrow> loop_state \<Rightarrow> store
    \<Rightarrow> ((loop_state \<times> plan_exn option) \<times> store) + (loop_state \<times> store)" where
  "round_of c t lp d0 =
     (let d = te_before t d0;
          status = run_turn (te_outcome t);
          lp1 = lp\<lparr>lp_status := status, lp_turns := Suc (lp_turns lp)\<rparr>;
          d1 = after_turn c t status (te_turn t (lp_prompt lp) d)
      in if te_draining t \<or> te_fenced t then Inl ((lp\<lparr>lp_shutdown := True\<rparr>, None), d)
         else if failed_turn status \<or> actor_max_turns \<le> lp_turns lp1 then Inl ((lp1, None), d1)
         else (case lead_is_done c t d1 of
            Inl e \<Rightarrow> Inl ((lp1, Some e), d1)
          | Inr True \<Rightarrow> Inl ((lp1, None), d1)
          | Inr False \<Rightarrow>
              (case wait_for_work c (te_waits t) (lp_extensions lp1) d1 of (r, ext, d2) \<Rightarrow>
                 (case r of
                    LeaveQuietly \<Rightarrow> Inl ((lp1\<lparr>lp_extensions := ext, lp_shutdown := True\<rparr>, None), d2)
                  | IdleExpired \<Rightarrow> Inl ((lp1\<lparr>lp_extensions := ext\<rparr>, None), d2)
                  | WaitRaised e \<Rightarrow> Inl ((lp1\<lparr>lp_extensions := ext\<rparr>, Some e), d2)
                  | Wake m \<Rightarrow> Inr (take_message c t m (lp1\<lparr>lp_extensions := ext\<rparr>) d2)))))"

lemma actor_turns_round:
  "actor_turns c (t # ts) lp d = (case round_of c t lp d of
     Inl out \<Rightarrow> out | Inr (lp2, d2) \<Rightarrow> actor_turns c ts lp2 d2)"
  by (simp add: round_of_def Let_def split: sum.split bool.split prod.split wait_end.split)

declare actor_turns.simps(2) [simp del] actor_turns_round [simp]

lemma wait_extensions:
  "wait_for_work c ws ext d = (r, ext', d') \<Longrightarrow> ext \<le> max_idle_extensions \<Longrightarrow> ext' \<le> max_idle_extensions"
proof (induction ws arbitrary: d ext)
  case (Cons w ws)
  then show ?case
    by (auto split: prod.splits wake.splits if_splits sum.splits bool.splits dest: Cons.IH)
qed simp

lemma round_counts:
  assumes "lp_extensions lp \<le> max_idle_extensions"
  shows "round_of c t lp d = Inl ((lp', e), d') \<Longrightarrow>
      lp_turns lp' \<le> Suc (lp_turns lp) \<and> lp_extensions lp' \<le> max_idle_extensions"
    and "round_of c t lp d = Inr (lp', d') \<Longrightarrow> lp_turns lp' = Suc (lp_turns lp)
      \<and> lp_turns lp' < actor_max_turns \<and> lp_extensions lp' \<le> max_idle_extensions"
proof -
  define lp1 where "lp1 = lp\<lparr>lp_status := run_turn (te_outcome t), lp_turns := Suc (lp_turns lp)\<rparr>"
  define d1 where "d1 = after_turn c t (run_turn (te_outcome t)) (te_turn t (lp_prompt lp) (te_before t d))"
  obtain r ext d2 where wf: "wait_for_work c (te_waits t) (lp_extensions lp1) d1 = (r, ext, d2)"
    using prod_cases3 by blast
  have ext: "ext \<le> max_idle_extensions" using wait_extensions [OF wf] assms by (simp add: lp1_def)
  note body = round_of_def [of c t lp d, unfolded Let_def, folded lp1_def d1_def, unfolded wf prod.case]
  show "lp_turns lp' \<le> Suc (lp_turns lp) \<and> lp_extensions lp' \<le> max_idle_extensions"
    if "round_of c t lp d = Inl ((lp', e), d')"
    using that ext assms unfolding body
    by (auto simp: lp1_def split: if_splits sum.splits bool.splits wait_end.splits)
  show "lp_turns lp' = Suc (lp_turns lp) \<and> lp_turns lp' < actor_max_turns \<and> lp_extensions lp' \<le> max_idle_extensions"
    if "round_of c t lp d = Inr (lp', d')"
  proof -
    from that obtain m where "take_message c t m (lp1\<lparr>lp_extensions := ext\<rparr>) d2 = (lp', d')"
      "\<not> actor_max_turns \<le> lp_turns lp1"
      unfolding body by (auto split: if_splits sum.splits bool.splits wait_end.splits)
    with ext show ?thesis by (auto simp: take_message_def Let_def lp1_def)
  qed
qed

lemma round_later:
  assumes "turn_ok t"
  shows "round_of c t lp d0 = Inl (out, d') \<Longrightarrow> mail_later d0 d'"
    and "round_of c t lp d0 = Inr (lp2, d') \<Longrightarrow> took_one (xc_session c) d0 d'"
proof -
  define status where "status = run_turn (te_outcome t)"
  define lp1 where "lp1 = lp\<lparr>lp_status := status, lp_turns := Suc (lp_turns lp)\<rparr>"
  define d1 where "d1 = after_turn c t status (te_turn t (lp_prompt lp) (te_before t d0))"
  have d1: "mail_later d0 d1" unfolding d1_def by (rule after_turn_later [OF assms])
  obtain r ext d2 where wf: "wait_for_work c (te_waits t) (lp_extensions lp1) d1 = (r, ext, d2)"
    using prod_cases3 by blast
  have d2: "mail_later d1 d2 \<and> (\<forall>m. r = Wake m \<longrightarrow> took_one (xc_session c) d1 d2)"
    using wait_for_work_later [OF wf] assms by (simp add: turn_ok_def)
  have before: "mail_later d0 (te_before t d0)" using assms by (simp add: turn_ok_def mail_envD)
  show "mail_later d0 d'" if "round_of c t lp d0 = Inl (out, d')"
  proof -
    from that have "d' = te_before t d0 \<or> d' = d1 \<or> d' = d2"
      unfolding round_of_def Let_def status_def [symmetric] lp1_def [symmetric] d1_def [symmetric] wf
      by (auto split: if_splits sum.splits bool.splits wait_end.splits)
    with before d1 d2 mail_later_trans show ?thesis by blast
  qed
  show "took_one (xc_session c) d0 d'" if "round_of c t lp d0 = Inr (lp2, d')"
  proof -
    from that obtain m where m: "r = Wake m" "take_message c t m (lp1\<lparr>lp_extensions := ext\<rparr>) d2 = (lp2, d')"
      unfolding round_of_def Let_def status_def [symmetric] lp1_def [symmetric] d1_def [symmetric] wf
      by (auto split: if_splits sum.splits bool.splits wait_end.splits)
    from take_message_later [OF assms m(2)] have "mail_later d2 d'" by simp
    with d1 d2 m(1) show ?thesis by (blast intro: took_one_after took_one_before)
  qed
qed

text \<open>The rounds a loop can still have suffice: what is listed beyond them is not looked at.\<close>

lemma actor_turns_ends:
  assumes "actor_max_turns \<le> lp_turns lp + length ts" "lp_turns lp < actor_max_turns"
    "lp_extensions lp \<le> max_idle_extensions"
  shows "\<exists>lp' e d'. actor_turns c (ts @ us) lp d = ((lp', e), d') \<and> actor_turns c ts lp d = ((lp', e), d')
    \<and> lp_turns lp' \<le> actor_max_turns \<and> lp_extensions lp' \<le> max_idle_extensions"
  using assms
proof (induction ts arbitrary: lp d)
  case (Cons t ts)
  show ?case
  proof (cases "round_of c t lp d")
    case (Inl out)
    obtain lp' e d' where out: "out = ((lp', e), d')" by (metis surj_pair)
    with round_counts(1) [OF Cons.prems(3) Inl [unfolded out]] Cons.prems(2) Inl show ?thesis
      by (simp add: actor_turns_round)
  next
    case (Inr res)
    obtain lp2 d2 where res: "res = (lp2, d2)" by fastforce
    with round_counts(2) [OF Cons.prems(3) Inr [unfolded res]] Cons.prems(1,2) Cons.IH [of lp2 d2] Inr
    show ?thesis by (simp add: actor_turns_round)
  qed
qed simp

lemma actor_turns_count:
  assumes "actor_turns c ts lp d = ((lp', e), d')" "mail_ok d" "list_all turn_ok ts"
    and "lp_extensions lp \<le> max_idle_extensions"
  shows "mail_later d d' \<and> lp_turns lp' + card (taken (xc_session c) d)
    \<le> Suc (lp_turns lp + card (taken (xc_session c) d'))"
  using assms
proof (induction ts arbitrary: lp d)
  case Nil
  then show ?case by auto
next
  case (Cons t ts)
  have t: "turn_ok t" using Cons.prems(3) by simp
  show ?case
  proof (cases "round_of c t lp d")
    case (Inl out)
    with Cons.prems(1) have out: "out = ((lp', e), d')" by (simp add: actor_turns_round)
    have later: "mail_later d d'" using round_later(1) [OF t Inl [unfolded out]] .
    then have "card (taken (xc_session c) d) \<le> card (taken (xc_session c) d')"
      using Cons.prems(2) by (intro card_mono) (simp_all add: mail_later_taken)
    moreover have "lp_turns lp' \<le> Suc (lp_turns lp)" using round_counts(1) [OF Cons.prems(4) Inl [unfolded out]] ..
    ultimately show ?thesis using later by simp
  next
    case (Inr res)
    obtain lp1 d1 where res: "res = (lp1, d1)" by fastforce
    with Inr Cons.prems(1) have rest: "actor_turns c ts lp1 d1 = ((lp', e), d')" by (simp add: actor_turns_round)
    have took: "took_one (xc_session c) d d1" using round_later(2) [OF t Inr [unfolded res]] .
    then have d1: "mail_later d d1" by (simp add: took_one_def)
    from round_counts(2) [OF Cons.prems(4) Inr [unfolded res]]
    have lp1: "lp_turns lp1 = Suc (lp_turns lp)" "lp_extensions lp1 \<le> max_idle_extensions" by simp_all
    from Cons.IH [OF rest mail_later_ok [OF d1 Cons.prems(2)] _ lp1(2)] Cons.prems(3)
    have "mail_later d1 d'" "lp_turns lp' + card (taken (xc_session c) d1)
        \<le> Suc (lp_turns lp1 + card (taken (xc_session c) d'))" by simp_all
    with took_one_card [OF took Cons.prems(2)] lp1(1) mail_later_trans [OF d1] show ?thesis by simp
  qed
qed

end
