(* ===== verification/Witnesses.thy ===== *)
theory Witnesses
  imports RecoveryFacts
begin

text \<open>
  Concrete inputs at which the hypotheses of the properties hold: a task with a plan of two
  nodes, its lead's run and its member's, and the stores around them.  Each property with
  hypotheses is applied here at such an input.
\<close>

section \<open>Sample data\<close>

definition node_a :: subtask where
  "node_a = \<lparr>st_key = ''a'', st_title = ''A'', st_goal = [], st_agent = Some ''dev'', st_depends_on = [],
     st_parallel_group = None, st_review_criteria = [], st_status = Planned, st_attempts = 0,
     st_latest_run = None, st_review_feedback = None\<rparr>"

definition node_b :: subtask where
  "node_b = node_a\<lparr>st_key := ''b'', st_title := ''B'', st_depends_on := [''a'']\<rparr>"

definition task_with :: "string \<Rightarrow> plan \<Rightarrow> task_row" where
  "task_with status p = \<lparr>tr_id = ''t'', tr_user = ''u'', tr_project = ''p'', tr_file_path = ''f'',
     tr_title = ''T'', tr_goal = ''G'', tr_status = status, tr_created_by = ''u'', tr_lead_agent = ''dev'',
     tr_holder = ''dev'', tr_metadata = [], tr_plan = plan_to_dict p,
     tr_plan_version = 1, tr_committed_at = None, tr_trigger_type = ''user'', tr_trigger_task = None,
     tr_trigger_agent = None, tr_trigger_automation = None, tr_created_at = 1, tr_updated_at = 1\<rparr>"

definition sample_lead :: run_row where
  "sample_lead = (lead_run ''p'' ''t'' ''L'' ''dev'' ''Kickoff'' ''G'' ''cwd'')\<lparr>rr_user := ''u''\<rparr>"

definition sample_member :: run_row where
  "sample_member = sample_lead\<lparr>rr_session := ''M'', rr_kind := SubtaskRun, rr_sequence := 1,
     rr_subtask_key := Some ''a'', rr_dispatched_by := Some ''L''\<rparr>"

definition store_with :: "task_row list \<Rightarrow> run_row list \<Rightarrow> store" where
  "store_with ts rs = \<lparr>tasks = ts, events = [], runs = rs, mailbox = [], clock = 1000,
     deferred = False, host = ''h'', agent_names = (\<lambda>_ _. None), writable = (\<lambda>_. True), plan_files = [],
     rung = [], synced = [], spawned = [], announced = [], notices = [], candidates = [], interrupts = []\<rparr>"

definition sample_store :: store where
  "sample_store = store_with [task_with ''active'' [node_a, node_b]] [sample_lead]"

definition review_store :: store where
  "review_store = store_with [task_with ''active'' [node_a\<lparr>st_status := InReview\<rparr>, node_b]] [sample_lead, sample_member]"

definition draft_store :: store where
  "draft_store = store_with [task_with ''draft'' [node_a, node_b]] []"

definition done_store :: store where
  "done_store = store_with [task_with ''active'' [node_a\<lparr>st_status := Done\<rparr>]] [sample_lead]"

lemmas samples = node_a_def node_b_def task_with_def sample_lead_def sample_member_def store_with_def
  sample_store_def review_store_def draft_store_def done_store_def lead_run_def

lemma sample_cells [simp]:
  "plan_cell ''u'' ''t'' sample_store" "plan_cell ''u'' ''t'' review_store"
  "plan_cell ''u'' ''t'' done_store" "plan_cell ''u'' ''t'' draft_store"
  by (simp_all add: plan_cell_def task_ids_unique_def samples)

lemma sample_unique [simp]:
  "task_ids_unique sample_store" "task_ids_unique review_store" "task_ids_unique done_store"
  "task_ids_unique draft_store"
  by (simp_all add: task_ids_unique_def samples)

lemma nobody_writes [simp]: "other_writers_ok u t (\<lambda>d. d)"
  by (simp add: other_writers_ok_def)

section \<open>The plan\<close>

lemma sample_plan_valid: "validate [node_a, node_b] = Inr ()"
  by code_simp

theorem plan_operations_keep_valid_witness: "valid_plan [node_a]"
proof -
  have "remove_node [node_a, node_b] ''b'' = Inr [node_a]" by code_simp
  then show ?thesis using plan_operations_keep_valid [of _ "[node_a]" "[node_a, node_b]" _ "''b''"] by blast
qed

theorem update_node_transition_witness:
  "\<exists>q m. update_node [node_a, node_b] ''a'' [(''status'', JStr ''in_progress'')] = Inr q
     \<and> get_node q ''a'' = Some m
     \<and> (st_status m = Planned \<or> st_status m \<in> set (node_transitions Planned))"
proof -
  have "(case update_node [node_a, node_b] ''a'' [(''status'', JStr ''in_progress'')] of
      Inr q \<Rightarrow> True | _ \<Rightarrow> False)" by code_simp
  then obtain q where q: "update_node [node_a, node_b] ''a'' [(''status'', JStr ''in_progress'')] = Inr q"
    by (auto split: sum.splits)
  have "get_node [node_a, node_b] ''a'' = Some node_a" by code_simp
  with update_node_transition [OF q] q show ?thesis by (auto simp: node_a_def)
qed

theorem plan_progress_witness: "ready_keys [node_a, node_b] \<noteq> []"
proof (rule plan_progress)
  show "valid_plan [node_a, node_b]" using sample_plan_valid by (simp add: validate_Inr)
  show "unresolved_keys [node_a, node_b] \<noteq> []" by code_simp
qed (simp add: node_a_def node_b_def)

theorem plan_json_roundtrip_witness: "plan_from_dict (plan_to_dict [node_a, node_b]) = Inr [node_a, node_b]"
proof (rule plan_json_roundtrip)
  show "plan_from_dict (plan_to_dict [node_a, node_b]) = Inr [node_a, node_b]" by code_simp
qed

section \<open>The store\<close>

theorem status_door_legal_witness:
  "\<exists>r d'. update_task_status ''u'' ''t'' ''paused'' None (\<lambda>d. d) sample_store = (r, d')
     \<and> (d' = sample_store \<or> list_all2 (\<lambda>x y. status_step_ok (tr_status x) (tr_status y)
          \<and> y = x\<lparr>tr_status := tr_status y, tr_updated_at := tr_updated_at y\<rparr>) (tasks sample_store) (tasks d'))"
proof -
  obtain r d' where "update_task_status ''u'' ''t'' ''paused'' None (\<lambda>d. d) sample_store = (r, d')" by fastforce
  with status_door_legal [OF this] show ?thesis by blast
qed

theorem commit_flip_mutex_witness:
  "\<exists>d'. update_task_status ''u'' ''t'' ''active'' (Some ''draft'') (\<lambda>d. d) draft_store = (Inr True, d')
     \<and> current_status ''u'' ''t'' d' = Some ''active''"
proof -
  have "fst (update_task_status ''u'' ''t'' ''active'' (Some ''draft'') (\<lambda>d. d) draft_store) = Inr True"
    by code_simp
  then obtain d' where d': "update_task_status ''u'' ''t'' ''active'' (Some ''draft'') (\<lambda>d. d) draft_store = (Inr True, d')"
    by (cases "update_task_status ''u'' ''t'' ''active'' (Some ''draft'') (\<lambda>d. d) draft_store") auto
  with commit_flip_mutex [where intf = "\<lambda>d. d", OF d'] show ?thesis by auto
qed

theorem append_event_contention_witness:
  "\<exists>row d'. append_attempts 2 [DbLocked] ''u'' ''p'' ''t'' ''x'' ''a'' None (PDict []) sample_store = (Inr row, d')
     \<and> dense_log d' \<and> ev_sequence row = int (length (seqs_of ''p'' ''t'' d'))"
proof -
  let ?go = "append_attempts 2 [DbLocked] ''u'' ''p'' ''t'' ''x'' ''a'' None (PDict []) sample_store"
  have "(case fst ?go of Inr _ \<Rightarrow> True | _ \<Rightarrow> False)" by code_simp
  then obtain row d' where a: "?go = (Inr row, d')" by (cases ?go) (auto split: sum.splits)
  have "dense_log sample_store" by (simp add: dense_log_def seqs_of_def samples)
  with append_event_contention [OF a] a show ?thesis by fastforce
qed

theorem reconcile_sound_witness:
  "InReview \<in> set (node_transitions InProgress) \<and> mr_deliver (reconcile (Some ''idle'')
     (SRDict [(''type'', JStr ''end_turn'')]) 0 3)"
proof -
  have "mr_node_status (reconcile (Some ''idle'') (SRDict [(''type'', JStr ''end_turn'')]) 0 3) = Some InReview"
    by code_simp
  from reconcile_sound [OF _ this, of InProgress] show ?thesis by auto
qed

section \<open>Concurrent writers\<close>

theorem plan_writes_linearise_witness:
  "plan_doc_of ''u'' ''t'' sample_store = Some (plan_to_dict [node_a, node_b])
   \<and> plan_doc_of ''u'' ''t'' (snd (cas_plan ''u'' (task_with ''active'' [node_a, node_b]) (JDict []) 1 sample_store))
       = Some (JDict [])"
proof -
  let ?row = "task_with ''active'' [node_a, node_b]" and ?doc = "plan_to_dict [node_a, node_b]"
  have id: "tr_id ?row = ''t''" by (simp add: task_with_def)
  have "plan_version_of ''u'' ''t'' sample_store = Some 1" "plan_doc_of ''u'' ''t'' sample_store = Some ?doc"
    by (simp_all add: plan_version_of_def plan_doc_of_def get_task_def samples)
  then have "plan_writers.writer_step ''u'' ?row (sample_store, Map.empty) (sample_store, Map.empty(0 \<mapsto> (1, ?doc)))"
    using id by (intro plan_writers.writer_read) simp_all
  then have "plan_writers.writers_reach ''u'' ?row (sample_store, Map.empty(0 \<mapsto> (1, ?doc)))"
    by (rule plan_writers.writers_next [OF plan_writers.writers_init, rotated]) (simp add: id)
  moreover have "fst (cas_plan ''u'' ?row (JDict []) 1 sample_store)" by code_simp
  then have "cas_plan ''u'' ?row ((\<lambda>_. JDict []) ?doc) 1 sample_store
      = (True, snd (cas_plan ''u'' ?row (JDict []) 1 sample_store))"
    by (simp add: prod_eq_iff)
  ultimately show ?thesis
    using plan_writes_linearise [where m = "Map.empty(0 \<mapsto> (1, ?doc))" and i = "0::nat"] id by fastforce
qed

lemma sample_row: "get_task ''u'' ''t'' sample_store = Some (task_with ''active'' [node_a, node_b])"
  by code_simp

definition finish_a :: mutation where
  "finish_a p = rbind (update_node p ''a'' [(''status'', JStr ''done'')]) (\<lambda>q. Inr (Some q))"

theorem persist_plan_no_lost_update_witness:
  "\<exists>p row' d'. persist_plan [\<lambda>d. d] (dispatch_mutation ''a'' ''dev'' ''M'') ''L'' None ''u''
       (task_with ''active'' [node_a, node_b]) sample_store = (Persisted p, row', d')
     \<and> tr_plan row' = plan_to_dict p"
proof -
  let ?row = "task_with ''active'' [node_a, node_b]"
  let ?res = "persist_plan [\<lambda>d. d] (dispatch_mutation ''a'' ''dev'' ''M'') ''L'' None ''u'' ?row sample_store"
  have "(case fst ?res of Persisted p \<Rightarrow> True | _ \<Rightarrow> False)" by code_simp
  then obtain p row' d' where res: "?res = (Persisted p, row', d')"
    by (cases ?res) (auto split: persist_outcome.splits)
  have "tr_id ?row = ''t''" by (simp add: task_with_def)
  with persist_plan_no_lost_update [where env = "[\<lambda>d. d]", OF res] sample_row res show ?thesis
    by (fastforce simp: Let_def)
qed

theorem persist_plan_failure_writes_nothing_witness:
  "\<exists>row' d'. persist_plan [] finish_a ''L'' None ''u'' (task_with ''active'' [node_a, node_b]) sample_store
       = (PlanRaised (PlanError (IllegalTransition Planned Done ''a'')), row', d') \<and> d' = sample_store"
proof -
  let ?res = "persist_plan [] finish_a ''L'' None ''u'' (task_with ''active'' [node_a, node_b]) sample_store"
  have "fst ?res = PlanRaised (PlanError (IllegalTransition Planned Done ''a''))" by code_simp
  then obtain row' d' where res: "?res = (PlanRaised (PlanError (IllegalTransition Planned Done ''a'')), row', d')"
    by (cases ?res) auto
  with persist_plan_failure_writes_nothing [OF res] show ?thesis by simp
qed

section \<open>Planning\<close>

definition retitle_a :: "json list" where
  "retitle_a = [JDict [(''key'', JStr ''a''), (''title'', JStr ''A2'')]]"

lemma retitle_named_once [simp]: "named_once retitle_a"
  by (simp add: named_once_def retitle_a_def)

theorem modify_plan_applies_once_witness:
  "\<exists>v d' r. modify_plan ''t'' ''p'' ''L'' [] retitle_a (Some 1) ''u'' (\<lambda>d. d) sample_store = (Reply v, d')
     \<and> get_task ''u'' ''t'' d' = Some r \<and> tr_plan_version r = 2 \<and> pv_version v = 2"
proof -
  let ?res = "modify_plan ''t'' ''p'' ''L'' [] retitle_a (Some 1) ''u'' (\<lambda>d. d) sample_store"
  have "(case fst ?res of Reply v \<Rightarrow> True | _ \<Rightarrow> False)" by code_simp
  then obtain v d' where res: "?res = (Reply v, d')"
    by (cases ?res) (auto split: reply.splits)
  have "tr_plan_version (task_with ''active'' [node_a, node_b]) = 1" by (simp add: task_with_def)
  with modify_plan_applies_once [where intf = "\<lambda>d. d", OF res] sample_row res show ?thesis by auto
qed

theorem plan_task_keeps_progress_witness:
  "\<exists>v d' p. plan_task ''t'' ''p'' ''L'' retitle_a ''u'' (\<lambda>d. d) sample_store = (Reply v, d')
     \<and> plan_doc_of ''u'' ''t'' d' = Some (plan_to_dict p) \<and> valid_plan p"
proof -
  let ?res = "plan_task ''t'' ''p'' ''L'' retitle_a ''u'' (\<lambda>d. d) sample_store"
  have "(case fst ?res of Reply v \<Rightarrow> True | _ \<Rightarrow> False)" by code_simp
  then obtain v d' where res: "?res = (Reply v, d')"
    by (cases ?res) (auto split: reply.splits)
  with plan_task_keeps_progress [where intf = "\<lambda>d. d", OF res] show ?thesis
    by (auto simp: plan_doc_of_def)
qed

theorem approval_closes_node_witness:
  "\<exists>rd ad d' p. review_subtask ''t'' ''p'' ''L'' ''approve'' (Some ''a'') (Some ''M'') None ''u''
       (\<lambda>d. d) [] review_store = (Reply (Approved ''a'' False rd ad), d')
     \<and> plan_doc_of ''u'' ''t'' d' = Some (plan_to_dict p) \<and> rd = ready_keys p"
proof -
  let ?res = "review_subtask ''t'' ''p'' ''L'' ''approve'' (Some ''a'') (Some ''M'') None ''u'' (\<lambda>d. d) [] review_store"
  have "(case fst ?res of Reply (Approved k b rd ad) \<Rightarrow> k = ''a'' \<and> \<not> b | _ \<Rightarrow> False)" by code_simp
  then obtain rd ad d' where res: "?res = (Reply (Approved ''a'' False rd ad), d')"
    by (cases ?res) (auto split: reply.splits review_reply.splits)
  with approval_closes_node [where between = "\<lambda>d. d", OF res] show ?thesis
    by (auto simp: plan_doc_of_def)
qed

theorem dispatch_once_witness:
  "\<exists>q. dispatch_mutation ''a'' ''dev'' ''M'' [node_a, node_b] = Inr (Some q)
     \<and> dispatch_mutation ''a'' ''dev'' ''N'' q = Inr None"
proof -
  have r: "resolve_dispatch_node [node_a, node_b] ''a'' None None = Inr (''dev'', ''A'')" by code_simp
  have v: "valid_plan [node_a, node_b]" using sample_plan_valid by (simp add: validate_Inr)
  from dispatch_once [OF v r, of "''M''", where a' = "''dev''" and se' = "''N''" and ao' = None and go' = None] show ?thesis by auto
qed

section \<open>The plan's door\<close>

theorem write_door_policy_witness:
  "(\<exists>r. fst (cmd_modify_plan (\<lambda>_ _. None) (OwnerCaller ''u'') ''t'' [] retitle_a (Some 1) (\<lambda>d. d) (\<lambda>d. d)
       sample_store) = Ran r)"
proof -
  have "may_write (\<lambda>_ _. None) (OwnerCaller ''u'') (task_with ''active'' [node_a, node_b])"
    by (simp add: may_write_def task_with_def)
  with sample_row write_door_policy [of "\<lambda>_ _. None" "OwnerCaller ''u''" "''t''" "[]" retitle_a "Some 1"
      "\<lambda>d. d" "\<lambda>d. d" sample_store] show ?thesis by simp
qed

lemma ran_replyD: "(case r of Ran (Reply v) \<Rightarrow> True | _ \<Rightarrow> False) \<Longrightarrow> \<exists>v. r = Ran (Reply v)"
  by (cases r) (auto split: reply.split_asm)

theorem owner_edit_names_version_witness:
  "\<exists>v d'. cmd_modify_plan (\<lambda>_ _. None) (OwnerCaller ''u'') ''t'' [] retitle_a (Some 1) (\<lambda>d. d) (\<lambda>d. d)
       sample_store = (Ran (Reply v), d') \<and> plan_version_of ''u'' ''t'' d' = Some 2"
proof -
  let ?res = "cmd_modify_plan (\<lambda>_ _. None) (OwnerCaller ''u'') ''t'' [] retitle_a (Some 1) (\<lambda>d. d) (\<lambda>d. d) sample_store"
  have "(case fst ?res of Ran (Reply v) \<Rightarrow> True | _ \<Rightarrow> False)" by code_simp
  moreover obtain r d' where r: "?res = (r, d')" by fastforce
  ultimately obtain v where "r = Ran (Reply v)"
    by (auto dest: ran_replyD)
  with r have res: "?res = (Ran (Reply v), d')" by simp
  have "current_status ''u'' ''t'' sample_store = Some ''active''" by code_simp
  with owner_edit_names_version [where between = "\<lambda>d. d" and intf = "\<lambda>d. d", OF res] res
  show ?thesis by auto
qed

section \<open>Messages\<close>

definition plan_shot :: "int \<Rightarrow> event_row" where
  "plan_shot i = \<lparr>ev_user = ''u'', ev_project = ''p'', ev_task = ''t'', ev_sequence = i, ev_type = plan_snapshot_event,
     ev_actor = ''L'', ev_session = None, ev_payload = PDict []\<rparr>"

theorem list_events_projection_witness:
  "plan_shot 2 \<in> set (list_events ''u'' ''p'' ''t'' False (sample_store\<lparr>events := [plan_shot 1, plan_shot 2]\<rparr>))"
proof -
  let ?d = "sample_store\<lparr>events := [plan_shot 1, plan_shot 2]\<rparr>"
  have "list_events ''u'' ''p'' ''t'' True ?d = [plan_shot 1, plan_shot 2]" by code_simp
  with list_events_projection [of "''u''" "''p''" "''t''" ?d] show ?thesis by (auto simp: plan_shot_def)
qed

theorem mailbox_at_most_once_witness:
  "\<exists>d' i. enqueue ''L'' ''t'' ''p'' ''u'' ''text'' ''hello'' ''M'' ''user'' [] sample_store = Some d'
     \<and> distinct (if fst (claim_row i d') then [i] else [])"
proof -
  have m: "mailbox sample_store = []" by (simp add: samples)
  obtain d' where d': "enqueue ''L'' ''t'' ''p'' ''u'' ''text'' ''hello'' ''M'' ''user'' [] sample_store = Some d'"
    by (simp add: enqueue_def deliverable_kinds_def)
  have "mail_reach (d', [])" by (rule mail_next [OF mail_start [OF m] mail_send [OF d']])
  moreover obtain won d'' where "claim_row 1 d' = (won, d'')" by fastforce
  ultimately have "mail_reach (d'', if won then [] @ [1] else [])"
    using mail_next mail_claim by metis
  from mailbox_at_most_once [OF this] d' \<open>claim_row 1 d' = (won, d'')\<close> show ?thesis by auto
qed

theorem messages_stay_in_task_witness:
  "\<exists>r d'. send_to_member ''L'' ''M'' ''hello'' ''p'' ''t'' ''u'' (\<lambda>d. d) review_store = (Delivered ''M'', d')
     \<and> r \<in> set (runs review_store) \<and> rr_task r = Some ''t''"
proof -
  let ?res = "send_to_member ''L'' ''M'' ''hello'' ''p'' ''t'' ''u'' (\<lambda>d. d) review_store"
  have "fst ?res = Delivered ''M''" by code_simp
  then obtain d' where res: "?res = (Delivered ''M'', d')" by (cases ?res) auto
  with messages_stay_in_task [where fr = "''L''" and target = "''M''" and tx = "''hello''" and p = "''p''"
      and t = "''t''" and u = "''u''" and btw = "\<lambda>d. d" and d = review_store] show ?thesis
    by auto
qed

end
