(* ===== verification/TaskWitnesses.thy ===== *)
theory TaskWitnesses
  imports Witnesses
begin

text \<open>
  Concrete inputs for the properties of leases, of what ends a task, of committing one and of
  recovery, over the sample task.
\<close>

section \<open>Leases\<close>

definition held :: "string \<times> string \<Rightarrow> lease_table" where
  "held k = snd (claim_insert ''g'' False 1000 ''n'' k Map.empty)"

lemma held_claim: "claim k ''n'' ''g'' False 1000 Map.empty = Some (held k)"
  by (simp add: claim_def claim_update_def claim_insert_def held_def)

lemma held_fence: "fence_of k (held k) = 1"
  by (simp add: fence_of_def held_def claim_insert_def)

lemma held_reach:
  "lease_cells.lease_reach k ''n'' (1000, held k, Map.empty(''g'' \<mapsto> (1, 1000, True)))"
proof (rule lease_cells.lease_next [OF lease_cells.lease_init])
  show "(1000 :: int) < never_ms" by (simp add: never_ms_def)
  show "lease_cells.lease_step k ''n'' (1000, Map.empty, Map.empty)
      (1000, held k, Map.empty(''g'' \<mapsto> (1, 1000, True)))"
    using lease_cells.take [where now = 1000 and t = 1000 and x = False and h = "''g''" and H = Map.empty
        and k = k and nt = "''n''" and s = Map.empty, OF _ _ held_claim] by (simp add: held_fence)
qed

lemma held_trusts: "lease_cells.trusts (1000, held k, Map.empty(''g'' \<mapsto> (1, 1000, True))) ''g''"
  unfolding lease_cells.trusts_def by (auto simp: lease_ttl_ms_def)

theorem lease_mutual_exclusion_witness:
  "\<not> lease_cells.trusts (1000, held (''actor'', ''L''), Map.empty(''g'' \<mapsto> (1, 1000, True))) ''h''"
proof
  assume h: "lease_cells.trusts (1000, held (''actor'', ''L''), Map.empty(''g'' \<mapsto> (1, 1000, True))) ''h''"
  from lease_mutual_exclusion [OF held_reach held_trusts h] show False by simp
qed

theorem acquire_lease_decides_witness:
  "\<exists>l T. acquire_lease ''g'' False 1000 ''n'' (''actor'', ''L'') (\<lambda>T. T) Map.empty = (Some l, T)
     \<and> xl_fence l = 1 \<and> cell_of (''actor'', ''L'') T = Some (''g'', 1, 91000)"
proof -
  obtain l T where a: "acquire_lease ''g'' False 1000 ''n'' (''actor'', ''L'') (\<lambda>T. T) Map.empty = (Some l, T)"
    by (simp add: acquire_lease_def claim_update_def claim_insert_def)
  with acquire_lease_decides [OF a] show ?thesis
    by (auto simp: fence_of_def claim_expires_def lease_ttl_ms_def)
qed

theorem renew_fences_witness:
  "renew DbAnswers 2000 (lease_of ''h'' False 500 (''actor'', ''L'') 0) (held (''actor'', ''L''))
     = (False, lease_of ''h'' False 500 (''actor'', ''L'') 0, held (''actor'', ''L''))"
proof -
  let ?l = "lease_of ''h'' False 500 (''actor'', ''L'') 0" and ?T = "held (''actor'', ''L'')"
  obtain b l' T' where r: "renew DbAnswers 2000 ?l ?T = (b, l', T')" by (metis prod_cases3)
  have "cell_of (xl_cell ?l) ?T = Some (''g'', 1, 91000)" "xl_renewal_required ?l" "xl_holder ?l = ''h''" by code_simp+
  with renew_fences [OF r] r show ?thesis by simp
qed

theorem trusted_lease_visible_witness:
  "is_held_elsewhere ''h'' 1000 ''actor'' ''L'' (held (''actor'', ''L''))"
  using trusted_lease_visible [OF held_reach held_trusts, of "''h''" 1000] by simp

section \<open>Ending a task\<close>

theorem terminal_write_all_or_nothing_witness:
  "\<exists>e d'. finalize_task MemoryOff ''u'' ''p'' ''t'' ''completed'' ''task_completed'' ''L'' None [] (\<lambda>d. d) done_store
       = (FinEvent e, d') \<and> current_status ''u'' ''t'' d' = Some ''completed'' \<and> ev_type e = ''task_completed''"
proof -
  let ?res = "finalize_task MemoryOff ''u'' ''p'' ''t'' ''completed'' ''task_completed'' ''L'' None [] (\<lambda>d. d) done_store"
  have "(case fst ?res of FinEvent e \<Rightarrow> True | _ \<Rightarrow> False)" by code_simp
  then obtain e d' where res: "?res = (FinEvent e, d')"
    by (cases ?res) (auto split: final_reply.splits)
  with terminal_write_all_or_nothing [where intf = "\<lambda>d. d", OF res] show ?thesis by auto
qed

theorem ended_lead_closes_task_witness:
  "\<exists>o' d'. auto_finalize_lead_task MemoryOff (\<lambda>k. k) None [] ''L'' ''t'' ''p'' ''idle'' ''u'' (\<lambda>x. x) done_store
       = (o', d') \<and> current_status ''u'' ''t'' d' = Some ''completed''"
proof -
  obtain o' d' where a: "auto_finalize_lead_task MemoryOff (\<lambda>k. k) None [] ''L'' ''t'' ''p'' ''idle'' ''u'' (\<lambda>x. x)
      done_store = (o', d')" by fastforce
  have g: "get_task_by_project ''u'' ''p'' ''t'' done_store = Some (task_with ''active'' [node_a\<lparr>st_status := Done\<rparr>])"
    by code_simp
  have o: "outstanding (tr_plan (task_with ''active'' [node_a\<lparr>st_status := Done\<rparr>])) = Inr []" by code_simp
  have m: "\<not> has_active_members ''t'' done_store" by code_simp
  have s: "tr_status (task_with ''active'' [node_a\<lparr>st_status := Done\<rparr>]) = ''active''" by (simp add: task_with_def)
  from ended_lead_closes_task [OF a _ _ g s m o] have "current_status ''u'' ''t'' d' = Some ''completed''"
    by (simp add: turn_error_def stop_error_def)
  with a show ?thesis by blast
qed

theorem finish_task_guards_witness:
  "\<exists>d' row. finish_task MemoryOff ''t'' ''p'' ''L'' [] [] ''completed'' False ''u'' (\<lambda>d. d) (\<lambda>d. d) (\<lambda>d. d) done_store
       = (FinishOk ''completed'', d') \<and> get_task_by_project ''u'' ''p'' ''t'' done_store = Some row"
proof -
  let ?res = "finish_task MemoryOff ''t'' ''p'' ''L'' [] [] ''completed'' False ''u'' (\<lambda>d. d) (\<lambda>d. d) (\<lambda>d. d) done_store"
  have "fst ?res = FinishOk ''completed''" by code_simp
  then obtain d' where res: "?res = (FinishOk ''completed'', d')" by (cases ?res) auto
  with finish_task_guards [OF res] show ?thesis by auto
qed

theorem settle_member_keeps_outcomes_witness:
  "outcomes_kept review_store (settle_member (\<lambda>k. k) [] (\<lambda>d. d) [] ''M'' ''idle'' ''t'' ''p'' ''u'' review_store)"
  using settle_member_keeps_outcomes [where env = "[]" and intf = "\<lambda>d. d" and d = review_store and se = "''M''"
      and fs = "''idle''" and t = "''t''" and p = "''p''" and u = "''u''" and msg = "\<lambda>k. k" and mf = "[]"]
  by (auto simp: outcomes_kept_def list_all2_refl)

section \<open>Committing a draft\<close>

definition sample_resolve :: "string \<Rightarrow> resolution" where
  "sample_resolve br = ResolvedLead ''L2'' br None []"

theorem commit_at_most_once_witness:
  "\<exists>se at d'. commit_task True sample_resolve ''cwd'' ''t'' ''p'' ''S'' None ''u'' (\<lambda>d. d) (\<lambda>d. d) (\<lambda>d. d) draft_store
       = (Committed se at, d')
     \<and> fst (commit_task True sample_resolve ''cwd'' ''t'' ''p'' ''S'' None ''u'' (\<lambda>d. d) (\<lambda>d. d) (\<lambda>d. d) d')
         \<in> {CommitNotFound ''t'', CommitNotDraft ''active''}"
proof -
  let ?c = "commit_task True sample_resolve ''cwd'' ''t'' ''p'' ''S'' None ''u'' (\<lambda>d. d) (\<lambda>d. d) (\<lambda>d. d)"
  have "(case fst (?c draft_store) of Committed se at \<Rightarrow> True | _ \<Rightarrow> False)" by code_simp
  then obtain se at d' where c: "?c draft_store = (Committed se at, d')"
    by (cases "?c draft_store") (auto split: commit_reply.splits)
  from commit_at_most_once [where intf = "\<lambda>d. d" and btw = "\<lambda>d. d" and ex' = True
      and rs' = sample_resolve and cwd' = "''cwd''" and p' = "''p''" and ca' = "''S''" and lo' = None
      and btwx = "\<lambda>d. d" and intfx = "\<lambda>d. d" and btwy = "\<lambda>d. d", OF c] c show ?thesis by auto
qed

section \<open>Recovery\<close>

definition late_store :: store where
  "late_store = sample_store\<lparr>clock := 100000\<rparr>"

definition fresh_monitor :: monitor where
  "fresh_monitor = \<lparr>mo_suspect = (\<lambda>_. 0), mo_attempted = (\<lambda>_. False)\<rparr>"


text \<open>
  A task whose block cannot be written ends every sweep at it: the tasks behind it in the list
  are never looked at, sweep after sweep, although the watchdog means to survive a bad task.
\<close>

definition two_stuck :: store where
  "two_stuck = late_store\<lparr>tasks := tasks late_store @ [(task_with ''active'' [node_a])\<lparr>tr_id := ''t2''\<rparr>],
     runs := runs late_store @ [sample_lead\<lparr>rr_session := ''L2'', rr_task := Some ''t2''\<rparr>]\<rparr>"

definition both_held :: lease_table where
  "both_held = snd (claim_insert ''g'' False 1000 ''n'' (''actor'', ''L2'') (held (''actor'', ''L'')))"

definition sweep_failing :: "monitor \<times> store \<times> lease_table \<Rightarrow> (final_exn + string list) \<times> monitor \<times> store \<times> lease_table" where
  "sweep_failing = sweep_once MemoryFails 1 False (\<lambda>_ _ _ s. (False, s)) (\<lambda>d. d)"

lemma watchdog_dies_on_a_bad_task:
  "case sweep_failing (fresh_monitor, two_stuck, both_held) of (r, ms) \<Rightarrow>
     r = Inl CandidateFailed \<and> mo_attempted (fst ms) ''t'' \<and> \<not> mo_attempted (fst ms) ''t2''
     \<and> (case sweep_failing ms of (r', ms') \<Rightarrow>
          r' = Inl CandidateFailed \<and> \<not> mo_attempted (fst ms') ''t2'' \<and> mo_suspect (fst ms') ''t2'' = 0)"
  by code_simp

lemma watchdog_sees_both:
  "fst (sweep_once MemoryOff 1 False (\<lambda>_ _ _ s. (False, s)) (\<lambda>d. d) (fresh_monitor, two_stuck, both_held))
     = Inr [''t'', ''t2'']"
  by code_simp

definition sample_env :: recovery_env where
  "sample_env = \<lparr>rc_me = ''h'', rc_exclusive = False, rc_ks = (\<lambda>_. (None, SRNone)), rc_manifest = (\<lambda>_. []),
     rc_msg = (\<lambda>k. k), rc_text = (\<lambda>k. k), rc_spill = (\<lambda>_ k. k), rc_writers = []\<rparr>"

theorem recovery_respects_lease_witness:
  "\<exists>r d' L'. recover_one_task sample_env ''t'' ''p'' ''u'' None (review_store, held (''actor'', ''L'')) = (r, d', L')
     \<and> spawned d' = spawned review_store \<and> r \<noteq> Inr True"
proof -
  obtain r d' L' where r: "recover_one_task sample_env ''t'' ''p'' ''u'' None (review_store, held (''actor'', ''L''))
      = (r, d', L')" by (metis prod_cases3)
  have pick: "pick_lead_run (list_runs ''u'' ''t'' review_store) = Some sample_lead" by code_simp
  have s: "rr_session sample_lead = ''L''" "actor_lease_scope = ''actor''"
    by (simp_all add: samples actor_lease_scope_def)
  have c: "clock review_store = 1000" by (simp add: samples)
  from recovery_respects_lease [OF r pick, unfolded s, OF held_reach held_trusts] r show ?thesis
    by (auto simp: sample_env_def c)
qed

theorem pause_halts_everything_witness:
  "\<exists>d'. stop_task MemoryOff ''t'' ''p'' ''paused'' ''u'' [] (\<lambda>d. d) review_store = (StopDone, d')
     \<and> current_status ''u'' ''t'' d' = Some ''paused''"
proof -
  let ?res = "stop_task MemoryOff ''t'' ''p'' ''paused'' ''u'' [] (\<lambda>d. d) review_store"
  have "fst ?res = StopDone" by code_simp
  then obtain d' where res: "?res = (StopDone, d')" by (cases ?res) auto
  with pause_halts_everything [where env = "[]" and intf = "\<lambda>d. d", OF res _ _ refl refl] show ?thesis by simp
qed

end
