(* ===== verification/ActorProperties.thy ===== *)
theory ActorProperties
  imports ActorFacts TaskWitnesses
begin

text \<open>
  The properties of the actor loop with concrete inputs for each, and a run in which a
  claimed message is lost.
\<close>

section \<open>Samples\<close>

definition sample_call :: actor_call where
  "sample_call = \<lparr>xc_session = ''L'', xc_role = LeadRole, xc_task = ''t'', xc_project = ''p'', xc_user = ''u''\<rparr>"

definition sample_probe :: probe_env where
  "sample_probe = \<lparr>pe_ks = (\<lambda>_. (None, SRNone)), pe_manifest = (\<lambda>_. []), pe_meanwhile = (\<lambda>_ d. d),
     pe_writers = []\<rparr>"

definition sample_pass :: wake_slice where
  "sample_pass = \<lparr>wk_now = 1000, wk_later = 1000, wk_last = 1000, wk_db_ok = True, wk_fenced = False,
     wk_draining = False, wk_draining_later = False, wk_inbox_ok = True, wk_before = (\<lambda>d. d), wk_claims = [],
     wk_probe = sample_probe, wk_between = (\<lambda>d. d)\<rparr>"

definition sample_turn :: turn_env where
  "sample_turn = \<lparr>te_before = (\<lambda>d. d), te_draining = False, te_fenced = False, te_turn = (\<lambda>_ d. d),
     te_outcome = TurnReturned None, te_manifest = (\<lambda>_. []), te_log_ok = True, te_between = (\<lambda>d. d),
     te_background = False, te_idle_between = (\<lambda>d. d),
     te_waits = [\<lparr>wt_start = 0, wt_passes = [sample_pass], wt_background = False\<rparr>],
     te_goal_ok = True, te_writers = []\<rparr>"

definition told_store :: store where
  "told_store = the (enqueue ''L'' ''t'' ''p'' ''u'' ''text'' ''more'' [] ''user'' [] sample_store)"

definition sample_actor :: actor_env where
  "sample_actor = \<lparr>ae_me = ''h'', ae_exclusive = False, ae_start = 0, ae_grab = (\<lambda>L. L), ae_leases = (\<lambda>x. x),
     ae_fenced = False, ae_renewal = DbAnswers, ae_end = 2000, ae_draining = False, ae_goal_ok = True,
     ae_memory = MemoryOff, ae_msg = (\<lambda>k. k), ae_kernel = (\<lambda>_ _ _ d. d), ae_stop_reason = None,
     ae_last_text = [], ae_manifest = (\<lambda>_. []), ae_intf = (\<lambda>d. d), ae_writers = []\<rparr>"

lemma sample_turn_ok: "turn_ok sample_turn"
  by (simp add: turn_ok_def sample_turn_def wait_ok_def pass_ok_def sample_pass_def probe_ok_def sample_probe_def)

lemma told_ok: "mail_ok told_store"
  by code_simp

section \<open>Turns\<close>

text \<open>Property C14: an actor runs no turn without a reason: besides the turn it is started for, it
  runs at most one turn per message of its own inbox it claimed, whatever the other processes
  and the tool calls of its turns do with the mailbox, as long as they move it forward.\<close>
theorem every_turn_has_a_message:
  assumes "actor_turns c ts (first_state c ok p d) d = ((lp, e), d')" and "mail_ok d" "list_all turn_ok ts"
  shows "lp_turns lp \<le> Suc (card (taken (xc_session c) d' - taken (xc_session c) d))"
proof -
  from actor_turns_count [OF assms] have "mail_later d d'"
    and n: "lp_turns lp + card (taken (xc_session c) d) \<le> Suc (card (taken (xc_session c) d'))"
    by (simp_all add: first_state_def)
  from mail_later_taken [OF this(1) assms(2)] n show ?thesis by (simp add: card_Diff_subset)
qed

text \<open>The lead of a task takes the one message it has and runs a second turn.\<close>

theorem every_turn_has_a_message_witness:
  "\<exists>lp e d'. actor_turns sample_call [sample_turn, sample_turn] (first_state sample_call True ''go'' told_store)
       told_store = ((lp, e), d') \<and> lp_turns lp = 2 \<and> 1 \<le> card (taken ''L'' d' - taken ''L'' told_store)"
proof -
  let ?res = "actor_turns sample_call [sample_turn, sample_turn] (first_state sample_call True ''go'' told_store) told_store"
  obtain lp e d' where res: "?res = ((lp, e), d')" by (metis surj_pair)
  have "lp_turns (fst (fst ?res)) = 2" by code_simp
  with every_turn_has_a_message [OF res told_ok] res sample_turn_ok show ?thesis
    by (auto simp: sample_call_def)
qed

text \<open>Property C15: the loop of an actor terminates: after 60 turns, and 6 extensions of its idle time, it
  is over, whatever its turns, messages and waits bring.  (The rounds listed after the
  first 60 are not looked at.)\<close>
theorem actor_loop_ends:
  assumes "length ts = actor_max_turns"
  shows "\<exists>lp e d'. actor_turns c (ts @ us) (first_state c ok p d) d = ((lp, e), d')
    \<and> actor_turns c ts (first_state c ok p d) d = ((lp, e), d') \<and> lp_turns lp \<le> 60 \<and> lp_extensions lp \<le> 6"
  using actor_turns_ends [of "first_state c ok p d" ts] assms
  by (simp add: first_state_def actor_max_turns_def max_idle_extensions_def)

theorem actor_loop_ends_witness:
  "\<exists>lp e d'. actor_turns sample_call (replicate 60 sample_turn @ [sample_turn]) (first_state sample_call True ''go'' told_store)
      told_store = ((lp, e), d') \<and> lp_turns lp \<le> 60"
  using actor_loop_ends [of "replicate 60 sample_turn" sample_call "[sample_turn]" True "''go''" told_store]
  by (auto simp: actor_max_turns_def)

section \<open>Waits\<close>

lemma oldest_pending:
  assumes "m \<in> set (mailbox d)" "is_pending s m"
  shows "\<exists>r. pending_rows s 1 d = [r] \<and> r \<in> set (mailbox d) \<and> is_pending s r \<and> mb_position r \<le> mb_position m"
proof -
  define rows where "rows = sort_key mb_position (sort_key mb_id (filter (is_pending s) (mailbox d)))"
  have set: "set rows = {x \<in> set (mailbox d). is_pending s x}" by (simp add: rows_def)
  with assms have "m \<in> set rows" by simp
  then obtain r rs where rs: "rows = r # rs" by (cases rows) auto
  have "sorted (map mb_position rows)" by (simp add: rows_def)
  with rs \<open>m \<in> set rows\<close> have "mb_position r \<le> mb_position m" by auto
  moreover have "r \<in> set rows" using rs by simp
  moreover have "pending_rows s 1 d = [r]" using rs by (simp add: pending_rows_def rows_def)
  ultimately show ?thesis using set by auto
qed

text \<open>Property C16: an actor that is still wanted wakes for its oldest message: a pass of its wait before
  the deadline that can read the inbox, in a process that does not drain and under a lease
  that was not lost, returns the pending message with the least position.\<close>
theorem wanted_actor_takes_oldest:
  assumes "wk_before w d = d1" and "\<not> deadline \<le> wk_now w" "\<not> wk_fenced w" "\<not> wk_draining w" "wk_inbox_ok w"
    and "actor_still_wanted (wk_db_ok w) (xc_session c) (xc_role c) (xc_task c) (xc_project c) (xc_user c) d1"
    and "wk_claims w = []" "mail_ok d1" "m \<in> set (mailbox d1)" "is_pending (xc_session c) m"
  shows "\<exists>r d'. await_wakeup c deadline nx (w # ws) d = (Woken (to_msg r), d')
    \<and> r \<in> set (mailbox d1) \<and> is_pending (xc_session c) r \<and> mb_position r \<le> mb_position m
    \<and> mb_id r \<in> taken (xc_session c) d'"
proof -
  let ?s = "xc_session c"
  from oldest_pending [OF assms(9,10)] obtain r where pend: "pending_rows ?s 1 d1 = [r]"
    and r: "r \<in> set (mailbox d1)" "is_pending ?s r" and le: "mb_position r \<le> mb_position m" by blast
  obtain won d2 where c: "claim_row (mb_id r) d1 = (won, d2)" by fastforce
  have won: won using c r matched_unique [OF assms(8), of "mb_id r" "\<lambda>x. mb_state x = MPending"]
    by (auto simp: claim_row_def Let_def is_pending_def)
  have dr: "drain_one (wk_draining w) (wk_inbox_ok w) ?s (wk_claims w) d1 = (Some (to_msg r), d2)"
    using assms(4,5,7) pend c won by (simp add: drain_one_def drain_def)
  then have "await_wakeup c deadline nx (w # ws) d = (Woken (to_msg r), d2)"
    using assms(1-3,6) by (simp add: Let_def)
  moreover have "mark_consumed d1 r \<in> set (mailbox d2)"
    using r c by (force simp: claim_row_def Let_def set_update_where is_pending_def)
  then have "mb_id r \<in> taken ?s d2"
    using r(2) unfolding taken_def by (auto simp: mark_consumed_def is_pending_def intro!: bexI [of _ "mark_consumed d1 r"])
  ultimately show ?thesis using r le by blast
qed

theorem wanted_actor_takes_oldest_witness:
  "\<exists>r d'. await_wakeup sample_call 2000 0 [sample_pass] told_store = (Woken (to_msg r), d') \<and> mb_id r \<in> taken ''L'' d'"
proof -
  have "actor_still_wanted True ''L'' LeadRole ''t'' ''p'' ''u'' told_store" by code_simp
  moreover have "list_ex (is_pending ''L'') (mailbox told_store)" by code_simp
  then obtain m where "m \<in> set (mailbox told_store)" "is_pending ''L'' m" by (auto simp: list_ex_iff)
  ultimately show ?thesis
    using wanted_actor_takes_oldest [of sample_pass told_store told_store 2000 sample_call m 0 "[]"] told_ok
    by (auto simp: sample_pass_def sample_call_def)
qed

section \<open>Leaving\<close>

text \<open>An actor that lost its session leaves it alone: when its fence was raised, or its
  lease was taken over and the last renewal is answered, the end of its loop changes neither
  the tasks nor the leases.\<close>
theorem evicted_actor_writes_nothing:
  assumes "ae_fenced e \<or> ae_renewal e = DbAnswers \<and> xl_renewal_required l \<and> xl_fence l < fence_of (xl_cell l) L"
  shows "close_actor c e l lp (d, L) = (d, L)"
proof (cases "ae_fenced e")
  case False
  with assms have "renew_row l (ae_end e) L = (False, L)"
    by (auto simp: renew_row_def fence_of_def fence_matches_def split: option.splits)
  with False assms have "renew (ae_renewal e) (ae_end e) l L = (False, l, L)" by (simp add: renew_def)
  with False show ?thesis by (simp add: close_actor_def)
qed (simp add: close_actor_def)

theorem evicted_actor_writes_nothing_witness:
  "close_actor sample_call sample_actor (lease_of ''h'' False 500 (''actor'', ''L'') 0)
     (first_state sample_call True ''go'' sample_store) (sample_store, held (''actor'', ''L''))
   = (sample_store, held (''actor'', ''L''))"
proof (rule evicted_actor_writes_nothing)
  have "xl_fence (lease_of ''h'' False 500 (''actor'', ''L'') 0)
      < fence_of (xl_cell (lease_of ''h'' False 500 (''actor'', ''L'') 0)) (held (''actor'', ''L''))"
    unfolding xl_cell_lease_of held_fence by (simp add: lease_of_def)
  then show "ae_fenced sample_actor \<or> ae_renewal sample_actor = DbAnswers
      \<and> xl_renewal_required (lease_of ''h'' False 500 (''actor'', ''L'') 0)
      \<and> xl_fence (lease_of ''h'' False 500 (''actor'', ''L'') 0)
        < fence_of (xl_cell (lease_of ''h'' False 500 (''actor'', ''L'') 0)) (held (''actor'', ''L''))"
    by (simp add: sample_actor_def lease_of_def)
qed

text \<open>A lead with nothing left to do completes its task: when its loop ends because no
  message, member or node is outstanding, its turn did not fail, it still holds its lease,
  the process goes on, and nobody writes meanwhile, then the task ends as completed.\<close>
theorem done_lead_completes_task:
  assumes "lead_is_done c t d = Inr True" "te_idle_between t = (\<lambda>x. x)"
    and "task_ids_unique d" "get_task_by_project (xc_user c) (xc_project c) (xc_task c) d = Some row"
      "tr_status row = ''active''"
    and "\<not> ae_fenced e" "renew (ae_renewal e) (ae_end e) l L = (True, l1, L1)" "\<not> ae_draining e"
      "ae_kernel e = (\<lambda>_ _ _ x. x)" "ae_intf e = (\<lambda>x. x)" "ae_memory e \<noteq> MemoryFails"
    and "\<not> lp_shutdown lp" "turn_error (ae_stop_reason e) (lp_status lp) = None"
  shows "current_status (xc_user c) (xc_task c) (fst (close_actor c e l lp (d, L))) = Some ''completed''"
proof -
  from assms(1) have lead: "xc_role c = LeadRole"
    and idle: "lead_idle_with_no_pending (te_background t) (\<lambda>x. x) (xc_task c) (xc_project c) (xc_user c) (xc_session c) d = Inr True"
    by (auto simp: lead_is_done_def assms(2) split: if_splits)
  with assms(4,5) have none: "\<not> has_active_members (xc_task c) d" "outstanding (tr_plan row) = Inr []"
    by (auto simp: lead_idle_with_no_pending_def outstanding_def split: if_splits sum.splits plan_exn.splits)
  obtain o' d' where fin: "auto_finalize_lead_task (ae_memory e) (ae_msg e) (ae_stop_reason e) (ae_last_text e)
      (xc_session c) (xc_task c) (xc_project c) (lp_status lp) (xc_user c) (\<lambda>x. x) d = (o', d')"
    by fastforce
  from ended_lead_closes [OF fin assms(3,11,4,5) none] assms(13)
  have "current_status (xc_user c) (xc_task c) d' = Some ''completed''" by simp
  moreover have "fst (close_actor c e l lp (d, L)) = d'"
    using assms(6-10,12) lead fin by (simp add: close_actor_def finalize_actor_def)
  ultimately show ?thesis by simp
qed

theorem done_lead_completes_task_witness:
  "current_status ''u'' ''t'' (fst (close_actor sample_call sample_actor (lease_of ''h'' True 500 (''actor'', ''L'') 0)
     (first_state sample_call True ''go'' done_store) (done_store, Map.empty))) = Some ''completed''"
proof -
  let ?l = "lease_of ''h'' True 500 (''actor'', ''L'') 0" and ?row = "task_with ''active'' [node_a\<lparr>st_status := Done\<rparr>]"
  have "lead_is_done sample_call sample_turn done_store = Inr True" by code_simp
  moreover have "get_task_by_project ''u'' ''p'' ''t'' done_store = Some ?row" by code_simp
  moreover have "renew DbAnswers 2000 ?l Map.empty = (True, ?l, Map.empty)" by (simp add: renew_def lease_of_def)
  ultimately show ?thesis
    using done_lead_completes_task [of sample_call sample_turn done_store ?row sample_actor ?l Map.empty ?l Map.empty
        "first_state sample_call True ''go'' done_store"]
    by (simp add: sample_call_def sample_turn_def sample_actor_def first_state_def task_with_def turn_error_def
        stop_error_def)
qed

section \<open>The wait of a lead\<close>

definition sample_wait :: await_call where
  "sample_wait = \<lparr>ac_lead = ''L'', ac_project = ''p'', ac_task = ''t'', ac_user = ''u'', ac_target = [''a''],
     ac_mode = ''all'', ac_deadline = 9000\<rparr>"

definition sample_slice :: wait_slice where
  "sample_slice = \<lparr>ws_now = 1000, ws_db_ok = True, ws_draining = False, ws_inbox_ok = True, ws_before = (\<lambda>d. d),
     ws_claims = [], ws_probe = sample_probe, ws_reads_ok = (\<lambda>_. True), ws_asks = []\<rparr>"

definition report_store :: store where
  "report_store = the (enqueue ''L'' ''t'' ''p'' ''u'' ''member_done'' [] ''M'' ''member-idle''
     [(''status'', JStr ''completed'')] review_store)"

theorem wait_hands_over_what_it_claims_witness:
  "\<exists>st d' e. await_loop sample_wait [sample_slice] await_start report_store = (Inr st, d')
     \<and> e \<in> set (ar_results (await_reply_of sample_wait sample_slice st d'))"
proof -
  let ?run = "await_loop sample_wait [sample_slice] await_start report_store"
  let ?claims = "await_claims sample_wait [sample_slice] await_start report_store"
  have "(case fst ?run of Inr _ \<Rightarrow> True | _ \<Rightarrow> False)" by code_simp
  then obtain st d' where run: "?run = (Inr st, d')" by (cases ?run) (auto split: sum.splits)
  have one: "map (im_kind \<circ> fst) ?claims = [''member_done'']" by code_simp
  then obtain x where x: "?claims = [x]" by blast
  obtain m k e where m: "x = (m, k, e)" by (cases x)
  with one x have "im_kind m = ''member_done''" by simp
  moreover from x m have "?claims = [] @ (m, k, e) # []" by simp
  ultimately have "e \<in> set (ar_results (await_reply_of sample_wait sample_slice st d'))"
    using wait_hands_over_what_it_claims [OF run, of "[]" m k e "[]" sample_slice] by simp
  with run show ?thesis by blast
qed

theorem backstop_gives_a_pass_of_grace_witness:
  "\<exists>go st d'. await_pass sample_wait sample_slice await_start review_store = (Inr (go, st), None, d')
     \<and> aw_collected st = []"
proof -
  let ?run = "await_pass sample_wait sample_slice await_start review_store"
  have "(case ?run of (Inr _, None, _) \<Rightarrow> True | _ \<Rightarrow> False)" by code_simp
  then obtain go st d' where run: "?run = (Inr (go, st), None, d')"
    by (auto split: prod.splits sum.splits option.splits)
  from backstop_gives_a_pass_of_grace [OF run] run show ?thesis by (auto simp: await_start_def)
qed

section \<open>A message that is lost\<close>

text \<open>
  The wait does not claim while the process drains, because what it claims then is thrown
  away.  The loop looks at the drain flag again after the claim and before the turn: when it
  is raised in between, the lead's only message is consumed and no turn runs with it.
\<close>

lemma message_lost_at_drain:
  "(case actor_turns sample_call [sample_turn, sample_turn\<lparr>te_draining := True\<rparr>]
       (first_state sample_call True ''go'' told_store) told_store of ((lp, e), d') \<Rightarrow>
     has_pending ''L'' told_store \<and> \<not> has_pending ''L'' d' \<and> lp_turns lp = 1 \<and> lp_shutdown lp)"
  by code_simp

section \<open>A member that crashed\<close>

definition crashed_store :: store where
  "crashed_store = store_with [task_with ''active'' [node_a\<lparr>st_status := InProgress\<rparr>, node_b]] [sample_lead, sample_member]"

definition crashed_probe :: probe_env where
  "crashed_probe = sample_probe\<lparr>pe_ks := (\<lambda>_. (Some ''idle'', SRDict [(''type'', JStr ''end_turn'')]))\<rparr>"

text \<open>
  Crash recovery settles the member in one transaction and tells the lead in a second one.  When the process
  dies in between, the member's run is completed, no message exists, and the next recovery
  finds nothing to do.
\<close>

lemma crash_between_transactions:
  "let d1 = snd (heartbeat_pending crashed_probe ''t'' ''p'' [''a''] ''u'' None crashed_store)
   in map_option rr_status (get_run ''M'' d1) = Some RCompleted \<and> mailbox d1 = []
    \<and> fst (recover_crashed_members crashed_probe (\<lambda>d. d) ''t'' ''p'' ''u'' d1) = Inr 0"
  by code_simp

text \<open>The heartbeat's write of the run is unconditional: an outcome that is recorded while it reads the
  session is overwritten.\<close>

lemma heartbeat_overwrites_outcome:
  "let stop = (\<lambda>d. snd (update_run_by_session ''M'' RRejected None None d));
       d1 = snd (heartbeat_pending (crashed_probe\<lparr>pe_meanwhile := (\<lambda>_. stop)\<rparr>) ''t'' ''p'' [''a''] ''u'' None crashed_store)
   in map_option rr_status (get_run ''M'' (stop crashed_store)) = Some RRejected
    \<and> map_option rr_status (get_run ''M'' d1) = Some RCompleted"
  by code_simp

end
