(* ===== verification/LiveEvents.thy ===== *)
theory LiveEvents
  imports PyJson "HOL-Library.AList"
begin

text \<open>
  The events a session emits while it runs and the sinks they pass on their way to the
  database and the clients: \<^verbatim>\<open>backend/kernel/src/core/events.py\<close>,
  \<^verbatim>\<open>adapters/database_sink.py\<close>, \<^verbatim>\<open>adapters/persist_then_broadcast_sink.py\<close> and the stamp
  of \<^verbatim>\<open>core/orchestrator.py\<close>.  A sink maps an event and its state to whether it returned
  and its next state; an exception of a sink is the answer \<open>False\<close>.
\<close>

section \<open>Events\<close>

record live_event =
  le_type :: string
  le_data :: "(string \<times> json) list"
  le_time :: int

type_synonym 's sink = "live_event \<Rightarrow> 's \<Rightarrow> bool \<times> 's"

text \<open>\<open>{k: v for k, v in d.items() if k not in ks}\<close>.  \<open>{**d, k: v}\<close> is \<open>AList.update k v d\<close>.\<close>

definition without :: "string list \<Rightarrow> (string \<times> json) list \<Rightarrow> (string \<times> json) list" where
  "without ks d = filter (\<lambda>kv. fst kv \<notin> set ks) d"

lemma map_of_without [simp]: "map_of (without ks d) k = (if k \<in> set ks then None else map_of d k)"
proof (induction d)
  case (Cons kv d)
  then show ?case by (cases kv) (auto simp: without_def)
qed (simp add: without_def)

lemma dget_without [simp]: "k \<notin> set ks \<Longrightarrow> dget (without ks d) k = dget d k"
  by (simp add: dget_def)

lemma dget_update [simp]: "dget (AList.update k v d) k' = (if k' = k then v else dget d k')"
  by (simp add: dget_def update_conv')

text \<open>A delta's own text; anything but a string counts as none.\<close>

definition event_text :: "live_event \<Rightarrow> string" where
  "event_text e = (case dget (le_data e) ''text'' of JStr s \<Rightarrow> s | _ \<Rightarrow> [])"

text \<open>\<open>str(v) if v is not None else None\<close>.\<close>

definition opt_str :: "json \<Rightarrow> string option" where
  "opt_str v = (case v of JNull \<Rightarrow> None | _ \<Rightarrow> Some (py_str v))"

section \<open>The sinks of a turn\<close>

text \<open>The stamp of the message id in front of the session's bus.\<close>

definition stamp_message :: "string \<Rightarrow> 's sink \<Rightarrow> 's sink" where
  "stamp_message mid inner e = inner (e\<lparr>le_data := AList.update ''message_id'' (JStr mid) (le_data e)\<rparr>)"

definition non_persisted_types :: "string list" where
  "non_persisted_types = [''text_delta'', ''thinking_delta'', ''tool_input_delta'', ''tool_output_delta'',
     ''workflow_progress'']"

text \<open>
  The store is a parameter: it is given the event and the identity minted for it, and
  answers with its row id, if it can report one, or raises (\<open>None\<close>).  \<open>mint\<close> makes the
  identities.
\<close>

type_synonym 'd append = "live_event \<Rightarrow> string \<Rightarrow> 'd \<Rightarrow> int option option \<times> 'd"

definition persist_event :: "'d append \<Rightarrow> ('d \<Rightarrow> string) \<Rightarrow> live_event \<Rightarrow> 'd
    \<Rightarrow> (int option \<times> string option) option \<times> 'd" where
  "persist_event app mint e d =
     (if le_type e \<in> set non_persisted_types then (Some (None, None), d)
      else (case app e (mint d) d of
        (None, d') \<Rightarrow> (None, d')
      | (Some seq, d') \<Rightarrow> (Some (seq, Some (mint d)), d')))"

text \<open>\<open>seq\<close> is reserved on the live wire.\<close>

definition stamp_seq :: "(int option \<times> string option) option \<Rightarrow> live_event \<Rightarrow> live_event" where
  "stamp_seq persisted e =
     (case persisted of
        Some (Some seq, uid) \<Rightarrow> e\<lparr>le_data :=
          (case uid of None \<Rightarrow> AList.update ''seq'' (JInt seq) (le_data e)
           | Some u \<Rightarrow> AList.update ''event_uid'' (JStr u) (AList.update ''seq'' (JInt seq) (le_data e)))\<rparr>
      | _ \<Rightarrow> if ''seq'' \<in> set (map fst (le_data e)) then e\<lparr>le_data := without [''seq''] (le_data e)\<rparr> else e)"

text \<open>Neither a failing store nor a failing bus is seen by the emitter.\<close>

definition persist_then_broadcast :: "'d append \<Rightarrow> ('d \<Rightarrow> string) \<Rightarrow> 's sink \<Rightarrow> ('d \<times> 's) sink" where
  "persist_then_broadcast app mint live e ds =
     (case persist_event app mint e (fst ds) of
        (persisted, d') \<Rightarrow> (True, d', snd (live (stamp_seq persisted e) (snd ds))))"

end
