(* ===== verification/Coalesce.thy ===== *)
theory Coalesce
  imports LiveEvents
begin

text \<open>
  \<^verbatim>\<open>backend/kernel/src/adapters/delta_coalescing_sink.py\<close>: consecutive deltas of one stream
  are merged into one event before they are passed on; any other event flushes what is
  buffered first.  The delay before a flush is a step of its own, taken at any time.
\<close>

section \<open>Streams\<close>

type_synonym buffer_key = "string \<times> string option \<times> string option"

record buffer_entry =
  be_type :: string
  be_text :: string
  be_data :: "(string \<times> json) list"

type_synonym buffers = "(buffer_key \<times> buffer_entry) list"

definition delta_types :: "string list" where
  "delta_types = [''text_delta'', ''thinking_delta'', ''tool_input_delta'', ''tool_output_delta'']"

definition keyed_delta_types :: "string list" where
  "keyed_delta_types = [''tool_input_delta'', ''tool_output_delta'']"

definition is_delta :: "live_event \<Rightarrow> bool" where
  "is_delta e = (le_type e \<in> set delta_types)"

definition key_for :: "live_event \<Rightarrow> buffer_key" where
  "key_for e = (if le_type e \<in> set keyed_delta_types
     then (le_type e, opt_str (dget (le_data e) ''id''), opt_str (dget (le_data e) ''stream''))
     else (le_type e, opt_str (dget (le_data e) ''parent_tool_use_id''), None))"

section \<open>The sink\<close>

definition buffer_delta :: "live_event \<Rightarrow> buffers \<Rightarrow> buffers" where
  "buffer_delta e bufs =
     (let key = key_for e;
          entry = (case map_of bufs key of
             None \<Rightarrow> \<lparr>be_type = le_type e, be_text = [], be_data = without [''text''] (le_data e)\<rparr>
           | Some en \<Rightarrow> en)
      in AList.update key (entry\<lparr>be_text := be_text entry @ event_text e\<rparr>) bufs)"

definition merged_event :: "int \<Rightarrow> buffer_entry \<Rightarrow> live_event" where
  "merged_event now en = \<lparr>le_type = be_type en, le_data = AList.update ''text'' (JStr (be_text en)) (be_data en),
     le_time = now\<rparr>"

text \<open>Oldest first; an entry without text is dropped, and a failure of the inner sink is swallowed.\<close>

fun flush_entries :: "'s sink \<Rightarrow> int \<Rightarrow> buffers \<Rightarrow> 's \<Rightarrow> 's" where
  "flush_entries inner now [] s = s"
| "flush_entries inner now ((key, en) # bufs) s =
     flush_entries inner now bufs (if be_text en = [] then s else snd (inner (merged_event now en) s))"

definition flush :: "'s sink \<Rightarrow> int \<Rightarrow> buffers \<times> 's \<Rightarrow> buffers \<times> 's" where
  "flush inner now bs = ([], flush_entries inner now (fst bs) (snd bs))"

definition coalesce :: "'s sink \<Rightarrow> int \<Rightarrow> (buffers \<times> 's) sink" where
  "coalesce inner now e bs =
     (if is_delta e then (True, buffer_delta e (fst bs), snd bs)
      else (case flush inner now bs of (bufs, s) \<Rightarrow>
        (case inner e s of (ok, s') \<Rightarrow> (ok, bufs, s'))))"

section \<open>Runs\<close>

text \<open>What the runtime emits and when the delay or an explicit flush strikes, each with its time.\<close>

datatype sink_step = Emit live_event int | FlushAt int

fun sink_run :: "'s sink \<Rightarrow> sink_step list \<Rightarrow> buffers \<times> 's \<Rightarrow> buffers \<times> 's" where
  "sink_run inner [] bs = bs"
| "sink_run inner (Emit e now # steps) bs = sink_run inner steps (snd (coalesce inner now e bs))"
| "sink_run inner (FlushAt now # steps) bs = sink_run inner steps (flush inner now bs)"

fun emitted :: "sink_step list \<Rightarrow> live_event list" where
  "emitted [] = []"
| "emitted (Emit e now # steps) = e # emitted steps"
| "emitted (FlushAt now # steps) = emitted steps"

section \<open>What a consumer sees\<close>

text \<open>
  A consumer knows nothing of the sink's buffers.  It tells the streams apart by what the
  events say of them: the lead's or a subagent's text, the lead's or a subagent's thinking,
  the input of a tool call, one output of a tool call.
\<close>

datatype live_stream =
    SaidBy "string option"
  | ThoughtBy "string option"
  | InputOf "string option" "string option"
  | OutputOf "string option" "string option"

fun shown :: "json \<Rightarrow> string option" where
  "shown JNull = None"
| "shown v = Some (py_str v)"

definition stream_of :: "live_event \<Rightarrow> live_stream option" where
  "stream_of e = (let at = (\<lambda>k. shown (dget (le_data e) k)) in
     if le_type e = ''text_delta'' then Some (SaidBy (at ''parent_tool_use_id''))
     else if le_type e = ''thinking_delta'' then Some (ThoughtBy (at ''parent_tool_use_id''))
     else if le_type e = ''tool_input_delta'' then Some (InputOf (at ''id'') (at ''stream''))
     else if le_type e = ''tool_output_delta'' then Some (OutputOf (at ''id'') (at ''stream''))
     else None)"

definition chunk_of :: "live_event \<Rightarrow> string" where
  "chunk_of e = (case dget (le_data e) ''text'' of JStr s \<Rightarrow> s | _ \<Rightarrow> [])"

text \<open>
  It appends the deltas of each stream, and looks at what each stream has said when another
  event comes.  A view lists those moments and the streams since the last one.
\<close>

type_synonym view = "((live_stream \<Rightarrow> string) \<times> live_event) list \<times> (live_stream \<Rightarrow> string)"

definition see :: "live_event \<Rightarrow> view \<Rightarrow> view" where
  "see e v = (case stream_of e of
     Some k \<Rightarrow> (fst v, (snd v)(k := snd v k @ chunk_of e))
   | None \<Rightarrow> (fst v @ [(snd v, e)], (\<lambda>_. [])))"

definition view_of :: "live_event list \<Rightarrow> view" where
  "view_of es = fold see es ([], (\<lambda>_. []))"

subsection \<open>The same view, by the keys of the sink\<close>

type_synonym key_view = "((buffer_key \<Rightarrow> string) \<times> live_event) list \<times> (buffer_key \<Rightarrow> string)"

definition key_see :: "live_event \<Rightarrow> key_view \<Rightarrow> key_view" where
  "key_see e v = (if is_delta e then (fst v, (snd v)(key_for e := snd v (key_for e) @ event_text e))
     else (fst v @ [(snd v, e)], (\<lambda>_. [])))"

definition key_view :: "live_event list \<Rightarrow> key_view" where
  "key_view es = fold key_see es ([], (\<lambda>_. []))"

lemma key_view_Nil [simp]: "key_view [] = ([], (\<lambda>_. []))"
  by (simp add: key_view_def)

lemma key_view_snoc: "key_view (es @ [e]) = key_see e (key_view es)"
  by (simp add: key_view_def)

text \<open>The keys name the streams: each stream has one, and no two share it.\<close>

fun stream_key :: "live_stream \<Rightarrow> buffer_key" where
  "stream_key (SaidBy p) = (''text_delta'', p, None)"
| "stream_key (ThoughtBy p) = (''thinking_delta'', p, None)"
| "stream_key (InputOf i s) = (''tool_input_delta'', i, s)"
| "stream_key (OutputOf i s) = (''tool_output_delta'', i, s)"

lemma stream_key_inj: "stream_key k = stream_key k' \<longleftrightarrow> k = k'"
  by (cases k; cases k') auto

lemma shown_opt_str: "shown v = opt_str v"
  by (cases v) (simp_all add: opt_str_def)

lemma is_delta_stream: "is_delta e \<longleftrightarrow> stream_of e \<noteq> None"
  by (simp add: is_delta_def delta_types_def stream_of_def Let_def)

lemma key_for_stream: "stream_of e = Some k \<Longrightarrow> key_for e = stream_key k"
  by (auto simp: stream_of_def key_for_def keyed_delta_types_def shown_opt_str Let_def split: if_splits)

lemma chunk_of_text: "chunk_of e = event_text e"
  by (simp add: chunk_of_def event_text_def split: json.splits)

definition by_stream :: "key_view \<Rightarrow> view" where
  "by_stream v = (map (\<lambda>(f, e). (f \<circ> stream_key, e)) (fst v), snd v \<circ> stream_key)"

lemma see_by_stream: "see e (by_stream v) = by_stream (key_see e v)"
proof (cases "stream_of e")
  case None
  then show ?thesis by (auto simp: see_def key_see_def by_stream_def is_delta_stream)
next
  case (Some k)
  have "(snd v \<circ> stream_key)(k := x) = (snd v)(stream_key k := x) \<circ> stream_key" for x
    by (auto simp: stream_key_inj)
  with Some show ?thesis
    by (simp add: see_def key_see_def by_stream_def is_delta_stream key_for_stream chunk_of_text)
qed

lemma view_of_by_stream: "view_of es = by_stream (key_view es)"
proof (induction es rule: rev_induct)
  case Nil
  show ?case by (auto simp: view_of_def by_stream_def)
next
  case (snoc e es)
  then show ?case by (simp add: view_of_def key_view_snoc flip: see_by_stream)
qed

text \<open>The inner sink of the statements below keeps a log of what it is given, whatever it answers.\<close>

definition logging :: "(live_event \<Rightarrow> bool) \<Rightarrow> live_event list sink" where
  "logging ok e log = (ok e, log @ [e])"

definition pending_text :: "buffers \<Rightarrow> buffer_key \<Rightarrow> string" where
  "pending_text bufs key = (case map_of bufs key of None \<Rightarrow> [] | Some en \<Rightarrow> be_text en)"

text \<open>Every buffer is named by the key its merged event has.\<close>

definition buffers_ok :: "buffers \<Rightarrow> bool" where
  "buffers_ok bufs = (distinct (map fst bufs) \<and>
     (\<forall>(key, en) \<in> set bufs. be_type en \<in> set delta_types \<and> key_for (merged_event 0 en) = key))"

lemma key_for_merged: "key_for (merged_event now en) = key_for (merged_event 0 en)"
  by (simp add: key_for_def merged_event_def)

lemma key_for_text: "key_for (merged_event 0 (en\<lparr>be_text := t\<rparr>)) = key_for (merged_event 0 en)"
  by (simp add: key_for_def merged_event_def)

lemma event_text_merged [simp]: "event_text (merged_event now en) = be_text en"
  by (simp add: event_text_def merged_event_def)

lemma is_delta_merged [simp]: "is_delta (merged_event now en) = (be_type en \<in> set delta_types)"
  by (simp add: is_delta_def merged_event_def)

lemma key_for_new: "key_for (merged_event 0 \<lparr>be_type = le_type e, be_text = t, be_data = without [''text''] (le_data e)\<rparr>)
    = key_for e"
  by (simp add: key_for_def merged_event_def)

lemma buffer_delta_ok:
  assumes "buffers_ok bufs" "is_delta e"
  shows "buffers_ok (buffer_delta e bufs)"
    and "pending_text (buffer_delta e bufs) = (pending_text bufs)(key_for e := pending_text bufs (key_for e) @ event_text e)"
proof -
  define en where "en = (case map_of bufs (key_for e) of
      None \<Rightarrow> \<lparr>be_type = le_type e, be_text = [], be_data = without [''text''] (le_data e)\<rparr> | Some x \<Rightarrow> x)"
  have new: "buffer_delta e bufs = AList.update (key_for e) (en\<lparr>be_text := be_text en @ event_text e\<rparr>) bufs"
    by (simp add: buffer_delta_def Let_def en_def)
  have en: "be_type en \<in> set delta_types" "key_for (merged_event 0 en) = key_for e"
    using assms
    by (auto simp: en_def buffers_ok_def is_delta_def key_for_new split: option.split dest!: map_of_SomeD)
  have "be_text en = pending_text bufs (key_for e)"
    by (simp add: en_def pending_text_def split: option.split)
  then show "pending_text (buffer_delta e bufs) = (pending_text bufs)(key_for e := pending_text bufs (key_for e) @ event_text e)"
    by (auto simp: new pending_text_def update_conv' fun_eq_iff)
  have "distinct (map fst (buffer_delta e bufs))"
    using assms(1) by (simp add: new buffers_ok_def distinct_update)
  moreover have "set (buffer_delta e bufs) \<subseteq> insert (key_for e, en\<lparr>be_text := be_text en @ event_text e\<rparr>) (set bufs)"
    unfolding new by (induction bufs) auto
  ultimately show "buffers_ok (buffer_delta e bufs)"
    using assms(1) en key_for_text [where en = en] by (fastforce simp: buffers_ok_def)
qed

lemma flush_entries_log:
  assumes "buffers_ok bufs" "key_view log = (past, cur)"
  shows "key_view (flush_entries (logging ok) now bufs log) = (past, (\<lambda>k. cur k @ pending_text bufs k))"
  using assms
proof (induction bufs arbitrary: log cur)
  case Nil
  then show ?case by (simp add: pending_text_def)
next
  case (Cons b bufs)
  obtain key en where b: "b = (key, en)" by (cases b)
  with Cons.prems(1) have en: "be_type en \<in> set delta_types" "key_for (merged_event now en) = key"
    and fresh: "pending_text bufs key = []" and ok: "buffers_ok bufs"
    using key_for_merged [of now en]
    by (auto simp: buffers_ok_def pending_text_def split: option.split dest!: map_of_SomeD) force
  have pend: "pending_text (b # bufs) = (pending_text bufs)(key := be_text en)"
    by (auto simp: b pending_text_def)
  show ?case
  proof (cases "be_text en = []")
    case True
    with Cons.IH [OF ok Cons.prems(2)] fresh show ?thesis unfolding pend by (simp add: b fun_eq_iff)
  next
    case False
    have "key_view (log @ [merged_event now en]) = (past, cur(key := cur key @ be_text en))"
      using Cons.prems(2) en by (simp add: key_view_snoc key_see_def)
    from Cons.IH [OF ok this] False fresh show ?thesis
      unfolding pend by (auto simp: b logging_def fun_eq_iff)
  qed
qed

text \<open>The invariant: what has been passed on, with what is buffered, is what was emitted.\<close>

definition faithful :: "live_event list \<Rightarrow> buffers \<times> live_event list \<Rightarrow> bool" where
  "faithful es bs = (buffers_ok (fst bs) \<and>
     key_view es = (fst (key_view (snd bs)), (\<lambda>k. snd (key_view (snd bs)) k @ pending_text (fst bs) k)))"

lemma flush_faithful:
  assumes "faithful es bs"
  shows "faithful es (flush (logging ok) now bs)" "fst (flush (logging ok) now bs) = []"
    "key_view (snd (flush (logging ok) now bs)) = key_view es"
proof -
  obtain past cur where v: "key_view (snd bs) = (past, cur)" by fastforce
  with assms flush_entries_log [of "fst bs" "snd bs" past cur ok now]
  show "key_view (snd (flush (logging ok) now bs)) = key_view es"
    by (simp add: faithful_def flush_def)
  then show "faithful es (flush (logging ok) now bs)"
    by (simp add: faithful_def flush_def buffers_ok_def pending_text_def)
qed (simp add: flush_def)

lemma coalesce_faithful:
  assumes "faithful es bs"
  shows "faithful (es @ [e]) (snd (coalesce (logging ok) now e bs))"
proof (cases "is_delta e")
  case True
  with assms buffer_delta_ok [of "fst bs" e] show ?thesis
    by (auto simp: faithful_def coalesce_def key_view_snoc key_see_def)
next
  case False
  note f = flush_faithful [OF assms, of ok now]
  from False f(2,3) show ?thesis
    by (auto simp: faithful_def coalesce_def logging_def key_view_snoc key_see_def buffers_ok_def pending_text_def
        split: prod.split)
qed

lemma sink_run_faithful:
  assumes "faithful es bs"
  shows "faithful (es @ emitted steps) (sink_run (logging ok) steps bs)"
  using assms
proof (induction steps arbitrary: es bs)
  case (Cons step steps)
  then show ?case
  proof (cases step)
    case (Emit e now)
    with Cons.IH [OF coalesce_faithful [OF Cons.prems, of e ok now]] show ?thesis by simp
  next
    case (FlushAt now)
    with Cons.IH [OF flush_faithful(1) [OF Cons.prems]] show ?thesis by simp
  qed
qed simp

end
