(* ===== verification/LivePartial.thy ===== *)
theory LivePartial
  imports LiveEvents
begin

text \<open>
  \<^verbatim>\<open>backend/kernel/src/core/live_partial.py\<close>: what the streams of the running turn have said
  since the last event that sealed them, kept so that a client that joins in the middle can
  be given it as one absolute frame per stream.  Warnings are left out.
\<close>

section \<open>The accumulator\<close>

definition snapshot_flag :: string where
  "snapshot_flag = ''live_snapshot''"

definition tracked_types :: "string list" where
  "tracked_types = [''text_delta'', ''thinking_delta'']"

text \<open>The stream an event seals.\<close>

definition sealed_by :: "string \<Rightarrow> string option" where
  "sealed_by ty = (if ty = ''assistant_message'' then Some ''text_delta''
     else if ty = ''thinking'' then Some ''thinking_delta'' else None)"

definition turn_boundary_types :: "string list" where
  "turn_boundary_types = [''user_message'', ''session_idle'', ''session_error'']"

definition max_chars_per_stream :: int where
  "max_chars_per_stream = 512 * 1024"

definition max_streams :: nat where
  "max_streams = 64"

type_synonym stream_key = "string \<times> string option"

definition flow_of :: "live_event \<Rightarrow> string option" where
  "flow_of e = opt_str (dget (le_data e) ''parent_tool_use_id'')"

record open_stream =
  os_data :: "(string \<times> json) list"
  os_text :: string
  os_time :: int
  os_overflowed :: bool

type_synonym partials = "(stream_key \<times> open_stream) list"

text \<open>The chunk of a delta, if it has one.\<close>

definition chunk_of :: "live_event \<Rightarrow> string" where
  "chunk_of e = (case (case dget (le_data e) ''text'' of JNull \<Rightarrow> dget (le_data e) ''delta'' | v \<Rightarrow> v) of
     JStr s \<Rightarrow> s | _ \<Rightarrow> [])"

definition grow :: "live_event \<Rightarrow> open_stream \<Rightarrow> open_stream" where
  "grow e st = (if os_overflowed st then st
     else if int (length (os_text st)) + int (length (chunk_of e)) > max_chars_per_stream
     then st\<lparr>os_overflowed := True, os_text := []\<rparr>
     else st\<lparr>os_text := os_text st @ chunk_of e, os_time := le_time e\<rparr>)"

definition observe :: "live_event \<Rightarrow> partials \<Rightarrow> partials" where
  "observe e ps =
     (if le_type e \<in> set turn_boundary_types then []
      else case sealed_by (le_type e) of
        Some ty \<Rightarrow> AList.delete (ty, flow_of e) ps
      | None \<Rightarrow>
          if le_type e \<notin> set tracked_types \<or> chunk_of e = [] then ps
          else (let key = (le_type e, flow_of e) in
            case map_of ps key of
              Some st \<Rightarrow> AList.update key (grow e st) ps
            | None \<Rightarrow>
                if max_streams \<le> length ps then ps
                else AList.update key (grow e \<lparr>os_data = without [''text'', ''delta''] (le_data e), os_text = [],
                       os_time = le_time e, os_overflowed = False\<rparr>) ps))"

definition frame_of :: "stream_key \<Rightarrow> open_stream \<Rightarrow> live_event" where
  "frame_of key st = \<lparr>le_type = fst key,
     le_data = AList.update snapshot_flag (JBool True) (AList.update ''text'' (JStr (os_text st)) (os_data st)),
     le_time = os_time st\<rparr>"

definition snapshot :: "partials \<Rightarrow> live_event list" where
  "snapshot ps = map (\<lambda>(key, st). frame_of key st)
     (filter (\<lambda>(key, st). \<not> os_overflowed st \<and> os_text st \<noteq> []) ps)"

definition accumulate :: "live_event list \<Rightarrow> partials" where
  "accumulate es = fold observe es []"

lemma accumulate_Nil [simp]: "accumulate [] = []"
  by (simp add: accumulate_def)

lemma accumulate_snoc [simp]: "accumulate (es @ [e]) = observe e (accumulate es)"
  by (simp add: accumulate_def)

section \<open>What has not been sealed\<close>

text \<open>The specification: everything a stream said since it was last sealed.\<close>

definition say :: "stream_key \<Rightarrow> live_event \<Rightarrow> string \<Rightarrow> string" where
  "say key e t =
     (if le_type e \<in> set turn_boundary_types then []
      else case sealed_by (le_type e) of
        Some ty \<Rightarrow> if (ty, flow_of e) = key then [] else t
      | None \<Rightarrow> if le_type e \<in> set tracked_types \<and> (le_type e, flow_of e) = key then t @ chunk_of e else t)"

definition unsealed :: "stream_key \<Rightarrow> live_event list \<Rightarrow> string" where
  "unsealed key es = fold (say key) es []"

lemma unsealed_Nil [simp]: "unsealed key [] = []"
  by (simp add: unsealed_def)

lemma unsealed_snoc [simp]: "unsealed key (es @ [e]) = say key e (unsealed key es)"
  by (simp add: unsealed_def)

text \<open>The streams that are open, and whether their number ever passed the cap.\<close>

definition open_keys :: "live_event list \<Rightarrow> stream_key set" where
  "open_keys es = {key. unsealed key es \<noteq> []}"

definition within_cap :: "live_event list \<Rightarrow> bool" where
  "within_cap es = (\<forall>n \<le> length es. card (open_keys (take n es)) \<le> max_streams)"

lemma within_cap_snoc: "within_cap (es @ [e]) \<Longrightarrow> within_cap es \<and> card (open_keys (es @ [e])) \<le> max_streams"
  unfolding within_cap_def by (auto dest: spec [of _ "length (es @ [e])"] split: if_splits)
    (metis le_SucI less_or_eq_imp_le nat_le_linear take_all_iff take_append append_take_drop_id diff_is_0_eq' take0 append_Nil2)

text \<open>A stream is kept exactly while it is open, with all it said or marked as overflowed.\<close>

definition tracks :: "live_event list \<Rightarrow> partials \<Rightarrow> bool" where
  "tracks es ps = (distinct (map fst ps) \<and> fst ` set ps = open_keys es
     \<and> (\<forall>(key, st) \<in> set ps. fst key \<in> set tracked_types
         \<and> opt_str (dget (os_data st) ''parent_tool_use_id'') = snd key
         \<and> (if os_overflowed st then os_text st = [] \<and> int (length (unsealed key es)) > max_chars_per_stream
            else os_text st = unsealed key es \<and> int (length (os_text st)) \<le> max_chars_per_stream)))"

lemma tracks_Nil [simp]: "tracks [] []"
  by (simp add: tracks_def open_keys_def)

text \<open>One stream, as the invariant wants it.\<close>

definition stream_ok :: "live_event list \<Rightarrow> stream_key \<Rightarrow> open_stream \<Rightarrow> bool" where
  "stream_ok es key st = (fst key \<in> set tracked_types
     \<and> opt_str (dget (os_data st) ''parent_tool_use_id'') = snd key
     \<and> (if os_overflowed st then os_text st = [] \<and> int (length (unsealed key es)) > max_chars_per_stream
        else os_text st = unsealed key es \<and> int (length (os_text st)) \<le> max_chars_per_stream))"

lemma tracks_alt:
  "tracks es ps = (distinct (map fst ps) \<and> fst ` set ps = open_keys es \<and> (\<forall>(key, st) \<in> set ps. stream_ok es key st))"
  by (simp add: tracks_def stream_ok_def)

lemma stream_ok_unsealed:
  "unsealed key es' = unsealed key es \<Longrightarrow> stream_ok es' key st = stream_ok es key st"
  by (simp add: stream_ok_def)

lemma grow_ok:
  assumes "stream_ok es key st" "unsealed key es' = unsealed key es @ chunk_of e"
  shows "stream_ok es' key (grow e st)"
  using assms by (auto simp: stream_ok_def grow_def)

lemma open_keys_insert:
  assumes "\<And>k. k \<noteq> key \<Longrightarrow> unsealed k es' = unsealed k es" "unsealed key es' \<noteq> []"
  shows "open_keys es' = insert key (open_keys es)"
proof (rule set_eqI)
  show "k \<in> open_keys es' \<longleftrightarrow> k \<in> insert key (open_keys es)" for k
    using assms by (cases "k = key") (simp_all add: open_keys_def)
qed

lemma tracks_delete:
  assumes "tracks es ps" and "\<And>k. k \<noteq> key \<Longrightarrow> unsealed k es' = unsealed k es" "unsealed key es' = []"
  shows "tracks es' (AList.delete key ps)"
proof -
  have "distinct (map fst (AList.delete key ps))"
    using assms(1) by (simp add: tracks_alt distinct_delete)
  moreover have "fst ` set (AList.delete key ps) = open_keys es'"
  proof -
    have "fst ` set (AList.delete key ps) = fst ` set ps - {key}" by (auto simp: AList.delete_eq)
    also have "\<dots> = open_keys es'"
    proof (rule set_eqI)
      show "k \<in> fst ` set ps - {key} \<longleftrightarrow> k \<in> open_keys es'" for k
        using assms by (cases "k = key") (simp_all add: tracks_alt open_keys_def)
    qed
    finally show ?thesis .
  qed
  moreover have "stream_ok es' k st" if "(k, st) \<in> set (AList.delete key ps)" for k st
  proof -
    from that have k: "k \<noteq> key" "(k, st) \<in> set ps" by (auto simp: AList.delete_eq)
    with assms(1) have "stream_ok es k st" by (auto simp: tracks_alt)
    then show ?thesis by (simp only: stream_ok_unsealed [OF assms(2) [OF k(1)]])
  qed
  ultimately show ?thesis by (auto simp: tracks_alt)
qed

lemma tracks_update:
  assumes "tracks es ps" and "\<And>k. k \<noteq> key \<Longrightarrow> unsealed k es' = unsealed k es" "unsealed key es' \<noteq> []"
    and "stream_ok es' key st"
  shows "tracks es' (AList.update key st ps)"
proof -
  have "distinct (map fst (AList.update key st ps))"
    using assms(1) by (simp add: tracks_alt distinct_update)
  moreover have "fst ` set (AList.update key st ps) = insert key (fst ` set ps)"
    by (simp flip: dom_map_of_conv_image_fst add: update_conv')
  then have "fst ` set (AList.update key st ps) = open_keys es'"
    using assms(1) open_keys_insert [OF assms(2,3)] by (simp add: tracks_alt)
  moreover have "stream_ok es' k x" if "(k, x) \<in> set (AList.update key st ps)" for k x
  proof (cases "k = key")
    case True
    with that calculation(1) have "map_of (AList.update key st ps) key = Some x" by simp
    with True assms(4) show ?thesis by (simp add: update_conv')
  next
    case False
    with that calculation(1) have "map_of (AList.update key st ps) k = Some x" by simp
    with False have "(k, x) \<in> set ps" by (simp add: update_conv' map_of_SomeD)
    with assms(1) have "stream_ok es k x" by (auto simp: tracks_alt)
    then show ?thesis by (simp only: stream_ok_unsealed [OF assms(2) [OF False]])
  qed
  ultimately show ?thesis by (auto simp: tracks_alt)
qed

lemma observe_tracks:
  assumes "tracks es ps" "card (open_keys (es @ [e])) \<le> max_streams"
  shows "tracks (es @ [e]) (observe e ps)"
proof -
  let ?ty = "le_type e" and ?key = "(le_type e, flow_of e)"
  consider (boundary) "?ty \<in> set turn_boundary_types"
    | (sealed) ty where "?ty \<notin> set turn_boundary_types" "sealed_by ?ty = Some ty"
    | (silent) "?ty \<notin> set turn_boundary_types" "sealed_by ?ty = None" "?ty \<notin> set tracked_types \<or> chunk_of e = []"
    | (chunk) "?ty \<notin> set turn_boundary_types" "sealed_by ?ty = None" "?ty \<in> set tracked_types" "chunk_of e \<noteq> []"
    by (cases "sealed_by ?ty") blast+
  then show ?thesis
  proof cases
    case boundary
    then show ?thesis by (simp add: tracks_def observe_def open_keys_def say_def)
  next
    case sealed
    have "tracks (es @ [e]) (AList.delete (ty, flow_of e) ps)"
      by (rule tracks_delete [OF assms(1)]) (auto simp: say_def sealed)
    with sealed show ?thesis by (simp add: observe_def)
  next
    case silent
    then have "unsealed k (es @ [e]) = unsealed k es" for k by (auto simp: say_def)
    then have "tracks (es @ [e]) ps = tracks es ps" by (simp add: tracks_alt open_keys_def stream_ok_def)
    with silent assms(1) show ?thesis by (auto simp: observe_def)
  next
    case chunk
    have other: "unsealed k (es @ [e]) = unsealed k es" if "k \<noteq> ?key" for k
      using chunk that by (auto simp: say_def)
    have own: "unsealed ?key (es @ [e]) = unsealed ?key es @ chunk_of e" using chunk by (simp add: say_def)
    show ?thesis
    proof (cases "map_of ps ?key")
      case (Some st)
      then have "stream_ok es ?key st" using assms(1) by (auto simp: tracks_alt dest: map_of_SomeD)
      then have "tracks (es @ [e]) (AList.update ?key (grow e st) ps)"
        using other own chunk(4) by (intro tracks_update [OF assms(1)] grow_ok) auto
      with chunk Some show ?thesis by (simp add: observe_def)
    next
      case None
      then have new: "?key \<notin> open_keys es" using assms(1) by (auto simp: tracks_alt map_of_eq_None_iff)
      have "open_keys (es @ [e]) = insert ?key (open_keys es)"
        using own other chunk(4) by (intro open_keys_insert) auto
      moreover have "card (open_keys es) = length ps"
        using assms(1) by (metis tracks_alt distinct_card length_map list.set_map)
      moreover have "finite (open_keys es)" using assms(1) by (metis tracks_alt finite_imageI finite_set)
      ultimately have room: "\<not> max_streams \<le> length ps" using new assms(2) by simp
      let ?st = "\<lparr>os_data = without [''text'', ''delta''] (le_data e), os_text = [], os_time = le_time e, os_overflowed = False\<rparr>"
      have "stream_ok es ?key ?st"
        using new chunk(3) by (simp add: stream_ok_def open_keys_def flow_of_def max_chars_per_stream_def)
      then have "tracks (es @ [e]) (AList.update ?key (grow e ?st) ps)"
        using other own chunk(4) by (intro tracks_update [OF assms(1)] grow_ok) auto
      with chunk None room show ?thesis by (simp add: observe_def)
    qed
  qed
qed

lemma accumulate_tracks: "within_cap es \<Longrightarrow> tracks es (accumulate es)"
proof (induction es rule: rev_induct)
  case (snoc e es)
  from within_cap_snoc [OF snoc.prems] snoc.IH show ?case by (simp add: observe_tracks)
qed simp

section \<open>The snapshot\<close>

lemma frame_of_fields [simp]:
  "le_type (frame_of key st) = fst key" "chunk_of (frame_of key st) = os_text st"
  "dget (le_data (frame_of key st)) snapshot_flag = JBool True"
  by (simp_all add: frame_of_def chunk_of_def snapshot_flag_def)

lemma frame_of_flow: "opt_str (dget (os_data st) ''parent_tool_use_id'') = snd key \<Longrightarrow> flow_of (frame_of key st) = snd key"
  by (simp add: frame_of_def flow_of_def snapshot_flag_def)

text \<open>At most one frame per stream, and it holds exactly what the stream has said.\<close>

lemma snapshot_exact:
  assumes "within_cap es"
  shows "distinct (map (\<lambda>f. (le_type f, flow_of f)) (snapshot (accumulate es)))
    \<and> (\<forall>f \<in> set (snapshot (accumulate es)). dget (le_data f) snapshot_flag = JBool True
         \<and> chunk_of f = unsealed (le_type f, flow_of f) es)
    \<and> (\<forall>key. unsealed key es \<noteq> [] \<and> int (length (unsealed key es)) \<le> max_chars_per_stream
         \<longrightarrow> (\<exists>f \<in> set (snapshot (accumulate es)). (le_type f, flow_of f) = key))"
proof -
  let ?ps = "accumulate es" and ?shown = "\<lambda>(key, st). \<not> os_overflowed st \<and> os_text st \<noteq> []"
  have tr: "tracks es ?ps" by (rule accumulate_tracks [OF assms])
  have key: "(le_type (frame_of k st), flow_of (frame_of k st)) = k" if "(k, st) \<in> set ?ps" for k st
    using tr that frame_of_flow [of st k] by (auto simp: tracks_alt stream_ok_def)
  have "map (\<lambda>f. (le_type f, flow_of f)) (snapshot ?ps) = map fst (filter ?shown ?ps)"
    using key by (auto simp: snapshot_def)
  moreover have "distinct (map fst (filter ?shown ?ps))" using tr by (simp add: tracks_alt distinct_map_filter)
  ultimately have "distinct (map (\<lambda>f. (le_type f, flow_of f)) (snapshot ?ps))" by simp
  moreover have "dget (le_data f) snapshot_flag = JBool True \<and> chunk_of f = unsealed (le_type f, flow_of f) es"
    if "f \<in> set (snapshot ?ps)" for f
  proof -
    from that obtain k st where f: "f = frame_of k st" "(k, st) \<in> set ?ps" "\<not> os_overflowed st"
      by (auto simp: snapshot_def)
    with tr key [OF f(2)] show ?thesis by (auto simp: tracks_alt stream_ok_def)
  qed
  moreover have "\<exists>f \<in> set (snapshot ?ps). (le_type f, flow_of f) = k"
    if "unsealed k es \<noteq> []" "int (length (unsealed k es)) \<le> max_chars_per_stream" for k
  proof -
    from that(1) tr have "k \<in> fst ` set ?ps" by (simp add: tracks_alt open_keys_def)
    then obtain st where st: "(k, st) \<in> set ?ps" by auto
    with tr that have "\<not> os_overflowed st" "os_text st \<noteq> []" by (auto simp: tracks_alt stream_ok_def split: if_splits)
    with st have "frame_of k st \<in> set (snapshot ?ps)" by (force simp: snapshot_def)
    with key [OF st] show ?thesis by blast
  qed
  ultimately show ?thesis by blast
qed

end
