(* ===== verification/SessionBus.thy ===== *)
theory SessionBus
  imports LivePartial
begin

text \<open>
  \<^verbatim>\<open>backend/kernel/src/core/session_bus.py\<close>: the live channel of a session, with one
  subscriber and any number of passive taps.
\<close>

section \<open>The bus\<close>

text \<open>Sinks are numbered; \<open>bs_got\<close> is what each of them has taken.\<close>

record bus =
  bs_sub :: "nat option"
  bs_taps :: "nat list"
  bs_partial :: partials
  bs_got :: "nat \<Rightarrow> live_event list"

definition new_bus :: "nat list \<Rightarrow> bus" where
  "new_bus taps = \<lparr>bs_sub = None, bs_taps = taps, bs_partial = [], bs_got = (\<lambda>_. [])\<rparr>"

text \<open>Whether a sink takes an event, given what it took so far; otherwise it raises.\<close>

type_synonym willing = "nat \<Rightarrow> live_event list \<Rightarrow> live_event \<Rightarrow> bool"

definition offer :: "willing \<Rightarrow> nat \<Rightarrow> live_event \<Rightarrow> bus \<Rightarrow> bool \<times> bus" where
  "offer will i e b = (if will i (bs_got b i) e
     then (True, b\<lparr>bs_got := (bs_got b)(i := bs_got b i @ [e])\<rparr>) else (False, b))"

text \<open>All taps in turn, and those that raised.\<close>

fun offer_taps :: "willing \<Rightarrow> live_event \<Rightarrow> nat list \<Rightarrow> bus \<Rightarrow> nat list \<times> bus" where
  "offer_taps will e [] b = ([], b)"
| "offer_taps will e (i # is) b =
     (case offer will i e b of (ok, b1) \<Rightarrow>
       (case offer_taps will e is b1 of (dead, b2) \<Rightarrow> (if ok then dead else i # dead, b2)))"

definition bus_emit :: "willing \<Rightarrow> live_event \<Rightarrow> bus \<Rightarrow> bus" where
  "bus_emit will e b =
     (case offer_taps will e (bs_taps b) (b\<lparr>bs_partial := observe e (bs_partial b)\<rparr>) of
        (dead, b1) \<Rightarrow>
          (let b2 = b1\<lparr>bs_taps := fold remove1 dead (bs_taps b1)\<rparr> in
           case bs_sub b2 of
             None \<Rightarrow> b2
           | Some i \<Rightarrow> (case offer will i e b2 of
               (ok, b3) \<Rightarrow> if ok then b3 else b3\<lparr>bs_sub := None\<rparr>)))"

text \<open>The bus never raises: it is a sink in front of which the other sinks of a turn stand.\<close>

definition bus_sink :: "willing \<Rightarrow> bus sink" where
  "bus_sink will e b = (True, bus_emit will e b)"

fun feed :: "willing \<Rightarrow> nat \<Rightarrow> live_event list \<Rightarrow> bus \<Rightarrow> bool \<times> bus" where
  "feed will i [] b = (True, b)"
| "feed will i (e # es) b = (case offer will i e b of (ok, b1) \<Rightarrow> if ok then feed will i es b1 else (False, b1))"

definition join_frames :: "live_event list \<Rightarrow> bool \<Rightarrow> bus \<Rightarrow> live_event list" where
  "join_frames replay live b = replay @ (if live then snapshot (bs_partial b) else [])"

definition add_tap :: "willing \<Rightarrow> nat \<Rightarrow> live_event list \<Rightarrow> bool \<Rightarrow> bus \<Rightarrow> bus" where
  "add_tap will i replay live b = (case feed will i (join_frames replay live b) b of
     (ok, b1) \<Rightarrow> if ok then b1\<lparr>bs_taps := bs_taps b1 @ [i]\<rparr> else b1)"

definition remove_tap :: "nat \<Rightarrow> bus \<Rightarrow> bus" where
  "remove_tap i b = b\<lparr>bs_taps := remove1 i (bs_taps b)\<rparr>"

definition attach_sub :: "willing \<Rightarrow> nat \<Rightarrow> live_event list \<Rightarrow> bool \<Rightarrow> bus \<Rightarrow> bus" where
  "attach_sub will i replay live b0 = (let b = b0\<lparr>bs_sub := Some i\<rparr> in
     case feed will i (join_frames replay live b) b of
       (ok, b1) \<Rightarrow> if ok then b1 else b1\<lparr>bs_sub := None\<rparr>)"

definition detach_sub :: "nat \<Rightarrow> bus \<Rightarrow> bus" where
  "detach_sub i b = (if bs_sub b = Some i then b\<lparr>bs_sub := None\<rparr> else b)"

text \<open>What a bus is asked to do; its lock makes each of these one step.\<close>

datatype bus_op = BusEmit live_event | BusTap nat "live_event list" bool | BusUntap nat
  | BusAttach nat "live_event list" bool | BusDetach nat

fun bus_step :: "willing \<Rightarrow> bus_op \<Rightarrow> bus \<Rightarrow> bus" where
  "bus_step will (BusEmit e) b = bus_emit will e b"
| "bus_step will (BusTap i replay live) b = add_tap will i replay live b"
| "bus_step will (BusUntap i) b = remove_tap i b"
| "bus_step will (BusAttach i replay live) b = attach_sub will i replay live b"
| "bus_step will (BusDetach i) b = detach_sub i b"

definition bus_run :: "willing \<Rightarrow> bus_op list \<Rightarrow> bus \<Rightarrow> bus" where
  "bus_run will ops b = fold (bus_step will) ops b"

fun bus_emits :: "bus_op list \<Rightarrow> live_event list" where
  "bus_emits [] = []"
| "bus_emits (BusEmit e # ops) = e # bus_emits ops"
| "bus_emits (_ # ops) = bus_emits ops"

lemma bus_run_simps [simp]:
  "bus_run will [] b = b"
  "bus_run will (x # ops) b = bus_run will ops (bus_step will x b)"
  by (simp_all add: bus_run_def)

section \<open>What a bus keeps\<close>

lemma offer_fields:
  "offer will i e b = (ok, b') \<Longrightarrow> bs_partial b' = bs_partial b \<and> bs_taps b' = bs_taps b \<and> bs_sub b' = bs_sub b
     \<and> (\<forall>j. j \<noteq> i \<longrightarrow> bs_got b' j = bs_got b j)"
  by (auto simp: offer_def split: if_splits)

lemma offer_taps_fields:
  "offer_taps will e is b = (dead, b') \<Longrightarrow> bs_partial b' = bs_partial b \<and> bs_taps b' = bs_taps b \<and> bs_sub b' = bs_sub b
     \<and> set dead \<subseteq> set is \<and> (\<forall>j. j \<notin> set is \<longrightarrow> bs_got b' j = bs_got b j)"
proof (induction "is" arbitrary: b dead)
  case (Cons i "is")
  obtain ok b1 where o1: "offer will i e b = (ok, b1)" by fastforce
  obtain dead1 where o2: "offer_taps will e is b1 = (dead1, b')"
    using Cons.prems o1 by (auto split: prod.splits)
  with Cons.prems o1 have "dead = (if ok then dead1 else i # dead1)" by simp
  with Cons.IH [OF o2] offer_fields [OF o1] show ?case by auto
qed simp

lemma feed_fields:
  "feed will i es b = (ok, b') \<Longrightarrow> bs_partial b' = bs_partial b \<and> bs_taps b' = bs_taps b \<and> bs_sub b' = bs_sub b
     \<and> (\<forall>j. j \<noteq> i \<longrightarrow> bs_got b' j = bs_got b j)"
proof (induction es arbitrary: b)
  case (Cons e es)
  obtain ok1 b1 where o1: "offer will i e b = (ok1, b1)" by fastforce
  with Cons.prems have "if ok1 then feed will i es b1 = (ok, b') else b' = b1" by (auto split: if_splits)
  with Cons.IH offer_fields [OF o1] show ?case by (cases ok1) auto
qed simp

lemma bus_emit_partial [simp]: "bs_partial (bus_emit will e b) = observe e (bs_partial b)"
  by (auto simp: bus_emit_def Let_def dest!: offer_taps_fields offer_fields split: prod.split option.split)

lemma bus_run_partial: "bs_partial (bus_run will ops b) = fold observe (bus_emits ops) (bs_partial b)"
proof (induction ops arbitrary: b)
  case (Cons x ops)
  have "bs_partial (add_tap will i replay live b) = bs_partial b"
    "bs_partial (attach_sub will i replay live b) = bs_partial b" for i replay live
    by (auto simp: add_tap_def attach_sub_def Let_def dest!: feed_fields split: prod.split)
  with Cons show ?case by (cases x) (simp_all add: remove_tap_def detach_sub_def)
qed simp

section \<open>A tap that stays\<close>

text \<open>Operations that leave the tap alone.\<close>

fun spares :: "nat \<Rightarrow> bus_op \<Rightarrow> bool" where
  "spares i (BusEmit e) = True"
| "spares i (BusTap j replay live) = (j \<noteq> i)"
| "spares i (BusUntap j) = (j \<noteq> i)"
| "spares i (BusAttach j replay live) = (j \<noteq> i)"
| "spares i (BusDetach j) = (j \<noteq> i)"

text \<open>A tap that is registered once, and is not the subscriber.\<close>

definition tapped :: "nat \<Rightarrow> bus \<Rightarrow> bool" where
  "tapped i b = (count_list (bs_taps b) i = 1 \<and> bs_sub b \<noteq> Some i)"

lemma count_remove1: "j \<noteq> i \<Longrightarrow> count_list (remove1 j xs) i = count_list xs i"
  by (induction xs) auto

lemma count_fold_remove1: "i \<notin> set js \<Longrightarrow> count_list (fold remove1 js xs) i = count_list xs i"
  by (induction js arbitrary: xs) (auto simp: count_remove1)

lemma offer_taps_got:
  assumes "offer_taps will e is b = (dead, b')" "\<And>h x. will i h x"
  shows "bs_got b' i = bs_got b i @ replicate (count_list is i) e \<and> i \<notin> set dead"
  using assms(1)
proof (induction "is" arbitrary: b dead)
  case (Cons j "is")
  obtain ok b1 where o1: "offer will j e b = (ok, b1)" by fastforce
  obtain dead1 where o2: "offer_taps will e is b1 = (dead1, b')"
    using Cons.prems o1 by (auto split: prod.splits)
  with Cons.prems o1 have "dead = (if ok then dead1 else j # dead1)" by simp
  moreover have "ok" if "j = i" using o1 assms(2) that by (auto simp: offer_def)
  moreover have "bs_got b1 i = (if j = i then bs_got b i @ [e] else bs_got b i)"
    using o1 assms(2) by (auto simp: offer_def split: if_splits)
  ultimately show ?case using Cons.IH [OF o2] by (auto simp: replicate_app_Cons_same)
qed simp

lemma bus_step_tapped:
  assumes "tapped i b" "spares i x" "\<And>h e. will i h e"
  shows "tapped i (bus_step will x b) \<and> bs_got (bus_step will x b) i = bs_got b i @ bus_emits [x]"
proof (cases x)
  case (BusEmit e)
  let ?b = "b\<lparr>bs_partial := observe e (bs_partial b)\<rparr>"
  obtain dead b1 where o1: "offer_taps will e (bs_taps b) ?b = (dead, b1)" by fastforce
  note f1 = offer_taps_fields [OF o1] and g1 = offer_taps_got [where will = will, OF o1 assms(3)]
  let ?b2 = "b1\<lparr>bs_taps := fold remove1 dead (bs_taps b1)\<rparr>"
  have b2: "tapped i ?b2" "bs_got ?b2 i = bs_got b i @ [e]"
    using assms(1) f1 g1 by (auto simp: tapped_def count_fold_remove1)
  show ?thesis
  proof (cases "bs_sub ?b2")
    case None
    with o1 b2 BusEmit show ?thesis by (simp add: bus_emit_def)
  next
    case (Some j)
    obtain ok b3 where o3: "offer will j e ?b2 = (ok, b3)" by fastforce
    have "j \<noteq> i" using Some b2(1) by (auto simp: tapped_def)
    with offer_fields [OF o3] b2 have "tapped i b3" "bs_got b3 i = bs_got b i @ [e]" by (auto simp: tapped_def)
    with o1 Some o3 BusEmit show ?thesis by (auto simp: bus_emit_def tapped_def)
  qed
next
  case (BusTap j replay live)
  obtain ok b1 where f: "feed will j (join_frames replay live b) b = (ok, b1)" by fastforce
  with feed_fields [OF f] assms(1,2) BusTap show ?thesis by (auto simp: add_tap_def tapped_def)
next
  case (BusAttach j replay live)
  let ?b = "b\<lparr>bs_sub := Some j\<rparr>"
  obtain ok b1 where f: "feed will j (join_frames replay live ?b) ?b = (ok, b1)" by fastforce
  with feed_fields [OF f] assms(1,2) BusAttach show ?thesis by (auto simp: attach_sub_def tapped_def)
qed (use assms in \<open>auto simp: tapped_def remove_tap_def detach_sub_def count_remove1\<close>)

lemma bus_run_tapped:
  assumes "tapped i b" "list_all (spares i) ops" "\<And>h e. will i h e"
  shows "bs_got (bus_run will ops b) i = bs_got b i @ bus_emits ops"
  using assms(1,2)
proof (induction ops arbitrary: b)
  case (Cons x ops)
  from bus_step_tapped [where will = will, OF Cons.prems(1) _ assms(3), of x] Cons.prems(2)
  have x: "tapped i (bus_step will x b)" "bs_got (bus_step will x b) i = bs_got b i @ bus_emits [x]" by simp_all
  have "bus_emits (x # ops) = bus_emits [x] @ bus_emits ops" by (cases x) simp_all
  with Cons.IH [OF x(1)] Cons.prems(2) x(2) show ?case by simp
qed simp

lemma feed_got:
  assumes "\<And>h e. will i h e"
  shows "\<exists>b'. feed will i es b = (True, b') \<and> bs_got b' i = bs_got b i @ es"
proof (induction es arbitrary: b)
  case (Cons e es)
  obtain b1 where "offer will i e b = (True, b1)" "bs_got b1 i = bs_got b i @ [e]"
    using assms by (auto simp: offer_def)
  with Cons.IH [of b1] show ?case by auto
qed simp

text \<open>A late tap gets the frames it joins with and then every event, in order, once.\<close>

lemma late_tap_gets:
  assumes "i \<notin> set (bs_taps b)" "bs_sub b \<noteq> Some i" "list_all (spares i) ops" "\<And>h e. will i h e"
  shows "bs_got (bus_run will (BusTap i replay live # ops) b) i
    = bs_got b i @ join_frames replay live b @ bus_emits ops"
proof -
  from feed_got [where will = will, OF assms(4), of "join_frames replay live b" b]
  obtain b1 where f: "feed will i (join_frames replay live b) b = (True, b1)"
    "bs_got b1 i = bs_got b i @ join_frames replay live b" by blast
  let ?b2 = "b1\<lparr>bs_taps := bs_taps b1 @ [i]\<rparr>"
  have "tapped i ?b2" using feed_fields [OF f(1)] assms(1,2) by (simp add: tapped_def count_list_0_iff)
  from bus_run_tapped [where will = will, OF this assms(3,4)] f show ?thesis by (simp add: add_tap_def)
qed

end
