(* ===== verification/ReplyText.thy ===== *)
theory ReplyText
  imports SessionBus
begin

text \<open>
  \<^verbatim>\<open>backend/valuz_agent/modules/channels/reply_text.py\<close>: the answer a channel shows, folded
  from the events a tap is given, and why a tap that joins in the middle of a turn shows the
  same open text as one that was there from the start.
\<close>

section \<open>The accumulator\<close>

record reply_text =
  ry_segments :: "string list"
  ry_open :: string

definition no_reply :: reply_text where
  "no_reply = \<lparr>ry_segments = [], ry_open = []\<rparr>"

definition segment_separator :: string where
  "segment_separator = [CHR 0x0A, CHR 0x0A]"

definition reply_shown :: "reply_text \<Rightarrow> string" where
  "reply_shown r = (if ry_open r \<noteq> [] then join_with segment_separator (ry_segments r @ [ry_open r])
     else join_with segment_separator (ry_segments r))"

definition assistant_event_text :: "(string \<times> json) list \<Rightarrow> string" where
  "assistant_event_text d =
     (let t = dget d ''text'';
          t1 = (if t = JNull then dget d ''content'' else t);
          t2 = (if t1 = JNull then dget d ''delta'' else t1)
      in py_str (py_or t2 (JStr [])))"

text \<open>The accumulator after an event, and whether the visible text changed.\<close>

definition reply_observe :: "live_event \<Rightarrow> reply_text \<Rightarrow> bool \<times> reply_text" where
  "reply_observe e r =
     (if le_type e \<noteq> ''text_delta'' \<and> le_type e \<noteq> ''assistant_message'' then (False, r)
      else if truthy (dget (le_data e) ''parent_tool_use_id'') then (False, r)
      else (let txt = assistant_event_text (le_data e) in
        if txt = [] then (False, r)
        else (let r' = (if le_type e = ''text_delta''
                 then r\<lparr>ry_open := (if truthy (dget (le_data e) snapshot_flag) then txt else ry_open r @ txt)\<rparr>
                 else r\<lparr>ry_segments := ry_segments r @ [txt], ry_open := []\<rparr>)
          in (reply_shown r' \<noteq> reply_shown r, r'))))"

definition reply_of :: "live_event list \<Rightarrow> reply_text \<Rightarrow> reply_text" where
  "reply_of es r = fold (\<lambda>e r. snd (reply_observe e r)) es r"

lemma reply_of_simps [simp]:
  "reply_of [] r = r"
  "reply_of (e # es) r = reply_of es (snd (reply_observe e r))"
  "reply_of (es @ es') r = reply_of es' (reply_of es r)"
  by (simp_all add: reply_of_def)

section \<open>Joining late\<close>

text \<open>
  What the runtimes emit during a turn: deltas and messages carry their text as a string, a
  message is not empty, a flow is absent or a name, no event claims to be a snapshot, and no
  event bounds the turn.
\<close>

definition turn_event :: "live_event \<Rightarrow> bool" where
  "turn_event e =
     (le_type e \<notin> set turn_boundary_types \<and> dget (le_data e) snapshot_flag = JNull
      \<and> (case dget (le_data e) ''parent_tool_use_id'' of JNull \<Rightarrow> True | JStr s \<Rightarrow> s \<noteq> [] | _ \<Rightarrow> False)
      \<and> (case dget (le_data e) ''text'' of JStr s \<Rightarrow> le_type e = ''assistant_message'' \<longrightarrow> s \<noteq> []
          | _ \<Rightarrow> le_type e \<noteq> ''text_delta'' \<and> le_type e \<noteq> ''assistant_message''))"

definition lead_text :: stream_key where
  "lead_text = (''text_delta'', None)"

lemma turn_event_text:
  assumes "turn_event e" "le_type e = ''text_delta'' \<or> le_type e = ''assistant_message''"
  shows "assistant_event_text (le_data e) = chunk_of e"
    and "le_type e = ''assistant_message'' \<Longrightarrow> chunk_of e \<noteq> []"
  using assms by (auto simp: turn_event_def assistant_event_text_def chunk_of_def Let_def py_or_def
      split: json.splits)

lemma turn_event_flow:
  "turn_event e \<Longrightarrow> truthy (dget (le_data e) ''parent_tool_use_id'') = (flow_of e \<noteq> None)"
  by (auto simp: turn_event_def flow_of_def opt_str_def split: json.splits)

text \<open>A consumer that is there from the start has open what the stream said since its last seal.\<close>

lemma reply_open_step:
  assumes "turn_event e" "ry_open r = unsealed lead_text es"
  shows "ry_open (snd (reply_observe e r)) = unsealed lead_text (es @ [e])"
proof -
  have bound: "le_type e \<notin> set turn_boundary_types" and flag: "\<not> truthy (dget (le_data e) snapshot_flag)"
    using assms(1) by (simp_all add: turn_event_def)
  consider (delta) "le_type e = ''text_delta''" | (sealed) "le_type e = ''assistant_message''"
    | (other) "le_type e \<noteq> ''text_delta''" "le_type e \<noteq> ''assistant_message''" by blast
  then show ?thesis
  proof cases
    case delta
    with assms bound flag turn_event_text [OF assms(1)] turn_event_flow [OF assms(1)] show ?thesis
      by (auto simp: reply_observe_def Let_def say_def sealed_by_def tracked_types_def lead_text_def)
  next
    case sealed
    with assms bound flag turn_event_text [OF assms(1)] turn_event_flow [OF assms(1)] show ?thesis
      by (auto simp: reply_observe_def Let_def say_def sealed_by_def lead_text_def)
  next
    case other
    with assms bound show ?thesis
      by (auto simp: reply_observe_def say_def sealed_by_def tracked_types_def lead_text_def)
  qed
qed

lemma reply_open_unsealed:
  assumes "list_all turn_event es" "ry_open r = []"
  shows "ry_open (reply_of es r) = unsealed lead_text es"
  using assms(1)
proof (induction es rule: rev_induct)
  case (snoc e es)
  then show ?case using reply_open_step [of e "reply_of es r" es] by simp
qed (simp add: assms(2))

text \<open>Two consumers with the same open text stay in step.\<close>

lemma reply_in_step:
  assumes "ry_open r = ry_open r'"
  shows "ry_open (reply_of es r) = ry_open (reply_of es r')
    \<and> (\<exists>new. ry_segments (reply_of es r) = ry_segments r @ new \<and> ry_segments (reply_of es r') = ry_segments r' @ new)"
  using assms
proof (induction es arbitrary: r r')
  case (Cons e es)
  have "ry_open (snd (reply_observe e r)) = ry_open (snd (reply_observe e r'))
      \<and> (\<exists>new. ry_segments (snd (reply_observe e r)) = ry_segments r @ new
           \<and> ry_segments (snd (reply_observe e r')) = ry_segments r' @ new)"
    using Cons.prems by (auto simp: reply_observe_def Let_def)
  with Cons.IH [of "snd (reply_observe e r)" "snd (reply_observe e r')"] show ?case by auto
qed simp

text \<open>The frames of a snapshot set the open text to that of the lead's stream.\<close>

lemma reply_frame:
  assumes "dget (le_data f) snapshot_flag = JBool True" "le_type f = ''text_delta'' \<or> le_type f = ''thinking_delta''"
    and "assistant_event_text (le_data f) = chunk_of f"
    and "truthy (dget (le_data f) ''parent_tool_use_id'') = (flow_of f \<noteq> None)"
  shows "snd (reply_observe f r) = (if (le_type f, flow_of f) = lead_text \<and> chunk_of f \<noteq> []
    then r\<lparr>ry_open := chunk_of f\<rparr> else r)"
  using assms by (auto simp: reply_observe_def Let_def lead_text_def)

text \<open>The flow a stream keeps is the one its first event had.\<close>

definition named_flow :: "(string \<times> json) list \<Rightarrow> bool" where
  "named_flow d = (case dget d ''parent_tool_use_id'' of JNull \<Rightarrow> True | JStr s \<Rightarrow> s \<noteq> [] | _ \<Rightarrow> False)"

lemma named_flow_truthy:
  "named_flow d \<Longrightarrow> truthy (dget d ''parent_tool_use_id'') = (opt_str (dget d ''parent_tool_use_id'') \<noteq> None)"
  by (auto simp: named_flow_def opt_str_def split: json.splits)

lemma turn_event_named: "turn_event e \<Longrightarrow> named_flow (le_data e)"
  by (simp add: turn_event_def named_flow_def)

lemma grow_data [simp]: "os_data (grow e st) = os_data st"
  by (simp add: grow_def)

lemma set_update_subset: "set (AList.update k v xs) \<subseteq> insert (k, v) (set xs)"
  by (induction xs) auto

definition all_named :: "partials \<Rightarrow> bool" where
  "all_named ps = (\<forall>x \<in> set ps. named_flow (os_data (snd x)))"

lemma observe_named:
  assumes "all_named ps" "named_flow (le_data e)"
  shows "all_named (observe e ps)"
proof -
  have upd: "all_named (AList.update k st ps)" if "named_flow (os_data st)" for k st
    using set_update_subset [of k st ps] assms(1) that by (auto simp: all_named_def)
  have del: "all_named (AList.delete k ps)" for k
    using assms(1) by (auto simp: all_named_def AList.delete_eq)
  have new: "named_flow (without [''text'', ''delta''] (le_data e))"
    using assms(2) by (simp add: named_flow_def)
  have old: "named_flow (os_data st)" if "map_of ps k = Some st" for k st
    using assms(1) map_of_SomeD [OF that] by (auto simp: all_named_def)
  have "all_named []" by (simp add: all_named_def)
  then show ?thesis
    unfolding observe_def Let_def using assms(1) upd del new old by (simp split: option.split)
qed

lemma accumulate_named: "list_all turn_event es \<Longrightarrow> all_named (accumulate es)"
proof (induction es rule: rev_induct)
  case (snoc e es)
  then show ?case using observe_named [of "accumulate es" e] turn_event_named [of e] by simp
qed (simp add: all_named_def)

lemma reply_of_frames:
  assumes "\<forall>f \<in> set fs. \<forall>r. snd (reply_observe f r) = (if (le_type f, flow_of f) = key \<and> chunk_of f \<noteq> []
      then r\<lparr>ry_open := chunk_of f\<rparr> else r)"
    and "distinct (map (\<lambda>f. (le_type f, flow_of f)) fs)"
  shows "reply_of fs r = (case List.find (\<lambda>f. (le_type f, flow_of f) = key \<and> chunk_of f \<noteq> []) fs of
    None \<Rightarrow> r | Some f \<Rightarrow> r\<lparr>ry_open := chunk_of f\<rparr>)"
  using assms
proof (induction fs arbitrary: r)
  case (Cons f fs)
  let ?hit = "\<lambda>f. (le_type f, flow_of f) = key \<and> chunk_of f \<noteq> []"
  show ?case
  proof (cases "?hit f")
    case True
    with Cons.prems(2) have "\<forall>g \<in> set fs. \<not> ?hit g" by (auto simp: image_iff)
    then have "List.find ?hit fs = None" by (simp add: find_None_iff)
    with Cons True show ?thesis by simp
  next
    case False
    with Cons show ?thesis by auto
  qed
qed simp

lemma reply_of_snapshot:
  assumes "list_all turn_event es" "within_cap es" "int (length (unsealed lead_text es)) \<le> max_chars_per_stream"
    and "ry_open r = []"
  shows "ry_open (reply_of (snapshot (accumulate es)) r) = unsealed lead_text es
    \<and> ry_segments (reply_of (snapshot (accumulate es)) r) = ry_segments r"
proof -
  let ?fs = "snapshot (accumulate es)" and ?hit = "\<lambda>f. (le_type f, flow_of f) = lead_text \<and> chunk_of f \<noteq> []"
  note exact = snapshot_exact [OF assms(2)]
  have "snd (reply_observe f r) = (if ?hit f then r\<lparr>ry_open := chunk_of f\<rparr> else r)" if "f \<in> set ?fs" for f r
  proof -
    from that obtain k st where f: "f = frame_of k st" "(k, st) \<in> set (accumulate es)" by (auto simp: snapshot_def)
    have tr: "stream_ok es k st" using f(2) accumulate_tracks [OF assms(2)] by (auto simp: tracks_alt)
    have "named_flow (os_data st)" using f(2) accumulate_named [OF assms(1)] by (auto simp: all_named_def)
    then have "truthy (dget (le_data f) ''parent_tool_use_id'') = (flow_of f \<noteq> None)"
      using named_flow_truthy [of "os_data st"] by (simp add: f(1) frame_of_def flow_of_def snapshot_flag_def)
    moreover have "le_type f = ''text_delta'' \<or> le_type f = ''thinking_delta''"
      using tr by (auto simp: f(1) stream_ok_def tracked_types_def)
    moreover have "assistant_event_text (le_data f) = chunk_of f"
      by (simp add: f(1) frame_of_def chunk_of_def assistant_event_text_def snapshot_flag_def py_or_def)
    ultimately show ?thesis using exact that by (intro reply_frame) auto
  qed
  then have run: "reply_of ?fs r = (case List.find ?hit ?fs of None \<Rightarrow> r | Some f \<Rightarrow> r\<lparr>ry_open := chunk_of f\<rparr>)"
    using exact by (intro reply_of_frames) blast+
  show ?thesis
  proof (cases "List.find ?hit ?fs")
    case None
    then have "\<not> (\<exists>f \<in> set ?fs. ?hit f)" by (auto simp: find_None_iff)
    with exact assms(3) have "unsealed lead_text es = []" by metis
    with run None assms(4) show ?thesis by simp
  next
    case (Some f)
    then have "f \<in> set ?fs" "?hit f" by (auto simp: find_Some_iff in_set_conv_nth)
    with exact have "chunk_of f = unsealed lead_text es" by metis
    with run Some show ?thesis by simp
  qed
qed

text \<open>From the snapshot on, a late consumer has the same open text and gains the same segments.\<close>

lemma late_reply:
  assumes "list_all turn_event es" "within_cap es" "int (length (unsealed lead_text es)) \<le> max_chars_per_stream"
  shows "let late = reply_of (snapshot (accumulate es) @ later) no_reply; full = reply_of (es @ later) no_reply
    in ry_open late = ry_open full \<and> ry_segments full = ry_segments (reply_of es no_reply) @ ry_segments late"
proof -
  let ?l = "reply_of (snapshot (accumulate es)) no_reply" and ?f = "reply_of es no_reply"
  have none: "ry_open no_reply = []" "ry_segments no_reply = []" by (simp_all add: no_reply_def)
  from reply_of_snapshot [OF assms none(1)] reply_open_unsealed [OF assms(1) none(1)]
  have "ry_open ?l = ry_open ?f" "ry_segments ?l = []" using none(2) by simp_all
  with reply_in_step [of ?l ?f later] show ?thesis by auto
qed

end
