(* ===== verification/EventStream.thy ===== *)
theory EventStream
  imports LiveEvents
begin

text \<open>
  \<^verbatim>\<open>backend/valuz_agent/adapters/event_sse_adapter.py\<close>: the two streams a browser follows,
  one per session and one per user.  Each merges the durable log, read in pages by a cursor,
  with the live events of the kernel; the two meet in the events' identities, which are
  remembered up to a bound.  The table that renames the events of a session for the browser is
  an argument, the one of the control plane is modelled.  Times are in milliseconds.
\<close>

section \<open>Remembered identities\<close>

record seen_uids =
  su_max :: nat
  su_set :: "string set"
  su_order :: "string list"

definition seen_uids_max :: nat where
  "seen_uids_max = 4096"

definition no_uids :: "nat \<Rightarrow> seen_uids" where
  "no_uids n = \<lparr>su_max = n, su_set = {}, su_order = []\<rparr>"

text \<open>The loop that drops the oldest identities.\<close>

fun trim_uids :: "nat \<Rightarrow> string set \<Rightarrow> string list \<Rightarrow> string set \<times> string list" where
  "trim_uids n S [] = (S, [])"
| "trim_uids n S (u # us) = (if n < length (u # us) then trim_uids n (S - {u}) us else (S, u # us))"

definition add_uid :: "string \<Rightarrow> seen_uids \<Rightarrow> bool \<times> seen_uids" where
  "add_uid u s = (if u \<in> su_set s then (False, s)
     else (case trim_uids (su_max s) (insert u (su_set s)) (su_order s @ [u]) of
       (S, us) \<Rightarrow> (True, s\<lparr>su_set := S, su_order := us\<rparr>)))"

section \<open>Frames\<close>

text \<open>An event as the kernel and the history port hand it over.\<close>

record wire_event =
  we_seq :: "int option"
  we_type :: string
  we_data :: "(string \<times> json) list"
  we_time :: "int option"
  we_uid :: "string option"
  we_message :: "string option"
  we_session :: string

text \<open>A frame of either stream; those of a session's stream are sent without \<open>fr_session\<close>.\<close>

record sse_frame =
  fr_seq :: int
  fr_type :: string
  fr_session :: string
  fr_payload :: "(string \<times> string) list"
  fr_time :: "int option"
  fr_uid :: "string option"

type_synonym translation = "string \<Rightarrow> (string \<times> json) list \<Rightarrow> (string \<times> (string \<times> string) list) option"

definition with_row_message_id :: "(string \<times> json) list \<Rightarrow> string option \<Rightarrow> (string \<times> json) list" where
  "with_row_message_id d mid = (case mid of None \<Rightarrow> d
     | Some m \<Rightarrow> if dget d ''message_id'' \<noteq> JNull then d else AList.update ''message_id'' (JStr m) d)"

definition seq_or_0 :: "wire_event \<Rightarrow> int" where
  "seq_or_0 e = (case we_seq e of None \<Rightarrow> 0 | Some n \<Rightarrow> n)"

definition frame_from :: "wire_event \<Rightarrow> string \<times> (string \<times> string) list \<Rightarrow> sse_frame" where
  "frame_from e tp = \<lparr>fr_seq = seq_or_0 e, fr_type = fst tp, fr_session = we_session e, fr_payload = snd tp,
     fr_time = we_time e, fr_uid = we_uid e\<rparr>"

text \<open>A row of the log, and an event of the live subscription, which carries its message id.\<close>

definition history_frame :: "translation \<Rightarrow> wire_event \<Rightarrow> sse_frame option" where
  "history_frame tr e = map_option (frame_from e) (tr (we_type e) (with_row_message_id (we_data e) (we_message e)))"

definition live_frame :: "translation \<Rightarrow> wire_event \<Rightarrow> sse_frame option" where
  "live_frame tr e = map_option (frame_from e) (tr (we_type e) (we_data e))"

definition items_to_frames :: "translation \<Rightarrow> wire_event list \<Rightarrow> sse_frame list" where
  "items_to_frames tr = List.map_filter (history_frame tr)"

section \<open>Pages of the log\<close>

text \<open>The history port: the events after a sequence number, at most so many.\<close>

type_synonym reader = "int \<Rightarrow> nat \<Rightarrow> wire_event list"

definition events_page :: nat where
  "events_page = 1000"

definition default_limit :: nat where
  "default_limit = 200"

function read_pages :: "reader \<Rightarrow> nat \<Rightarrow> wire_event list \<Rightarrow> int \<Rightarrow> wire_event list" where
  "read_pages rd limit items cursor =
     (if limit \<le> length items then items
      else (let want = min events_page (limit - length items);
                page = rd cursor want
            in if page = [] then items
               else (case we_seq (last page) of
                   None \<Rightarrow> items @ page
                 | Some n \<Rightarrow> if length page < want then items @ page
                     else read_pages rd limit (items @ page) n)))"
  by pat_completeness auto
termination by (relation "measure (\<lambda>(rd, limit, items, cursor). limit - length items)")
    (auto simp flip: length_greater_0_conv)

declare read_pages.simps [simp del]

definition list_frames_after :: "translation \<Rightarrow> reader \<Rightarrow> nat \<Rightarrow> int \<Rightarrow> sse_frame list" where
  "list_frames_after tr rd limit after = items_to_frames tr (read_pages rd limit [] after)"

section \<open>The stream of a session\<close>

datatype sse_item = SseFrame sse_frame | Heartbeat int

record sse_state =
  ss_cursor :: int
  ss_seen :: seen_uids
  ss_last_poll :: int
  ss_last_emit :: int
  ss_out :: "sse_item list"

definition db_backfill_interval :: int where "db_backfill_interval = 2000"

definition idle_heartbeat :: int where "idle_heartbeat = 15000"

definition sse_emit :: "sse_item \<Rightarrow> int \<Rightarrow> sse_state \<Rightarrow> sse_state" where
  "sse_emit x now st = st\<lparr>ss_out := ss_out st @ [x], ss_last_emit := now\<rparr>"

text \<open>A frame with an identity goes out once; a frame without one always.\<close>

definition pass_once :: "sse_frame \<Rightarrow> int \<Rightarrow> sse_state \<Rightarrow> sse_state" where
  "pass_once f now st = (case fr_uid f of
     None \<Rightarrow> sse_emit (SseFrame f) now st
   | Some u \<Rightarrow> (case add_uid u (ss_seen st) of
       (new, seen) \<Rightarrow> if new then sse_emit (SseFrame f) now (st\<lparr>ss_seen := seen\<rparr>) else st))"

text \<open>History moves the cursor, whether the frame goes out or not.\<close>

definition history_step :: "int \<Rightarrow> sse_frame \<Rightarrow> sse_state \<Rightarrow> sse_state" where
  "history_step now f st = pass_once f now (st\<lparr>ss_cursor := fr_seq f\<rparr>)"

definition backfill :: "translation \<Rightarrow> reader \<Rightarrow> int \<Rightarrow> sse_state \<Rightarrow> sse_state" where
  "backfill tr rd now st = fold (history_step now) (list_frames_after tr rd default_limit (ss_cursor st)) st"

definition sse_start :: "translation \<Rightarrow> reader \<Rightarrow> int \<Rightarrow> int \<Rightarrow> sse_state" where
  "sse_start tr rd after now = backfill tr rd now
     \<lparr>ss_cursor = after, ss_seen = no_uids seen_uids_max, ss_last_poll = 0, ss_last_emit = now, ss_out = []\<rparr>"

text \<open>A tick without an event: \<open>now\<close> before and \<open>later\<close> after the log is read.\<close>

definition sse_tick :: "translation \<Rightarrow> reader \<Rightarrow> int \<Rightarrow> int \<Rightarrow> sse_state \<Rightarrow> sse_state" where
  "sse_tick tr rd now later st =
     (if now - ss_last_poll st < db_backfill_interval
      then (if idle_heartbeat \<le> now - ss_last_emit st then sse_emit (Heartbeat (ss_cursor st)) now st else st)
      else (let st1 = backfill tr rd later (st\<lparr>ss_last_poll := now\<rparr>) in
        if idle_heartbeat \<le> later - ss_last_emit st1 then sse_emit (Heartbeat (ss_cursor st1)) later st1 else st1))"

text \<open>A live event: its identity is remembered even when the browser has no name for it.\<close>

definition sse_live :: "translation \<Rightarrow> int \<Rightarrow> wire_event \<Rightarrow> sse_state \<Rightarrow> sse_state" where
  "sse_live tr now e st =
     (case (case we_uid e of None \<Rightarrow> (True, ss_seen st) | Some u \<Rightarrow> add_uid u (ss_seen st)) of
        (new, seen) \<Rightarrow>
          if \<not> new then st
          else (case live_frame tr e of
             None \<Rightarrow> st\<lparr>ss_seen := seen\<rparr>
           | Some f \<Rightarrow> sse_emit (SseFrame f) now (st\<lparr>ss_seen := seen\<rparr>)))"

text \<open>Pushes of the user interface have no identity and do not move the cursor.\<close>

definition sse_push :: "int \<Rightarrow> sse_frame \<Rightarrow> sse_state \<Rightarrow> sse_state" where
  "sse_push now f st = sse_emit (SseFrame (f\<lparr>fr_seq := 0, fr_uid := None\<rparr>)) now st"

datatype sse_step = Tick reader int int | Live wire_event int | Push sse_frame int

fun sse_apply :: "translation \<Rightarrow> sse_step \<Rightarrow> sse_state \<Rightarrow> sse_state" where
  "sse_apply tr (Tick rd now later) st = sse_tick tr rd now later st"
| "sse_apply tr (Live e now) st = sse_live tr now e st"
| "sse_apply tr (Push f now) st = sse_push now f st"

definition sse_run :: "translation \<Rightarrow> sse_step list \<Rightarrow> sse_state \<Rightarrow> sse_state" where
  "sse_run tr steps st = fold (sse_apply tr) steps st"

section \<open>The control plane of a user\<close>

definition control_lifecycle_types :: "string list" where
  "control_lifecycle_types = [''user_message'', ''session_idle'', ''session_error'', ''session_update'']"

definition control_backfill_interval :: int where "control_backfill_interval = 5000"

text \<open>\<open>_stringify\<close>; the dump of a container is \<open>json.dumps\<close>.\<close>

definition stringify :: "(json \<Rightarrow> string) \<Rightarrow> json \<Rightarrow> string" where
  "stringify dumps v = (case v of
     JNull \<Rightarrow> [] | JStr s \<Rightarrow> s | JBool b \<Rightarrow> if b then ''true'' else ''false''
   | JInt _ \<Rightarrow> py_str v | JFloat _ _ _ _ \<Rightarrow> py_str v | _ \<Rightarrow> dumps v)"

definition translate_control :: "(json \<Rightarrow> string) \<Rightarrow> translation" where
  "translate_control dumps ty d =
     (if ty = ''user_message'' then Some (''run.started'', [])
      else if ty = ''session_idle'' then Some (''run.finished'', [(''status'', ''idle''),
        (''stop_reason'', stringify dumps (py_or (dget d ''stop_reason'') (JStr [])))])
      else if ty = ''session_error'' then Some (''run.finished'', [(''status'', ''failed''),
        (''message'', stringify dumps (py_or (py_or (dget d ''message'') (dget d ''category''))
           (JStr ''agent run failed'')))])
      else if ty = ''session_update''
        then Some (''run.status'', [(''status'', stringify dumps (py_or (dget d ''status'') (JStr [])))])
      else None)"

text \<open>Its rows carry no message id, and the port filters by type.\<close>

definition list_user_events_after :: "translation \<Rightarrow> reader \<Rightarrow> nat \<Rightarrow> int \<Rightarrow> sse_frame list" where
  "list_user_events_after tr rd limit after = List.map_filter (live_frame tr) (read_pages rd limit [] after)"

definition control_frame_from_live :: "translation \<Rightarrow> wire_event \<Rightarrow> sse_frame option" where
  "control_frame_from_live tr e = (if we_type e \<notin> set control_lifecycle_types then None else live_frame tr e)"

definition control_backfill :: "translation \<Rightarrow> reader \<Rightarrow> int \<Rightarrow> sse_state \<Rightarrow> sse_state" where
  "control_backfill tr rd now st =
     fold (history_step now) (list_user_events_after tr rd default_limit (ss_cursor st)) st"

definition control_start :: "translation \<Rightarrow> reader \<Rightarrow> int \<Rightarrow> int \<Rightarrow> int \<Rightarrow> sse_state" where
  "control_start tr rd after now later = (control_backfill tr rd now
     \<lparr>ss_cursor = after, ss_seen = no_uids seen_uids_max, ss_last_poll = 0, ss_last_emit = now, ss_out = []\<rparr>)
     \<lparr>ss_last_poll := later\<rparr>"

definition control_tick :: "translation \<Rightarrow> reader \<Rightarrow> int \<Rightarrow> int \<Rightarrow> sse_state \<Rightarrow> sse_state" where
  "control_tick tr rd now later st =
     (let st1 = (if control_backfill_interval \<le> now - ss_last_poll st
                 then control_backfill tr rd later (st\<lparr>ss_last_poll := now\<rparr>) else st)
      in if idle_heartbeat \<le> later - ss_last_emit st1 then sse_emit (Heartbeat (ss_cursor st1)) later st1 else st1)"

text \<open>Here an event without a name is dropped before its identity is looked at.\<close>

definition control_live :: "translation \<Rightarrow> int \<Rightarrow> wire_event \<Rightarrow> sse_state \<Rightarrow> sse_state" where
  "control_live tr now e st = (case control_frame_from_live tr e of
     None \<Rightarrow> st | Some f \<Rightarrow> pass_once f now st)"

fun control_apply :: "translation \<Rightarrow> sse_step \<Rightarrow> sse_state \<Rightarrow> sse_state" where
  "control_apply tr (Tick rd now later) st = control_tick tr rd now later st"
| "control_apply tr (Live e now) st = control_live tr now e st"
| "control_apply tr (Push f now) st = sse_push now (f\<lparr>fr_session := []\<rparr>) st"

end
