(* ===== verification/EventStreamFacts.thy ===== *)
theory EventStreamFacts
  imports EventStream
begin

text \<open>
  A session's stream sends an event once and skips none the browser has a name for, as long
  as the names hold; and where it stops moving.
\<close>

section \<open>Remembered identities\<close>

lemma trim_uids_drop:
  assumes "distinct us"
  shows "trim_uids n (set us) us = (set (drop (length us - n) us), drop (length us - n) us)"
  using assms
proof (induction us)
  case (Cons u us)
  then have "set (u # us) - {u} = set us" by auto
  with Cons show ?case by (cases "n < length (u # us)") (auto simp: Suc_diff_le)
qed simp

text \<open>Whatever was admitted, in order; only the last of it is remembered.\<close>

definition remembers :: "string list \<Rightarrow> seen_uids \<Rightarrow> bool" where
  "remembers admitted s = (su_order s = drop (length admitted - su_max s) admitted
     \<and> su_set s = set (su_order s) \<and> distinct (su_order s))"

text \<open>An identity comes back only after \<open>n\<close> others.\<close>

definition spaced :: "nat \<Rightarrow> 'a list \<Rightarrow> bool" where
  "spaced n xs = (\<forall>j < length xs. xs ! j \<notin> set (drop (j - n) (take j xs)))"

lemma spaced_Nil [simp]: "spaced n []"
  by (simp add: spaced_def)

lemma spaced_snoc: "spaced n (xs @ [x]) = (spaced n xs \<and> x \<notin> set (drop (length xs - n) xs))"
  by (auto simp: spaced_def nth_append less_Suc_eq)

lemma drop_snoc: "drop (length (xs @ [x]) - n) (xs @ [x]) = drop (length (drop (length xs - n) xs @ [x]) - n) (drop (length xs - n) xs @ [x])"
  by (cases "n \<le> length xs") (auto simp: Suc_diff_le)

lemma add_uid_remembers:
  assumes "remembers admitted s" "spaced (su_max s) admitted" "add_uid u s = (new, s')"
  shows "remembers (if new then admitted @ [u] else admitted) s' \<and> su_max s' = su_max s
    \<and> spaced (su_max s) (if new then admitted @ [u] else admitted) \<and> new = (u \<notin> su_set s)
    \<and> su_set s' \<subseteq> insert u (su_set s)"
proof (cases "u \<in> su_set s")
  case True
  with assms show ?thesis by (auto simp: add_uid_def)
next
  case False
  let ?us = "su_order s @ [u]"
  have d: "distinct ?us" "insert u (su_set s) = set ?us" using assms(1) False by (auto simp: remembers_def)
  have "s' = s\<lparr>su_set := set (drop (length ?us - su_max s) ?us), su_order := drop (length ?us - su_max s) ?us\<rparr>" "new"
    using assms(3) False trim_uids_drop [OF d(1), of "su_max s"] unfolding add_uid_def d(2) by auto
  moreover have "drop (length ?us - su_max s) ?us = drop (length (admitted @ [u]) - su_max s) (admitted @ [u])"
    using assms(1) drop_snoc [of admitted u "su_max s"] by (simp add: remembers_def)
  moreover have "distinct (drop (length ?us - su_max s) ?us)" by (rule distinct_drop [OF d(1)])
  moreover have "set (drop (length ?us - su_max s) ?us) \<subseteq> insert u (su_set s)"
    unfolding d(2) by (rule set_drop_subset)
  moreover have "spaced (su_max s) (admitted @ [u])"
    using assms(1,2) False by (simp add: spaced_snoc remembers_def)
  ultimately show ?thesis using False by (simp add: remembers_def)
qed

lemma spaced_distinct:
  assumes "spaced n xs" "set xs \<subseteq> U" "finite U" "card U \<le> n"
  shows "distinct xs"
  using assms(1,2)
proof (induction xs rule: rev_induct)
  case (snoc x xs)
  then have d: "distinct xs" and x: "x \<notin> set (drop (length xs - n) xs)" by (simp_all add: spaced_snoc)
  have "length xs \<le> n"
    using distinct_card [OF d] card_mono [OF assms(3), of "set xs"] snoc.prems(2) assms(4) by simp
  with d x show ?case by simp
qed simp

section \<open>Sent once\<close>

definition out_uids :: "sse_state \<Rightarrow> string list" where
  "out_uids st = List.map_filter (\<lambda>x. case x of SseFrame f \<Rightarrow> fr_uid f | Heartbeat _ \<Rightarrow> None) (ss_out st)"

lemma map_filter_snoc: "List.map_filter f (xs @ [x]) = List.map_filter f xs @ (case f x of None \<Rightarrow> [] | Some y \<Rightarrow> [y])"
  by (simp add: List.map_filter_def split: option.split)

lemma out_uids_emit [simp]:
  "out_uids (sse_emit (SseFrame f) now st) = out_uids st @ (case fr_uid f of None \<Rightarrow> [] | Some u \<Rightarrow> [u])"
  "out_uids (sse_emit (Heartbeat n) now st) = out_uids st"
  by (simp_all add: out_uids_def sse_emit_def map_filter_snoc)

lemma sse_emit_fields [simp]:
  "ss_seen (sse_emit x now st) = ss_seen st" "ss_cursor (sse_emit x now st) = ss_cursor st"
  "ss_out (sse_emit x now st) = ss_out st @ [x]" "ss_last_poll (sse_emit x now st) = ss_last_poll st"
  by (simp_all add: sse_emit_def)

text \<open>The admitted identities are those of \<open>U\<close>, remembered and spaced; what went out is among them.\<close>

definition once_inv :: "nat \<Rightarrow> string set \<Rightarrow> sse_state \<Rightarrow> bool" where
  "once_inv n U st = (\<exists>admitted. su_max (ss_seen st) = n \<and> remembers admitted (ss_seen st) \<and> spaced n admitted
     \<and> set admitted \<subseteq> U \<and> (distinct admitted \<longrightarrow> distinct (out_uids st) \<and> set (out_uids st) \<subseteq> set admitted))"

lemma once_inv_frame: "once_inv n U st \<Longrightarrow> ss_seen st' = ss_seen st \<Longrightarrow> out_uids st' = out_uids st \<Longrightarrow> once_inv n U st'"
  by (simp add: once_inv_def)

text \<open>Looking at an identity, and then sending a frame with it or nothing.\<close>

lemma once_inv_add:
  assumes "once_inv n U st" "add_uid u (ss_seen st) = (new, seen)" "u \<in> U"
    and "ss_seen st' = seen" "out_uids st' = out_uids st @ (if new \<and> sent then [u] else [])"
  shows "once_inv n U st'"
proof -
  obtain admitted where a: "su_max (ss_seen st) = n" "remembers admitted (ss_seen st)" "spaced n admitted"
    "set admitted \<subseteq> U" "distinct admitted \<longrightarrow> distinct (out_uids st) \<and> set (out_uids st) \<subseteq> set admitted"
    using assms(1) unfolding once_inv_def by blast
  let ?adm = "if new then admitted @ [u] else admitted"
  from add_uid_remembers [OF a(2) a(3) [folded a(1)] assms(2)]
  have "su_max seen = n" "remembers ?adm seen" "spaced n ?adm" unfolding a(1) by blast+
  moreover have "set ?adm \<subseteq> U" using a(4) assms(3) by simp
  moreover have "distinct ?adm \<longrightarrow> distinct (out_uids st') \<and> set (out_uids st') \<subseteq> set ?adm"
    using a(5) unfolding assms(5) by (cases new; cases sent) auto
  ultimately show ?thesis unfolding once_inv_def assms(4) by blast
qed

lemma once_inv_pass:
  assumes "once_inv n U st" "\<forall>u. fr_uid f = Some u \<longrightarrow> u \<in> U"
  shows "once_inv n U (pass_once f now st)"
proof (cases "fr_uid f")
  case None
  with assms(1) show ?thesis by (intro once_inv_frame [OF assms(1)]) (simp_all add: pass_once_def)
next
  case (Some u)
  obtain new seen where a: "add_uid u (ss_seen st) = (new, seen)" by fastforce
  have u: "u \<in> U" using Some assms(2) by simp
  show ?thesis
  proof (cases new)
    case True
    with Some a show ?thesis
      by (intro once_inv_add [OF assms(1) a u, where sent = True]) (simp_all add: pass_once_def out_uids_def map_filter_snoc)
  next
    case False
    with a have "seen = ss_seen st" by (auto simp: add_uid_def split: if_splits prod.splits)
    with Some a False assms(1) show ?thesis by (simp add: pass_once_def)
  qed
qed

lemma map_filter_in: "y \<in> set (List.map_filter f xs) \<Longrightarrow> \<exists>x \<in> set xs. f x = Some y"
  by (auto simp: List.map_filter_def)

definition uids_in :: "string set \<Rightarrow> wire_event list \<Rightarrow> bool" where
  "uids_in U es = (\<forall>e \<in> set es. \<forall>u. we_uid e = Some u \<longrightarrow> u \<in> U)"

lemma read_pages_uids:
  assumes "\<forall>c n. uids_in U (rd c n)" "uids_in U items"
  shows "uids_in U (read_pages rd limit items cursor)"
  using assms
proof (induction rd limit items cursor rule: read_pages.induct)
  case (1 rd limit items cursor)
  have "uids_in U (items @ rd cursor (min events_page (limit - length items)))"
    using 1(2,3) by (auto simp: uids_in_def)
  with 1 show ?case by (subst read_pages.simps) (auto simp: Let_def split: option.split)
qed

lemma history_frame_uid: "history_frame tr e = Some f \<Longrightarrow> fr_uid f = we_uid e \<and> fr_seq f = seq_or_0 e"
  by (auto simp: history_frame_def frame_from_def)

lemma live_frame_uid: "live_frame tr e = Some f \<Longrightarrow> fr_uid f = we_uid e"
  by (auto simp: live_frame_def frame_from_def)

lemma once_inv_backfill:
  assumes "once_inv n U st" "\<forall>c m. uids_in U (rd c m)"
  shows "once_inv n U (backfill tr rd now st)"
proof -
  have "uids_in U (read_pages rd default_limit [] (ss_cursor st))"
    by (rule read_pages_uids [OF assms(2)]) (simp add: uids_in_def)
  then have fs: "\<forall>f \<in> set (list_frames_after tr rd default_limit (ss_cursor st)). \<forall>u. fr_uid f = Some u \<longrightarrow> u \<in> U"
    by (auto simp: list_frames_after_def items_to_frames_def uids_in_def dest!: map_filter_in history_frame_uid)
  have "once_inv n U (fold (history_step now) fs st)"
    if "\<forall>f \<in> set fs. \<forall>u. fr_uid f = Some u \<longrightarrow> u \<in> U" "once_inv n U st" for fs st
    using that
  proof (induction fs arbitrary: st)
    case (Cons f fs)
    have "once_inv n U (st\<lparr>ss_cursor := fr_seq f\<rparr>)"
      by (rule once_inv_frame [OF Cons.prems(2)]) (simp_all add: out_uids_def)
    then have "once_inv n U (history_step now f st)"
      unfolding history_step_def using Cons.prems(1) by (intro once_inv_pass) auto
    with Cons show ?case by simp
  qed simp
  from this [OF fs assms(1)] show ?thesis by (simp add: backfill_def)
qed

lemma once_inv_heartbeat: "once_inv n U st \<Longrightarrow> once_inv n U (sse_emit (Heartbeat c) now st)"
  by (rule once_inv_frame) simp_all

lemma once_inv_live:
  assumes "once_inv n U st" "\<forall>u. we_uid e = Some u \<longrightarrow> u \<in> U"
  shows "once_inv n U (sse_live tr now e st)"
proof (cases "we_uid e")
  case None
  then have "fr_uid f = None" if "live_frame tr e = Some f" for f using live_frame_uid that by metis
  then show ?thesis
    by (intro once_inv_frame [OF assms(1)]) (auto simp: sse_live_def None out_uids_def map_filter_snoc split: option.split)
next
  case (Some u)
  obtain new seen where a: "add_uid u (ss_seen st) = (new, seen)" by fastforce
  have u: "u \<in> U" using Some assms(2) by simp
  have uid: "fr_uid f = Some u" if "live_frame tr e = Some f" for f using live_frame_uid that Some by metis
  show ?thesis
  proof (cases new)
    case True
    with Some a uid show ?thesis
      by (intro once_inv_add [OF assms(1) a u, where sent = "live_frame tr e \<noteq> None"])
        (auto simp: sse_live_def out_uids_def map_filter_snoc split: option.split)
  next
    case False
    with Some a assms(1) show ?thesis by (simp add: sse_live_def)
  qed
qed

definition step_uids_in :: "string set \<Rightarrow> sse_step \<Rightarrow> bool" where
  "step_uids_in U step = (case step of
     Tick rd now later \<Rightarrow> \<forall>c m. uids_in U (rd c m) | Live e now \<Rightarrow> uids_in U [e] | Push f now \<Rightarrow> True)"

lemma once_inv_step:
  assumes "once_inv n U st" "step_uids_in U step"
  shows "once_inv n U (sse_apply tr step st)"
proof (cases step)
  case (Tick rd now later)
  have "once_inv n U (st\<lparr>ss_last_poll := now\<rparr>)"
    by (rule once_inv_frame [OF assms(1)]) (simp_all add: out_uids_def)
  with Tick assms show ?thesis
    by (auto simp: sse_tick_def Let_def step_uids_in_def intro!: once_inv_heartbeat once_inv_backfill)
next
  case (Live e now)
  with assms show ?thesis by (auto simp: step_uids_in_def uids_in_def intro: once_inv_live)
next
  case (Push f now)
  then show ?thesis by (intro once_inv_frame [OF assms(1)]) (simp_all add: sse_push_def)
qed

lemma once_inv_run:
  "once_inv n U st \<Longrightarrow> list_all (step_uids_in U) steps \<Longrightarrow> once_inv n U (sse_run tr steps st)"
  unfolding sse_run_def by (induction steps arbitrary: st) (simp_all add: once_inv_step)

lemma once_inv_start:
  assumes "\<forall>c m. uids_in U (rd c m)"
  shows "once_inv seen_uids_max U (sse_start tr rd after now)"
proof -
  have "once_inv seen_uids_max U \<lparr>ss_cursor = after, ss_seen = no_uids seen_uids_max, ss_last_poll = 0,
      ss_last_emit = now, ss_out = []\<rparr>"
    unfolding once_inv_def
    by (intro exI [of _ "[]"]) (simp add: remembers_def no_uids_def out_uids_def List.map_filter_def)
  then show ?thesis unfolding sse_start_def by (rule once_inv_backfill [OF _ assms])
qed

lemma sent_once:
  assumes "\<forall>c m. uids_in U (rd c m)" "list_all (step_uids_in U) steps" "finite U" "card U \<le> seen_uids_max"
  shows "distinct (out_uids (sse_run tr steps (sse_start tr rd after now)))"
proof -
  from once_inv_run [OF once_inv_start [OF assms(1)] assms(2), of tr tr after now]
  obtain admitted where "spaced seen_uids_max admitted" "set admitted \<subseteq> U"
    "distinct admitted \<longrightarrow> distinct (out_uids (sse_run tr steps (sse_start tr rd after now)))"
    unfolding once_inv_def by blast
  with spaced_distinct [OF _ _ assms(3,4)] show ?thesis by blast
qed

section \<open>None skipped\<close>

text \<open>The log is sorted by its sequence numbers; a reader sees a log.\<close>

definition log_ok :: "wire_event list \<Rightarrow> bool" where
  "log_ok log = sorted_wrt (\<lambda>e e'. seq_or_0 e < seq_or_0 e') log"

definition sees :: "wire_event list \<Rightarrow> reader \<Rightarrow> bool" where
  "sees log rd = (\<forall>c n. rd c n = take n (filter (\<lambda>e. c < seq_or_0 e) log))"

lemma read_pages_default:
  assumes "sees log rd"
  shows "read_pages rd default_limit [] c = take default_limit (filter (\<lambda>e. c < seq_or_0 e) log)"
proof -
  let ?page = "take default_limit (filter (\<lambda>e. c < seq_or_0 e) log)"
  have page: "rd c default_limit = ?page" using assms by (simp add: sees_def)
  have want: "min events_page (default_limit - length ([] :: wire_event list)) = default_limit"
    "\<not> default_limit \<le> length ([] :: wire_event list)"
    by (simp_all add: events_page_def default_limit_def)
  have full: "read_pages rd default_limit items c' = items" if "default_limit \<le> length items" for items c'
    using that by (subst read_pages.simps) simp
  have "read_pages rd default_limit [] c = (if ?page = [] then [] else case we_seq (last ?page) of
      None \<Rightarrow> [] @ ?page | Some n \<Rightarrow> if length ?page < default_limit then [] @ ?page
        else read_pages rd default_limit ([] @ ?page) n)"
    by (subst read_pages.simps) (simp only: want if_False Let_def page)
  then show ?thesis by (auto simp: full split: option.splits if_splits)
qed

definition has_uid :: "sse_state \<Rightarrow> string \<Rightarrow> bool" where
  "has_uid st u = (\<exists>f. SseFrame f \<in> set (ss_out st) \<and> fr_uid f = Some u)"

definition went_out :: "sse_state \<Rightarrow> sse_frame \<Rightarrow> bool" where
  "went_out st f = (case fr_uid f of None \<Rightarrow> SseFrame f \<in> set (ss_out st) | Some u \<Rightarrow> has_uid st u)"

lemma went_out_mono: "set (ss_out st) \<subseteq> set (ss_out st') \<Longrightarrow> went_out st f \<Longrightarrow> went_out st' f"
  by (auto simp: went_out_def has_uid_def split: option.splits)

text \<open>A remembered identity went out, or the browser has no name for its event.\<close>

definition known :: "translation \<Rightarrow> wire_event list \<Rightarrow> sse_state \<Rightarrow> bool" where
  "known tr log st = (\<forall>u \<in> su_set (ss_seen st). has_uid st u
     \<or> (\<forall>e \<in> set log. we_uid e = Some u \<longrightarrow> history_frame tr e = None))"

lemma known_mono:
  assumes "known tr log st" "su_set (ss_seen st') \<subseteq> su_set (ss_seen st)" "set (ss_out st) \<subseteq> set (ss_out st')"
  shows "known tr log st'"
  using assms unfolding known_def has_uid_def by (meson subsetD)

lemma add_uid_sets: "add_uid u s = (new, s') \<Longrightarrow> su_set s' \<subseteq> insert u (su_set s) \<and> new = (u \<notin> su_set s)"
proof -
  have "fst (trim_uids n S us) \<subseteq> S" for n S us by (induction n S us rule: trim_uids.induct) auto
  moreover assume "add_uid u s = (new, s')"
  ultimately show ?thesis
    by (auto simp: add_uid_def split: if_splits prod.splits) (metis fst_conv insertE subsetD)
qed

lemma known_add:
  assumes "known tr log st" "add_uid u (ss_seen st) = (new, seen)" "ss_seen st' = seen"
    and "set (ss_out st) \<subseteq> set (ss_out st')"
    and "has_uid st' u \<or> (\<forall>e \<in> set log. we_uid e = Some u \<longrightarrow> history_frame tr e = None)"
  shows "known tr log st'"
proof -
  have "su_set (ss_seen st') \<subseteq> insert u (su_set (ss_seen st))" using add_uid_sets [OF assms(2)] assms(3) by simp
  with assms(1,4,5) show ?thesis unfolding known_def has_uid_def by (metis insertE subsetD)
qed

lemma history_step_out:
  assumes "known tr log st" "e \<in> set log" "history_frame tr e = Some f"
  shows "known tr log (history_step now f st) \<and> set (ss_out st) \<subseteq> set (ss_out (history_step now f st))
    \<and> ss_cursor (history_step now f st) = fr_seq f \<and> went_out (history_step now f st) f"
proof (cases "fr_uid f")
  case None
  with assms(1) known_mono [OF assms(1)] show ?thesis
    by (simp add: history_step_def pass_once_def went_out_def subset_insertI)
next
  case (Some u)
  let ?st = "st\<lparr>ss_cursor := fr_seq f\<rparr>"
  have e: "we_uid e = Some u" using history_frame_uid [OF assms(3)] Some by simp
  have st: "known tr log ?st" using assms(1) by (simp add: known_def has_uid_def)
  obtain new seen where a: "add_uid u (ss_seen ?st) = (new, seen)" by fastforce
  show ?thesis
  proof (cases new)
    case True
    let ?out = "sse_emit (SseFrame f) now (?st\<lparr>ss_seen := seen\<rparr>)"
    have "has_uid ?out u" using Some by (auto simp: has_uid_def)
    moreover from this have "known tr log ?out" by (intro known_add [OF st a]) auto
    ultimately show ?thesis using Some a True by (auto simp: history_step_def pass_once_def went_out_def)
  next
    case False
    with add_uid_sets [OF a] have "u \<in> su_set (ss_seen ?st)" by simp
    with st assms(2,3) e have "has_uid ?st u" unfolding known_def by fastforce
    with Some a False st show ?thesis by (auto simp: history_step_def pass_once_def went_out_def)
  qed
qed

lemma history_fold_out:
  assumes "known tr log st" "\<forall>f \<in> set fs. \<exists>e \<in> set log. history_frame tr e = Some f"
  shows "known tr log (fold (history_step now) fs st)
    \<and> set (ss_out st) \<subseteq> set (ss_out (fold (history_step now) fs st))
    \<and> ss_cursor (fold (history_step now) fs st) = (if fs = [] then ss_cursor st else fr_seq (last fs))
    \<and> (\<forall>f \<in> set fs. went_out (fold (history_step now) fs st) f)"
  using assms
proof (induction fs arbitrary: st)
  case (Cons f fs)
  then obtain e where e: "e \<in> set log" "history_frame tr e = Some f" by auto
  note one = history_step_out [OF Cons.prems(1) e, of now]
  from one Cons.IH [of "history_step now f st"] Cons.prems(2)
  have rest: "known tr log (fold (history_step now) fs (history_step now f st))"
    "set (ss_out (history_step now f st)) \<subseteq> set (ss_out (fold (history_step now) fs (history_step now f st)))"
    "ss_cursor (fold (history_step now) fs (history_step now f st)) = (if fs = [] then fr_seq f else fr_seq (last fs))"
    "\<forall>g \<in> set fs. went_out (fold (history_step now) fs (history_step now f st)) g" by simp_all
  with one went_out_mono [OF rest(2), of f] show ?case by auto
qed simp

text \<open>Everything between the start and the cursor went out.\<close>

definition caught_up :: "translation \<Rightarrow> wire_event list \<Rightarrow> int \<Rightarrow> sse_state \<Rightarrow> bool" where
  "caught_up tr log start st = (known tr log st \<and> (\<forall>e \<in> set log. \<forall>f.
     start < seq_or_0 e \<and> seq_or_0 e \<le> ss_cursor st \<and> history_frame tr e = Some f \<longrightarrow> went_out st f))"

lemma sorted_before:
  assumes "log_ok (xs @ ys)" "x \<in> set xs" "e \<in> set (xs @ ys)" "seq_or_0 e \<le> seq_or_0 x"
  shows "e \<in> set xs"
  using assms by (force simp: log_ok_def sorted_wrt_append)

lemma backfill_caught_up:
  assumes "caught_up tr log start st" "log_ok log" "sees (take m log) rd"
  shows "caught_up tr log start (backfill tr rd now st)"
proof -
  let ?unread = "filter (\<lambda>e. ss_cursor st < seq_or_0 e) (take m log)"
  define items where "items = take default_limit ?unread"
  define fs where "fs = List.map_filter (history_frame tr) items"
  let ?st' = "fold (history_step now) fs st"
  have run: "backfill tr rd now st = ?st'"
    by (simp add: backfill_def list_frames_after_def items_to_frames_def read_pages_default [OF assms(3)] fs_def items_def)
  have sub: "set items \<subseteq> set ?unread" "set ?unread \<subseteq> set log"
    unfolding items_def using set_take_subset [of m log] by (auto dest: in_set_takeD)
  have from_log: "\<forall>f \<in> set fs. \<exists>e \<in> set log. history_frame tr e = Some f"
    using sub by (auto simp: fs_def dest!: map_filter_in)
  have start: "known tr log st" using assms(1) by (simp add: caught_up_def)
  note out = history_fold_out [OF start from_log, of now]
  have "went_out ?st' f" if e: "e \<in> set log" "start < seq_or_0 e" "seq_or_0 e \<le> ss_cursor ?st'"
    "history_frame tr e = Some f" for e f
  proof (cases "seq_or_0 e \<le> ss_cursor st")
    case True
    with assms(1) e have "went_out st f" unfolding caught_up_def by blast
    with out went_out_mono show ?thesis by blast
  next
    case False
    with out e(3) have "fs \<noteq> []" "seq_or_0 e \<le> fr_seq (last fs)" by (auto split: if_splits)
    then obtain x where x: "x \<in> set items" "seq_or_0 e \<le> seq_or_0 x"
      using map_filter_in [of "last fs" "history_frame tr" items] history_frame_uid by (metis fs_def last_in_set)
    have prefix: "log_ok (take m log)" using assms(2) unfolding log_ok_def by (rule sorted_wrt_take)
    have "e \<in> set (take m log)"
      using sorted_before [of "take m log" "drop m log" x e] assms(2) x e(1) sub(1) by auto
    with False have "e \<in> set ?unread" by simp
    moreover have "log_ok ?unread" using prefix unfolding log_ok_def by (rule sorted_wrt_filter)
    ultimately have "e \<in> set items"
      using sorted_before [of items "drop default_limit ?unread" x e] x unfolding items_def by simp
    with e(4) have "f \<in> set fs" by (force simp: fs_def List.map_filter_def)
    with out show ?thesis by blast
  qed
  with out show ?thesis unfolding run caught_up_def by blast
qed

text \<open>
  What the steps are assumed to bring: the readers see the log as far as it is written, and an event
  that is also in the log has a name there exactly when it has one live.
\<close>

definition step_fits :: "translation \<Rightarrow> wire_event list \<Rightarrow> sse_step \<Rightarrow> bool" where
  "step_fits tr log step = (case step of
     Tick rd now later \<Rightarrow> \<exists>m. sees (take m log) rd
   | Live e now \<Rightarrow> \<forall>x \<in> set log. we_uid x = we_uid e \<and> we_uid e \<noteq> None
       \<longrightarrow> (history_frame tr x = None) = (live_frame tr e = None)
   | Push f now \<Rightarrow> True)"

lemma caught_up_frame:
  assumes "caught_up tr log start st" "ss_cursor st' = ss_cursor st" "set (ss_out st) \<subseteq> set (ss_out st')"
    and "known tr log st'"
  shows "caught_up tr log start st'"
  using assms went_out_mono [OF assms(3)] unfolding caught_up_def by metis

lemma caught_up_emit: "caught_up tr log start st \<Longrightarrow> caught_up tr log start (sse_emit x now st)"
  by (rule caught_up_frame) (auto simp: caught_up_def intro: known_mono)

lemma caught_up_live:
  assumes "caught_up tr log start st" "step_fits tr log (Live e now)"
  shows "caught_up tr log start (sse_live tr now e st)"
proof (cases "we_uid e")
  case None
  have "caught_up tr log start (st\<lparr>ss_seen := ss_seen st\<rparr>)" using assms(1) by simp
  with caught_up_emit [OF this] show ?thesis by (simp add: sse_live_def None split: option.split)
next
  case (Some u)
  obtain new seen where a: "add_uid u (ss_seen st) = (new, seen)" by fastforce
  have st: "known tr log st" using assms(1) by (simp add: caught_up_def)
  show ?thesis
  proof (cases "new \<and> live_frame tr e \<noteq> None")
    case True
    then obtain f where f: "live_frame tr e = Some f" by auto
    let ?st = "sse_emit (SseFrame f) now (st\<lparr>ss_seen := seen\<rparr>)"
    have "has_uid ?st u" using live_frame_uid [OF f] Some by (auto simp: has_uid_def)
    then have "known tr log ?st" by (intro known_add [OF st a]) auto
    then have "caught_up tr log start ?st" by (intro caught_up_frame [OF assms(1)]) auto
    with True f a Some show ?thesis by (simp add: sse_live_def)
  next
    case False
    show ?thesis
    proof (cases new)
      case True
      with False have f: "live_frame tr e = None" by simp
      with assms(2) Some have "\<forall>x \<in> set log. we_uid x = Some u \<longrightarrow> history_frame tr x = None"
        by (auto simp: step_fits_def)
      then have "known tr log (st\<lparr>ss_seen := seen\<rparr>)" by (intro known_add [OF st a]) auto
      then have "caught_up tr log start (st\<lparr>ss_seen := seen\<rparr>)" by (intro caught_up_frame [OF assms(1)]) auto
      with True f a Some show ?thesis by (simp add: sse_live_def)
    next
      case no: False
      with a Some assms(1) show ?thesis by (simp add: sse_live_def)
    qed
  qed
qed

lemma caught_up_step:
  assumes "caught_up tr log start st" "log_ok log" "step_fits tr log step"
  shows "caught_up tr log start (sse_apply tr step st)"
proof (cases step)
  case (Tick rd now later)
  then obtain m where m: "sees (take m log) rd" using assms(3) by (auto simp: step_fits_def)
  have "caught_up tr log start (st\<lparr>ss_last_poll := now\<rparr>)"
    by (rule caught_up_frame [OF assms(1)]) (use assms(1) in \<open>auto simp: caught_up_def intro: known_mono\<close>)
  with Tick backfill_caught_up [OF _ assms(2) m] assms(1) show ?thesis
    by (auto simp: sse_tick_def Let_def intro: caught_up_emit)
next
  case (Live e now)
  with assms caught_up_live show ?thesis by simp
next
  case (Push f now)
  with assms(1) show ?thesis by (simp add: sse_push_def caught_up_emit)
qed

lemma caught_up_run:
  "caught_up tr log start st \<Longrightarrow> log_ok log \<Longrightarrow> list_all (step_fits tr log) steps
    \<Longrightarrow> caught_up tr log start (sse_run tr steps st)"
  unfolding sse_run_def by (induction steps arbitrary: st) (simp_all add: caught_up_step)

lemma caught_up_start:
  assumes "log_ok log" "sees (take m log) rd"
  shows "caught_up tr log after (sse_start tr rd after now)"
proof -
  have "caught_up tr log after \<lparr>ss_cursor = after, ss_seen = no_uids seen_uids_max, ss_last_poll = 0,
      ss_last_emit = now, ss_out = []\<rparr>"
    by (auto simp: caught_up_def known_def no_uids_def)
  then show ?thesis unfolding sse_start_def by (rule backfill_caught_up [OF _ assms])
qed

section \<open>Where it stops\<close>

text \<open>The cursor follows the frames: a page of events the browser has no name for is read forever.\<close>

lemma backfill_stalls:
  assumes "sees log rd"
    and "\<forall>e \<in> set (take default_limit (filter (\<lambda>e. ss_cursor st < seq_or_0 e) log)). history_frame tr e = None"
  shows "backfill tr rd now st = st"
proof -
  have "List.map_filter (history_frame tr) (take default_limit (filter (\<lambda>e. ss_cursor st < seq_or_0 e) log)) = []"
    using assms(2) by (force simp: List.map_filter_def filter_empty_conv)
  then show ?thesis
    by (simp add: backfill_def list_frames_after_def items_to_frames_def read_pages_default [OF assms(1)])
qed

end
