(* ===== verification/StreamProperties.thy ===== *)
theory StreamProperties
  imports Coalesce ReplyText EventStreamFacts
begin

text \<open>
  The properties of the live streams, with concrete inputs: what the sinks of a turn pass on,
  what a client that joins late is given, and what reaches the browser.
\<close>

section \<open>Coalescing\<close>

text \<open>Deltas share a buffer when they belong to the same stream, and only then.\<close>

lemma key_for_streams:
  "is_delta e \<Longrightarrow> is_delta e' \<Longrightarrow> key_for e = key_for e' \<longleftrightarrow> stream_of e = stream_of e'"
  by (auto simp: is_delta_stream key_for_stream stream_key_inj)

text \<open>Property C29: merging deltas is invisible.  A consumer tells the streams apart by what the events say
  (whose text, whose thinking, which tool call, which of its outputs), appends the deltas of
  each, and looks at them whenever another event comes.  It sees the same moments with the
  same texts behind the coalescing sink as in front of it, once the sink is flushed,
  whenever the delays strike and whatever the inner sink answers.\<close>
theorem coalescing_is_transparent:
  "view_of (snd (flush (logging ok) now (sink_run (logging ok) steps ([], [])))) = view_of (emitted steps)"
proof -
  have "faithful [] ([], [])" by (simp add: faithful_def buffers_ok_def pending_text_def)
  from flush_faithful(3) [OF sink_run_faithful [OF this, of steps ok]] show ?thesis
    by (simp add: view_of_by_stream)
qed

section \<open>Joining late\<close>

text \<open>Property C30: a tap that joins in the middle of a turn catches up.  After the snapshot and the events
  that follow, its consumer shows the same open text as one that was there from the start of
  the turn, and gains the same segments from then on; the other sinks may fail as they like.
  The premises: the tap takes every event and stays on the bus, the events before it are
  those of one turn, at no time had more than
  \<open>max_streams\<close> streams text that was not sealed, and the lead's open text is at most
  \<open>max_chars_per_stream\<close> long.  (Beyond the cap it fails: \<open>late_stream_shows_tail\<close>.)\<close>
theorem late_tap_catches_up:
  assumes "bus_run will ops1 (new_bus taps) = b" "bus_emits ops1 = es" "bus_emits ops2 = later"
    and "i \<notin> set (bs_taps b)" "bs_sub b \<noteq> Some i" "bs_got b i = []" "list_all (spares i) ops2" "\<And>h e. will i h e"
    and "list_all turn_event es" "within_cap es" "int (length (unsealed lead_text es)) \<le> max_chars_per_stream"
    and "late = reply_of (bs_got (bus_run will (BusTap i [] True # ops2) b) i) no_reply"
    and "full = reply_of (es @ later) no_reply"
  shows "ry_open late = ry_open full \<and> ry_segments full = ry_segments (reply_of es no_reply) @ ry_segments late"
proof -
  have "bs_partial b = accumulate es"
    using bus_run_partial [of will ops1 "new_bus taps"] assms(1,2) by (simp add: new_bus_def accumulate_def)
  then have "bs_got (bus_run will (BusTap i [] True # ops2) b) i = snapshot (accumulate es) @ later"
    using late_tap_gets [where will = will, OF assms(4,5,7,8), of "[]" True] assms(3,6) by (simp add: join_frames_def)
  with late_reply [OF assms(9-11), of later] assms(12,13) show ?thesis by (simp add: Let_def)
qed

definition delta_of :: "json \<Rightarrow> string \<Rightarrow> live_event" where
  "delta_of flow txt = \<lparr>le_type = ''text_delta'', le_data = [(''parent_tool_use_id'', flow), (''text'', JStr txt)], le_time = 1\<rparr>"

definition message_of :: "json \<Rightarrow> string \<Rightarrow> live_event" where
  "message_of flow txt = \<lparr>le_type = ''assistant_message'', le_data = [(''parent_tool_use_id'', flow), (''text'', JStr txt)], le_time = 1\<rparr>"

definition early_ops :: "bus_op list" where
  "early_ops = [BusEmit (delta_of JNull ''he''), BusEmit (delta_of (JStr ''w'') ''x''), BusEmit (message_of (JStr ''w'') ''x'')]"

text \<open>A stream that is open spoke.\<close>

lemma unsealed_spoke: "unsealed k es \<noteq> [] \<Longrightarrow> k \<in> (\<lambda>e. (le_type e, flow_of e)) ` set es"
proof (induction es rule: rev_induct)
  case (snoc e es)
  then show ?case by (cases "unsealed k es = []") (auto simp: say_def split: if_splits option.splits)
qed simp

lemma within_cap_short:
  assumes "length es \<le> max_streams"
  shows "within_cap es"
  unfolding within_cap_def
proof (intro allI impI)
  fix n assume "n \<le> length es"
  let ?keys = "(\<lambda>e. (le_type e, flow_of e)) ` set (take n es)"
  have "card (open_keys (take n es)) \<le> card ?keys"
    using unsealed_spoke [of _ "take n es"] by (intro card_mono) (auto simp: open_keys_def)
  also have "\<dots> \<le> length (take n es)" by (rule le_trans [OF card_image_le card_length]) simp
  finally show "card (open_keys (take n es)) \<le> max_streams" using assms by simp
qed

theorem late_tap_catches_up_witness:
  "ry_open (reply_of (bs_got (bus_run (\<lambda>_ _ _. True) (BusTap 1 [] True # [BusEmit (delta_of JNull ''llo'')])
     (bus_run (\<lambda>_ _ _. True) early_ops (new_bus [0]))) 1) no_reply) = ''hello''"
proof -
  let ?b = "bus_run (\<lambda>_ _ _. True) early_ops (new_bus [0])" and ?later = "[BusEmit (delta_of JNull ''llo'')]"
  let ?es = "bus_emits early_ops"
  have cap: "within_cap ?es" by (rule within_cap_short) (simp add: max_streams_def early_ops_def)
  have first: "1 \<notin> set (bs_taps ?b)" "bs_sub ?b \<noteq> Some 1" "bs_got ?b 1 = []" by code_simp+
  have rest: "list_all (spares 1) ?later" "list_all turn_event ?es"
    "int (length (unsealed lead_text ?es)) \<le> max_chars_per_stream" by code_simp+
  have "ry_open (reply_of (?es @ bus_emits ?later) no_reply) = ''hello''" by code_simp
  with late_tap_catches_up [where will = "\<lambda>_ _ _. True" and ?ops1.0 = early_ops and taps = "[0]" and ?ops2.0 = ?later
      and i = 1, OF refl refl refl first rest(1) TrueI rest(2) cap rest(3) refl refl]
  show ?thesis by (simp only:)
qed

section \<open>A stream that shows its tail\<close>

text \<open>
  A stream that is not tracked because 64 others are open is not remembered as such.  When one of them is
  sealed, the stream is tracked from its next delta on, and a snapshot shows the tail of its
  text as if it were all of it.
\<close>

definition crowd :: "live_event list" where
  "crowd = map (\<lambda>i. delta_of (JStr [CHR ''f'', char_of (64 + i)]) ''x'') [0..<64]"

lemma late_stream_shows_tail:
  "let es = crowd @ [delta_of JNull ''hel'', message_of (JStr [CHR ''f'', char_of (64 :: nat)]) ''x'', delta_of JNull ''lo''] in
   unsealed lead_text es = ''hello''
   \<and> map chunk_of (filter (\<lambda>f. (le_type f, flow_of f) = lead_text) (snapshot (accumulate es))) = [''lo'']"
  by code_simp

section \<open>What reaches the browser\<close>

text \<open>Property C31: an event with an identity is sent to the browser once.  Whether it comes from the log,
  from the live subscription or from both, before or after the browser reconnected, no identity
  leaves the stream twice, as long as the events carry no more than \<open>seen_uids_max\<close> identities,
  the number that is remembered.  (Events without an identity always pass.)\<close>
theorem stream_sends_once:
  assumes "\<And>c m. uids_in U (rd c m)" "list_all (step_uids_in U) steps" "finite U" "card U \<le> seen_uids_max"
  shows "distinct (out_uids (sse_run tr steps (sse_start tr rd after now)))"
  using assms by (intro sent_once) auto

definition reader_of :: "wire_event list \<Rightarrow> reader" where
  "reader_of log c n = take n (filter (\<lambda>e. c < seq_or_0 e) log)"

lemma sees_reader_of: "sees log (reader_of log)"
  by (simp add: sees_def reader_of_def)

definition row :: "int \<Rightarrow> string \<Rightarrow> wire_event" where
  "row n uid = \<lparr>we_seq = Some n, we_type = ''session_idle'', we_data = [], we_time = None, we_uid = Some uid,
     we_message = None, we_session = ''s''\<rparr>"

definition told :: "wire_event list" where
  "told = [row 1 ''a'', row 2 ''b'', row 3 ''c'']"

definition visit :: "sse_step list" where
  "visit = [Live (row 2 ''b'') 10, Tick (reader_of (take 2 told)) 3000 3001, Live (row 2 ''b'') 3100,
     Tick (reader_of told) 6000 6001, Live (row 3 ''c'') 6100]"

lemma uids_in_told: "uids_in {''a'', ''b'', ''c''} (reader_of (take m told) c n)"
  unfolding uids_in_def reader_of_def by (auto simp: told_def row_def dest!: in_set_takeD)

theorem stream_sends_once_witness:
  "distinct (out_uids (sse_run (translate_control (\<lambda>_. [])) visit
     (sse_start (translate_control (\<lambda>_. [])) (reader_of (take 1 told)) 0 0)))"
proof (rule stream_sends_once [where U = "{''a'', ''b'', ''c''}"])
  show "uids_in {''a'', ''b'', ''c''} (reader_of (take 1 told) c m)" for c m by (rule uids_in_told)
  have "uids_in {''a'', ''b'', ''c''} (reader_of told c m)" for c m using uids_in_told [of 3] by (simp add: told_def)
  then show "list_all (step_uids_in {''a'', ''b'', ''c''}) visit"
    by (simp add: visit_def step_uids_in_def uids_in_told) (simp add: uids_in_def row_def)
qed (simp_all add: seen_uids_max_def)

text \<open>The stream of a session skips nothing.  At any moment, every event of the log between
  the point the browser asked for and the cursor, as far as the browser has a name for it, has
  left the stream: as that row, or live under the same identity, even when the session has more
  identities than are remembered.  (Readers see a prefix of the log, and an event has
  a name live exactly when it has one in the log.)\<close>
theorem stream_skips_nothing:
  assumes "log_ok log" "sees (take m log) rd" "list_all (step_fits tr log) steps"
    and "st = sse_run tr steps (sse_start tr rd after now)"
    and "e \<in> set log" "after < seq_or_0 e" "seq_or_0 e \<le> ss_cursor st" "history_frame tr e = Some f"
  shows "went_out st f"
  using caught_up_run [OF caught_up_start [OF assms(1,2)] assms(1,3)] assms(4-8) unfolding caught_up_def by blast

theorem stream_skips_nothing_witness:
  "went_out (sse_run (translate_control (\<lambda>_. [])) visit
     (sse_start (translate_control (\<lambda>_. [])) (reader_of (take 1 told)) 0 0))
     (frame_from (row 2 ''b'') (''run.finished'', [(''status'', ''idle''), (''stop_reason'', [])]))"
proof (rule stream_skips_nothing [where log = told and m = 1, OF _ _ _ refl])
  let ?tr = "translate_control (\<lambda>_. [])"
  show "log_ok told" by (simp add: log_ok_def told_def row_def seq_or_0_def)
  show "sees (take 1 told) (reader_of (take 1 told))" by (rule sees_reader_of)
  have "\<exists>m. sees (take m told) (reader_of (take n told))" for n using sees_reader_of by blast
  from this [of 2] this [of 3] show "list_all (step_fits ?tr told) visit"
    by (simp add: visit_def step_fits_def told_def row_def history_frame_def live_frame_def
      with_row_message_id_def translate_control_def)
  show "row 2 ''b'' \<in> set told" by (simp add: told_def)
  show "0 < seq_or_0 (row 2 ''b'')" by (simp add: row_def seq_or_0_def)
  show "seq_or_0 (row 2 ''b'') \<le> ss_cursor (sse_run ?tr visit (sse_start ?tr (reader_of (take 1 told)) 0 0))"
    by code_simp
  show "history_frame ?tr (row 2 ''b'')
      = Some (frame_from (row 2 ''b'') (''run.finished'', [(''status'', ''idle''), (''stop_reason'', [])]))"
    by code_simp
qed

section \<open>A log that is never read to its end\<close>

text \<open>
  The cursor moves with the frames only.  A page full of events the browser has no name for, here of
  the type \<open>usage\<close>, leaves it where it is, and every later pass reads the same page:
  the event behind them never arrives from the log.
\<close>

definition nameless :: "wire_event list" where
  "nameless = map (\<lambda>i. (row (int i + 1) (replicate i CHR ''u''))\<lparr>we_type := ''usage''\<rparr>) [0..<200]"

definition stalled_log :: "wire_event list" where
  "stalled_log = nameless @ [row 201 ''z'']"

lemma backfill_never_arrives:
  assumes "ss_cursor st = 0"
  shows "backfill (translate_control dumps) (reader_of stalled_log) now st = st"
proof (rule backfill_stalls [OF sees_reader_of])
  have all: "filter (\<lambda>e. ss_cursor st < seq_or_0 e) stalled_log = stalled_log"
    by (simp add: assms filter_id_conv stalled_log_def nameless_def row_def seq_or_0_def)
  have "take default_limit stalled_log = nameless"
    by (simp add: stalled_log_def nameless_def default_limit_def)
  then show "\<forall>e \<in> set (take default_limit (filter (\<lambda>e. ss_cursor st < seq_or_0 e) stalled_log)).
      history_frame (translate_control dumps) e = None"
    unfolding all by (simp add: nameless_def row_def history_frame_def translate_control_def)
qed

lemma last_row_has_a_name: "history_frame (translate_control dumps) (row 201 ''z'') \<noteq> None"
  by (simp add: row_def history_frame_def translate_control_def)

end
