(* ===== verification/Dispatch.thy ===== *)
theory Dispatch
  imports LifecycleFacts
begin

text \<open>
  \<^verbatim>\<open>backend/valuz_agent/modules/tasks/dispatcher.py\<close>: starting the member of a planned
  subtask.  What the resolver finds (project directory, member session, credentials) and
  whether the kernel session comes up are arguments, as in \<open>Lifecycle\<close>.
\<close>

section \<open>The working directory\<close>

text \<open>\<^verbatim>\<open>task_worktree.py\<close>: the snapshot on the row, and the directory it names.\<close>

definition task_worktree_snapshot :: "task_row \<Rightarrow> (string \<times> json) list option" where
  "task_worktree_snapshot row = (case dget (tr_metadata row) ''worktree'' of JDict w \<Rightarrow> Some w | _ \<Rightarrow> None)"

definition resolve_task_cwd :: "task_row \<Rightarrow> string \<Rightarrow> string" where
  "resolve_task_cwd row main = (case task_worktree_snapshot row of
     None \<Rightarrow> main
   | Some w \<Rightarrow> py_str (py_or (py_or (dget w ''cwd'') (dget w ''path'')) (JStr main)))"

section \<open>dispatch_async\<close>

record dispatch_call =
  dc_task :: string
  dc_project :: string
  dc_lead :: string
  dc_key :: string
  dc_agent :: "string option"
  dc_goal :: "string option"
  dc_refs :: "string list"
  dc_mode :: "string option"
  dc_user :: string

text \<open>The resolver's answer for an agent, a directory and a brief.\<close>

datatype member_resolution =
    MemberFailure string
  | ResolvedMember string string string "string option"  \<comment> \<open>session, brief, agent name, gap\<close>

datatype dispatch_reply =
    DispatchNoTask string
  | DispatchRaised plan_exn
  | DispatchRefused dispatch_failure
  | DispatchNoProject string
  | DispatchUnresolved string
  | DispatchNoCredentials string string
  | DispatchNoSession string
  | Dispatched string string

definition member_brief :: "string \<Rightarrow> string list \<Rightarrow> string \<Rightarrow> string" where
  "member_brief goal refs criteria = lead_brief goal refs
     @ (if criteria = [] then [] else [newline, newline]
        @ ''## Acceptance criteria (you will be reviewed on this)'' @ [newline, newline] @ criteria)"

definition member_run :: "dispatch_call \<Rightarrow> string \<Rightarrow> string \<Rightarrow> string \<Rightarrow> int \<Rightarrow> string \<Rightarrow> string \<Rightarrow> run_row" where
  "member_run c session agent goal seq mode cwd =
     \<lparr>rr_user = [], rr_project = dc_project c, rr_task = Some (dc_task c), rr_session = session,
      rr_agent = agent, rr_sequence = seq, rr_kind = SubtaskRun, rr_subtask_key = Some (dc_key c),
      rr_status = RActive, rr_label = None, rr_goal = Some goal, rr_dispatched_by = Some (dc_lead c),
      rr_project_mode = mode, rr_run_dir = Some cwd, rr_manifest = None, rr_ended_at = None\<rparr>"

text \<open>The member is recorded and announced; then the node is marked, as well as that goes.\<close>

definition start_member :: "dispatch_call \<Rightarrow> run_row \<Rightarrow> string \<Rightarrow> string \<Rightarrow> (store \<Rightarrow> store) list \<Rightarrow> store
    \<Rightarrow> dispatch_reply \<times> store" where
  "start_member c run agent_name brief env d =
     (let d1 = append_event (dc_user c) (dc_project c) (dc_task c) ''subtask_spawned'' (rr_agent run)
                 (Some (rr_session run))
                 (PDict [(''agent'', JStr (rr_agent run)), (''agent_name'', JStr agent_name),
                         (''goal'', opt_json (rr_goal run)), (''run_dir'', opt_json (rr_run_dir run)),
                         (''subtask_key'', JStr (dc_key c))])
                 (create_run (dc_user c) run d)
      in (case mark_node_dispatched (dc_project c) (dc_task c) (dc_key c) (rr_agent run) (rr_session run)
                 (dc_user c) env d1 of
            (Inl e, d2) \<Rightarrow> (DispatchRaised e, d2)
          | (Inr _, d2) \<Rightarrow> (Dispatched (rr_session run) (rr_agent run), spawn_actor (rr_session run) brief d2)))"

text \<open>
  \<open>main\<close> is the project's directory, if the project exists; \<open>startup\<close> the exception of creating
  the kernel session, if it raises; \<open>between\<close> what others commit after the reads, and
  \<open>env\<close> what they commit while the node is marked.
\<close>

definition dispatch_async :: "string option \<Rightarrow> (string \<Rightarrow> string \<Rightarrow> string \<Rightarrow> member_resolution)
    \<Rightarrow> string option \<Rightarrow> dispatch_call \<Rightarrow> (store \<Rightarrow> store) \<Rightarrow> (store \<Rightarrow> store) list \<Rightarrow> store
    \<Rightarrow> dispatch_reply \<times> store" where
  "dispatch_async main resolve startup c between env d =
     (case get_task_by_project (dc_user c) (dc_project c) (dc_task c) d of
        None \<Rightarrow> (DispatchNoTask (dc_task c), d)
      | Some row \<Rightarrow>
      (case plan_from_dict (tr_plan row) of
        Inl e \<Rightarrow> (DispatchRaised e, d)
      | Inr p \<Rightarrow>
      (case resolve_dispatch_node p (dc_key c) (dc_agent c) (dc_goal c) of
        Inl f \<Rightarrow> (DispatchRefused f, d)
      | Inr (agent, goal) \<Rightarrow>
      (case main of
        None \<Rightarrow> (DispatchNoProject (dc_project c), d)
      | Some main_cwd \<Rightarrow>
        (let criteria = (case get_node p (dc_key c) of None \<Rightarrow> [] | Some n \<Rightarrow> st_review_criteria n);
             seq = next_run_sequence (dc_task c) d;
             shared = task_worktree_snapshot row \<noteq> None \<or> blank (dc_mode c);
             mode = (if shared then ''shared'' else the (dc_mode c));
             cwd = resolve_task_cwd row main_cwd
         in (case resolve agent cwd (member_brief goal (dc_refs c) criteria) of
              MemberFailure reason \<Rightarrow> (DispatchUnresolved reason, d)
            | ResolvedMember session brief agent_name gap \<Rightarrow>
                (case gap of
                   Some reason \<Rightarrow> (DispatchNoCredentials reason agent,
                     record_subtask_failed (dc_user c) (dc_project c) (dc_task c) None agent agent_name
                       (Some (dc_key c)) reason ''dispatch_failed'' JNull (between d))
                 | None \<Rightarrow>
                     (case startup of
                        Some exc \<Rightarrow> (DispatchNoSession exc, between d)
                      | None \<Rightarrow> start_member c (member_run c session agent goal seq mode cwd) agent_name brief
                          env (between d)))))))))"

end
