(* ===== verification/DispatchFacts.thy ===== *)
theory DispatchFacts
  imports Dispatch
begin

text \<open>
  What a dispatch leaves behind: the member that runs, the node that is taken; and, when it
  is refused, nothing.
\<close>

lemma stamped_wf:
  assumes "\<forall>n \<in> set p. wf_node n" "get_node p key = Some n" "a \<noteq> []" "se \<noteq> []"
  shows "\<forall>x \<in> set (replace_first key (stamped a se n) p). wf_node x"
proof -
  have "wf_node n" using assms(1,2) by (auto simp: get_node_def dest: find_SomeD)
  then have "wf_node (stamped a se n)" using assms(3,4) by (simp add: stamped_def wf_node_def)
  moreover have "set (replace_first key m p) \<subseteq> insert m (set p)" for m by (induction p) auto
  ultimately show ?thesis using assms(1) by blast
qed

lemma get_task_by_project_eq:
  assumes "get_task u t d = Some row" "tr_project row = p" "tasks d' = tasks d" "plan_cell u t d"
  shows "get_task_by_project u p t d' = Some row"
proof -
  have "List.find (\<lambda>x. tr_project x = p \<and> tr_id x = t \<and> tr_user x = u) (tasks d) = get_task u t d"
    unfolding get_task_def
  proof (rule find_cong_on)
    fix x assume x: "x \<in> set (tasks d)"
    have "x = row" if "tr_id x = t" "tr_user x = u"
      using get_task_eq_Some [of d x t u] that x assms(1,4) by (auto simp: plan_cell_def)
    with assms(2) show "(tr_project x = p \<and> tr_id x = t \<and> tr_user x = u) = (tr_id x = t \<and> tr_user x = u)" by auto
  qed
  with assms(1,3) show ?thesis by (simp add: get_task_by_project_def)
qed

text \<open>An uncontended compare-and-swap on the row just read lands.\<close>

lemma cas_uncontended:
  assumes "plan_cell u (tr_id row) d" "get_task u (tr_id row) d = Some row"
  shows "\<exists>r d'. cas_update_plan u row doc (tr_plan_version row) d = (Some (True, r), d')
    \<and> r = row\<lparr>tr_plan := doc, tr_plan_version := tr_plan_version row + 1, tr_updated_at := clock d\<rparr>
    \<and> get_task u (tr_id row) d' = Some r \<and> plan_cell u (tr_id row) d'
    \<and> runs d' = runs d \<and> spawned d' = spawned d"
proof -
  obtain res d' where c: "cas_update_plan u row doc (tr_plan_version row) d = (res, d')" by fastforce
  have frame: "runs d' = runs d" "spawned d' = spawned d" using c by (auto simp: cas_update_plan_def Let_def)
  have row: "row \<in> set (tasks d)" "tr_user row = u" using get_task_SomeD [OF assms(2)] by auto
  have "res \<noteq> None"
  proof
    assume "res = None"
    with c have "\<forall>x \<in> set (tasks d'). tr_id x \<noteq> tr_id row"
      by (auto simp: cas_update_plan_def Let_def find_None_iff)
    moreover have "map tr_id (tasks d') = map tr_id (tasks d)"
      using c unfolding cas_update_plan_def Let_def by (auto intro!: map_update_where_frame)
    ultimately show False using row(1) by (metis imageE imageI set_map)
  qed
  then obtain w r where res: "res = Some (w, r)" by fastforce
  note hit = cas_update_plan_hit [OF c [unfolded res] assms(1)]
  have "w"
  proof (rule ccontr)
    assume "\<not> w"
    with hit have "d' = d" "tr_plan_version r \<noteq> tr_plan_version row" "get_task u (tr_id row) d' = Some r" by auto
    with assms(2) show False by simp
  qed
  with hit obtain r0 where "get_task u (tr_id row) d = Some r0"
    "r = r0\<lparr>tr_plan := doc, tr_plan_version := tr_plan_version row + 1, tr_updated_at := clock d\<rparr>" by blast
  moreover from this(1) assms(2) have "r0 = row" by simp
  ultimately have "r = row\<lparr>tr_plan := doc, tr_plan_version := tr_plan_version row + 1, tr_updated_at := clock d\<rparr>"
    by simp
  moreover from \<open>w\<close> c res have "cas_update_plan u row doc (tr_plan_version row) d = (Some (True, r), d')" by simp
  ultimately show ?thesis using hit frame by blast
qed

lemma mark_uncontended:
  assumes "plan_cell u t d" "get_task_by_project u p t d = Some row" "plan_from_dict (tr_plan row) = Inr q"
    and "resolve_dispatch_node q key ao go = Inr (a, g)" "se \<noteq> []"
  shows "\<exists>row' q' n d'. mark_node_dispatched p t key a se u [] d = (Inr (), d')
    \<and> get_task_by_project u p t d' = Some row' \<and> plan_from_dict (tr_plan row') = Inr q'
    \<and> get_node q key = Some n \<and> get_node q' key = Some (stamped a se n) \<and> plan_cell u t d'
    \<and> runs d' = runs d \<and> spawned d' = spawned d"
proof -
  note row = get_task_by_project_get [OF assms(2,1)]
  from dispatch_stamps [OF plan_from_dict_valid [OF assms(3)] assms(4,5)] obtain n where n:
    "get_node q key = Some n" "a \<noteq> []" "dispatch_mutation key a se q = Inr (Some (replace_first key (stamped a se n) q))"
    "valid_plan (replace_first key (stamped a se n) q)"
    "get_node (replace_first key (stamped a se n) q) key = Some (stamped a se n)" by blast
  let ?q = "replace_first key (stamped a se n) q"
  have wf: "\<forall>x \<in> set ?q. wf_node x"
    using plan_from_dict_wf [OF assms(3)] n(1,2) assms(5) by (rule stamped_wf)
  obtain r d1 where c: "cas_update_plan u row (plan_to_dict ?q) (tr_plan_version row) d = (Some (True, r), d1)"
    and r: "r = row\<lparr>tr_plan := plan_to_dict ?q, tr_plan_version := tr_plan_version row + 1, tr_updated_at := clock d\<rparr>"
    and d1: "get_task u t d1 = Some r" "plan_cell u t d1" "runs d1 = runs d" "spawned d1 = spawned d"
    using cas_uncontended [of u row d "plan_to_dict ?q"] row assms(1) by auto
  have retries: "persist_plan = persist_rounds (Suc 4)" by (simp add: persist_plan_def plan_cas_retries_def)
  let ?d = "emit_plan_update r ?q a (Some se) u (Some (tr_plan_version row + 1)) False d1"
  have "persist_plan [] (dispatch_mutation key a se) a (Some se) u row d = (Persisted ?q, r, ?d)"
    unfolding retries persist_rounds.simps using assms(3) n(3) c by (simp add: rbind_def)
  then have "mark_node_dispatched p t key a se u [] d = (Inr (), ?d)"
    using assms(2) by (simp add: mark_node_dispatched_def persist_plan_best_effort_def)
  moreover have fr: "tasks ?d = tasks d1" "runs ?d = runs d1" "spawned ?d = spawned d1"
    by (simp_all add: emit_plan_update_def)
  moreover have "get_task_by_project u p t ?d = Some r"
    using get_task_by_project_eq [OF d1(1) _ fr(1) d1(2)] row r by simp
  ultimately show ?thesis
    using d1 r plan_roundtrip_wf [OF n(4) wf] n(1,5) by (auto simp: plan_cell_def task_ids_unique_def)
qed

section \<open>A dispatch that starts a member\<close>

lemma dispatch_async_Dispatched:
  assumes "dispatch_async main resolve startup c between env d = (Dispatched se a, d')"
  shows "\<exists>row q goal seq mode cwd brief agent_name.
    get_task_by_project (dc_user c) (dc_project c) (dc_task c) d = Some row \<and> plan_from_dict (tr_plan row) = Inr q
    \<and> resolve_dispatch_node q (dc_key c) (dc_agent c) (dc_goal c) = Inr (a, goal)
    \<and> start_member c (member_run c se a goal seq mode cwd) agent_name brief env (between d) = (Dispatched se a, d')"
proof -
  have start: "s = se \<and> ag = a" if "start_member c (member_run c s ag g n m w) an b env e = (Dispatched se a, d')" for s ag g n m w an b e
    using that by (auto simp: start_member_def member_run_def Let_def split: sum.splits prod.splits)
  show ?thesis
    using assms unfolding dispatch_async_def Let_def
    by (auto split: option.splits sum.splits prod.splits member_resolution.splits dest: start) (metis start)+
qed

text \<open>A dispatch that starts a member records one active run and one actor for it, and takes
  the node: whatever agent, goal or references a second dispatch of the key names, and whatever the resolver would answer, it
  is refused before it does anything.\<close>
theorem dispatched_node_is_taken:
  assumes "dispatch_async main resolve startup c (\<lambda>s. s) [] d = (Dispatched se a, d1)"
    and "plan_cell (dc_user c) (dc_task c) d" "se \<noteq> []"
    and "dc_task c' = dc_task c" "dc_project c' = dc_project c" "dc_user c' = dc_user c" "dc_key c' = dc_key c"
  shows "\<exists>brief run. spawned d1 = spawned d @ [(se, brief)] \<and> runs d1 = runs d @ [run]
    \<and> rr_session run = se \<and> rr_status run = RActive \<and> rr_task run = Some (dc_task c)
    \<and> rr_subtask_key run = Some (dc_key c) \<and> rr_dispatched_by run = Some (dc_lead c)
    \<and> dispatch_async main' resolve' startup' c' between env d1
       = (DispatchRefused (NotDispatchable (dc_key c) InProgress), d1)"
proof -
  from dispatch_async_Dispatched [OF assms(1)] obtain row q goal seq mode cwd brief agent_name where
    row: "get_task_by_project (dc_user c) (dc_project c) (dc_task c) d = Some row" "plan_from_dict (tr_plan row) = Inr q"
      "resolve_dispatch_node q (dc_key c) (dc_agent c) (dc_goal c) = Inr (a, goal)"
    and start: "start_member c (member_run c se a goal seq mode cwd) agent_name brief [] d = (Dispatched se a, d1)"
    by blast
  let ?run = "member_run c se a goal seq mode cwd"
  define e where "e = append_event (dc_user c) (dc_project c) (dc_task c) ''subtask_spawned'' a (Some se)
    (PDict [(''agent'', JStr a), (''agent_name'', JStr agent_name), (''goal'', opt_json (Some goal)),
       (''run_dir'', opt_json (Some cwd)), (''subtask_key'', JStr (dc_key c))]) (create_run (dc_user c) ?run d)"
  have e: "tasks e = tasks d" "runs e = runs d @ [?run\<lparr>rr_user := dc_user c\<rparr>]" "spawned e = spawned d"
    by (simp_all add: e_def create_run_def)
  have "plan_cell (dc_user c) (dc_task c) e" "get_task_by_project (dc_user c) (dc_project c) (dc_task c) e = Some row"
    using assms(2) row(1) e(1) by (simp_all add: plan_cell_def task_ids_unique_def get_task_by_project_def)
  from mark_uncontended [OF this row(2,3) assms(3)] obtain row' q' n e' where
    mark: "mark_node_dispatched (dc_project c) (dc_task c) (dc_key c) a se (dc_user c) [] e = (Inr (), e')"
    and row': "get_task_by_project (dc_user c) (dc_project c) (dc_task c) e' = Some row'"
      "plan_from_dict (tr_plan row') = Inr q'" "get_node q' (dc_key c) = Some (stamped a se n)"
    and e': "runs e' = runs e" "spawned e' = spawned e" by blast
  have d1: "d1 = spawn_actor se brief e'"
    using start mark by (simp add: start_member_def member_run_def e_def Let_def)
  have "get_task_by_project (dc_user c) (dc_project c) (dc_task c) d1 = Some row'"
    using row'(1) by (simp add: d1 get_task_by_project_def)
  moreover have "st_status (stamped a se n) = InProgress" "\<not> dispatchable InProgress"
    by (simp_all add: stamped_def dispatchable_def)
  ultimately have "dispatch_async main' resolve' startup' c' between env d1
      = (DispatchRefused (NotDispatchable (dc_key c) InProgress), d1)"
    using taken_node_refused(1) [OF row'(3)] row'(2) assms(4-7) by (simp add: dispatch_async_def)
  with e e' show ?thesis by (simp add: d1 member_run_def)
qed

section \<open>A dispatch that starts none\<close>

text \<open>Every refusal leaves the store to the others; a member without credentials is reported.\<close>

lemma dispatch_refusal_starts_nothing:
  assumes "dispatch_async main resolve startup c between env d = (reply, d')"
  shows "case reply of
      DispatchNoSession exc \<Rightarrow> startup = Some exc \<and> d' = between d
    | DispatchNoCredentials reason agent \<Rightarrow> \<exists>agent_name. d' = record_subtask_failed (dc_user c) (dc_project c)
        (dc_task c) None agent agent_name (Some (dc_key c)) reason ''dispatch_failed'' JNull (between d)
    | Dispatched se a \<Rightarrow> True
    | DispatchRaised e \<Rightarrow> d' = d \<or> (\<exists>row q f. get_task_by_project (dc_user c) (dc_project c) (dc_task c) d = Some row
        \<and> plan_from_dict (tr_plan row) = Inr q \<and> resolve_dispatch_node q (dc_key c) (dc_agent c) (dc_goal c) = Inr f)
    | _ \<Rightarrow> d' = d"
  using assms unfolding dispatch_async_def Let_def
  by (auto simp: start_member_def member_run_def Let_def split: option.splits sum.splits prod.splits member_resolution.splits)

end
