(* ===== verification/Purge.thy ===== *)
theory Purge
  imports DispatchFacts
begin

text \<open>
  \<^verbatim>\<open>backend/valuz_agent/modules/tasks/purge.py\<close>: removing tasks with what is indexed under
  them, and dropping the index entry of one session.  Giving back the worktrees is outside
  the store.  Every delete commits itself, so a purge that is cut short is a prefix of its
  deletes.
\<close>

definition list_ids_by_project :: "string \<Rightarrow> string \<Rightarrow> store \<Rightarrow> string list" where
  "list_ids_by_project user project d =
     map tr_id (filter (\<lambda>t. tr_user t = user \<and> tr_project t = project) (tasks d))"

text \<open>The deletes, children first; what others commit before each of them is an argument.\<close>

definition purge_tasks :: "string \<Rightarrow> string list \<Rightarrow> (store \<Rightarrow> store) \<Rightarrow> (store \<Rightarrow> store) \<Rightarrow> (store \<Rightarrow> store)
    \<Rightarrow> store \<Rightarrow> nat \<times> store" where
  "purge_tasks user ids before between between' d =
     (if ids = [] then (0, d)
      else (let d1 = snd (delete_events_for_tasks user ids (before d));
                d2 = snd (delete_runs_for_tasks user ids (between d1))
            in delete_tasks user ids (between' d2)))"

definition purge_project_tasks :: "string \<Rightarrow> string \<Rightarrow> (store \<Rightarrow> store) \<Rightarrow> (store \<Rightarrow> store) \<Rightarrow> (store \<Rightarrow> store)
    \<Rightarrow> store \<Rightarrow> nat \<times> store" where
  "purge_project_tasks user project before between between' d =
     purge_tasks user (list_ids_by_project user project d) before between between' d"

datatype forget_reply = Forgotten | NotIndexed | LeadSessionInUse

definition forget_session :: "string \<Rightarrow> string \<Rightarrow> (store \<Rightarrow> store) \<Rightarrow> store \<Rightarrow> forget_reply \<times> store" where
  "forget_session user session between d =
     (case get_run session d of
        None \<Rightarrow> (NotIndexed, d)
      | Some r \<Rightarrow>
          if rr_user r \<noteq> user then (NotIndexed, d)
          else if rr_kind r = LeadRun
            \<and> (case get_task user (text_or (rr_task r)) d of
                 None \<Rightarrow> False | Some t \<Rightarrow> tr_status t \<notin> task_status_name ` set terminal_statuses)
          then (LeadSessionInUse, d)
          else (Forgotten, snd (delete_run user session (between d))))"

section \<open>Who deletes tasks\<close>

text \<open>\<^verbatim>\<open>DELETE /v1/tasks/{task_id}\<close> of \<^verbatim>\<open>api/routes/tasks.py\<close>: a running task is not deleted.\<close>

datatype delete_reply = DeleteNotFound | DeleteActive | Deleted

definition delete_task :: "string \<Rightarrow> string \<Rightarrow> (store \<Rightarrow> store) \<Rightarrow> (store \<Rightarrow> store) \<Rightarrow> (store \<Rightarrow> store)
    \<Rightarrow> store \<Rightarrow> delete_reply \<times> store" where
  "delete_task user tid before between between' d =
     (case get_task user tid d of
        None \<Rightarrow> (DeleteNotFound, d)
      | Some t \<Rightarrow> if tr_status t = ''active'' then (DeleteActive, d)
          else (Deleted, snd (purge_tasks user [tid] before between between' d)))"

text \<open>
  \<^verbatim>\<open>boot/steps.py\<close>: the sweep of the tasks whose project is gone, before recovery looks at the
  active ones.  \<open>live\<close> are the ids of the projects.
\<close>

definition orphan_groups :: "string list \<Rightarrow> task_row list \<Rightarrow> (string \<times> string list) list" where
  "orphan_groups live ts = fold (\<lambda>t groups.
     if tr_project t \<in> set live then groups
     else AList.update (tr_user t)
       ((case map_of groups (tr_user t) of None \<Rightarrow> [] | Some ids \<Rightarrow> ids) @ [tr_id t]) groups) ts []"

definition purge_tasks_of_deleted_projects :: "string list \<Rightarrow> store \<Rightarrow> store" where
  "purge_tasks_of_deleted_projects live d =
     fold (\<lambda>(user, ids) d. snd (purge_tasks user ids (\<lambda>s. s) (\<lambda>s. s) (\<lambda>s. s) d)) (orphan_groups live (tasks d)) d"

section \<open>What is left\<close>

definition owned_by :: "string \<Rightarrow> string list \<Rightarrow> task_row \<Rightarrow> bool" where
  "owned_by user ids t = (tr_user t = user \<and> tr_id t \<in> set ids)"

definition run_of_any :: "string \<Rightarrow> string list \<Rightarrow> run_row \<Rightarrow> bool" where
  "run_of_any user ids r = (rr_user r = user \<and> (\<exists>t \<in> set ids. rr_task r = Some t))"

definition event_of_any :: "string \<Rightarrow> string list \<Rightarrow> event_row \<Rightarrow> bool" where
  "event_of_any user ids e = (ev_user e = user \<and> ev_task e \<in> set ids)"

lemma purge_deletes:
  "snd (delete_events_for_tasks user ids d) = d\<lparr>events := filter (\<lambda>e. \<not> event_of_any user ids e) (events d)\<rparr>"
  "snd (delete_runs_for_tasks user ids d) = d\<lparr>runs := filter (\<lambda>r. \<not> run_of_any user ids r) (runs d)\<rparr>"
  "snd (delete_tasks user ids d) = d\<lparr>tasks := filter (\<lambda>t. \<not> owned_by user ids t) (tasks d)\<rparr>"
  by (simp_all add: delete_events_for_tasks_def delete_runs_for_tasks_def delete_tasks_def event_of_any_def
    run_of_any_def owned_by_def Let_def)

lemma purge_alone:
  "snd (purge_tasks user ids (\<lambda>s. s) (\<lambda>s. s) (\<lambda>s. s) d) =
     d\<lparr>events := filter (\<lambda>e. \<not> event_of_any user ids e) (events d),
       runs := filter (\<lambda>r. \<not> run_of_any user ids r) (runs d),
       tasks := filter (\<lambda>t. \<not> owned_by user ids t) (tasks d)\<rparr>"
  by (simp add: purge_tasks_def Let_def purge_deletes) (simp add: event_of_any_def run_of_any_def owned_by_def)

text \<open>Whatever others commit meanwhile, the headers are gone in the end.\<close>

lemma purge_removes_headers:
  "ids \<noteq> [] \<Longrightarrow> \<forall>t \<in> set (tasks (snd (purge_tasks user ids before between between' d))). \<not> owned_by user ids t"
  by (simp add: purge_tasks_def Let_def purge_deletes)

text \<open>The messages of a purged task stay in its mailboxes.\<close>

lemma purge_keeps_mail:
  "mailbox (snd (purge_tasks user ids (\<lambda>s. s) (\<lambda>s. s) (\<lambda>s. s) d)) = mailbox d"
  by (simp add: purge_alone)

section \<open>The sweep at boot\<close>

definition named_in :: "(string \<times> string list) list \<Rightarrow> string \<Rightarrow> string \<Rightarrow> bool" where
  "named_in groups user tid = list_ex (\<lambda>(u, ids). u = user \<and> tid \<in> set ids) groups"

lemma named_in_update:
  assumes "distinct (map fst groups)"
  shows "named_in (AList.update u ((case map_of groups u of None \<Rightarrow> [] | Some ids \<Rightarrow> ids) @ [i]) groups) user tid
    \<longleftrightarrow> named_in groups user tid \<or> (u = user \<and> i = tid)"
proof -
  have one: "named_in g user tid \<longleftrightarrow> (\<exists>ids. map_of g user = Some ids \<and> tid \<in> set ids)"
    if "distinct (map fst g)" for g
    unfolding named_in_def list_ex_iff using that by (force simp: map_of_eq_Some_iff)
  have "distinct (map fst (AList.update u v groups))" for v using assms by (rule distinct_update)
  from one [OF this] one [OF assms] show ?thesis
    by (auto simp: update_conv' split: option.splits)
qed

lemma orphan_groups_named:
  "distinct (map fst (orphan_groups live ts))
   \<and> (named_in (orphan_groups live ts) user tid
      \<longleftrightarrow> (\<exists>t \<in> set ts. tr_project t \<notin> set live \<and> tr_user t = user \<and> tr_id t = tid))"
proof (induction ts rule: rev_induct)
  case Nil
  then show ?case by (simp add: orphan_groups_def named_in_def)
next
  case (snoc t ts)
  let ?g = "orphan_groups live ts"
  have step: "orphan_groups live (ts @ [t]) = (if tr_project t \<in> set live then ?g
     else AList.update (tr_user t)
       ((case map_of ?g (tr_user t) of None \<Rightarrow> [] | Some ids \<Rightarrow> ids) @ [tr_id t]) ?g)"
    by (simp add: orphan_groups_def)
  show ?case
  proof (cases "tr_project t \<in> set live")
    case True
    with snoc show ?thesis by (simp add: step)
  next
    case False
    with snoc named_in_update [of ?g "tr_user t" "tr_id t" user tid] show ?thesis
      by (auto simp: step distinct_update)
  qed
qed

lemma sweep_filters:
  "fold (\<lambda>(user, ids) d. snd (purge_tasks user ids (\<lambda>s. s) (\<lambda>s. s) (\<lambda>s. s) d)) groups d =
     d\<lparr>events := filter (\<lambda>e. \<not> named_in groups (ev_user e) (ev_task e)) (events d),
       runs := filter (\<lambda>r. case rr_task r of None \<Rightarrow> True | Some t \<Rightarrow> \<not> named_in groups (rr_user r) t) (runs d),
       tasks := filter (\<lambda>t. \<not> named_in groups (tr_user t) (tr_id t)) (tasks d)\<rparr>"
proof (induction groups arbitrary: d)
  case Nil
  have n: "\<not> named_in [] user tid" for user tid by (simp add: named_in_def)
  have "filter (\<lambda>r. case rr_task r of None \<Rightarrow> True | Some t \<Rightarrow> \<not> named_in [] (rr_user r) t) rs = rs" for rs :: "run_row list"
    by (simp add: filter_id_conv n split: option.split)
  with n show ?case by simp
next
  case (Cons g groups)
  obtain u ids where g: "g = (u, ids)" by fastforce
  have t: "named_in (g # groups) user tid \<longleftrightarrow> (u = user \<and> tid \<in> set ids) \<or> named_in groups user tid" for user tid
    by (simp add: named_in_def g)
  have r: "(case rr_task r of None \<Rightarrow> True | Some t \<Rightarrow> \<not> named_in (g # groups) (rr_user r) t) \<longleftrightarrow>
      \<not> run_of_any u ids r \<and> (case rr_task r of None \<Rightarrow> True | Some t \<Rightarrow> \<not> named_in groups (rr_user r) t)" for r
    unfolding t by (auto simp: run_of_any_def split: option.split)
  have e: "\<not> named_in (g # groups) (ev_user e) (ev_task e) \<longleftrightarrow>
      \<not> event_of_any u ids e \<and> \<not> named_in groups (ev_user e) (ev_task e)" for e
    unfolding t by (auto simp: event_of_any_def)
  have k: "\<not> named_in (g # groups) (tr_user x) (tr_id x) \<longleftrightarrow>
      \<not> owned_by u ids x \<and> \<not> named_in groups (tr_user x) (tr_id x)" for x
    unfolding t by (auto simp: owned_by_def)
  show ?case
    unfolding g fold_simps prod.case Cons.IH
    unfolding purge_alone r [unfolded g] e [unfolded g] k [unfolded g]
    by (simp add: conj_commute)
qed

text \<open>The task's project is gone.\<close>

definition of_dead_project :: "string list \<Rightarrow> store \<Rightarrow> string \<Rightarrow> string \<Rightarrow> bool" where
  "of_dead_project live d user tid =
     list_ex (\<lambda>t. tr_project t \<notin> set live \<and> tr_user t = user \<and> tr_id t = tid) (tasks d)"

text \<open>The boot sweep removes exactly the tasks of deleted projects, with their runs and
  events, and leaves every other row; so recovery, which looks at the active tasks next, finds
  none whose project is gone.\<close>
theorem boot_sweep_clears_dead_projects:
  assumes "task_ids_unique d" "d' = purge_tasks_of_deleted_projects live d"
  shows "tasks d' = filter (\<lambda>t. tr_project t \<in> set live) (tasks d)
    \<and> events d' = filter (\<lambda>e. \<not> of_dead_project live d (ev_user e) (ev_task e)) (events d)
    \<and> runs d' = filter (\<lambda>r. case rr_task r of None \<Rightarrow> True
         | Some t \<Rightarrow> \<not> of_dead_project live d (rr_user r) t) (runs d)
    \<and> list_all (\<lambda>t. tr_project t \<in> set live) (list_active d')"
proof -
  have named: "named_in (orphan_groups live (tasks d)) = of_dead_project live d"
    using orphan_groups_named by (auto simp: of_dead_project_def list_ex_iff fun_eq_iff)
  have d': "d' = d\<lparr>events := filter (\<lambda>e. \<not> of_dead_project live d (ev_user e) (ev_task e)) (events d),
       runs := filter (\<lambda>r. case rr_task r of None \<Rightarrow> True | Some t \<Rightarrow> \<not> of_dead_project live d (rr_user r) t) (runs d),
       tasks := filter (\<lambda>t. \<not> of_dead_project live d (tr_user t) (tr_id t)) (tasks d)\<rparr>"
    unfolding assms(2) purge_tasks_of_deleted_projects_def sweep_filters named by (rule refl)
  have dead: "\<not> of_dead_project live d (tr_user t) (tr_id t) \<longleftrightarrow> tr_project t \<in> set live" if "t \<in> set (tasks d)" for t
  proof -
    have "x = t" if "x \<in> set (tasks d)" "tr_id x = tr_id t" for x
      using task_ids_uniqueD [OF assms(1)] that \<open>t \<in> set (tasks d)\<close> by blast
    with that show ?thesis by (auto simp: of_dead_project_def list_ex_iff)
  qed
  have "tasks d' = filter (\<lambda>t. tr_project t \<in> set live) (tasks d)"
    unfolding d' using dead by (simp cong: filter_cong)
  moreover from this have "list_all (\<lambda>t. tr_project t \<in> set live) (list_active d')"
    by (simp add: list_active_def list_all_iff)
  ultimately show ?thesis by (simp add: d')
qed

section \<open>The lead's session\<close>

text \<open>A session is not dropped while it leads a task that is not over.\<close>

lemma forget_keeps_live_lead:
  assumes "forget_session user session between d = (Forgotten, d')"
  shows "\<exists>r. get_run session d = Some r \<and> rr_user r = user \<and> (rr_kind r = LeadRun \<longrightarrow>
    (case get_task user (text_or (rr_task r)) d of None \<Rightarrow> True
       | Some t \<Rightarrow> tr_status t \<in> {''completed'', ''abandoned''}))
    \<and> d' = snd (delete_run user session (between d))"
  using assms
  by (auto simp: forget_session_def terminal_statuses_def split: option.splits if_splits)

end
