(* ===== verification/DispatchWitnesses.thy ===== *)
theory DispatchWitnesses
  imports Purge TaskWitnesses
begin

text \<open>
  Concrete inputs for dispatching and purging, over the sample task; and two leads that
  dispatch the same node at once.
\<close>

definition call_a :: dispatch_call where
  "call_a = \<lparr>dc_task = ''t'', dc_project = ''p'', dc_lead = ''L'', dc_key = ''a'', dc_agent = None, dc_goal = None,
     dc_refs = [''r''], dc_mode = None, dc_user = ''u''\<rparr>"

definition found :: "string \<Rightarrow> string \<Rightarrow> string \<Rightarrow> string \<Rightarrow> member_resolution" where
  "found session agent cwd brief = ResolvedMember session brief ''Dev'' None"

definition dispatch_as :: "string \<Rightarrow> (store \<Rightarrow> store) \<Rightarrow> store \<Rightarrow> dispatch_reply \<times> store" where
  "dispatch_as session between d = dispatch_async (Some ''cwd'') (found session) None call_a between [] d"

theorem dispatched_node_is_taken_witness:
  "fst (dispatch_as ''N'' (\<lambda>s. s) (snd (dispatch_as ''M'' (\<lambda>s. s) sample_store)))
     = DispatchRefused (NotDispatchable ''a'' InProgress)"
proof -
  obtain r d1 where d: "dispatch_as ''M'' (\<lambda>s. s) sample_store = (r, d1)" by fastforce
  have "fst (dispatch_as ''M'' (\<lambda>s. s) sample_store) = Dispatched ''M'' ''dev''" by code_simp
  with d have "dispatch_async (Some ''cwd'') (found ''M'') None call_a (\<lambda>s. s) [] sample_store
      = (Dispatched ''M'' ''dev'', d1)" by (simp add: dispatch_as_def)
  moreover have "plan_cell (dc_user call_a) (dc_task call_a) sample_store" "dc_key call_a = ''a''"
    by (simp_all add: call_a_def)
  ultimately have "dispatch_async (Some ''cwd'') (found ''N'') None call_a (\<lambda>s. s) [] d1
      = (DispatchRefused (NotDispatchable ''a'' InProgress), d1)"
    using dispatched_node_is_taken [of "Some ''cwd''" "found ''M''" None call_a sample_store "''M''" "''dev''" d1 call_a
      "Some ''cwd''" "found ''N''" None "\<lambda>s. s" "[]"] by auto
  with d show ?thesis by (simp add: dispatch_as_def)
qed

text \<open>
  The node is marked only after the member is recorded: a dispatch of the same node that runs
  in between passes the gate as well, and two members work on one node.
\<close>

lemma two_dispatches_of_one_node:
  "let d = snd (dispatch_as ''M'' (\<lambda>s. snd (dispatch_as ''N'' (\<lambda>s. s) s)) sample_store) in
   fst (dispatch_as ''M'' (\<lambda>s. snd (dispatch_as ''N'' (\<lambda>s. s) s)) sample_store) = Dispatched ''M'' ''dev''
   \<and> map fst (spawned d) = [''N'', ''M'']
   \<and> map rr_session (filter (is_active_member ''t'') (runs d)) = [''N'', ''M'']"
  by code_simp

theorem boot_sweep_clears_dead_projects_witness:
  "tasks (purge_tasks_of_deleted_projects [''q''] (review_store\<lparr>tasks := tasks review_store
      @ [(task_with ''active'' [])\<lparr>tr_id := ''t2'', tr_project := ''q''\<rparr>]\<rparr>))
   = [(task_with ''active'' [])\<lparr>tr_id := ''t2'', tr_project := ''q''\<rparr>]"
proof -
  let ?d = "review_store\<lparr>tasks := tasks review_store @ [(task_with ''active'' [])\<lparr>tr_id := ''t2'', tr_project := ''q''\<rparr>]\<rparr>"
  have "task_ids_unique ?d" by (simp add: task_ids_unique_def samples)
  from boot_sweep_clears_dead_projects [OF this refl, of "[''q'']"] show ?thesis by (simp add: samples)
qed

end
