(* ===== verification/Notifier.thy ===== *)
theory Notifier
  imports Prelude
begin

text \<open>
  \<^verbatim>\<open>backend/valuz_agent/modules/tasks/notifier.py\<close>: the in-process doorbell.  A wait is two
  steps, parking and returning; between them anything may happen.  Futures are numbered in
  the order they are made; a future that is done, or whose time is up, lets its wait return.
\<close>

section \<open>The doorbell\<close>

text \<open>The code keeps no empty set of waiters: a session without one has the empty list here.\<close>

record notifier =
  nf_waiters :: "string \<Rightarrow> nat list"
  nf_missed :: "string list"
  nf_done :: "nat list"
  nf_next :: nat

definition new_notifier :: notifier where
  "new_notifier = \<lparr>nf_waiters = (\<lambda>_. []), nf_missed = [], nf_done = [], nf_next = 0\<rparr>"

definition notify :: "string \<Rightarrow> notifier \<Rightarrow> notifier" where
  "notify s n = (let fs = nf_waiters n s; n1 = n\<lparr>nf_waiters := (nf_waiters n)(s := [])\<rparr> in
     if fs = [] then n1\<lparr>nf_missed := List.insert s (nf_missed n1)\<rparr>
     else n1\<lparr>nf_done := filter (\<lambda>f. f \<notin> set (nf_done n1)) fs @ nf_done n1\<rparr>)"

definition forget_bell :: "string \<Rightarrow> notifier \<Rightarrow> notifier" where
  "forget_bell s n = n\<lparr>nf_waiters := (nf_waiters n)(s := []), nf_missed := removeAll s (nf_missed n)\<rparr>"

text \<open>Parking: no future when a ring was missed.\<close>

definition park :: "string \<Rightarrow> notifier \<Rightarrow> nat option \<times> notifier" where
  "park s n = (if s \<in> set (nf_missed n) then (None, n\<lparr>nf_missed := removeAll s (nf_missed n)\<rparr>)
     else (Some (nf_next n),
       n\<lparr>nf_waiters := (nf_waiters n)(s := nf_waiters n s @ [nf_next n]), nf_next := nf_next n + 1\<rparr>))"

text \<open>Returning, for whatever reason: the \<open>finally\<close> block.\<close>

definition unpark :: "string \<Rightarrow> nat \<Rightarrow> notifier \<Rightarrow> notifier" where
  "unpark s f n = n\<lparr>nf_waiters := (nf_waiters n)(s := removeAll f (nf_waiters n s))\<rparr>"

section \<open>What may happen\<close>

datatype bell_op = Ring string | ForgetBell string | Park string | Unpark string nat

fun bell_step :: "bell_op \<Rightarrow> notifier \<Rightarrow> notifier" where
  "bell_step (Ring s) n = notify s n"
| "bell_step (ForgetBell s) n = forget_bell s n"
| "bell_step (Park s) n = snd (park s n)"
| "bell_step (Unpark s f) n = unpark s f n"

definition bell_run :: "bell_op list \<Rightarrow> notifier \<Rightarrow> notifier" where
  "bell_run ops n = fold bell_step ops n"

lemma bell_run_simps [simp]:
  "bell_run [] n = n" "bell_run (x # ops) n = bell_run ops (bell_step x n)"
  by (simp_all add: bell_run_def)

section \<open>No ring is lost\<close>

text \<open>No one else waits for the session or gives it up.\<close>

fun leaves :: "string \<Rightarrow> bell_op \<Rightarrow> bool" where
  "leaves s (Park s') = (s' \<noteq> s)"
| "leaves s (ForgetBell s') = (s' \<noteq> s)"
| "leaves s _ = True"

lemma missed_stays: "list_all (leaves s) ops \<Longrightarrow> s \<in> set (nf_missed n) \<Longrightarrow> s \<in> set (nf_missed (bell_run ops n))"
proof (induction ops arbitrary: n)
  case (Cons x ops)
  then show ?case by (cases x) (auto simp: notify_def forget_bell_def park_def unpark_def Let_def)
qed simp

lemma none_waits_stays: "list_all (leaves s) ops \<Longrightarrow> nf_waiters n s = [] \<Longrightarrow> nf_waiters (bell_run ops n) s = []"
proof (induction ops arbitrary: n)
  case (Cons x ops)
  then have "nf_waiters (bell_step x n) s = []"
    by (cases x) (auto simp: notify_def forget_bell_def park_def unpark_def Let_def)
  with Cons show ?case by simp
qed simp

lemma done_stays: "f \<in> set (nf_done n) \<Longrightarrow> f \<in> set (nf_done (bell_run ops n))"
proof (induction ops arbitrary: n)
  case (Cons x ops)
  then show ?case by (cases x) (auto simp: notify_def forget_bell_def park_def unpark_def Let_def)
qed simp

lemma ring_before_park:
  assumes "list_all (leaves s) ops" "nf_waiters n s = []" "Ring s \<in> set ops"
  shows "s \<in> set (nf_missed (bell_run ops n))"
  using assms
proof (induction ops arbitrary: n)
  case (Cons x ops)
  show ?case
  proof (cases "x = Ring s")
    case True
    with Cons.prems show ?thesis by (auto intro!: missed_stays simp: notify_def Let_def)
  next
    case False
    have "nf_waiters (bell_run [x] n) s = []" using Cons.prems by (intro none_waits_stays) auto
    with Cons False show ?thesis by simp
  qed
qed simp

lemma ring_while_parked:
  assumes "list_all (leaves s) ops" "f \<in> set (nf_waiters n s)" "Unpark s f \<notin> set ops" "Ring s \<in> set ops"
  shows "f \<in> set (nf_done (bell_run ops n))"
  using assms
proof (induction ops arbitrary: n)
  case (Cons x ops)
  show ?case
  proof (cases "x = Ring s")
    case True
    with Cons.prems show ?thesis by (auto intro!: done_stays simp: notify_def Let_def)
  next
    case False
    have "f \<in> set (nf_waiters (bell_step x n) s)"
      using Cons.prems False by (cases x) (auto simp: notify_def forget_bell_def park_def unpark_def Let_def)
    with Cons False show ?thesis by simp
  qed
qed simp

text \<open>A ring is not lost.  A loop looks at its mailbox, parks and returns; if its session is
  rung at any moment after the look, before or after it parked, then parking returns at once or
  the future it waits for is done.  Whatever other sessions do, and late returns of earlier waits, do not
  matter.\<close>
theorem ring_wakes_the_loop:
  assumes "nf_waiters n s = []" "list_all (leaves s) before" "list_all (leaves s) after"
    and "park s (bell_run before n) = (fut, m)" "\<And>f. fut = Some f \<Longrightarrow> Unpark s f \<notin> set after"
    and "Ring s \<in> set (before @ after)"
  shows "case fut of None \<Rightarrow> True | Some f \<Rightarrow> f \<in> set (nf_done (bell_run after m))"
proof (cases fut)
  case (Some f)
  with assms(4) have f: "s \<notin> set (nf_missed (bell_run before n))" "f \<in> set (nf_waiters m s)"
    by (auto simp: park_def split: if_splits)
  with ring_before_park [OF assms(2,1)] assms(6) have "Ring s \<in> set after" by auto
  with ring_while_parked [OF assms(3) f(2) assms(5) [OF Some]] Some show ?thesis by simp
qed simp

theorem ring_wakes_the_loop_witness:
  "case fst (park ''s'' (bell_run [Ring ''x''] new_notifier)) of None \<Rightarrow> True
   | Some f \<Rightarrow> f \<in> set (nf_done (bell_run [Park ''x'', Ring ''s'']
       (snd (park ''s'' (bell_run [Ring ''x''] new_notifier)))))"
  by (rule ring_wakes_the_loop [where n = new_notifier and s = "''s''" and before = "[Ring ''x'']"])
    (simp_all add: new_notifier_def)

text \<open>A session that was given up leaves nothing behind.\<close>

lemma forget_leaves_nothing:
  "nf_waiters (forget_bell s n) s = [] \<and> s \<notin> set (nf_missed (forget_bell s n))"
  by (simp add: forget_bell_def)

end
