(* ===== verification/AutoStore.thy ===== *)
theory AutoStore
  imports PyJson
begin

text \<open>
  \<^verbatim>\<open>backend/valuz_agent/modules/automations\<close>: the rows of automations and of their runs
  (\<^verbatim>\<open>models.py\<close>), the reads and writes of \<^verbatim>\<open>datastore.py\<close>, and when a trigger fires
  (\<^verbatim>\<open>triggers.py\<close>).  The reading of a cron expression is a parameter: for an expression, a time zone
  and an instant it gives the next one, or \<open>None\<close> when the zone is unknown.  Instants are
  milliseconds.
\<close>

section \<open>Rows\<close>

record automation =
  av_id :: string
  av_user :: string
  av_project :: string
  av_status :: string
  av_trigger :: string
  av_cron :: "string option"
  av_timezone :: "string option"
  av_interval :: "int option"
  av_event_source :: "string option"
  av_event_refs :: "string list"
  av_action :: string
  av_execution :: string
  av_result :: string
  av_target :: "string option"
  av_playbook :: "string option"
  av_next :: "int option"
  av_last :: "int option"
  av_created :: int

text \<open>Runs are numbered as they are created; \<open>ar_error\<close> is the error code.\<close>

record auto_run =
  ar_id :: nat
  ar_user :: string
  ar_automation :: string
  ar_project :: string
  ar_trigger :: string
  ar_status :: string
  ar_triggered :: int
  ar_started :: "int option"
  ar_completed :: "int option"
  ar_duration :: "int option"
  ar_error :: "string option"
  ar_session :: "string option"
  ar_event :: "string option"
  ar_cancel :: "int option"
  ar_artifact :: "json option"
  ar_playbook :: "string option"

definition active_run_statuses :: "string list" where
  "active_run_statuses = [''queued'', ''running'']"

definition terminal_run_statuses :: "string list" where
  "terminal_run_statuses = [''success'', ''failed'', ''timeout'', ''cancelled'', ''skipped'',
     ''interrupted_by_shutdown'']"

definition is_active_run :: "auto_run \<Rightarrow> bool" where
  "is_active_run r = (ar_status r \<in> set active_run_statuses)"

text \<open>
  What the process is in the middle of: the worker, awaiting the session or the task it starts; a chat
  turn that was handed over, and the same with the rows it has loaded; an input of an existing
  session, before and after it was enqueued; a program, handed over and running; the search for
  the lead session of a task.
\<close>

datatype turn =
    StartingTurn automation auto_run
  | ChatTurn string string nat string
  | RunningChat automation auto_run string
  | ExistingTurn string string nat string
  | PollingTurn string string nat string
  | CodeTurn string string nat
  | RunningCode string string nat
  | LinkTurn string string nat

text \<open>The tables and the runner: its queue, the automations it holds as active, its background.\<close>

record autos =
  au_rows :: "automation list"
  au_runs :: "auto_run list"
  au_next_id :: nat
  au_clock :: int
  au_queue :: "(string \<times> nat \<times> string) list"
  au_active :: "(string \<times> string) list"
  au_turns :: "turn list"

section \<open>When a trigger fires\<close>

type_synonym cron = "string \<Rightarrow> string \<Rightarrow> int \<Rightarrow> int option"

definition min_interval_seconds :: int where
  "min_interval_seconds = 30"

definition effective_tz_for :: "string \<Rightarrow> automation \<Rightarrow> string" where
  "effective_tz_for home row = (let tz = strip (case av_timezone row of None \<Rightarrow> [] | Some s \<Rightarrow> s) in
     if tz = [] then home else tz)"

definition next_fire_at :: "cron \<Rightarrow> string \<Rightarrow> automation \<Rightarrow> int \<Rightarrow> int option" where
  "next_fire_at cron home row after =
     (if av_trigger row = ''cron''
      then (case av_cron row of None \<Rightarrow> None
            | Some expr \<Rightarrow> if expr = [] then None else cron expr (effective_tz_for home row) after)
      else if av_trigger row = ''interval''
      then (let seconds = (case av_interval row of None \<Rightarrow> min_interval_seconds
                           | Some n \<Rightarrow> if n = 0 then min_interval_seconds else n)
            in Some (after + seconds * 1000))
      else None)"

definition is_due :: "automation \<Rightarrow> int \<Rightarrow> bool" where
  "is_due row now = (av_status row = ''enabled'' \<and> av_trigger row \<noteq> ''manual'' \<and> av_trigger row \<noteq> ''event''
     \<and> (case av_next row of None \<Rightarrow> False | Some n \<Rightarrow> n \<le> now))"

section \<open>Reads\<close>

definition get_automation :: "string \<Rightarrow> string \<Rightarrow> autos \<Rightarrow> automation option" where
  "get_automation user aid d = List.find (\<lambda>a. av_id a = aid \<and> av_user a = user) (au_rows d)"

definition runs_of :: "string \<Rightarrow> string \<Rightarrow> autos \<Rightarrow> auto_run list" where
  "runs_of user aid d = filter (\<lambda>r. ar_automation r = aid \<and> ar_user r = user) (au_runs d)"

text \<open>\<open>ORDER BY triggered_at DESC\<close>\<close>

definition newest_first :: "auto_run list \<Rightarrow> auto_run list" where
  "newest_first rs = sort_key (\<lambda>r. - ar_triggered r) rs"

definition first_of :: "'a list \<Rightarrow> 'a option" where
  "first_of xs = (case xs of [] \<Rightarrow> None | x # _ \<Rightarrow> Some x)"

definition get_auto_run :: "string \<Rightarrow> string \<Rightarrow> nat \<Rightarrow> autos \<Rightarrow> auto_run option" where
  "get_auto_run user aid rid d = List.find (\<lambda>r. ar_id r = rid) (runs_of user aid d)"

definition last_auto_run :: "string \<Rightarrow> string \<Rightarrow> autos \<Rightarrow> auto_run option" where
  "last_auto_run user aid d = first_of (newest_first (runs_of user aid d))"

definition active_auto_run :: "string \<Rightarrow> string \<Rightarrow> autos \<Rightarrow> auto_run option" where
  "active_auto_run user aid d = first_of (newest_first (filter is_active_run (runs_of user aid d)))"

definition list_stranded_runs :: "autos \<Rightarrow> auto_run list" where
  "list_stranded_runs d = filter is_active_run (au_runs d)"

definition find_due_automations :: "int \<Rightarrow> autos \<Rightarrow> automation list" where
  "find_due_automations now d = sort_key (\<lambda>a. the (av_next a)) (sort_key av_created
     (filter (\<lambda>a. av_status a = ''enabled'' \<and> (case av_next a of None \<Rightarrow> False | Some n \<Rightarrow> n \<le> now)) (au_rows d)))"

definition list_event_candidates :: "string \<Rightarrow> autos \<Rightarrow> automation list" where
  "list_event_candidates source d =
     filter (\<lambda>a. av_event_source a = Some source \<and> av_status a = ''enabled'') (au_rows d)"

definition count_terminal_runs_since :: "string \<Rightarrow> string \<Rightarrow> int \<Rightarrow> autos \<Rightarrow> nat \<times> nat" where
  "count_terminal_runs_since user aid since d =
     (let rs = filter (\<lambda>r. since \<le> ar_triggered r \<and> ar_status r \<in> {''success'', ''failed'', ''timeout''})
                 (runs_of user aid d)
      in (length rs, length (filter (\<lambda>r. ar_status r \<in> {''failed'', ''timeout''}) rs)))"

section \<open>Writes\<close>

text \<open>
  A row object writes the columns that were assigned since it was loaded, whatever the row
  holds by then: \<open>assign\<close> sets them to values of the loaded object.
\<close>

definition write_row :: "string \<Rightarrow> (automation \<Rightarrow> automation) \<Rightarrow> autos \<Rightarrow> autos" where
  "write_row aid assign d = d\<lparr>au_rows := map (\<lambda>a. if av_id a = aid then assign a else a) (au_rows d)\<rparr>"

definition replace_run :: "nat \<Rightarrow> (auto_run \<Rightarrow> auto_run) \<Rightarrow> autos \<Rightarrow> autos" where
  "replace_run rid assign d = d\<lparr>au_runs := map (\<lambda>r. if ar_id r = rid then assign r else r) (au_runs d)\<rparr>"

definition new_run :: "string \<Rightarrow> automation \<Rightarrow> string \<Rightarrow> string \<Rightarrow> int \<Rightarrow> auto_run" where
  "new_run user row trigger status at =
     \<lparr>ar_id = 0, ar_user = user, ar_automation = av_id row, ar_project = av_project row, ar_trigger = trigger,
      ar_status = status, ar_triggered = at, ar_started = None, ar_completed = None, ar_duration = None,
      ar_error = None, ar_session = None, ar_event = None, ar_cancel = None, ar_artifact = None,
      ar_playbook = None\<rparr>"

text \<open>\<open>None\<close> when the constraint on the automation and the event is violated.\<close>

definition create_auto_run :: "auto_run \<Rightarrow> autos \<Rightarrow> (nat \<times> autos) option" where
  "create_auto_run run d =
     (if ar_event run \<noteq> None \<and> list_ex (\<lambda>r. ar_automation r = ar_automation run \<and> ar_event r = ar_event run) (au_runs d)
      then None
      else Some (au_next_id d, d\<lparr>au_runs := au_runs d @ [run\<lparr>ar_id := au_next_id d\<rparr>], au_next_id := au_next_id d + 1\<rparr>))"

definition trim_runs :: "string \<Rightarrow> string \<Rightarrow> nat \<Rightarrow> autos \<Rightarrow> autos" where
  "trim_runs user aid keep d =
     (let kept = map ar_id (take keep (newest_first (runs_of user aid d)))
      in d\<lparr>au_runs := filter (\<lambda>r. \<not> (ar_automation r = aid \<and> ar_user r = user \<and> ar_id r \<notin> set kept)) (au_runs d)\<rparr>)"

definition delete_automation :: "string \<Rightarrow> string \<Rightarrow> autos \<Rightarrow> autos" where
  "delete_automation user aid d =
     d\<lparr>au_runs := filter (\<lambda>r. \<not> (ar_automation r = aid \<and> ar_user r = user)) (au_runs d),
       au_rows := filter (\<lambda>a. \<not> (av_id a = aid \<and> av_user a = user)) (au_rows d)\<rparr>"

definition enqueue_auto :: "string \<Rightarrow> nat \<Rightarrow> string \<Rightarrow> autos \<Rightarrow> autos" where
  "enqueue_auto aid rid user d = d\<lparr>au_queue := au_queue d @ [(aid, rid, user)]\<rparr>"

end
