(* ===== verification/AutoService.thy ===== *)
theory AutoService
  imports AutoStore
begin

text \<open>
  \<^verbatim>\<open>backend/valuz_agent/modules/automations/service.py\<close>: what users, agents and event sources
  do with automations and their runs, and \<^verbatim>\<open>failure_monitor.py\<close>.  Whether a plugin's
  automation is authorized, whether the input meets its contract, and what an event source
  makes of a delivery are arguments; locks, notifications and the upstream monitors of event sources are
  left out.
\<close>

section \<open>Starting a run\<close>

text \<open>The shared path: write the row, hand it to the runner.\<close>

definition enqueue_run :: "string \<Rightarrow> automation \<Rightarrow> string \<Rightarrow> string option \<Rightarrow> autos \<Rightarrow> (nat \<times> autos) option" where
  "enqueue_run user row trigger event d =
     (case create_auto_run ((new_run user row trigger ''queued'' (au_clock d))\<lparr>ar_event := event\<rparr>) d of
        None \<Rightarrow> None
      | Some (rid, d1) \<Rightarrow> Some (rid, enqueue_auto (av_id row) rid user d1))"

datatype run_now_reply =
    RunNoAutomation
  | RunUnauthorized string
  | RunInputInvalid string
  | RunAlreadyQueued
  | RunAlreadyRunning
  | RunNoRetrySource
  | RunAccepted nat

text \<open>
  \<open>source\<close> is the failed run an explicit retry refers to.  Paused automations run too: pausing stops
  the schedule only.
\<close>

definition run_now :: "string option \<Rightarrow> string option \<Rightarrow> string \<Rightarrow> nat option \<Rightarrow> string \<Rightarrow> string \<Rightarrow> autos
    \<Rightarrow> run_now_reply \<times> autos" where
  "run_now denied bad_input trigger source user aid d =
     (case get_automation user aid d of
        None \<Rightarrow> (RunNoAutomation, d)
      | Some row \<Rightarrow>
      if denied \<noteq> None then (RunUnauthorized (the denied), d)
      else if bad_input \<noteq> None then (RunInputInvalid (the bad_input), d)
      else (case active_auto_run user aid d of
          Some r \<Rightarrow> (if ar_status r = ''queued'' then RunAlreadyQueued else RunAlreadyRunning, d)
        | None \<Rightarrow>
            if (case source of None \<Rightarrow> False | Some rid \<Rightarrow>
                  (case get_auto_run user aid rid d of
                     None \<Rightarrow> True | Some r \<Rightarrow> ar_status r \<notin> {''failed'', ''cancelled''}))
            then (RunNoRetrySource, d)
            else (case enqueue_run user row trigger None d of
                None \<Rightarrow> (RunNoAutomation, d)
              | Some (rid, d1) \<Rightarrow> (RunAccepted rid, d1))))"

text \<open>
  A delivery, as the source resolved it: none if it is not for us, else its source, its
  references and its id.  Automations that already have a run for the event are passed over.
\<close>

definition matches_event :: "string list \<Rightarrow> automation \<Rightarrow> bool" where
  "matches_event refs a = (set refs \<inter> set (av_event_refs a) \<noteq> {})"

fun fire_rows :: "string \<Rightarrow> automation list \<Rightarrow> autos \<Rightarrow> nat list \<times> autos" where
  "fire_rows event [] d = ([], d)"
| "fire_rows event (row # rows) d =
     (case enqueue_run (av_user row) row ''event'' (Some event) d of
        None \<Rightarrow> fire_rows event rows d
      | Some (rid, d1) \<Rightarrow> apfst ((#) rid) (fire_rows event rows d1))"

definition fire_from_event :: "(string \<times> string list \<times> string) option \<Rightarrow> autos \<Rightarrow> nat list \<times> autos" where
  "fire_from_event delivery d = (case delivery of
     None \<Rightarrow> ([], d)
   | Some (source, refs, event) \<Rightarrow> fire_rows event (filter (matches_event refs) (list_event_candidates source d)) d)"

section \<open>Stopping a run, and the schedule\<close>

datatype cancel_reply = CancelNoAutomation | CancelNoRun | CancelUnsupported | CancelNotActive | CancelDone

definition cancel_run :: "string \<Rightarrow> string \<Rightarrow> nat \<Rightarrow> autos \<Rightarrow> cancel_reply \<times> autos" where
  "cancel_run user aid rid d =
     (case get_automation user aid d of
        None \<Rightarrow> (CancelNoAutomation, d)
      | Some row \<Rightarrow>
      (case get_auto_run user aid rid d of
        None \<Rightarrow> (CancelNoRun, d)
      | Some r \<Rightarrow>
      let now = au_clock d in
      if ar_status r = ''queued''
      then (CancelDone, replace_run rid (\<lambda>x. x\<lparr>ar_status := ''cancelled'', ar_error := Some ''AUTOMATION_CANCELLED'',
              ar_cancel := Some now, ar_completed := Some now\<rparr>) d)
      else if ar_status r = ''running''
      then (if av_execution row \<noteq> ''code'' \<and> (av_target row = None \<or> av_target row = Some []) then (CancelUnsupported, d)
            else (CancelDone, if ar_cancel r = None then replace_run rid (\<lambda>x. x\<lparr>ar_cancel := Some now\<rparr>) d else d))
      else (CancelNotActive, d)))"

definition pause :: "string \<Rightarrow> string \<Rightarrow> autos \<Rightarrow> bool \<times> autos" where
  "pause user aid d = (case get_automation user aid d of
     None \<Rightarrow> (False, d)
   | Some row \<Rightarrow> (True, write_row aid (\<lambda>a. a\<lparr>av_status := ''paused'', av_next := None\<rparr>) d))"

definition resume :: "cron \<Rightarrow> string \<Rightarrow> string \<Rightarrow> string \<Rightarrow> autos \<Rightarrow> bool \<times> autos" where
  "resume cron home user aid d = (case get_automation user aid d of
     None \<Rightarrow> (False, d)
   | Some row \<Rightarrow> (True, write_row aid (\<lambda>a. a\<lparr>av_status := ''enabled'',
       av_next := next_fire_at cron home row (au_clock d)\<rparr>) d))"

definition delete :: "string \<Rightarrow> string \<Rightarrow> autos \<Rightarrow> bool \<times> autos" where
  "delete user aid d = (case get_automation user aid d of
     None \<Rightarrow> (False, d) | Some row \<Rightarrow> (True, delete_automation user aid d))"

text \<open>The artifact of a run, stored when it meets the contract; \<open>clean\<close> is what validation makes of it.\<close>

datatype artifact_reply = ArtifactNoAutomation | ArtifactNoRun | ArtifactNotActive | ArtifactInvalid | ArtifactStored

definition record_artifact :: "json option \<Rightarrow> string \<Rightarrow> string \<Rightarrow> nat \<Rightarrow> autos \<Rightarrow> artifact_reply \<times> autos" where
  "record_artifact clean user aid rid d =
     (case get_automation user aid d of
        None \<Rightarrow> (ArtifactNoAutomation, d)
      | Some row \<Rightarrow>
      (case get_auto_run user aid rid d of
        None \<Rightarrow> (ArtifactNoRun, d)
      | Some r \<Rightarrow>
      if ar_status r \<in> set terminal_run_statuses \<and> ar_status r \<noteq> ''success'' then (ArtifactNotActive, d)
      else (case clean of
        None \<Rightarrow> (ArtifactInvalid, d)
      | Some v \<Rightarrow> (ArtifactStored, replace_run rid (\<lambda>x. x\<lparr>ar_artifact := Some v\<rparr>) d))))"

section \<open>The failure monitor\<close>

text \<open>
  The window in milliseconds, the least number of runs and the ratio, as a fraction; the code
  compares two quotients of floats, which agree with the fractions at any number of runs a
  window can hold.
\<close>

record monitor_config =
  mc_lookback :: int
  mc_min_runs :: nat
  mc_ratio_num :: nat
  mc_ratio_den :: nat

definition default_monitor :: monitor_config where
  "default_monitor = \<lparr>mc_lookback = 7 * 24 * 3600 * 1000, mc_min_runs = 50, mc_ratio_num = 9, mc_ratio_den = 10\<rparr>"

definition is_offender :: "monitor_config \<Rightarrow> int \<Rightarrow> autos \<Rightarrow> automation \<Rightarrow> bool" where
  "is_offender c now d row = (av_status row = ''enabled''
     \<and> (case count_terminal_runs_since (av_user row) (av_id row) (now - mc_lookback c) d of
          (all, bad) \<Rightarrow> mc_min_runs c \<le> all \<and> all \<noteq> 0
            \<and> mc_ratio_num c * all \<le> bad * mc_ratio_den c))"

definition evaluate_candidates :: "automation list \<Rightarrow> int \<Rightarrow> monitor_config \<Rightarrow> autos \<Rightarrow> automation list" where
  "evaluate_candidates rows now c d = filter (is_offender c now d) rows"

text \<open>Each candidate is read again before it is paused; the pause leaves a notice among the runs.\<close>

definition pause_offender :: "int \<Rightarrow> automation \<Rightarrow> autos \<Rightarrow> autos" where
  "pause_offender now row d = (case get_automation (av_user row) (av_id row) d of
     None \<Rightarrow> d
   | Some fresh \<Rightarrow>
       if av_status fresh \<noteq> ''enabled'' then d
       else (let d1 = write_row (av_id row) (\<lambda>a. a\<lparr>av_status := ''paused'', av_next := None\<rparr>) d;
                 notice = (new_run (av_user row) fresh ''system'' ''auto_paused_notice'' now)
                   \<lparr>ar_completed := Some now, ar_duration := Some 0, ar_error := Some ''HIGH_FAILURE_RATE''\<rparr>
             in (case create_auto_run notice d1 of None \<Rightarrow> d1 | Some (_, d2) \<Rightarrow> d2)))"

definition perform_sweep :: "monitor_config \<Rightarrow> autos \<Rightarrow> autos" where
  "perform_sweep c d = (let now = au_clock d in
     fold (pause_offender now)
       (evaluate_candidates (filter (\<lambda>a. av_status a = ''enabled'') (au_rows d)) now c d) d)"

end
