(* ===== verification/AutoRunner.thy ===== *)
theory AutoRunner
  imports AutoService
begin

text \<open>
  \<^verbatim>\<open>backend/valuz_agent/modules/automations/in_process_runner.py\<close>: the tick that finds due
  automations, the worker that executes one queued run after another, and the turns they leave behind.
  A step is what happens between two waits, so a session that is being created, a turn of the model
  or a program may be interleaved with anything.  The answers of sessions, tasks, programs, guards and
  input receipts are arguments.  The execution lease of this runner is the one that is always
  current; prompts, playbook rows and logs are left out.
\<close>

section \<open>Shared\<close>

text \<open>What becomes of the schedule once a run is over: \<open>row\<close> is the row as the step has loaded it.\<close>

definition advance_schedule :: "cron \<Rightarrow> string \<Rightarrow> automation \<Rightarrow> int \<Rightarrow> autos \<Rightarrow> autos" where
  "advance_schedule cron home row triggered = write_row (av_id row) (\<lambda>a. a\<lparr>av_last := Some triggered,
     av_next := (if av_status row = ''enabled'' then next_fire_at cron home row triggered else None)\<rparr>)"

definition keep_runs :: nat where
  "keep_runs = 100"

definition pop_active :: "string \<Rightarrow> autos \<Rightarrow> autos" where
  "pop_active aid d = d\<lparr>au_active := filter (\<lambda>x. fst x \<noteq> aid) (au_active d)\<rparr>"

definition set_active :: "string \<Rightarrow> string \<Rightarrow> autos \<Rightarrow> autos" where
  "set_active aid user d = d\<lparr>au_active := (if aid \<in> fst ` set (au_active d)
     then map (\<lambda>x. if fst x = aid then (aid, user) else x) (au_active d) else au_active d @ [(aid, user)])\<rparr>"

definition spawn_turn :: "turn \<Rightarrow> autos \<Rightarrow> autos" where
  "spawn_turn t d = d\<lparr>au_turns := au_turns d @ [t]\<rparr>"

definition has_target :: "automation \<Rightarrow> bool" where
  "has_target row = (av_target row \<noteq> None \<and> av_target row \<noteq> Some [])"

text \<open>The status of the input with the id of a run in a session.\<close>

type_synonym receipts = "string \<Rightarrow> nat \<Rightarrow> string option"

definition receipt_of :: "receipts \<Rightarrow> auto_run \<Rightarrow> string option" where
  "receipt_of receipts r = (case ar_session r of None \<Rightarrow> None | Some s \<Rightarrow> if s = [] then None else receipts s (ar_id r))"

definition fail_run :: "string \<Rightarrow> nat \<Rightarrow> autos \<Rightarrow> autos" where
  "fail_run code rid d =
     replace_run rid (\<lambda>x. x\<lparr>ar_status := ''failed'', ar_error := Some code, ar_completed := Some (au_clock d)\<rparr>) d"

section \<open>Boot and shutdown\<close>

definition interrupted_code :: string where
  "interrupted_code = ''AUTOMATION_INTERRUPTED_BY_SHUTDOWN''"

definition mark_interrupted :: "int \<Rightarrow> auto_run \<Rightarrow> autos \<Rightarrow> autos" where
  "mark_interrupted now r = replace_run (ar_id r) (\<lambda>x. x\<lparr>ar_status := ''interrupted_by_shutdown'',
     ar_error := Some interrupted_code, ar_completed := Some now,
     ar_duration := (case ar_started r of None \<Rightarrow> ar_duration x | Some s \<Rightarrow> Some (now - s))\<rparr>)"

text \<open>A run that an input of a session may have carried out, or will, goes back to the worker.\<close>

definition is_recoverable :: "receipts \<Rightarrow> autos \<Rightarrow> auto_run \<Rightarrow> bool" where
  "is_recoverable receipts d r = (receipt_of receipts r \<noteq> None
     \<or> (case get_automation (ar_user r) (ar_automation r) d of None \<Rightarrow> False | Some row \<Rightarrow> has_target row))"

definition reconcile_run :: "receipts \<Rightarrow> int \<Rightarrow> auto_run \<Rightarrow> autos \<Rightarrow> autos" where
  "reconcile_run receipts now r d =
     (if is_recoverable receipts d r then enqueue_auto (ar_automation r) (ar_id r) (ar_user r) d
      else mark_interrupted now r d)"

definition reconcile_stranded_runs :: "receipts \<Rightarrow> autos \<Rightarrow> autos" where
  "reconcile_stranded_runs receipts d = fold (reconcile_run receipts (au_clock d)) (list_stranded_runs d) d"

definition mark_missed :: "cron \<Rightarrow> string \<Rightarrow> int \<Rightarrow> automation \<Rightarrow> autos \<Rightarrow> autos" where
  "mark_missed cron home now row d =
     (let at = (case av_next row of None \<Rightarrow> now | Some n \<Rightarrow> if n = 0 then now else n);
          run = (new_run (av_user row) row ''recovered_skip'' ''skipped'' at)
            \<lparr>ar_completed := Some now, ar_error := Some ''AUTOMATION_MISSED_WHILE_OFFLINE''\<rparr>
      in (case create_auto_run run d of
            None \<Rightarrow> d
          | Some (_, d1) \<Rightarrow> write_row (av_id row)
              (\<lambda>a. a\<lparr>av_last := av_next row, av_next := next_fire_at cron home row now\<rparr>) d1))"

definition mark_missed_runs :: "cron \<Rightarrow> string \<Rightarrow> autos \<Rightarrow> autos" where
  "mark_missed_runs cron home d =
     fold (mark_missed cron home (au_clock d)) (find_due_automations (au_clock d) d) d"

definition startup :: "cron \<Rightarrow> string \<Rightarrow> receipts \<Rightarrow> autos \<Rightarrow> autos" where
  "startup cron home receipts d = mark_missed_runs cron home
     (reconcile_stranded_runs receipts (d\<lparr>au_queue := [], au_active := [], au_turns := []\<rparr>))"

text \<open>The shutdown hook sees to the automations that are held active.\<close>

definition interrupt_active :: "receipts \<Rightarrow> string \<times> string \<Rightarrow> autos \<Rightarrow> autos" where
  "interrupt_active receipts = (\<lambda>(aid, user) d. case last_auto_run user aid d of
       None \<Rightarrow> d
     | Some r \<Rightarrow> if is_recoverable receipts d r \<or> ar_status r \<noteq> ''running'' then d
         else replace_run (ar_id r) (\<lambda>x. x\<lparr>ar_status := ''interrupted_by_shutdown'',
           ar_error := Some interrupted_code, ar_completed := Some (au_clock d)\<rparr>) d)"

definition shutdown :: "receipts \<Rightarrow> autos \<Rightarrow> autos" where
  "shutdown receipts d = (fold (interrupt_active receipts) (au_active d) d)\<lparr>au_active := []\<rparr>"

section \<open>The tick\<close>

definition fire_due :: "int \<Rightarrow> automation \<Rightarrow> autos \<Rightarrow> autos" where
  "fire_due now row d =
     (if \<not> is_due row now \<or> av_id row \<in> fst ` set (au_active d) then d
      else (let trigger = (if av_trigger row = ''cron'' \<or> av_trigger row = ''interval'' then av_trigger row else ''cron'')
            in (case create_auto_run (new_run (av_user row) row trigger ''queued'' now) d of
                  None \<Rightarrow> d
                | Some (rid, d1) \<Rightarrow> enqueue_auto (av_id row) rid (av_user row) d1)))"

definition due_order :: "int \<Rightarrow> automation list \<Rightarrow> automation list" where
  "due_order now rows = sort_key (\<lambda>a. case av_next a of None \<Rightarrow> now | Some n \<Rightarrow> if n = 0 then now else n)
     (sort_key av_created rows)"

definition check_due_tasks :: "autos \<Rightarrow> autos" where
  "check_due_tasks d = (let now = au_clock d in fold (fire_due now) (due_order now (find_due_automations now d)) d)"

section \<open>The worker\<close>

text \<open>A refusal is \<open>failed\<close> or \<open>skipped\<close>.\<close>

definition refusal :: "bool \<Rightarrow> string" where
  "refusal failed = (if failed then ''failed'' else ''skipped'')"

datatype guard_answer = NoGuards | GuardAllows | GuardDenies bool string

text \<open>
  What the worker asks before it lets a run start: the guards, the inputs before and after the withdrawal
  of a queued one, whether that succeeded; then the authority of a plugin's automation, a
  failure to prepare the prompt, and a playbook that is gone.
\<close>

record exec_env =
  ev_guard :: guard_answer
  ev_receipts :: receipts
  ev_withdrawn :: bool
  ev_receipts_after :: receipts
  ev_denied :: "string option"
  ev_prepare :: "string option"
  ev_playbook :: "string option"

definition unavailable_prefix :: string where
  "unavailable_prefix = ''app_plugin_source_unavailable:''"

definition deny_run :: "cron \<Rightarrow> string \<Rightarrow> string \<Rightarrow> string \<Rightarrow> automation \<Rightarrow> auto_run \<Rightarrow> autos \<Rightarrow> autos" where
  "deny_run cron home status reason row r d =
     trim_runs (av_user row) (av_id row) keep_runs (advance_schedule cron home row (ar_triggered r)
       (replace_run (ar_id r) (\<lambda>x. x\<lparr>ar_status := status,
          ar_error := Some (if take (length unavailable_prefix) reason = unavailable_prefix
                            then ''app_plugin_source_unavailable'' else ''AUTOMATION_GUARD_DENIED''),
          ar_completed := Some (au_clock d)\<rparr>) d))"

definition admit_run :: "cron \<Rightarrow> string \<Rightarrow> exec_env \<Rightarrow> string \<Rightarrow> string \<Rightarrow> nat \<Rightarrow> autos \<Rightarrow> bool \<times> autos" where
  "admit_run cron home ev user aid rid d =
     (if ev_guard ev = NoGuards then (True, d)
      else (case (get_automation user aid d, get_auto_run user aid rid d) of
        (Some row, Some r) \<Rightarrow>
          let receipt = receipt_of (ev_receipts ev) r in
          if \<not> is_active_run r then (False, d)
          else if receipt \<noteq> None \<and> receipt \<noteq> Some ''queued'' then (True, d)
          else (case ev_guard ev of
              GuardDenies failed reason \<Rightarrow>
                let later = receipt_of (ev_receipts_after ev) r in
                if receipt \<noteq> None \<and> \<not> ev_withdrawn ev \<and> later \<noteq> None \<and> later \<noteq> Some ''queued'' then (True, d)
                else (False, deny_run cron home (refusal failed) reason row r d)
            | _ \<Rightarrow> (True, d))
      | _ \<Rightarrow> (False, d)))"

text \<open>The run the worker may go on with: it must be the automation's last, and active.\<close>

definition current_run :: "string \<Rightarrow> string \<Rightarrow> nat \<Rightarrow> autos \<Rightarrow> (automation \<times> auto_run) option" where
  "current_run user aid rid d =
     (case (get_automation user aid d, last_auto_run user aid d) of
        (Some row, Some r) \<Rightarrow> if ar_id r = rid \<and> is_active_run r then Some (row, r) else None
      | _ \<Rightarrow> None)"

definition start_run :: "exec_env \<Rightarrow> string \<Rightarrow> string \<Rightarrow> nat \<Rightarrow> autos \<Rightarrow> autos" where
  "start_run ev user aid rid d =
     (case current_run user aid rid d of
        None \<Rightarrow> d
      | Some (row, r) \<Rightarrow>
        let receipt = receipt_of (ev_receipts ev) r; now = au_clock d in
        if receipt \<noteq> None \<and> receipt \<noteq> Some ''queued''
        then spawn_turn (ExistingTurn user aid rid (the (ar_session r))) d
        else if av_execution row = ''code''
        then spawn_turn (CodeTurn user aid rid) (replace_run rid
               (\<lambda>x. x\<lparr>ar_status := ''running'', ar_started := Some now\<rparr>) (set_active aid user d))
        else if ev_denied ev \<noteq> None then fail_run ''app_plugin_source_unavailable'' rid d
        else if ev_prepare ev \<noteq> None then pop_active aid (fail_run (the (ev_prepare ev)) rid d)
        else if ev_playbook ev \<noteq> None then pop_active aid (fail_run (the (ev_playbook ev)) rid d)
        else spawn_turn (StartingTurn row (if av_action row = ''task'' then r\<lparr>ar_started := Some now\<rparr> else r))
               (set_active aid user d))"

definition execute_run :: "cron \<Rightarrow> string \<Rightarrow> exec_env \<Rightarrow> string \<Rightarrow> string \<Rightarrow> nat \<Rightarrow> autos \<Rightarrow> autos" where
  "execute_run cron home ev user aid rid d =
     (case admit_run cron home ev user aid rid d of
        (False, d1) \<Rightarrow> d1
      | (True, d1) \<Rightarrow> start_run ev user aid rid d1)"

fun is_starting :: "turn \<Rightarrow> bool" where
  "is_starting (StartingTurn _ _) = True"
| "is_starting _ = False"

text \<open>The worker takes the next run when it is not awaiting the start of one.\<close>

definition work :: "cron \<Rightarrow> string \<Rightarrow> exec_env \<Rightarrow> autos \<Rightarrow> autos" where
  "work cron home ev d =
     (if list_ex is_starting (au_turns d) then d
      else (case au_queue d of
              [] \<Rightarrow> d
            | (aid, rid, user) # rest \<Rightarrow> execute_run cron home ev user aid rid (d\<lparr>au_queue := rest\<rparr>)))"

section \<open>Turns\<close>

text \<open>How a program ends, by the port that executes it.\<close>

datatype program_end = Succeeds | Fails | TimesOut | IsCancelled

definition program_status :: "program_end \<Rightarrow> string" where
  "program_status e = (case e of Succeeds \<Rightarrow> ''success'' | Fails \<Rightarrow> ''failed''
     | TimesOut \<Rightarrow> ''timeout'' | IsCancelled \<Rightarrow> ''cancelled'')"

datatype input_end = InputDone string "string option" | InputBlocked | InputDenied bool | InputError

text \<open>What a turn waits for: \<open>Goes\<close> is its own next step.\<close>

datatype outcome =
    Goes
  | Created "string + string"
  | KickedOff "string + string option"
  | Replied "string option"
  | Raised string
  | InputEnds input_end
  | ProgramCrashed
  | ProgramEnds program_end "string option" "json option"
  | LeadIs "string option"

definition finish_task_kickoff :: "cron \<Rightarrow> string \<Rightarrow> automation \<Rightarrow> auto_run \<Rightarrow> string + string option \<Rightarrow> autos \<Rightarrow> autos" where
  "finish_task_kickoff cron home row r kicked d = pop_active (av_id row)
     (case kicked of
        Inl e \<Rightarrow> replace_run (ar_id r) (\<lambda>x. x\<lparr>ar_started := ar_started r\<rparr>) (fail_run e (ar_id r) d)
      | Inr lead \<Rightarrow>
          let now = au_clock d;
              d1 = (if lead = None then spawn_turn (LinkTurn (av_user row) (av_id row) (ar_id r)) d else d)
          in if get_auto_run (av_user row) (av_id row) (ar_id r) d = None then d1
             else trim_runs (av_user row) (av_id row) keep_runs (advance_schedule cron home row (ar_triggered r)
               (replace_run (ar_id r) (\<lambda>x. x\<lparr>ar_status := ''success'', ar_started := ar_started r, ar_completed := Some now,
                   ar_session := lead, ar_duration := None\<rparr>) d1)))"

definition finish_session_start :: "automation \<Rightarrow> auto_run \<Rightarrow> string + string \<Rightarrow> autos \<Rightarrow> autos" where
  "finish_session_start row r created d =
     (case created of
        Inl e \<Rightarrow> pop_active (av_id row) (fail_run e (ar_id r) d)
      | Inr sid \<Rightarrow>
          if get_auto_run (av_user row) (av_id row) (ar_id r) d = None then pop_active (av_id row) d
          else spawn_turn (ChatTurn (av_user row) (av_id row) (ar_id r) sid) (replace_run (ar_id r)
            (\<lambda>x. x\<lparr>ar_status := ''running'', ar_session := Some sid,
               ar_started := (case ar_started r of None \<Rightarrow> Some (au_clock d) | s \<Rightarrow> s)\<rparr>) d))"

definition begin_chat :: "string \<Rightarrow> string \<Rightarrow> nat \<Rightarrow> string \<Rightarrow> autos \<Rightarrow> autos" where
  "begin_chat user aid rid sid d =
     (case get_automation user aid d of
        None \<Rightarrow> pop_active aid d
      | Some row \<Rightarrow>
          if has_target row then spawn_turn (ExistingTurn user aid rid sid) d
          else (case last_auto_run user aid d of
                  None \<Rightarrow> pop_active aid d
                | Some r \<Rightarrow> if ar_id r \<noteq> rid then pop_active aid d else spawn_turn (RunningChat row r sid) d))"

text \<open>A turn may end in an error that is only among its events: \<open>reply\<close> is the last of these.\<close>

definition chat_status :: "automation \<Rightarrow> auto_run \<Rightarrow> string + string option \<Rightarrow> string \<times> string option" where
  "chat_status row fresh reply = (case reply of
     Inl e \<Rightarrow> (''failed'', Some e)
   | Inr (Some _) \<Rightarrow> (''failed'', Some ''SessionError'')
   | Inr None \<Rightarrow>
       if av_result row = ''artifact'' \<and> ar_artifact fresh = None then (''failed'', Some ''AUTOMATION_NO_ARTIFACT'')
       else (''success'', ar_error fresh))"

definition finish_chat_run :: "cron \<Rightarrow> string \<Rightarrow> automation \<Rightarrow> auto_run \<Rightarrow> string + string option \<Rightarrow> autos \<Rightarrow> autos" where
  "finish_chat_run cron home row r reply d = pop_active (av_id row)
     (case get_auto_run (av_user row) (av_id row) (ar_id r) d of
        None \<Rightarrow> d
      | Some fresh \<Rightarrow>
          let now = au_clock d; (status, code) = chat_status row fresh reply in
          trim_runs (av_user row) (av_id row) keep_runs (advance_schedule cron home row (ar_triggered r)
            (replace_run (ar_id r) (\<lambda>x. x\<lparr>ar_status := status, ar_error := code, ar_completed := Some now,
               ar_duration := (case ar_started r of None \<Rightarrow> ar_duration x | Some s \<Rightarrow> Some (now - s))\<rparr>) d)))"

text \<open>The input of an existing session: what the run ends with, given the contract it was admitted under.\<close>

definition input_status :: "input_end \<Rightarrow> string \<times> string option" where
  "input_status e = (case e of
     InputDone status kind \<Rightarrow> (if status = ''completed'' then ''success''
                               else if status = ''cancelled'' then ''cancelled'' else ''failed'', kind)
   | InputDenied failed \<Rightarrow> (refusal failed, None)
   | _ \<Rightarrow> (''failed'', None))"

definition judge_input :: "auto_run \<Rightarrow> string \<times> string option \<Rightarrow> string \<times> string option" where
  "judge_input r = (\<lambda>(status, kind).
     if status = ''success'' \<and> kind = None then (''failed'', Some ''original_result_contract_unavailable'')
     else if status = ''success'' \<and> kind = Some ''artifact'' \<and> ar_artifact r = None then (''failed'', Some ''SessionError'')
     else (status, if status = ''failed'' then Some ''SessionError'' else None))"

definition finish_existing_chat_run :: "cron \<Rightarrow> string \<Rightarrow> string \<Rightarrow> string \<Rightarrow> nat \<Rightarrow> string \<Rightarrow> input_end \<Rightarrow> autos \<Rightarrow> autos" where
  "finish_existing_chat_run cron home user aid rid sid e d = (let d1 = pop_active aid d; now = au_clock d in
     case (get_auto_run user aid rid d1, get_automation user aid d1) of
       (Some r, Some row) \<Rightarrow>
         if \<not> is_active_run r then d1
         else (let (status, code) = judge_input r (input_status e) in
           advance_schedule cron home row (ar_triggered r)
             (replace_run rid (\<lambda>x. x\<lparr>ar_status := status, ar_error := code, ar_completed := Some now,
                ar_duration := (case ar_started r of None \<Rightarrow> None | Some s \<Rightarrow> Some (now - s)),
                ar_session := Some sid\<rparr>) d1))
     | _ \<Rightarrow> d1)"

definition finish_code_run :: "cron \<Rightarrow> string \<Rightarrow> string \<Rightarrow> string \<Rightarrow> nat \<Rightarrow> program_end \<times> string option \<times> json option \<Rightarrow> autos \<Rightarrow> autos" where
  "finish_code_run cron home user aid rid = (\<lambda>(e, code, artifact) d. pop_active aid
     (case (get_automation user aid d, get_auto_run user aid rid d) of
        (Some row, Some r) \<Rightarrow>
          if ar_status r \<noteq> ''running'' then d
          else (let now = au_clock d in
            trim_runs (av_user row) aid keep_runs (advance_schedule cron home row (ar_triggered r)
              (replace_run rid (\<lambda>x. x\<lparr>ar_status := program_status e, ar_error := code, ar_artifact := artifact,
                 ar_completed := Some now,
                 ar_duration := (case ar_started r of None \<Rightarrow> ar_duration x | Some s \<Rightarrow> Some (now - s))\<rparr>) d)))
      | _ \<Rightarrow> d))"

definition link_lead_session :: "string \<Rightarrow> string \<Rightarrow> nat \<Rightarrow> string option \<Rightarrow> autos \<Rightarrow> autos" where
  "link_lead_session user aid rid lead d = (case (lead, get_auto_run user aid rid d) of
     (Some sid, Some r) \<Rightarrow>
       if ar_session r \<noteq> None \<and> ar_session r \<noteq> Some [] then d
       else replace_run rid (\<lambda>x. x\<lparr>ar_session := Some sid\<rparr>) d
   | _ \<Rightarrow> d)"

text \<open>
  One step of a turn; \<open>None\<close> when the turn does not wait for such an outcome.  A chat turn whose
  rows are gone, a program whose row is gone and a program that crashes release the automation.
\<close>

definition run_turn :: "cron \<Rightarrow> string \<Rightarrow> turn \<Rightarrow> outcome \<Rightarrow> autos \<Rightarrow> autos option" where
  "run_turn cron home t out d = (case (t, out) of
     (StartingTurn row r, Created s) \<Rightarrow>
       if av_action row = ''task'' then None else Some (finish_session_start row r s d)
   | (StartingTurn row r, KickedOff k) \<Rightarrow>
       if av_action row = ''task'' then Some (finish_task_kickoff cron home row r k d) else None
   | (ChatTurn user aid rid sid, Goes) \<Rightarrow> Some (begin_chat user aid rid sid d)
   | (RunningChat row r sid, Replied reply) \<Rightarrow> Some (finish_chat_run cron home row r (Inr reply) d)
   | (RunningChat row r sid, Raised e) \<Rightarrow> Some (finish_chat_run cron home row r (Inl e) d)
   | (ExistingTurn user aid rid sid, Goes) \<Rightarrow>
       Some (if get_automation user aid d = None then d else spawn_turn (PollingTurn user aid rid sid) d)
   | (PollingTurn user aid rid sid, Goes) \<Rightarrow>
       if get_auto_run user aid rid d = None then Some (pop_active aid d) else None
   | (PollingTurn user aid rid sid, InputEnds e) \<Rightarrow> Some (finish_existing_chat_run cron home user aid rid sid e d)
   | (CodeTurn user aid rid, Goes) \<Rightarrow>
       Some (if get_automation user aid d = None \<or> get_auto_run user aid rid d = None then pop_active aid d
             else spawn_turn (RunningCode user aid rid) d)
   | (RunningCode user aid rid, ProgramCrashed) \<Rightarrow> Some (pop_active aid d)
   | (RunningCode user aid rid, ProgramEnds e code artifact) \<Rightarrow>
       Some (finish_code_run cron home user aid rid (e, code, artifact) d)
   | (LinkTurn user aid rid, LeadIs lead) \<Rightarrow> Some (link_lead_session user aid rid lead d)
   | _ \<Rightarrow> None)"

definition background :: "cron \<Rightarrow> string \<Rightarrow> nat \<Rightarrow> outcome \<Rightarrow> autos \<Rightarrow> autos" where
  "background cron home n out d =
     (if n < length (au_turns d)
      then (case run_turn cron home (au_turns d ! n) out (d\<lparr>au_turns := take n (au_turns d) @ drop (Suc n) (au_turns d)\<rparr>) of
              None \<Rightarrow> d | Some d1 \<Rightarrow> d1)
      else d)"

section \<open>The whole\<close>

datatype auto_op =
    Waits int
  | Reboots receipts
  | ShutsDown receipts
  | Ticks
  | Works exec_env
  | Continues nat outcome
  | RunsNow "string option" "string option" string "nat option" string string
  | Delivers "(string \<times> string list \<times> string) option"
  | CancelsRun string string nat
  | Pauses string string
  | Resumes string string
  | Deletes string string
  | Records "json option" string string nat
  | Sweeps monitor_config

definition auto_step :: "cron \<Rightarrow> string \<Rightarrow> auto_op \<Rightarrow> autos \<Rightarrow> autos" where
  "auto_step cron home op d = (case op of
     Waits ms \<Rightarrow> d\<lparr>au_clock := au_clock d + ms\<rparr>
   | Reboots receipts \<Rightarrow> startup cron home receipts d
   | ShutsDown receipts \<Rightarrow> shutdown receipts d
   | Ticks \<Rightarrow> check_due_tasks d
   | Works ev \<Rightarrow> work cron home ev d
   | Continues n out \<Rightarrow> background cron home n out d
   | RunsNow denied bad trigger source user aid \<Rightarrow> snd (run_now denied bad trigger source user aid d)
   | Delivers delivery \<Rightarrow> snd (fire_from_event delivery d)
   | CancelsRun user aid rid \<Rightarrow> snd (cancel_run user aid rid d)
   | Pauses user aid \<Rightarrow> snd (pause user aid d)
   | Resumes user aid \<Rightarrow> snd (resume cron home user aid d)
   | Deletes user aid \<Rightarrow> snd (delete user aid d)
   | Records clean user aid rid \<Rightarrow> snd (record_artifact clean user aid rid d)
   | Sweeps c \<Rightarrow> perform_sweep c d)"

end
