(* ===== verification/Histories.thy ===== *)
theory Histories
  imports Main
begin

text \<open>
  The interface between a component that is a function of its operations and an invariant that each of them
  keeps: what is proved of one step holds after any history of allowed operations, and of every
  state on the way.
\<close>

locale kept_by_steps =
  fixes step :: "'op \<Rightarrow> 's \<Rightarrow> 's"
    and ok :: "'s \<Rightarrow> bool"
    and allowed :: "'op \<Rightarrow> bool"
  assumes keeps: "ok s \<Longrightarrow> allowed op \<Longrightarrow> ok (step op s)"
begin

lemma history_ok:
  assumes "ok s" "list_all allowed ops"
  shows "ok (fold step ops s)"
  using assms by (induction ops arbitrary: s) (auto intro: keeps)

lemma history_prefix_ok:
  assumes "ok s" "list_all allowed (ops @ rest)"
  shows "ok (fold step ops s)"
  using assms by (intro history_ok) auto

end

end
