(* ===== verification/AutoFacts.thy ===== *)
theory AutoFacts
  imports AutoRunner Histories
begin

text \<open>
  What every operation of the automations keeps of their tables: the runs' keys, the constraint on
  events, the statuses, and that a run which is no longer active has an end.
\<close>

section \<open>The invariant\<close>

definition run_statuses :: "string list" where
  "run_statuses = active_run_statuses @ terminal_run_statuses @ [''auto_paused_notice'']"

definition run_ok :: "auto_run \<Rightarrow> bool" where
  "run_ok r = (ar_status r \<in> set run_statuses \<and> (is_active_run r \<or> ar_completed r \<noteq> None))"

definition event_keys :: "auto_run list \<Rightarrow> (string \<times> string option) list" where
  "event_keys rs = map (\<lambda>r. (ar_automation r, ar_event r)) (filter (\<lambda>r. ar_event r \<noteq> None) rs)"

definition table_ok :: "auto_run list \<Rightarrow> nat \<Rightarrow> bool" where
  "table_ok rs n = (distinct (map ar_id rs) \<and> list_all (\<lambda>r. ar_id r < n \<and> run_ok r) rs \<and> distinct (event_keys rs))"

definition autos_ok :: "autos \<Rightarrow> bool" where
  "autos_ok d = table_ok (au_runs d) (au_next_id d)"

text \<open>An assignment that leaves the keys alone and turns a good run into a good run.\<close>

definition assign_ok :: "(auto_run \<Rightarrow> auto_run) \<Rightarrow> bool" where
  "assign_ok f = (\<forall>r. ar_id (f r) = ar_id r \<and> ar_automation (f r) = ar_automation r \<and> ar_event (f r) = ar_event r
     \<and> (run_ok r \<longrightarrow> run_ok (f r)))"

lemma assign_okI:
  assumes "\<And>r. ar_id (f r) = ar_id r" "\<And>r. ar_automation (f r) = ar_automation r" "\<And>r. ar_event (f r) = ar_event r"
    and "\<And>r. run_ok r \<Longrightarrow> run_ok (f r)"
  shows "assign_ok f"
  using assms unfolding assign_ok_def by blast

lemma autos_ok_cong: "au_runs d' = au_runs d \<Longrightarrow> au_next_id d' = au_next_id d \<Longrightarrow> autos_ok d' = autos_ok d"
  by (simp add: autos_ok_def)

lemma autos_ok_other [simp]:
  "autos_ok (d\<lparr>au_rows := v\<rparr>) = autos_ok d"
  "autos_ok (d\<lparr>au_queue := q\<rparr>) = autos_ok d"
  "autos_ok (d\<lparr>au_active := a\<rparr>) = autos_ok d"
  "autos_ok (d\<lparr>au_turns := t\<rparr>) = autos_ok d"
  "autos_ok (d\<lparr>au_clock := k\<rparr>) = autos_ok d"
  by (simp_all add: autos_ok_def)

lemma autos_ok_glue [simp]:
  "autos_ok (write_row i f d) = autos_ok d"
  "autos_ok (enqueue_auto i r u d) = autos_ok d"
  "autos_ok (pop_active i d) = autos_ok d"
  "autos_ok (set_active i u d) = autos_ok d"
  "autos_ok (spawn_turn t d) = autos_ok d"
  "autos_ok (advance_schedule cron home row at d) = autos_ok d"
  by (simp_all add: write_row_def enqueue_auto_def pop_active_def set_active_def spawn_turn_def advance_schedule_def)

lemma autos_ok_replace:
  assumes "autos_ok d" "assign_ok f"
  shows "autos_ok (replace_run i f d)"
proof -
  define g where "g r = (if ar_id r = i then f r else r)" for r
  have key: "ar_id (g r) = ar_id r" "ar_automation (g r) = ar_automation r" "ar_event (g r) = ar_event r"
    and good: "run_ok r \<Longrightarrow> run_ok (g r)" for r
    using assms(2) unfolding assign_ok_def g_def by auto
  have "map ar_id (map g rs) = map ar_id rs" for rs by (simp add: key)
  moreover have "event_keys (map g rs) = event_keys rs" for rs
    unfolding event_keys_def by (induction rs) (auto simp add: key)
  moreover have "list_all (\<lambda>r. ar_id r < n \<and> run_ok r) (map g rs)" if "list_all (\<lambda>r. ar_id r < n \<and> run_ok r) rs" for n rs
    using that by (induction rs) (auto simp add: key good)
  moreover have "replace_run i f d = d\<lparr>au_runs := map g (au_runs d)\<rparr>"
    unfolding replace_run_def g_def ..
  ultimately show ?thesis
    using assms(1) unfolding autos_ok_def table_ok_def by (simp del: map_map list.map_comp)
qed

lemma distinct_event_keys_filter:
  assumes "distinct (event_keys rs)"
  shows "distinct (event_keys (filter P rs))"
proof -
  have "filter Q (filter P rs) = filter P (filter Q rs)" for Q
    by (induction rs) auto
  then show ?thesis
    using assms unfolding event_keys_def by (simp only: distinct_map_filter)
qed

lemma autos_ok_filter:
  "autos_ok d \<Longrightarrow> autos_ok (d\<lparr>au_runs := filter P (au_runs d)\<rparr>)"
  unfolding autos_ok_def table_ok_def
  by (simp add: list_all_iff distinct_map_filter distinct_event_keys_filter)

lemma autos_ok_trim [simp]: "autos_ok d \<Longrightarrow> autos_ok (trim_runs u a k d)"
  unfolding trim_runs_def Let_def by (rule autos_ok_filter)

lemma autos_ok_create:
  assumes ok: "autos_ok d" and run: "run_ok run" and made: "create_auto_run run d = Some (rid, d1)"
  shows "autos_ok d1"
proof -
  let ?r = "run\<lparr>ar_id := au_next_id d\<rparr>"
  have d1: "d1 = d\<lparr>au_runs := au_runs d @ [?r], au_next_id := au_next_id d + 1\<rparr>"
    and fresh: "ar_event run \<noteq> None \<Longrightarrow>
      \<not> list_ex (\<lambda>r. ar_automation r = ar_automation run \<and> ar_event r = ar_event run) (au_runs d)"
    using made unfolding create_auto_run_def by (auto split: if_splits)
  have good: "run_ok ?r" using run unfolding run_ok_def is_active_run_def by simp
  have ids: "distinct (map ar_id (au_runs d))" and all: "list_all (\<lambda>r. ar_id r < au_next_id d \<and> run_ok r) (au_runs d)"
    and keys: "distinct (event_keys (au_runs d))"
    using ok unfolding autos_ok_def table_ok_def by auto
  have "distinct (map ar_id (au_runs d @ [?r]))"
    using ids all by (auto simp: list_all_iff)
  moreover have "list_all (\<lambda>r. ar_id r < au_next_id d + 1 \<and> run_ok r) (au_runs d @ [?r])"
    using all good by (auto simp: list_all_iff)
  moreover have "distinct (event_keys (au_runs d @ [?r]))"
    using keys fresh unfolding event_keys_def by (auto simp: list_ex_iff)
  ultimately show ?thesis unfolding autos_ok_def table_ok_def d1 by simp
qed

section \<open>The assignments of the code\<close>

lemmas status_defs = run_statuses_def active_run_statuses_def terminal_run_statuses_def is_active_run_def

lemma run_ok_new: "run_ok (new_run u row t ''queued'' at)"
  by (simp add: run_ok_def new_run_def status_defs)

lemma run_ok_ended:
  assumes "ar_status r \<in> set terminal_run_statuses \<or> ar_status r = ''auto_paused_notice''" "ar_completed r \<noteq> None"
  shows "run_ok r"
  using assms by (auto simp: run_ok_def status_defs)

lemma run_ok_running: "ar_status r = ''running'' \<Longrightarrow> run_ok r"
  by (simp add: run_ok_def status_defs)

lemma run_ok_same: "ar_status r' = ar_status r \<Longrightarrow> ar_completed r' = ar_completed r \<Longrightarrow> run_ok r \<Longrightarrow> run_ok r'"
  by (simp add: run_ok_def is_active_run_def)

lemma terminal_literals [simp]:
  "''success'' \<in> set terminal_run_statuses" "''failed'' \<in> set terminal_run_statuses"
  "''timeout'' \<in> set terminal_run_statuses" "''cancelled'' \<in> set terminal_run_statuses"
  "''skipped'' \<in> set terminal_run_statuses" "''interrupted_by_shutdown'' \<in> set terminal_run_statuses"
  by (simp_all add: terminal_run_statuses_def)

lemma terminal_refusal [simp]: "refusal b \<in> set terminal_run_statuses"
  by (simp add: refusal_def)

lemma terminal_program [simp]: "program_status e \<in> set terminal_run_statuses"
  by (simp add: program_status_def split: program_end.splits)

lemma terminal_chat: "fst (chat_status row fresh reply) \<in> set terminal_run_statuses"
  by (simp add: chat_status_def split: sum.splits option.splits)

lemma terminal_judged:
  assumes "fst x \<in> set terminal_run_statuses"
  shows "fst (judge_input r x) \<in> set terminal_run_statuses"
  using assms by (simp add: judge_input_def split_def)

lemma terminal_input: "fst (judge_input r (input_status e)) \<in> set terminal_run_statuses"
  by (rule terminal_judged) (simp add: input_status_def split: input_end.splits)

text \<open>The three kinds of writes: a run ends, it is running, or other columns change.\<close>

lemma autos_ok_end:
  assumes "autos_ok d" "\<And>r. ar_id (f r) = ar_id r" "\<And>r. ar_automation (f r) = ar_automation r"
    "\<And>r. ar_event (f r) = ar_event r" "\<And>r. ar_status (f r) \<in> set terminal_run_statuses" "\<And>r. ar_completed (f r) \<noteq> None"
  shows "autos_ok (replace_run i f d)"
  by (intro autos_ok_replace assign_okI run_ok_ended disjI1) (simp_all only: assms simp_thms)

lemma autos_ok_running:
  assumes "autos_ok d" "\<And>r. ar_id (f r) = ar_id r" "\<And>r. ar_automation (f r) = ar_automation r"
    "\<And>r. ar_event (f r) = ar_event r" "\<And>r. ar_status (f r) = ''running''"
  shows "autos_ok (replace_run i f d)"
  using assms by (intro autos_ok_replace assign_okI) (auto intro: run_ok_running)

lemma autos_ok_columns:
  assumes "autos_ok d" "\<And>r. ar_id (f r) = ar_id r" "\<And>r. ar_automation (f r) = ar_automation r"
    "\<And>r. ar_event (f r) = ar_event r" "\<And>r. ar_status (f r) = ar_status r" "\<And>r. ar_completed (f r) = ar_completed r"
  shows "autos_ok (replace_run i f d)"
  using assms by (intro autos_ok_replace assign_okI) (auto intro: run_ok_same)

lemma autos_ok_fold: "(\<And>x d. autos_ok d \<Longrightarrow> autos_ok (f x d)) \<Longrightarrow> autos_ok d \<Longrightarrow> autos_ok (fold f xs d)"
  by (induction xs arbitrary: d) auto

section \<open>Every operation keeps it\<close>

lemma autos_ok_fail_run [simp]: "autos_ok d \<Longrightarrow> autos_ok (fail_run c i d)"
  unfolding fail_run_def by (rule autos_ok_end) simp_all

lemma autos_ok_startup:
  assumes "autos_ok d"
  shows "autos_ok (startup cron home receipts d)"
proof -
  have reconcile: "autos_ok (reconcile_run receipts now r d)" if "autos_ok d" for now r d
    using that unfolding reconcile_run_def mark_interrupted_def by (auto intro!: autos_ok_end)
  have missed: "autos_ok (mark_missed cron home now row d)" if ok: "autos_ok d" for now row d
  proof -
    let ?at = "case av_next row of None \<Rightarrow> now | Some n \<Rightarrow> if n = 0 then now else n"
    let ?run = "(new_run (av_user row) row ''recovered_skip'' ''skipped'' ?at)
            \<lparr>ar_completed := Some now, ar_error := Some ''AUTOMATION_MISSED_WHILE_OFFLINE''\<rparr>"
    have "run_ok ?run" by (rule run_ok_ended) (simp_all add: new_run_def)
    then have "autos_ok d1" if "create_auto_run ?run d = Some (rid, d1)" for rid d1
      using autos_ok_create [OF ok] that by blast
    then show ?thesis
      using ok unfolding mark_missed_def Let_def by (auto split: option.splits)
  qed
  show ?thesis
    unfolding startup_def mark_missed_runs_def reconcile_stranded_runs_def
    using assms by (intro autos_ok_fold missed reconcile) simp_all
qed

lemma autos_ok_shutdown: "autos_ok d \<Longrightarrow> autos_ok (shutdown receipts d)"
  unfolding shutdown_def
  by (auto intro!: autos_ok_fold autos_ok_end simp: interrupt_active_def split: option.splits)

lemma autos_ok_queue_new:
  assumes ok: "autos_ok d" and run: "run_ok run"
    and made: "(case create_auto_run run d of None \<Rightarrow> d | Some (rid, d1) \<Rightarrow> enqueue_auto i rid u d1) = d'"
  shows "autos_ok d'"
  using made ok autos_ok_create [OF ok run] by (auto split: option.splits)

lemma autos_ok_fire_due: "autos_ok d \<Longrightarrow> autos_ok (fire_due now row d)"
  unfolding fire_due_def Let_def by (auto intro: autos_ok_queue_new [OF _ run_ok_new])

lemma autos_ok_check_due: "autos_ok d \<Longrightarrow> autos_ok (check_due_tasks d)"
  unfolding check_due_tasks_def Let_def by (intro autos_ok_fold autos_ok_fire_due)

lemma autos_ok_enqueue_run:
  assumes "autos_ok d" "enqueue_run u row t e d = Some (rid, d1)"
  shows "autos_ok d1"
proof -
  have "run_ok ((new_run u row t ''queued'' (au_clock d))\<lparr>ar_event := e\<rparr>)"
    by (rule run_ok_same [OF _ _ run_ok_new]) simp_all
  then show ?thesis
    using assms autos_ok_create [OF assms(1)] unfolding enqueue_run_def by (auto split: option.splits)
qed

lemma autos_ok_deny: "autos_ok d \<Longrightarrow> autos_ok (deny_run cron home (refusal b) reason row r d)"
  unfolding deny_run_def
  by (intro autos_ok_trim, simp only: autos_ok_glue, rule autos_ok_end) simp_all

lemma autos_ok_admit: "autos_ok d \<Longrightarrow> autos_ok (snd (admit_run cron home ev u a i d))"
  unfolding admit_run_def Let_def
  by (auto intro: autos_ok_deny split: option.splits guard_answer.splits)

lemma autos_ok_start: "autos_ok d \<Longrightarrow> autos_ok (start_run ev u a i d)"
  unfolding start_run_def Let_def
  by (auto intro!: autos_ok_running split: option.splits)

lemma autos_ok_work:
  assumes "autos_ok d"
  shows "autos_ok (work cron home ev d)"
proof -
  have "autos_ok (execute_run cron home ev u a i d)" if "autos_ok d" for u a i d
    using autos_ok_admit [OF that, of cron home ev u a i] unfolding execute_run_def
    by (auto intro: autos_ok_start split: prod.splits bool.splits)
  then show ?thesis
    using assms unfolding work_def by (auto split: list.splits)
qed

lemma autos_ok_ended_run:
  assumes "autos_ok d" "fst sc \<in> set terminal_run_statuses"
  shows "autos_ok (case sc of (status, code) \<Rightarrow> replace_run i (\<lambda>x. x\<lparr>ar_status := status, ar_error := code,
    ar_completed := Some now, ar_duration := g x\<rparr>) d)"
  using assms by (auto intro!: autos_ok_end split: prod.splits)

lemma autos_ok_finish_task:
  assumes "autos_ok d"
  shows "autos_ok (finish_task_kickoff cron home row r k d)"
proof (cases k)
  case (Inl e)
  then show ?thesis
    using assms unfolding finish_task_kickoff_def by (auto intro!: autos_ok_columns)
next
  case (Inr lead)
  then show ?thesis
    using assms unfolding finish_task_kickoff_def Let_def
    by (auto intro!: autos_ok_trim autos_ok_end)
qed

lemma autos_ok_finish_session: "autos_ok d \<Longrightarrow> autos_ok (finish_session_start row r s d)"
  unfolding finish_session_start_def
  by (auto intro!: autos_ok_running split: sum.splits)

lemma autos_ok_begin_chat: "autos_ok d \<Longrightarrow> autos_ok (begin_chat u a i s d)"
  unfolding begin_chat_def by (auto split: option.splits)

lemma autos_ok_finish_chat:
  assumes "autos_ok d"
  shows "autos_ok (finish_chat_run cron home row r reply d)"
proof (cases "get_auto_run (av_user row) (av_id row) (ar_id r) d")
  case (Some fresh)
  obtain s c where sc: "chat_status row fresh reply = (s, c)" by fastforce
  then have "s \<in> set terminal_run_statuses" using terminal_chat [of row fresh reply] by simp
  with assms show ?thesis
    unfolding finish_chat_run_def Some option.case Let_def sc prod.case autos_ok_glue
    by (intro autos_ok_trim, simp only: autos_ok_glue, intro autos_ok_end) simp_all
qed (use assms in \<open>simp add: finish_chat_run_def\<close>)

lemma autos_ok_finish_existing:
  assumes "autos_ok d"
  shows "autos_ok (finish_existing_chat_run cron home u a i sid e d)"
proof -
  have "autos_ok (replace_run i (\<lambda>x. x\<lparr>ar_status := s, ar_error := c, ar_completed := Some now,
      ar_duration := k, ar_session := Some sid\<rparr>) (pop_active a d))" if "s \<in> set terminal_run_statuses" for s c now k
    using assms that by (intro autos_ok_end) simp_all
  moreover have "s \<in> set terminal_run_statuses" if "judge_input r (input_status e) = (s, c)" for r s c
    using terminal_input [of r e] that by simp
  ultimately show ?thesis
    using assms unfolding finish_existing_chat_run_def Let_def
    by (simp split: option.splits prod.splits)
qed

lemma autos_ok_finish_code: "autos_ok d \<Longrightarrow> autos_ok (finish_code_run cron home u a i (e, c, v) d)"
  unfolding finish_code_run_def Let_def prod.case autos_ok_glue
  by (auto intro!: autos_ok_trim autos_ok_end split: option.splits)

lemma autos_ok_link: "autos_ok d \<Longrightarrow> autos_ok (link_lead_session u a i l d)"
  unfolding link_lead_session_def by (auto intro!: autos_ok_columns split: option.splits)

lemma autos_ok_run_turn:
  "autos_ok d \<Longrightarrow> run_turn cron home t out d = Some d1 \<Longrightarrow> autos_ok d1"
  unfolding run_turn_def
  by (cases t; cases out)
    (auto intro: autos_ok_finish_task autos_ok_finish_session autos_ok_begin_chat autos_ok_finish_chat
       autos_ok_finish_existing autos_ok_finish_code autos_ok_link split: if_splits)

lemma autos_ok_background: "autos_ok d \<Longrightarrow> autos_ok (background cron home n out d)"
  unfolding background_def by (auto split: option.splits dest: autos_ok_run_turn [rotated])

lemma autos_ok_run_now: "autos_ok d \<Longrightarrow> autos_ok (snd (run_now denied bad t src u a d))"
  unfolding run_now_def by (auto split: option.splits dest: autos_ok_enqueue_run)

lemma autos_ok_fire_rows: "autos_ok d \<Longrightarrow> autos_ok (snd (fire_rows e rows d))"
  by (induction rows arbitrary: d) (auto split: option.splits dest: autos_ok_enqueue_run)

lemma autos_ok_cancel:
  assumes "autos_ok d"
  shows "autos_ok (snd (cancel_run u a i d))"
proof -
  have "autos_ok (replace_run i (\<lambda>x. x\<lparr>ar_status := ''cancelled'', ar_error := e, ar_cancel := c, ar_completed := Some n\<rparr>) d)"
    and "autos_ok (replace_run i (\<lambda>x. x\<lparr>ar_cancel := c\<rparr>) d)" for e c n
    using assms by (auto intro: autos_ok_end autos_ok_columns)
  with assms show ?thesis
    unfolding cancel_run_def Let_def by (simp split: option.splits)
qed

lemma autos_ok_record: "autos_ok d \<Longrightarrow> autos_ok (snd (record_artifact v u a i d))"
  unfolding record_artifact_def by (auto intro!: autos_ok_columns split: option.splits)

lemma autos_ok_delete: "autos_ok d \<Longrightarrow> autos_ok (delete_automation u a d)"
  unfolding delete_automation_def using autos_ok_filter by (simp add: autos_ok_def)

lemma autos_ok_pause_offender:
  assumes ok: "autos_ok d"
  shows "autos_ok (pause_offender now row d)"
proof -
  have "run_ok ((new_run u a ''system'' ''auto_paused_notice'' now)\<lparr>ar_completed := Some now, ar_duration := Some 0,
      ar_error := Some ''HIGH_FAILURE_RATE''\<rparr>)" for u a
    by (rule run_ok_ended) (simp_all add: new_run_def)
  then have "autos_ok d1" if "create_auto_run ((new_run u a ''system'' ''auto_paused_notice'' now)
     \<lparr>ar_completed := Some now, ar_duration := Some 0, ar_error := Some ''HIGH_FAILURE_RATE''\<rparr>) (write_row i f d) = Some (k, d1)"
    for u a i f k d1
    using autos_ok_create [OF _ _ that] ok by simp
  then show ?thesis
    using ok unfolding pause_offender_def Let_def by (auto split: option.splits)
qed

lemma autos_ok_step: "autos_ok d \<Longrightarrow> autos_ok (auto_step cron home op d)"
  unfolding auto_step_def
  by (cases op)
    (auto simp: fire_from_event_def pause_def resume_def delete_def perform_sweep_def Let_def
       intro: autos_ok_startup autos_ok_shutdown autos_ok_check_due autos_ok_work autos_ok_background autos_ok_run_now
         autos_ok_fire_rows autos_ok_cancel autos_ok_record autos_ok_delete autos_ok_fold autos_ok_pause_offender
       split: option.splits)

interpretation au: kept_by_steps "auto_step cron home" autos_ok "\<lambda>_. True" for cron home
  by unfold_locales (rule autos_ok_step)

end
