(* ===== verification/AutoSchedule.thy ===== *)
theory AutoSchedule
  imports AutoFacts
begin

text \<open>
  What the sweeps over all automations come to: the tick, the recovery at boot, and the failure
  monitor, each described by the tables it leaves.
\<close>

section \<open>The tick\<close>

definition tick_trigger :: "automation \<Rightarrow> string" where
  "tick_trigger row = (if av_trigger row = ''cron'' \<or> av_trigger row = ''interval'' then av_trigger row else ''cron'')"

definition fires :: "int \<Rightarrow> autos \<Rightarrow> automation \<Rightarrow> bool" where
  "fires now d row = (is_due row now \<and> av_id row \<notin> fst ` set (au_active d))"

text \<open>The runs the tick adds, numbered from \<open>n\<close>, and the queue entries for them.\<close>

primrec tick_runs :: "int \<Rightarrow> nat \<Rightarrow> automation list \<Rightarrow> auto_run list" where
  "tick_runs now n [] = []"
| "tick_runs now n (a # as) =
     (new_run (av_user a) a (tick_trigger a) ''queued'' now)\<lparr>ar_id := n\<rparr> # tick_runs now (Suc n) as"

definition queue_entry :: "auto_run \<Rightarrow> string \<times> nat \<times> string" where
  "queue_entry r = (ar_automation r, ar_id r, ar_user r)"

lemma length_tick_runs [simp]: "length (tick_runs now n as) = length as"
  by (induction as arbitrary: n) auto

lemma new_run_event [simp]: "ar_event (new_run u a t s at) = None"
  by (simp add: new_run_def)

lemma create_without_event:
  "ar_event run = None \<Longrightarrow> create_auto_run run d =
     Some (au_next_id d, d\<lparr>au_runs := au_runs d @ [run\<lparr>ar_id := au_next_id d\<rparr>], au_next_id := au_next_id d + 1\<rparr>)"
  by (simp add: create_auto_run_def)

lemma fire_due_eq:
  "fire_due now row d = (if fires now d row
     then d\<lparr>au_runs := au_runs d @ tick_runs now (au_next_id d) [row], au_next_id := au_next_id d + 1,
            au_queue := au_queue d @ map queue_entry (tick_runs now (au_next_id d) [row])\<rparr>
     else d)"
  by (simp add: fire_due_def fires_def create_without_event tick_trigger_def enqueue_auto_def queue_entry_def new_run_def)

lemma fires_other [simp]: "fires now (d\<lparr>au_runs := a, au_next_id := n, au_queue := q\<rparr>) = fires now d"
  by (rule ext) (simp add: fires_def)

lemma fold_fire_due:
  "fold (fire_due now) rows d = (let new = tick_runs now (au_next_id d) (filter (fires now d) rows) in
     d\<lparr>au_runs := au_runs d @ new, au_next_id := au_next_id d + length new, au_queue := au_queue d @ map queue_entry new\<rparr>)"
  by (induction rows arbitrary: d) (simp_all add: fire_due_eq Let_def)

section \<open>Boot\<close>

lemma reconcile_rows [simp]: "au_rows (reconcile_run rc now r d) = au_rows d"
  by (simp add: reconcile_run_def enqueue_auto_def mark_interrupted_def replace_run_def)

lemma reconcile_clock [simp]: "au_clock (reconcile_run rc now r d) = au_clock d"
  by (simp add: reconcile_run_def enqueue_auto_def mark_interrupted_def replace_run_def)

lemma is_recoverable_rows: "au_rows d' = au_rows d \<Longrightarrow> is_recoverable rc d' r = is_recoverable rc d r"
  by (simp add: is_recoverable_def get_automation_def)

lemma fold_reconcile_rows [simp]:
  "au_rows (fold (reconcile_run rc now) rs d) = au_rows d"
  "au_clock (fold (reconcile_run rc now) rs d) = au_clock d"
  by (induction rs arbitrary: d) auto

lemma reconcile_active:
  assumes "x \<in> set (au_runs (reconcile_run rc now r d))" "is_active_run x"
  shows "x \<in> set (au_runs d) \<and> (ar_id r = ar_id x \<longrightarrow> is_recoverable rc d r)"
proof (cases "is_recoverable rc d r")
  case True
  then show ?thesis using assms(1) by (simp add: reconcile_run_def enqueue_auto_def)
next
  case False
  have "\<not> is_active_run (y\<lparr>ar_status := ''interrupted_by_shutdown'', ar_error := e, ar_completed := c, ar_duration := k\<rparr>)"
    for y e c k by (simp add: is_active_run_def active_run_statuses_def)
  then show ?thesis
    using assms False unfolding reconcile_run_def mark_interrupted_def replace_run_def by (auto split: if_splits)
qed

lemma fold_reconcile_active:
  assumes "x \<in> set (au_runs (fold (reconcile_run rc now) rs d))" "is_active_run x"
  shows "x \<in> set (au_runs d)" "r \<in> set rs \<Longrightarrow> ar_id r = ar_id x \<Longrightarrow> is_recoverable rc d r"
proof -
  have "x \<in> set (au_runs d) \<and> (\<forall>r\<in>set rs. ar_id r = ar_id x \<longrightarrow> is_recoverable rc d r)"
    using assms
  proof (induction rs arbitrary: d)
    case (Cons r rs)
    then have "x \<in> set (au_runs (reconcile_run rc now r d))"
      and "\<forall>r'\<in>set rs. ar_id r' = ar_id x \<longrightarrow> is_recoverable rc d r'"
      using is_recoverable_rows [OF reconcile_rows [of rc now r d]] by auto
    then show ?case using reconcile_active Cons.prems(2) by auto
  qed simp
  then show "x \<in> set (au_runs d)" "r \<in> set rs \<Longrightarrow> ar_id r = ar_id x \<Longrightarrow> is_recoverable rc d r" by auto
qed

lemma fold_reconcile_queue:
  "au_queue (fold (reconcile_run rc now) rs d) = au_queue d @ map queue_entry (filter (is_recoverable rc d) rs)"
proof (induction rs arbitrary: d)
  case (Cons r rs)
  have "is_recoverable rc (reconcile_run rc now r d) = is_recoverable rc d"
    using is_recoverable_rows [OF reconcile_rows] by blast
  moreover have "au_queue (reconcile_run rc now r d)
      = au_queue d @ (if is_recoverable rc d r then [queue_entry r] else [])"
    by (simp add: reconcile_run_def enqueue_auto_def mark_interrupted_def replace_run_def queue_entry_def)
  ultimately show ?case using Cons by simp
qed simp

text \<open>The constraint of the table on intervals, and what a cron reading promises.\<close>

definition intervals_ok :: "automation list \<Rightarrow> bool" where
  "intervals_ok rows = list_all (\<lambda>a. av_trigger a \<noteq> ''interval''
     \<or> (case av_interval a of None \<Rightarrow> False | Some n \<Rightarrow> min_interval_seconds \<le> n)) rows"

definition cron_later :: "cron \<Rightarrow> bool" where
  "cron_later cron = (\<forall>e tz t n. cron e tz t = Some n \<longrightarrow> t < n)"

lemma next_fire_later:
  assumes "cron_later cron" "intervals_ok rows" "row \<in> set rows" "next_fire_at cron home row t = Some n"
  shows "t < n"
  using assms
  by (auto simp: next_fire_at_def cron_later_def intervals_ok_def list_all_iff min_interval_seconds_def Let_def
      split: if_splits option.splits)

lemma mark_missed_fields:
  "au_rows (mark_missed cron home now row d) = map (\<lambda>a. if av_id a = av_id row
     then a\<lparr>av_last := av_next row, av_next := next_fire_at cron home row now\<rparr> else a) (au_rows d)"
  "au_queue (mark_missed cron home now row d) = au_queue d"
  "au_clock (mark_missed cron home now row d) = au_clock d"
  "x \<in> set (au_runs (mark_missed cron home now row d)) \<Longrightarrow> is_active_run x \<Longrightarrow> x \<in> set (au_runs d)"
proof -
  have inactive: "\<not> is_active_run (new_run u a t ''skipped'' at\<lparr>ar_completed := c, ar_error := e, ar_id := i\<rparr>)"
    for u a t at c e i by (simp add: is_active_run_def active_run_statuses_def new_run_def)
  show "x \<in> set (au_runs (mark_missed cron home now row d)) \<Longrightarrow> is_active_run x \<Longrightarrow> x \<in> set (au_runs d)"
    using inactive by (auto simp: mark_missed_def Let_def create_without_event write_row_def)
qed (simp_all add: mark_missed_def Let_def create_without_event write_row_def)

definition overdue :: "int \<Rightarrow> automation \<Rightarrow> bool" where
  "overdue now a = (av_status a = ''enabled'' \<and> (case av_next a of None \<Rightarrow> False | Some n \<Rightarrow> n \<le> now))"

lemma find_due_set: "set (find_due_automations now d) = {a \<in> set (au_rows d). overdue now a}"
  by (auto simp: find_due_automations_def overdue_def)

lemma fold_missed_fields:
  "au_queue (fold (mark_missed cron home now) rows d) = au_queue d"
  "au_clock (fold (mark_missed cron home now) rows d) = au_clock d"
  "x \<in> set (au_runs (fold (mark_missed cron home now) rows d)) \<Longrightarrow> is_active_run x \<Longrightarrow> x \<in> set (au_runs d)"
proof -
  show "au_queue (fold (mark_missed cron home now) rows d) = au_queue d"
    by (induction rows arbitrary: d) (simp_all add: mark_missed_fields(2))
  show "au_clock (fold (mark_missed cron home now) rows d) = au_clock d"
    by (induction rows arbitrary: d) (simp_all add: mark_missed_fields(3))
  show "x \<in> set (au_runs (fold (mark_missed cron home now) rows d)) \<Longrightarrow> is_active_run x \<Longrightarrow> x \<in> set (au_runs d)"
    by (induction rows arbitrary: d) (auto dest: mark_missed_fields(4))
qed

lemma fold_missed_overdue:
  assumes later: "\<And>row n. row \<in> set rows \<Longrightarrow> next_fire_at cron home row now = Some n \<Longrightarrow> now < n"
    and a: "a \<in> set (au_rows (fold (mark_missed cron home now) rows d))" "overdue now a"
  shows "a \<in> set (au_rows d) \<and> av_id a \<notin> av_id ` set rows"
  using assms
proof (induction rows arbitrary: d)
  case (Cons row rows)
  then have "a \<in> set (au_rows (mark_missed cron home now row d))" "av_id a \<notin> av_id ` set rows" by auto
  moreover have "now < n" if "next_fire_at cron home row now = Some n" for n
    by (rule Cons.prems(1) [OF _ that]) simp
  ultimately show ?case
    using Cons.prems(3) by (auto simp: mark_missed_fields overdue_def split: if_splits option.splits)
qed simp

section \<open>The failure monitor\<close>

definition paused_row :: "automation \<Rightarrow> automation" where
  "paused_row a = a\<lparr>av_status := ''paused'', av_next := None\<rparr>"

lemma paused_row_id: "av_id (paused_row a) = av_id a"
  by (simp add: paused_row_def)

lemma paused_row_twice: "paused_row (paused_row a) = paused_row a"
  by (simp add: paused_row_def)

lemma write_row_pause: "au_rows (write_row i (\<lambda>a. a\<lparr>av_status := ''paused'', av_next := None\<rparr>) d)
    = map (\<lambda>a. if av_id a = i then paused_row a else a) (au_rows d)"
  by (simp add: write_row_def paused_row_def)

lemma get_automation_unique:
  assumes "distinct (map av_id (au_rows d))" "a \<in> set (au_rows d)"
  shows "get_automation (av_user a) (av_id a) d = Some a"
proof -
  obtain b where b: "get_automation (av_user a) (av_id a) d = Some b"
    using assms(2) by (cases "get_automation (av_user a) (av_id a) d") (auto simp: get_automation_def find_None_iff)
  then have "b \<in> set (au_rows d)" "av_id b = av_id a"
    by (auto simp: get_automation_def find_Some_iff)
  then show ?thesis using b assms by (metis distinct_map inj_on_def)
qed

lemma pause_offender_rows:
  assumes "distinct (map av_id (au_rows d))" "a \<in> set (au_rows d)" "av_status a = ''enabled''"
  shows "au_rows (pause_offender now a d) = map (\<lambda>x. if av_id x = av_id a then paused_row x else x) (au_rows d)"
  using assms
  by (simp add: pause_offender_def get_automation_unique Let_def create_without_event write_row_pause)

lemma fold_pause_rows:
  assumes "distinct (map av_id (au_rows d))" "distinct (map av_id rows)" "set rows \<subseteq> set (au_rows d)"
    "list_all (\<lambda>a. av_status a = ''enabled'') rows"
  shows "au_rows (fold (pause_offender now) rows d)
    = map (\<lambda>a. if av_id a \<in> av_id ` set rows then paused_row a else a) (au_rows d)"
  using assms
proof (induction rows arbitrary: d)
  case (Cons row rows)
  define f where "f x = (if av_id x = av_id row then paused_row x else x)" for x
  have id: "av_id (f x) = av_id x" for x by (simp add: f_def paused_row_id)
  have d1: "au_rows (pause_offender now row d) = map f (au_rows d)"
    using Cons.prems unfolding f_def [abs_def] by (intro pause_offender_rows) auto
  have keys: "map av_id (map f (au_rows d)) = map av_id (au_rows d)" by (simp add: id)
  have sub: "set rows \<subseteq> set (map f (au_rows d))"
  proof
    fix x assume x: "x \<in> set rows"
    then have "av_id x \<in> av_id ` set rows" by simp
    then have "x = f x" using Cons.prems(2) unfolding f_def by auto
    moreover have "x \<in> set (au_rows d)" using x Cons.prems(3) by auto
    ultimately have "x \<in> f ` set (au_rows d)" by (rule image_eqI)
    then show "x \<in> set (map f (au_rows d))" by (simp only: set_map)
  qed
  have "au_rows (fold (pause_offender now) rows (pause_offender now row d))
      = map (\<lambda>a. if av_id a \<in> av_id ` set rows then paused_row a else a) (map f (au_rows d))"
    unfolding d1 [symmetric]
    by (rule Cons.IH) (use Cons.prems keys sub in \<open>simp_all add: d1 del: map_map list.map_comp\<close>)
  moreover have "(if av_id (f x) \<in> av_id ` set rows then paused_row (f x) else f x)
      = (if av_id x \<in> av_id ` set (row # rows) then paused_row x else x)" for x
    by (cases "av_id x = av_id row") (simp_all add: f_def paused_row_id paused_row_twice)
  ultimately show ?case by (simp only: fold_simps list.map_comp comp_def)
qed simp

end
