(* ===== verification/AutoProperties.thy ===== *)
theory AutoProperties
  imports AutoSchedule
begin

text \<open>
  The properties of the automations, concrete schedules, and the schedules that show where the code
  departs from what it says.
\<close>

section \<open>Any history\<close>

definition auto_steps :: "cron \<Rightarrow> string \<Rightarrow> auto_op list \<Rightarrow> autos \<Rightarrow> autos" where
  "auto_steps cron home ops d = fold (auto_step cron home) ops d"

section \<open>A small host\<close>

definition every_minute :: cron where
  "every_minute = (\<lambda>expr tz t. if tz = ''nowhere'' then None else Some (t + 60000))"

definition brief :: automation where
  "brief = \<lparr>av_id = ''brief'', av_user = ''u'', av_project = ''p'', av_status = ''enabled'', av_trigger = ''interval'',
     av_cron = None, av_timezone = None, av_interval = Some 60, av_event_source = None, av_event_refs = [],
     av_action = ''chat'', av_execution = ''agent'', av_result = ''conversation'', av_target = None,
     av_playbook = None, av_next = Some 60000, av_last = None, av_created = 0\<rparr>"

definition mail :: automation where
  "mail = brief\<lparr>av_id := ''mail'', av_trigger := ''event'', av_interval := None, av_next := None,
     av_event_source := Some ''inbox'', av_event_refs := [''me'']\<rparr>"

definition small_host :: autos where
  "small_host = \<lparr>au_rows = [brief, mail], au_runs = [], au_next_id = 0, au_clock = 60000, au_queue = [],
     au_active = [], au_turns = []\<rparr>"

definition no_receipts :: receipts where
  "no_receipts = (\<lambda>s i. None)"

definition plain_env :: exec_env where
  "plain_env = \<lparr>ev_guard = NoGuards, ev_receipts = no_receipts, ev_withdrawn = False, ev_receipts_after = no_receipts,
     ev_denied = None, ev_prepare = None, ev_playbook = None\<rparr>"

section \<open>The tables stay well formed\<close>

text \<open>Property C32: from tables that are well formed, whatever boots, ticks, deliveries, requests, turns and
  sweeps follow one another leaves them so: the runs have distinct ids below the next one, no automation
  has two runs for one event, every status is one of the declared ones, and a run that is neither queued
  nor running has an end.
\<close>
theorem automations_stay_well_formed:
  assumes "autos_ok d"
  shows "autos_ok (auto_steps cron home ops d)"
  unfolding auto_steps_def using assms by (rule au.history_ok) (simp add: list_all_iff)

theorem automations_stay_well_formed_witness:
  "autos_ok (auto_steps every_minute ''UTC'' [Ticks, Works plain_env, Delivers (Some (''inbox'', [''me''], ''e1'')),
     Continues 0 (Created (Inr ''s1'')), Reboots no_receipts] small_host)
   \<and> map ar_status (au_runs (auto_steps every_minute ''UTC'' [Ticks, Works plain_env,
     Delivers (Some (''inbox'', [''me''], ''e1'')), Continues 0 (Created (Inr ''s1'')), Reboots no_receipts] small_host))
     = [''interrupted_by_shutdown'', ''interrupted_by_shutdown'', ''skipped'']"
proof -
  have "autos_ok small_host" by code_simp
  from automations_stay_well_formed [OF this, of every_minute "''UTC''" "[Ticks, Works plain_env,
      Delivers (Some (''inbox'', [''me''], ''e1'')), Continues 0 (Created (Inr ''s1'')), Reboots no_receipts]"]
  show ?thesis by (intro conjI, assumption) code_simp
qed

section \<open>Boot\<close>

text \<open>
  A run may be carried on after a restart when an input of its session carries its id, or when
  its automation writes into a session that exists already.
\<close>

definition carries_on :: "receipts \<Rightarrow> autos \<Rightarrow> auto_run \<Rightarrow> bool" where
  "carries_on receipts d r \<longleftrightarrow>
     (case ar_session r of None \<Rightarrow> False | Some s \<Rightarrow> s \<noteq> [] \<and> receipts s (ar_id r) \<noteq> None)
   \<or> (case List.find (\<lambda>a. av_id a = ar_automation r \<and> av_user a = ar_user r) (au_rows d) of
        None \<Rightarrow> False | Some a \<Rightarrow> av_target a \<notin> {None, Some []})"

lemma is_recoverable_carries_on: "is_recoverable receipts d r = carries_on receipts d r"
  by (auto simp: is_recoverable_def receipt_of_def get_automation_def has_target_def carries_on_def
      split: option.splits)

text \<open>Property C33: after the boot no automation is due any more, so what was missed is not replayed.  A run
  that is still queued or running was there before, and an input of its session carries its
  id or its automation writes into an existing session; exactly the runs of which that holds
  wait in the queue of the worker, in the order of the table.\<close>
theorem boot_settles_the_past:
  assumes "cron_later cron" "intervals_ok (au_rows d)" "d' = startup cron home receipts d"
  shows "find_due_automations (au_clock d') d' = []
    \<and> (\<forall>r \<in> set (au_runs d'). ar_status r \<in> {''queued'', ''running''} \<longrightarrow>
         r \<in> set (au_runs d) \<and> carries_on receipts d r)
    \<and> au_queue d' = map (\<lambda>r. (ar_automation r, ar_id r, ar_user r))
        (filter (\<lambda>r. ar_status r \<in> {''queued'', ''running''} \<and> carries_on receipts d r) (au_runs d))"
proof -
  define d0 where "d0 = d\<lparr>au_queue := [], au_active := [], au_turns := []\<rparr>"
  define d1 where "d1 = reconcile_stranded_runs receipts d0"
  have d1: "au_rows d1 = au_rows d" "au_clock d1 = au_clock d"
    unfolding d1_def reconcile_stranded_runs_def d0_def by simp_all
  have d': "d' = fold (mark_missed cron home (au_clock d)) (find_due_automations (au_clock d) d1) d1"
    unfolding assms(3) startup_def mark_missed_runs_def d1_def [unfolded d0_def, symmetric] by (simp add: d1)
  have clock: "au_clock d' = au_clock d" unfolding d' by (simp add: fold_missed_fields d1)
  have "find_due_automations (au_clock d) d' = []"
  proof (rule ccontr)
    assume "find_due_automations (au_clock d) d' \<noteq> []"
    then obtain a where a: "a \<in> set (find_due_automations (au_clock d) d')"
      by (cases "find_due_automations (au_clock d) d'") auto
    have later: "\<And>row n. row \<in> set (find_due_automations (au_clock d) d1) \<Longrightarrow>
        next_fire_at cron home row (au_clock d) = Some n \<Longrightarrow> au_clock d < n"
      using next_fire_later [OF assms(1,2)] by (auto simp: find_due_set d1)
    have rows: "a \<in> set (au_rows (fold (mark_missed cron home (au_clock d)) (find_due_automations (au_clock d) d1) d1))"
      and over: "overdue (au_clock d) a"
      using a [unfolded find_due_set] unfolding d' by simp_all
    have "a \<in> set (au_rows d1) \<and> av_id a \<notin> av_id ` set (find_due_automations (au_clock d) d1)"
      by (rule fold_missed_overdue [OF _ rows over]) (erule (1) later)
    with over show False by (auto simp: find_due_set)
  qed
  moreover have eq: "is_recoverable receipts d0 r = carries_on receipts d r" for r
    unfolding is_recoverable_carries_on d0_def by (simp add: carries_on_def)
  have active: "is_active_run r = (ar_status r \<in> {''queued'', ''running''})" for r
    by (simp add: is_active_run_def active_run_statuses_def)
  have queue: "au_queue d' = map (\<lambda>r. (ar_automation r, ar_id r, ar_user r))
      (filter (\<lambda>r. ar_status r \<in> {''queued'', ''running''} \<and> carries_on receipts d r) (au_runs d))"
  proof -
    have "au_queue d' = map queue_entry (filter (is_recoverable receipts d0) (list_stranded_runs d0))"
      unfolding d' fold_missed_fields d1_def reconcile_stranded_runs_def fold_reconcile_queue by (simp add: d0_def)
    also have "\<dots> = map queue_entry (filter (\<lambda>r. is_active_run r \<and> carries_on receipts d r) (au_runs d))"
      unfolding list_stranded_runs_def filter_filter eq by (simp add: d0_def)
    finally show ?thesis by (simp add: queue_entry_def active)
  qed
  have "r \<in> set (au_runs d) \<and> carries_on receipts d r" if "r \<in> set (au_runs d')" "is_active_run r" for r
  proof -
    have r1: "r \<in> set (au_runs d1)" by (rule fold_missed_fields(3) [OF that(1) [unfolded d'] that(2)])
    note kept = fold_reconcile_active [OF r1 [unfolded d1_def reconcile_stranded_runs_def] that(2)]
    have "r \<in> set (list_stranded_runs d0)" using kept(1) that(2) by (simp add: list_stranded_runs_def)
    from kept(2) [OF this] kept(1) show ?thesis by (simp add: eq) (simp add: d0_def)
  qed
  ultimately show ?thesis using queue unfolding clock active by simp
qed

definition crashed_host :: autos where
  "crashed_host = small_host\<lparr>au_runs :=
     [(new_run ''u'' brief ''interval'' ''running'' 100)\<lparr>ar_id := 0, ar_session := Some ''s1''\<rparr>,
      (new_run ''u'' mail ''event'' ''queued'' 200)\<lparr>ar_id := 1\<rparr>], au_next_id := 2\<rparr>"

definition one_receipt :: receipts where
  "one_receipt = (\<lambda>s i. if s = ''s1'' \<and> i = 0 then Some ''dispatched'' else None)"

theorem boot_settles_the_past_witness:
  "find_due_automations 60000 (startup every_minute ''UTC'' one_receipt crashed_host) = []
   \<and> au_queue (startup every_minute ''UTC'' one_receipt crashed_host) = [(''brief'', 0, ''u'')]
   \<and> map ar_status (au_runs (startup every_minute ''UTC'' one_receipt crashed_host))
       = [''running'', ''interrupted_by_shutdown'', ''skipped'']"
proof -
  let ?d = "startup every_minute ''UTC'' one_receipt crashed_host"
  have "cron_later every_minute" by (simp add: cron_later_def every_minute_def)
  moreover have "intervals_ok (au_rows crashed_host)" by code_simp
  ultimately have "find_due_automations (au_clock ?d) ?d = []"
    and "au_queue ?d = map (\<lambda>r. (ar_automation r, ar_id r, ar_user r))
        (filter (\<lambda>r. ar_status r \<in> {''queued'', ''running''} \<and> carries_on one_receipt crashed_host r)
          (au_runs crashed_host))"
    using boot_settles_the_past [of every_minute crashed_host ?d "''UTC''" one_receipt] by simp_all
  moreover have "au_clock ?d = 60000" by code_simp
  moreover have "filter (\<lambda>r. ar_status r \<in> {''queued'', ''running''} \<and> carries_on one_receipt crashed_host r)
      (au_runs crashed_host) = [(new_run ''u'' brief ''interval'' ''running'' 100)\<lparr>ar_id := 0, ar_session := Some ''s1''\<rparr>]"
    by code_simp
  moreover have "map ar_status (au_runs ?d) = [''running'', ''interrupted_by_shutdown'', ''skipped'']" by code_simp
  ultimately show ?thesis by (simp add: new_run_def brief_def)
qed

section \<open>The tick\<close>

text \<open>One tick adds one queued run and one queue entry for each automation that is due and not
  held active, in the order of their due times, and changes nothing else; none of these is paused, manual
  or triggered by events.
\<close>
theorem tick_queues_the_due:
  "let now = au_clock d;
       fired = filter (fires now d) (due_order now (find_due_automations now d));
       new = tick_runs now (au_next_id d) fired
   in check_due_tasks d = d\<lparr>au_runs := au_runs d @ new, au_next_id := au_next_id d + length fired,
        au_queue := au_queue d @ map queue_entry new\<rparr>
      \<and> list_all (\<lambda>a. av_status a = ''enabled'' \<and> av_trigger a \<notin> {''manual'', ''event''}
           \<and> av_id a \<notin> fst ` set (au_active d)) fired"
  by (auto simp: check_due_tasks_def fold_fire_due Let_def list_all_iff fires_def is_due_def)

section \<open>One run at a time\<close>

lemma in_set_not_Nil: "x \<in> set xs \<Longrightarrow> xs \<noteq> []"
  by auto

lemma first_newest_empty: "first_of (newest_first rs) = None \<longleftrightarrow> rs = []"
proof -
  have "length (newest_first rs) = length rs" by (simp add: newest_first_def)
  then show ?thesis by (cases rs; cases "newest_first rs") (simp_all add: first_of_def)
qed

text \<open>
  A request to run an automation is accepted only when it has no queued or running
  run, and once it was accepted no other request for it is, until something else happens: whoever asks,
  and however, changes nothing.
\<close>

theorem run_now_is_single_flight:
  assumes "run_now denied bad trigger source user aid d = (RunAccepted rid, d1)"
    and "run_now denied' bad' trigger' source' user aid d1 = (reply, d2)"
  shows "active_auto_run user aid d = None \<and> d2 = d1 \<and> (\<forall>k. reply \<noteq> RunAccepted k)"
proof -
  obtain row where row: "get_automation user aid d = Some row" and idle: "active_auto_run user aid d = None"
    and made: "enqueue_run user row trigger None d = Some (rid, d1)"
    using assms(1) unfolding run_now_def by (auto split: option.splits if_splits)
  have "av_id row = aid" using row by (auto simp: get_automation_def find_Some_iff)
  moreover have "(new_run user row trigger ''queued'' (au_clock d))\<lparr>ar_event := None, ar_id := au_next_id d\<rparr> \<in> set (au_runs d1)"
    using made by (auto simp: enqueue_run_def create_without_event enqueue_auto_def)
  ultimately have "(new_run user row trigger ''queued'' (au_clock d))\<lparr>ar_event := None, ar_id := au_next_id d\<rparr>
      \<in> set (filter is_active_run (runs_of user aid d1))"
    by (simp add: runs_of_def new_run_def is_active_run_def active_run_statuses_def)
  then have "filter is_active_run (runs_of user aid d1) \<noteq> []" by (rule in_set_not_Nil)
  then obtain r where "active_auto_run user aid d1 = Some r"
    unfolding active_auto_run_def using first_newest_empty by fastforce
  then show ?thesis
    using assms(2) idle unfolding run_now_def by (auto split: option.splits if_splits)
qed

theorem run_now_is_single_flight_witness:
  "fst (run_now None None ''api'' None ''u'' ''brief'' small_host) = RunAccepted 0
   \<and> fst (run_now None None ''manual'' None ''u'' ''brief'' (snd (run_now None None ''api'' None ''u'' ''brief'' small_host)))
       = RunAlreadyQueued
   \<and> active_auto_run ''u'' ''brief'' small_host = None"
proof -
  let ?d1 = "snd (run_now None None ''api'' None ''u'' ''brief'' small_host)"
  have a: "fst (run_now None None ''api'' None ''u'' ''brief'' small_host) = RunAccepted 0" by code_simp
  have b: "fst (run_now None None ''manual'' None ''u'' ''brief'' ?d1) = RunAlreadyQueued" by code_simp
  have "run_now None None ''api'' None ''u'' ''brief'' small_host = (RunAccepted 0, ?d1)"
    using a by (simp add: prod_eq_iff)
  from run_now_is_single_flight [OF this, of None None "''manual''" None] a b show ?thesis
    by (metis prod.collapse)
qed

section \<open>The failure monitor\<close>

lemma pause_rows_of_sweep:
  assumes "distinct (map av_id (au_rows d))"
  shows "au_rows (perform_sweep c d)
    = map (\<lambda>a. if is_offender c (au_clock d) d a then paused_row a else a) (au_rows d)"
proof -
  let ?bad = "evaluate_candidates (filter (\<lambda>a. av_status a = ''enabled'') (au_rows d)) (au_clock d) c d"
  have bad: "set ?bad = {a \<in> set (au_rows d). is_offender c (au_clock d) d a}"
    by (auto simp: evaluate_candidates_def is_offender_def)
  have "au_rows (perform_sweep c d) = map (\<lambda>a. if av_id a \<in> av_id ` set ?bad then paused_row a else a) (au_rows d)"
    unfolding perform_sweep_def Let_def using assms
    by (intro fold_pause_rows) (auto simp: evaluate_candidates_def distinct_map_filter is_offender_def list_all_iff)
  also have "\<dots> = map (\<lambda>a. if is_offender c (au_clock d) d a then paused_row a else a) (au_rows d)"
  proof (rule map_cong [OF refl])
    fix a assume a: "a \<in> set (au_rows d)"
    have "av_id a \<in> av_id ` set ?bad \<longleftrightarrow> is_offender c (au_clock d) d a"
      using assms a unfolding bad distinct_map inj_on_def by blast
    then show "(if av_id a \<in> av_id ` set ?bad then paused_row a else a)
      = (if is_offender c (au_clock d) d a then paused_row a else a)" by simp
  qed
  finally show ?thesis .
qed

text \<open>
  What the monitor looks for, in the columns of the tables: an enabled automation that had,
  since the start of the window, at least the least number of finished runs (and any at
  all), of which at least the configured share \<open>num / den\<close> failed or timed out.  A run that was
  skipped or interrupted is not finished.
\<close>

definition keeps_failing :: "monitor_config \<Rightarrow> autos \<Rightarrow> automation \<Rightarrow> bool" where
  "keeps_failing c d a \<longleftrightarrow>
     (let since = au_clock d - mc_lookback c;
          mine = filter (\<lambda>r. ar_automation r = av_id a \<and> ar_user r = av_user a \<and> since \<le> ar_triggered r) (au_runs d);
          failed = length (filter (\<lambda>r. ar_status r = ''failed'' \<or> ar_status r = ''timeout'') mine);
          finished = length (filter (\<lambda>r. ar_status r = ''success'') mine) + failed
      in av_status a = ''enabled'' \<and> mc_min_runs c \<le> finished \<and> 0 < finished
         \<and> mc_ratio_num c * finished \<le> mc_ratio_den c * failed)"

lemma length_filter_disj:
  "(\<And>x. \<not> (P x \<and> Q x)) \<Longrightarrow> length (filter (\<lambda>x. P x \<or> Q x) xs) = length (filter P xs) + length (filter Q xs)"
  by (induction xs) auto

lemma is_offender_keeps_failing: "is_offender c (au_clock d) d a = keeps_failing c d a"
proof -
  let ?mine = "filter (\<lambda>r. ar_automation r = av_id a \<and> ar_user r = av_user a
      \<and> au_clock d - mc_lookback c \<le> ar_triggered r) (au_runs d)"
  have "length (filter (\<lambda>r. ar_status r = ''success'' \<or> (ar_status r = ''failed'' \<or> ar_status r = ''timeout'')) ?mine)
      = length (filter (\<lambda>r. ar_status r = ''success'') ?mine)
        + length (filter (\<lambda>r. ar_status r = ''failed'' \<or> ar_status r = ''timeout'') ?mine)"
    by (rule length_filter_disj) auto
  then show ?thesis
    by (simp add: is_offender_def count_terminal_runs_since_def runs_of_def keeps_failing_def Let_def
        conj_ac mult.commute cong: conj_cong)
qed

text \<open>Property C34: a sweep of the failure monitor sets to paused, and takes off the schedule, exactly the
  enabled automations with at least the configured number of finished runs in the window of
  which at least the configured share failed or timed out; every other row stays as it is.\<close>
theorem sweep_pauses_the_offenders:
  assumes "distinct (map av_id (au_rows d))"
  shows "au_rows (perform_sweep c d)
    = map (\<lambda>a. if keeps_failing c d a then a\<lparr>av_status := ''paused'', av_next := None\<rparr> else a) (au_rows d)"
  unfolding pause_rows_of_sweep [OF assms] by (simp add: is_offender_keeps_failing paused_row_def)

definition failing_host :: autos where
  "failing_host = small_host\<lparr>au_runs := map (\<lambda>i. (new_run ''u'' brief ''interval''
     (if i < 2 then ''failed'' else ''success'') 0)\<lparr>ar_id := i, ar_completed := Some 1\<rparr>) [0, 1, 2], au_next_id := 3\<rparr>"

definition strict_monitor :: monitor_config where
  "strict_monitor = default_monitor\<lparr>mc_min_runs := 3, mc_ratio_num := 2, mc_ratio_den := 3\<rparr>"

theorem sweep_pauses_the_offenders_witness:
  "au_rows (perform_sweep strict_monitor failing_host) = [brief\<lparr>av_status := ''paused'', av_next := None\<rparr>, mail]"
proof -
  have d: "distinct (map av_id (au_rows failing_host))" by code_simp
  have "keeps_failing strict_monitor failing_host brief"
    and "\<not> keeps_failing strict_monitor failing_host mail" by code_simp+
  moreover have "au_rows failing_host = [brief, mail]" by (simp add: failing_host_def small_host_def)
  ultimately show ?thesis unfolding sweep_pauses_the_offenders [OF d] by simp
qed

end
