(* ===== verification/AutoFindings.thy ===== *)
theory AutoFindings
  imports AutoProperties
begin

text \<open>
  Schedules on which the automations do not do what their comments say, each evaluated on the model, and
  the general fact behind the first two.
\<close>

section \<open>A run that is not the last one is never executed\<close>

text \<open>
  The worker only goes on with the newest run of an automation.  Nothing else ends a
  queued run that was overtaken, save a cancellation, the next boot and the limit on kept runs.
\<close>

lemma overtaken_run_is_dropped:
  assumes "ev_guard ev = NoGuards" "last_auto_run user aid d = Some r" "ar_id r \<noteq> rid"
  shows "execute_run cron home ev user aid rid d = d"
  using assms
  by (simp add: execute_run_def admit_run_def start_run_def current_run_def split: option.splits)

text \<open>
  The tick does not move the schedule and an automation is held active only from its execution on: while
  the worker awaits a session for longer than a tick, a due automation is queued again.
\<close>

definition overtaken_by_tick :: autos where
  "overtaken_by_tick = auto_steps every_minute ''UTC''
     [Ticks, Waits 30000, Ticks, Works plain_env, Works plain_env, Continues 0 (Created (Inr ''s1'')), Continues 0 Goes,
      Continues 0 (Replied None)] small_host"

lemma tick_strands_a_run:
  "map ar_status (au_runs overtaken_by_tick) = [''queued'', ''success'']
   \<and> au_queue overtaken_by_tick = [] \<and> au_active overtaken_by_tick = []
   \<and> fst (run_now None None ''api'' None ''u'' ''brief'' overtaken_by_tick) = RunAlreadyQueued"
  by code_simp

definition overtaken_by_event :: autos where
  "overtaken_by_event = auto_steps every_minute ''UTC''
     [Delivers (Some (''inbox'', [''me''], ''e1'')), Waits 1, Delivers (Some (''inbox'', [''me''], ''e2'')),
      Works plain_env, Works plain_env, Continues 0 (Created (Inr ''s1'')), Continues 0 Goes,
      Continues 0 (Replied None)] small_host"

lemma event_strands_a_run:
  "map (\<lambda>r. (ar_event r, ar_status r)) (au_runs overtaken_by_event) = [(Some ''e1'', ''queued''), (Some ''e2'', ''success'')]
   \<and> au_queue overtaken_by_event = []
   \<and> fst (run_now None None ''api'' None ''u'' ''mail'' overtaken_by_event) = RunAlreadyQueued"
  by code_simp

section \<open>A run that fails before its turn does not move the schedule\<close>

definition failing_start :: "auto_op list" where
  "failing_start = [Ticks, Works plain_env, Continues 0 (Created (Inl ''ProviderUnavailable'')), Waits 30000]"

lemma failed_start_fires_every_tick:
  "map (\<lambda>r. (ar_status r, ar_triggered r))
     (au_runs (auto_steps every_minute ''UTC'' (failing_start @ failing_start) small_host))
   = [(''failed'', 60000), (''failed'', 90000)]
   \<and> av_interval brief = Some 60
   \<and> map av_last (au_rows (auto_steps every_minute ''UTC'' failing_start small_host)) = [None, None]"
  by code_simp

section \<open>A run cancelled while its session is created runs all the same\<close>

lemma cancelled_run_goes_on:
  "map (\<lambda>r. (ar_status r, ar_error r, ar_completed r))
     (au_runs (auto_steps every_minute ''UTC''
        [Ticks, Works plain_env, CancelsRun ''u'' ''brief'' 0, Continues 0 (Created (Inr ''s1''))] small_host))
   = [(''running'', Some ''AUTOMATION_CANCELLED'', Some 60000)]"
  by code_simp

end
