(* ===== verification/InputQueue.thy ===== *)
theory InputQueue
  imports PyJson
begin

text \<open>
  The durable queue of inputs of a chat session: the table \<^verbatim>\<open>valuz_queued_input\<close> of
  \<^verbatim>\<open>backend/valuz_agent/modules/sessions/models.py\<close>, the queue half of \<^verbatim>\<open>datastore.py\<close>, the pause
  marker of \<^verbatim>\<open>project_index.py\<close> and the receipts of \<^verbatim>\<open>input_receipts.py\<close>.  A payload is its text, its
  source, its presentation and its execution policy; attachments and host references ride along
  unread and are left out.
\<close>

section \<open>Rows\<close>

text \<open>\<open>qi_row\<close> numbers the rows in the order of their insertion.\<close>

record queued_input =
  qi_row :: nat
  qi_id :: string
  qi_user :: string
  qi_session :: string
  qi_text :: string
  qi_source :: string
  qi_presentation :: "string option"
  qi_policy :: string
  qi_status :: string
  qi_position :: int
  qi_created :: int
  qi_error :: "string option"
  qi_completed :: "int option"
  qi_message :: "string option"
  qi_summary :: "string option"

definition terminal_input_statuses :: "string list" where
  "terminal_input_statuses = [''completed'', ''failed'', ''cancelled'']"

definition listed_queue_statuses :: "string list" where
  "listed_queue_statuses = [''queued'', ''blocked'']"

text \<open>
  The drains of all processes: a drain is single per process and session.  It is spawned, at
  the top of its loop with its owner, holding the head it has read, running the turn of a row, or
  leaving, when it has decided to return and is not yet out of the set of active drains.
\<close>

datatype drain_at =
    Spawned
  | AtTop string
  | AtHead string queued_input
  | AtTurn string nat string
  | Leaving

record queue_drain =
  dr_proc :: nat
  dr_session :: string
  dr_owner :: "string option"
  dr_at :: drain_at

text \<open>A caller that has written and is about to wake a drain, with the status it read before.\<close>

record kick =
  ki_proc :: nat
  ki_session :: string
  ki_owner :: string
  ki_status :: string

text \<open>
  The table with the number of rows ever inserted, the paused sessions, the clock, the drains, the
  pending kicks, the orphans a recovery has listed, the turns that were started, and the sessions
  that were interrupted.
\<close>

record queues =
  sq_inputs :: "queued_input list"
  sq_rows :: nat
  sq_paused :: "string list"
  sq_clock :: int
  sq_drains :: "queue_drain list"
  sq_kicks :: "kick list"
  sq_orphans :: "(nat \<times> queued_input) list"
  sq_turns :: "(string \<times> nat) list"
  sq_interrupts :: "string list"

section \<open>The pause marker\<close>

definition queue_paused :: "string \<Rightarrow> queues \<Rightarrow> bool" where
  "queue_paused s d = (s \<in> set (sq_paused d))"

definition set_queue_paused :: "string \<Rightarrow> bool \<Rightarrow> queues \<Rightarrow> queues" where
  "set_queue_paused s paused d =
     d\<lparr>sq_paused := (if paused then List.insert s (sq_paused d) else filter (\<lambda>x. x \<noteq> s) (sq_paused d))\<rparr>"

section \<open>Reads\<close>

definition is_waiting :: "string \<Rightarrow> queued_input \<Rightarrow> bool" where
  "is_waiting s r = (qi_session r = s \<and> qi_status r = ''queued'')"

definition queue_order :: "queued_input list \<Rightarrow> queued_input list" where
  "queue_order rs = sort_key qi_position (sort_key qi_created rs)"

definition list_queued :: "string \<Rightarrow> string \<Rightarrow> queues \<Rightarrow> queued_input list" where
  "list_queued user s d = queue_order (filter (\<lambda>r. qi_session r = s \<and> qi_user r = user
     \<and> qi_status r \<in> set listed_queue_statuses) (sq_inputs d))"

definition count_queued :: "string \<Rightarrow> string \<Rightarrow> queues \<Rightarrow> nat" where
  "count_queued user s d = length (filter (\<lambda>r. is_waiting s r \<and> qi_user r = user) (sq_inputs d))"

definition get_queued :: "string \<Rightarrow> string \<Rightarrow> string \<Rightarrow> queues \<Rightarrow> queued_input option" where
  "get_queued user s i d = List.find (\<lambda>r. qi_id r = i \<and> qi_session r = s \<and> qi_user r = user) (sq_inputs d)"

definition peek_next_queued :: "string \<Rightarrow> queues \<Rightarrow> queued_input option" where
  "peek_next_queued s d = (case queue_order (filter (is_waiting s) (sq_inputs d)) of [] \<Rightarrow> None | r # _ \<Rightarrow> Some r)"

definition list_queued_session_owners :: "queues \<Rightarrow> (string \<times> string) list" where
  "list_queued_session_owners d =
     remdups (map (\<lambda>r. (qi_session r, qi_user r)) (filter (\<lambda>r. qi_status r = ''queued'') (sq_inputs d)))"

section \<open>Writes\<close>

definition next_queue_position :: "string \<Rightarrow> queues \<Rightarrow> int" where
  "next_queue_position s d = (case map qi_position (filter (\<lambda>r. qi_session r = s) (sq_inputs d)) of
     [] \<Rightarrow> 0 | p # ps \<Rightarrow> fold max ps p + 1)"

text \<open>\<open>None\<close> when the primary key is taken.\<close>

definition create_queued :: "string \<Rightarrow> queued_input \<Rightarrow> queues \<Rightarrow> (queued_input \<times> queues) option" where
  "create_queued user row d =
     (if list_ex (\<lambda>r. qi_id r = qi_id row) (sq_inputs d) then None
      else (let new = row\<lparr>qi_user := user, qi_position := next_queue_position (qi_session row) d, qi_row := sq_rows d,
                          qi_created := sq_clock d\<rparr>
            in Some (new, d\<lparr>sq_inputs := sq_inputs d @ [new], sq_rows := sq_rows d + 1\<rparr>)))"

definition new_input :: "string \<Rightarrow> string \<Rightarrow> string \<Rightarrow> string \<Rightarrow> string option \<Rightarrow> string \<Rightarrow> queued_input" where
  "new_input i s content source shown policy =
     \<lparr>qi_row = 0, qi_id = i, qi_user = [], qi_session = s, qi_text = content, qi_source = source, qi_presentation = shown,
      qi_policy = policy, qi_status = ''queued'', qi_position = 0, qi_created = 0, qi_error = None,
      qi_completed = None, qi_message = None, qi_summary = None\<rparr>"

text \<open>A statement updates the rows that meet its condition; its count says whether there were any.\<close>

definition update_inputs :: "(queued_input \<Rightarrow> bool) \<Rightarrow> (queued_input \<Rightarrow> queued_input) \<Rightarrow> queues \<Rightarrow> bool \<times> queues" where
  "update_inputs P f d = (list_ex P (sq_inputs d), d\<lparr>sq_inputs := map (\<lambda>r. if P r then f r else r) (sq_inputs d)\<rparr>)"

definition update_queued_input :: "string \<Rightarrow> string \<Rightarrow> string \<Rightarrow> string \<Rightarrow> string \<Rightarrow> queues \<Rightarrow> bool \<times> queues" where
  "update_queued_input user s i content policy d = (case get_queued user s i d of
     None \<Rightarrow> (False, d)
   | Some r \<Rightarrow> if qi_status r \<noteq> ''queued'' then (False, d)
       else update_inputs (\<lambda>x. qi_id x = i) (\<lambda>x. x\<lparr>qi_text := content, qi_policy := policy\<rparr>) d)"

definition delete_queued :: "string \<Rightarrow> string \<Rightarrow> string \<Rightarrow> queues \<Rightarrow> bool \<times> queues" where
  "delete_queued user s i d = update_inputs
     (\<lambda>r. qi_id r = i \<and> qi_user r = user \<and> qi_session r = s \<and> qi_status r \<in> {''queued'', ''blocked''})
     (\<lambda>r. r\<lparr>qi_status := ''cancelled'', qi_completed := Some (sq_clock d)\<rparr>) d"

definition delete_queue_for_session :: "string \<Rightarrow> string \<Rightarrow> queues \<Rightarrow> queues" where
  "delete_queue_for_session user s d =
     d\<lparr>sq_inputs := filter (\<lambda>r. \<not> (qi_session r = s \<and> qi_user r = user)) (sq_inputs d)\<rparr>"

definition promote_to_front :: "string \<Rightarrow> string \<Rightarrow> string \<Rightarrow> queues \<Rightarrow> bool \<times> queues" where
  "promote_to_front user s i d = (case get_queued user s i d of
     None \<Rightarrow> (False, d)
   | Some r \<Rightarrow> if qi_status r \<noteq> ''queued'' then (False, d)
       else (let at = (case map qi_position (filter (is_waiting s) (sq_inputs d)) of
                         [] \<Rightarrow> 0 | p # ps \<Rightarrow> fold min ps p - 1)
             in update_inputs (\<lambda>x. qi_id x = i) (\<lambda>x. x\<lparr>qi_position := at\<rparr>) d))"

text \<open>The outcome columns a transition writes with the status.\<close>

record outcome_columns =
  oc_error :: "string option"
  oc_message :: "string option"
  oc_summary :: "string option"

definition no_columns :: outcome_columns where
  "no_columns = \<lparr>oc_error = None, oc_message = None, oc_summary = None\<rparr>"

definition mark_queued_status :: "string \<Rightarrow> string \<Rightarrow> outcome_columns \<Rightarrow> string option \<Rightarrow> queues \<Rightarrow> bool \<times> queues" where
  "mark_queued_status i status oc expected d = update_inputs
     (\<lambda>r. qi_id r = i \<and> (case expected of None \<Rightarrow> True | Some e \<Rightarrow> qi_status r = e))
     (\<lambda>r. r\<lparr>qi_status := status, qi_error := oc_error oc, qi_message := oc_message oc, qi_summary := oc_summary oc,
        qi_completed := (if status \<in> set terminal_input_statuses then Some (sq_clock d) else None)\<rparr>) d"

section \<open>Receipts\<close>

text \<open>How a turn ended: the status of the session, the error raised (whether a cancellation), the status of the message.\<close>

record turn_end =
  te_final :: string
  te_error :: "bool option"
  te_message :: string

definition input_outcome :: "turn_end \<Rightarrow> string" where
  "input_outcome e = (if te_final e = ''interrupted'' \<or> te_error e = Some True then ''cancelled''
     else if te_error e \<noteq> None \<or> te_final e \<notin> {''idle'', ''created''} \<or> te_message e \<in> {''errored'', ''failed''} then ''failed''
     else ''completed'')"

definition complete_input :: "string \<Rightarrow> turn_end \<Rightarrow> outcome_columns \<Rightarrow> queues \<Rightarrow> queues" where
  "complete_input i e oc d = snd (mark_queued_status i (input_outcome e) oc None d)"

end
