(* ===== verification/QueueDrain.thy ===== *)
theory QueueDrain
  imports InputQueue
begin

text \<open>
  Who works on the queue of \<open>InputQueue\<close>: the drains of \<^verbatim>\<open>run_orchestrator.py\<close>, the operations of
  \<^verbatim>\<open>service.py\<close> and \<^verbatim>\<open>facade/sessions.py\<close>, and the recovery of \<^verbatim>\<open>recovery.py\<close>.  A step is what happens
  between two waits.  Arguments are the statuses of sessions, whether the drain lease of a session
  is held or obtained, what guards and the budget say, and how turns end.
\<close>

section \<open>Drains\<close>

definition drain_of :: "nat \<Rightarrow> string \<Rightarrow> queues \<Rightarrow> queue_drain option" where
  "drain_of p s d = List.find (\<lambda>x. dr_proc x = p \<and> dr_session x = s) (sq_drains d)"

definition is_draining_queue :: "nat \<Rightarrow> string \<Rightarrow> queues \<Rightarrow> bool" where
  "is_draining_queue p s d = (drain_of p s d \<noteq> None)"

text \<open>\<open>lease_live\<close>: another process has the lease, or this one still has it.\<close>

definition is_draining_anywhere :: "bool \<Rightarrow> nat \<Rightarrow> string \<Rightarrow> queues \<Rightarrow> bool" where
  "is_draining_anywhere lease_live p s d = (is_draining_queue p s d \<or> lease_live)"

definition dispatching_queue_id :: "nat \<Rightarrow> string \<Rightarrow> queues \<Rightarrow> string option" where
  "dispatching_queue_id p s d = (case drain_of p s d of
     Some x \<Rightarrow> (case dr_at x of AtTurn owner k i \<Rightarrow> Some i | _ \<Rightarrow> None) | None \<Rightarrow> None)"

definition move_drain :: "nat \<Rightarrow> string \<Rightarrow> drain_at \<Rightarrow> queues \<Rightarrow> queues" where
  "move_drain p s to_at d =
     d\<lparr>sq_drains := map (\<lambda>x. if dr_proc x = p \<and> dr_session x = s then x\<lparr>dr_at := to_at\<rparr> else x) (sq_drains d)\<rparr>"

definition schedule_drain :: "nat \<Rightarrow> string \<Rightarrow> string option \<Rightarrow> queues \<Rightarrow> queues" where
  "schedule_drain p s user d = (if is_draining_queue p s d then d
     else d\<lparr>sq_drains := sq_drains d @ [\<lparr>dr_proc = p, dr_session = s, dr_owner = user, dr_at = Spawned\<rparr>]\<rparr>)"

text \<open>
  What a waiting drain is told: the owner that was looked up, whether the session is the owner's and the
  lease was obtained; at the top, whether the application shuts down; with a head in hand, the
  verdict; in a turn, its end.
\<close>

datatype head_verdict =
    SessionBusy
  | SessionGone
  | InputRefused bool string
  | OverBudget string
  | CheckRaises
  | Clear

datatype drain_news =
    Admission "string option" bool bool
  | Loops bool
  | Verdict head_verdict
  | TurnEnds turn_end outcome_columns
  | TurnRaises
  | Exits

definition error_only :: "string \<Rightarrow> outcome_columns" where
  "error_only e = no_columns\<lparr>oc_error := Some e\<rparr>"

definition judge_head :: "nat \<Rightarrow> string \<Rightarrow> string \<Rightarrow> queued_input \<Rightarrow> head_verdict \<Rightarrow> queues \<Rightarrow> queues" where
  "judge_head p s owner head v d = (case v of
     SessionBusy \<Rightarrow> move_drain p s (AtTop owner) d
   | SessionGone \<Rightarrow> move_drain p s Leaving d
   | InputRefused failed reason \<Rightarrow> move_drain p s (AtTop owner)
       (snd (mark_queued_status (qi_id head) (if failed then ''failed'' else ''cancelled'') (error_only reason) None d))
   | OverBudget reason \<Rightarrow> move_drain p s Leaving
       (snd (mark_queued_status (qi_id head) (if qi_source head = ''background'' then ''failed'' else ''blocked'')
              (error_only reason) None d))
   | CheckRaises \<Rightarrow> move_drain p s Leaving d
   | Clear \<Rightarrow> (case mark_queued_status (qi_id head) ''dispatched'' no_columns (Some ''queued'') d of
         (started, d1) \<Rightarrow>
           if \<not> started then move_drain p s (AtTop owner) d1
           else (let k = (case List.find (\<lambda>r. qi_id r = qi_id head) (sq_inputs d) of None \<Rightarrow> qi_row head | Some r \<Rightarrow> qi_row r)
                 in (move_drain p s (AtTurn owner k (qi_id head)) d1)\<lparr>sq_turns := sq_turns d1 @ [(s, k)]\<rparr>)))"

definition drain_step :: "nat \<Rightarrow> string \<Rightarrow> drain_news \<Rightarrow> queues \<Rightarrow> queues" where
  "drain_step p s news d = (case drain_of p s d of
     None \<Rightarrow> d
   | Some x \<Rightarrow> (case (dr_at x, news) of
       (Spawned, Admission found matches got) \<Rightarrow>
         (case (case dr_owner x of None \<Rightarrow> found | Some u \<Rightarrow> Some u) of
            None \<Rightarrow> move_drain p s Leaving d
          | Some owner \<Rightarrow> if owner = [] \<or> \<not> matches \<or> \<not> got then move_drain p s Leaving d
              else move_drain p s (AtTop owner) d)
     | (AtTop owner, Loops down) \<Rightarrow>
         if down \<or> queue_paused s d then move_drain p s Leaving d
         else (case peek_next_queued s d of
             None \<Rightarrow> move_drain p s Leaving d
           | Some head \<Rightarrow> if qi_user head \<noteq> owner then move_drain p s Leaving d
               else move_drain p s (AtHead owner head) d)
     | (AtHead owner head, Verdict v) \<Rightarrow> judge_head p s owner head v d
     | (AtTurn owner k i, TurnEnds e oc) \<Rightarrow> move_drain p s (AtTop owner) (complete_input i e oc d)
     | (AtTurn owner k i, TurnRaises) \<Rightarrow> move_drain p s Leaving d
     | (Leaving, Exits) \<Rightarrow> d\<lparr>sq_drains := filter (\<lambda>x. \<not> (dr_proc x = p \<and> dr_session x = s)) (sq_drains d)\<rparr>
     | _ \<Rightarrow> d))"

section \<open>Operations\<close>

definition queue_soft_cap :: nat where
  "queue_soft_cap = 20"

text \<open>An operation first reads the session: its status, or \<open>None\<close> when there is none.\<close>

datatype queue_reply =
    SessionMissing
  | NotRunnable
  | QueueIsFull
  | InputMissing
  | InputConflict
  | InvalidInput
  | QueueDone

definition later_kick :: "nat \<Rightarrow> string \<Rightarrow> string \<Rightarrow> string \<Rightarrow> queues \<Rightarrow> queues" where
  "later_kick p s user status d =
     d\<lparr>sq_kicks := sq_kicks d @ [\<lparr>ki_proc = p, ki_session = s, ki_owner = user, ki_status = status\<rparr>]\<rparr>"

definition enqueue_input :: "nat \<Rightarrow> string \<Rightarrow> string \<Rightarrow> string option \<Rightarrow> string \<Rightarrow> string \<Rightarrow> queues \<Rightarrow> queue_reply \<times> queues" where
  "enqueue_input p user s status i content d =
     (case status of
        None \<Rightarrow> (SessionMissing, d)
      | Some st \<Rightarrow>
        if st \<in> {''cancelled'', ''archived''} then (NotRunnable, d)
        else if queue_soft_cap \<le> count_queued user s d then (QueueIsFull, d)
        else (case create_queued user (new_input i s content ''user'' None ''fresh'') d of
                None \<Rightarrow> (InputConflict, d)
              | Some (row, d1) \<Rightarrow> (QueueDone, later_kick p s user st d1)))"

text \<open>The wake itself, in the process of the caller, after the answer of the lease table.\<close>

definition idle_kick :: "bool \<Rightarrow> kick \<Rightarrow> queues \<Rightarrow> queues" where
  "idle_kick lease_live k d =
     (if ki_status k \<noteq> ''running'' \<and> \<not> is_draining_anywhere lease_live (ki_proc k) (ki_session k) d
      then schedule_drain (ki_proc k) (ki_session k) (Some (ki_owner k)) d else d)"

definition edit_queued :: "string \<Rightarrow> string \<Rightarrow> string \<Rightarrow> string \<Rightarrow> queues \<Rightarrow> queue_reply \<times> queues" where
  "edit_queued user s i content d = (case get_queued user s i d of
     None \<Rightarrow> (InputMissing, d)
   | Some r \<Rightarrow> if qi_status r \<noteq> ''queued'' then (InputConflict, d)
       else (QueueDone, snd (update_queued_input user s i content ''fresh'' d)))"

definition remove_queued :: "string \<Rightarrow> string \<Rightarrow> string \<Rightarrow> queues \<Rightarrow> queue_reply \<times> queues" where
  "remove_queued user s i d = (case delete_queued user s i d of
     (deleted, d1) \<Rightarrow> (if deleted then QueueDone else InputMissing, d1))"

definition resume_queue :: "nat \<Rightarrow> string \<Rightarrow> string \<Rightarrow> string option \<Rightarrow> queues \<Rightarrow> queue_reply \<times> queues" where
  "resume_queue p user s status d = (case status of
     None \<Rightarrow> (SessionMissing, d)
   | Some st \<Rightarrow> (QueueDone, later_kick p s user st (set_queue_paused s False d)))"

definition steer_queued :: "nat \<Rightarrow> string \<Rightarrow> string \<Rightarrow> string \<Rightarrow> string option \<Rightarrow> bool \<Rightarrow> queues \<Rightarrow> queue_reply \<times> queues" where
  "steer_queued p user s i status lease_live d = (case status of
     None \<Rightarrow> (SessionMissing, d)
   | Some st \<Rightarrow> (case promote_to_front user s i d of
       (promoted, d1) \<Rightarrow>
         if \<not> promoted then (QueueDone, d1)
         else (let d2 = set_queue_paused s False d1 in
           (QueueDone, if st = ''running'' \<or> is_draining_anywhere lease_live p s d2
                       then d2\<lparr>sq_interrupts := sq_interrupts d2 @ [s]\<rparr>
                       else schedule_drain p s (Some user) d2))))"

text \<open>The queue's part of an interrupt: what waits is paused.\<close>

definition pause_on_interrupt :: "string \<Rightarrow> string \<Rightarrow> queues \<Rightarrow> queues" where
  "pause_on_interrupt user s d = (if 0 < count_queued user s d then set_queue_paused s True d else d)"

text \<open>A background input, by an id of its own; \<open>in_task\<close> when the session belongs to a task.\<close>

definition same_work :: "queued_input \<Rightarrow> string \<Rightarrow> string option \<Rightarrow> string \<Rightarrow> bool" where
  "same_work r content shown policy = (qi_text r = content \<and> qi_source r = ''background''
     \<and> qi_presentation r = shown \<and> qi_policy r = policy)"

record background_call =
  bg_user :: string
  bg_session :: string
  bg_id :: string
  bg_text :: string
  bg_presentation :: "string option"
  bg_policy :: string

definition enqueue_background :: "nat \<Rightarrow> string option \<Rightarrow> bool \<Rightarrow> background_call \<Rightarrow> queues
    \<Rightarrow> (queue_reply + queued_input) \<times> queues" where
  "enqueue_background p status in_task c d =
     (if strip (bg_text c) = [] \<or> 36 < length (bg_id c) then (Inl InvalidInput, d)
      else (case status of
        None \<Rightarrow> (Inl SessionMissing, d)
      | Some st \<Rightarrow>
        if st \<in> {''cancelled'', ''archived'', ''terminated''} \<or> in_task then (Inl NotRunnable, d)
        else (let found = get_queued (bg_user c) (bg_session c) (bg_id c) d in
          if found = None \<and> queue_soft_cap \<le> count_queued (bg_user c) (bg_session c) d then (Inl QueueIsFull, d)
          else (case (case found of
                  Some r \<Rightarrow> Some (r, d)
                | None \<Rightarrow> create_queued (bg_user c) (new_input (bg_id c) (bg_session c) (bg_text c) ''background''
                              (bg_presentation c) (bg_policy c)) d) of
              None \<Rightarrow> (Inl InvalidInput, d)
            | Some (r, d1) \<Rightarrow>
              if \<not> same_work r (bg_text c) (bg_presentation c) (bg_policy c) then (Inl InvalidInput, d1)
              else (Inr r, if qi_status r = ''queued'' then schedule_drain p (bg_session c) (Some (bg_user c)) d1 else d1)))))"

definition wake_input :: "nat \<Rightarrow> string \<Rightarrow> string \<Rightarrow> string \<Rightarrow> string option \<Rightarrow> queues \<Rightarrow> (queue_reply + bool) \<times> queues" where
  "wake_input p user s i status d = (case get_queued user s i d of
     None \<Rightarrow> (Inr False, d)
   | Some r \<Rightarrow>
     if qi_status r \<noteq> ''queued'' \<or> qi_source r \<noteq> ''background'' then (Inr False, d)
     else (case status of
         None \<Rightarrow> (Inl SessionMissing, d)
       | Some st \<Rightarrow> if st \<in> {''cancelled'', ''archived'', ''terminated''} then (Inr False, d)
           else (Inr True, schedule_drain p s (Some user) d)))"

section \<open>Recovery\<close>

definition map_kernel_status :: "string \<Rightarrow> string" where
  "map_kernel_status st = (if st = ''terminated'' then ''failed'' else st)"

definition resume_queued_drain :: "nat \<Rightarrow> (string \<Rightarrow> string \<Rightarrow> string option) \<Rightarrow> string \<times> string \<Rightarrow> queues \<Rightarrow> queues" where
  "resume_queued_drain p status_of = (\<lambda>(s, owner) d.
     if queue_paused s d then d
     else (case status_of owner s of
         None \<Rightarrow> d
       | Some st \<Rightarrow> if map_kernel_status st \<in> {''idle'', ''created''} then schedule_drain p s (Some owner) d else d))"

definition resume_queued_drains :: "nat \<Rightarrow> (string \<Rightarrow> string \<Rightarrow> string option) \<Rightarrow> queues \<Rightarrow> queues" where
  "resume_queued_drains p status_of d = fold (resume_queued_drain p status_of) (list_queued_session_owners d) d"

text \<open>The recovery of orphans reads the dispatched rows, then the leases, and closes one row after another.\<close>

definition list_orphans :: "nat \<Rightarrow> queues \<Rightarrow> queues" where
  "list_orphans p d = d\<lparr>sq_orphans := sq_orphans d @ map (Pair p) (filter (\<lambda>r. qi_status r = ''dispatched'') (sq_inputs d))\<rparr>"

definition orphan_error :: string where
  "orphan_error = ''Host restarted before input outcome was confirmed''"

definition close_orphan :: "bool \<Rightarrow> bool \<Rightarrow> nat \<Rightarrow> queued_input \<Rightarrow> queues \<Rightarrow> queues" where
  "close_orphan lease_live running p r d =
     (if is_draining_queue p (qi_session r) d \<or> lease_live \<or> running then d
      else snd (mark_queued_status (qi_id r) ''cancelled'' (error_only orphan_error) None d))"

section \<open>The whole\<close>

datatype queue_op =
    Advances int
  | Drains nat string drain_news
  | Enqueues nat string string "string option" string string
  | Kicks bool nat
  | Edits string string string string
  | Removes string string string
  | ResumesQueue nat string string "string option"
  | Steers nat string string string "string option" bool
  | InterruptPauses string string
  | FreshTurn string
  | AfterTurn nat string string
  | EnqueuesBackground nat "string option" bool background_call
  | Wakes nat string string string "string option"
  | DeletesSession string string
  | Crashes nat
  | BootsDrains nat "string \<Rightarrow> string \<Rightarrow> string option"
  | ListsOrphans nat
  | ClosesOrphan nat bool bool

definition queue_step :: "queue_op \<Rightarrow> queues \<Rightarrow> queues" where
  "queue_step op d = (case op of
     Advances ms \<Rightarrow> d\<lparr>sq_clock := sq_clock d + ms\<rparr>
   | Drains p s news \<Rightarrow> drain_step p s news d
   | Enqueues p user s status i content \<Rightarrow> snd (enqueue_input p user s status i content d)
   | Kicks lease_live n \<Rightarrow> (if n < length (sq_kicks d)
       then idle_kick lease_live (sq_kicks d ! n) (d\<lparr>sq_kicks := take n (sq_kicks d) @ drop (Suc n) (sq_kicks d)\<rparr>) else d)
   | Edits user s i content \<Rightarrow> snd (edit_queued user s i content d)
   | Removes user s i \<Rightarrow> snd (remove_queued user s i d)
   | ResumesQueue p user s status \<Rightarrow> snd (resume_queue p user s status d)
   | Steers p user s i status lease_live \<Rightarrow> snd (steer_queued p user s i status lease_live d)
   | InterruptPauses user s \<Rightarrow> pause_on_interrupt user s d
   | FreshTurn s \<Rightarrow> set_queue_paused s False d
   | AfterTurn p s user \<Rightarrow> schedule_drain p s (Some user) d
   | EnqueuesBackground p status in_task c \<Rightarrow> snd (enqueue_background p status in_task c d)
   | Wakes p user s i status \<Rightarrow> snd (wake_input p user s i status d)
   | DeletesSession user s \<Rightarrow> delete_queue_for_session user s d
   | Crashes p \<Rightarrow> d\<lparr>sq_drains := filter (\<lambda>x. dr_proc x \<noteq> p) (sq_drains d),
                     sq_kicks := filter (\<lambda>k. ki_proc k \<noteq> p) (sq_kicks d), sq_orphans := filter (\<lambda>x. fst x \<noteq> p) (sq_orphans d)\<rparr>
   | BootsDrains p status_of \<Rightarrow> resume_queued_drains p status_of d
   | ListsOrphans p \<Rightarrow> list_orphans p d
   | ClosesOrphan n lease_live running \<Rightarrow> (if n < length (sq_orphans d)
       then (case sq_orphans d ! n of (p, r) \<Rightarrow> close_orphan lease_live running p r
               (d\<lparr>sq_orphans := take n (sq_orphans d) @ drop (Suc n) (sq_orphans d)\<rparr>)) else d))"

definition queue_run :: "queue_op list \<Rightarrow> queues \<Rightarrow> queues" where
  "queue_run ops d = fold queue_step ops d"

end
