(* ===== verification/QueueFacts.thy ===== *)
theory QueueFacts
  imports QueueDrain Histories
begin

text \<open>
  The invariant of the input queue under every step: the keys of the rows, that a row with a terminal
  status and only such a row has an end, and that no row whose turn was started is ever queued
  again.
\<close>

section \<open>The invariant\<close>

definition input_statuses :: "string list" where
  "input_statuses = terminal_input_statuses @ [''queued'', ''blocked'', ''dispatched'']"

definition input_ok :: "queued_input \<Rightarrow> bool" where
  "input_ok r = (qi_status r \<in> set input_statuses
     \<and> (qi_completed r \<noteq> None \<longleftrightarrow> qi_status r \<in> set terminal_input_statuses))"

definition rows_ok :: "queued_input list \<Rightarrow> nat \<Rightarrow> bool" where
  "rows_ok rs n = (distinct (map qi_id rs) \<and> distinct (map qi_row rs) \<and> list_all (\<lambda>r. qi_row r < n \<and> input_ok r) rs)"

text \<open>A started row is over the queue: it is not queued now.\<close>

definition turns_ok :: "queued_input list \<Rightarrow> nat \<Rightarrow> (string \<times> nat) list \<Rightarrow> bool" where
  "turns_ok rs n ts = (distinct (map snd ts) \<and> list_all (\<lambda>t. snd t < n) ts
     \<and> list_all (\<lambda>r. qi_status r \<noteq> ''queued'' \<or> qi_row r \<notin> snd ` set ts) rs)"

definition queue_ok :: "queues \<Rightarrow> bool" where
  "queue_ok d = (rows_ok (sq_inputs d) (sq_rows d) \<and> turns_ok (sq_inputs d) (sq_rows d) (sq_turns d))"

lemma queue_ok_other [simp]:
  "queue_ok (d\<lparr>sq_paused := a\<rparr>) = queue_ok d"
  "queue_ok (d\<lparr>sq_clock := b\<rparr>) = queue_ok d"
  "queue_ok (d\<lparr>sq_drains := c\<rparr>) = queue_ok d"
  "queue_ok (d\<lparr>sq_kicks := e\<rparr>) = queue_ok d"
  "queue_ok (d\<lparr>sq_orphans := f\<rparr>) = queue_ok d"
  "queue_ok (d\<lparr>sq_interrupts := g\<rparr>) = queue_ok d"
  by (simp_all add: queue_ok_def)

lemma queue_ok_glue [simp]:
  "queue_ok (set_queue_paused s v d) = queue_ok d"
  "queue_ok (move_drain p s at d) = queue_ok d"
  "queue_ok (schedule_drain p s w d) = queue_ok d"
  "queue_ok (later_kick p s u st d) = queue_ok d"
  "queue_ok (list_orphans p d) = queue_ok d"
  "queue_ok (pause_on_interrupt u s d) = queue_ok d"
  by (simp_all add: set_queue_paused_def move_drain_def schedule_drain_def later_kick_def list_orphans_def
      pause_on_interrupt_def)

text \<open>A write to a row that keeps its keys, its status good and does not queue it again.\<close>

definition write_ok :: "(queued_input \<Rightarrow> queued_input) \<Rightarrow> bool" where
  "write_ok f = (\<forall>r. qi_id (f r) = qi_id r \<and> qi_row (f r) = qi_row r \<and> (qi_status (f r) = ''queued'' \<longrightarrow> qi_status r = ''queued'')
     \<and> (input_ok r \<longrightarrow> input_ok (f r)))"

lemma write_okI:
  assumes "\<And>r. qi_id (f r) = qi_id r" "\<And>r. qi_row (f r) = qi_row r"
    "\<And>r. qi_status (f r) = ''queued'' \<Longrightarrow> qi_status r = ''queued''" "\<And>r. input_ok r \<Longrightarrow> input_ok (f r)"
  shows "write_ok f"
  using assms unfolding write_ok_def by blast

lemma write_ok_if:
  assumes "write_ok f"
  shows "write_ok (\<lambda>r. if P r then f r else r)"
  using assms unfolding write_ok_def by auto

lemma rows_ok_map:
  assumes "write_ok f" "rows_ok rs n"
  shows "rows_ok (map f rs) n"
proof -
  have keys: "qi_id (f r) = qi_id r" "qi_row (f r) = qi_row r" "input_ok r \<Longrightarrow> input_ok (f r)" for r
    using assms(1) unfolding write_ok_def by auto
  then have "map qi_id (map f rs) = map qi_id rs" "map qi_row (map f rs) = map qi_row rs" by simp_all
  then show ?thesis
    using assms(2) keys unfolding rows_ok_def list_all_iff by (simp del: map_map list.map_comp)
qed

lemma turns_ok_map:
  assumes "write_ok f" "turns_ok rs n ts"
  shows "turns_ok (map f rs) n ts"
proof -
  have keys: "qi_row (f r) = qi_row r" "qi_status (f r) = ''queued'' \<Longrightarrow> qi_status r = ''queued''" for r
    using assms(1) unfolding write_ok_def by auto
  then have "list_all (\<lambda>r. qi_status r \<noteq> ''queued'' \<or> qi_row r \<notin> snd ` set ts) (map f rs)"
    using assms(2) unfolding turns_ok_def list_all_iff by (auto simp: keys)
  then show ?thesis using assms(2) unfolding turns_ok_def by simp
qed

lemma queue_ok_update:
  assumes "queue_ok d" "write_ok f"
  shows "queue_ok (snd (update_inputs P f d))"
proof -
  let ?g = "\<lambda>r. if P r then f r else r"
  have "write_ok ?g" using assms(2) by (rule write_ok_if)
  with assms(1) show ?thesis
    unfolding queue_ok_def update_inputs_def by (simp add: rows_ok_map turns_ok_map)
qed

text \<open>The writes of the code.\<close>

lemma write_ok_ended:
  assumes "status \<in> set input_statuses" "status \<noteq> ''queued''" "c \<noteq> None \<longleftrightarrow> status \<in> set terminal_input_statuses"
  shows "write_ok (\<lambda>r. r\<lparr>qi_status := status, qi_error := e, qi_message := m, qi_summary := v, qi_completed := c\<rparr>)"
  using assms by (intro write_okI) (auto simp: input_ok_def)

lemma queue_ok_mark:
  assumes "queue_ok d" "status \<in> set input_statuses" "status \<noteq> ''queued''"
  shows "queue_ok (snd (mark_queued_status i status oc expected d))"
  unfolding mark_queued_status_def using assms by (intro queue_ok_update write_ok_ended) auto

lemma status_members [simp]:
  "''completed'' \<in> set input_statuses" "''failed'' \<in> set input_statuses" "''cancelled'' \<in> set input_statuses"
  "''blocked'' \<in> set input_statuses" "''dispatched'' \<in> set input_statuses" "''queued'' \<in> set input_statuses"
  "''cancelled'' \<in> set terminal_input_statuses" "''queued'' \<notin> set terminal_input_statuses"
  "''dispatched'' \<notin> set terminal_input_statuses"
  by (simp_all add: input_statuses_def terminal_input_statuses_def)

lemma input_outcome_member: "input_outcome e \<in> set input_statuses" "input_outcome e \<noteq> ''queued''"
  by (simp_all add: input_outcome_def)

lemma queue_ok_complete: "queue_ok d \<Longrightarrow> queue_ok (complete_input i e oc d)"
  unfolding complete_input_def by (intro queue_ok_mark input_outcome_member)

lemma queue_ok_delete: "queue_ok d \<Longrightarrow> queue_ok (snd (delete_queued u s i d))"
  unfolding delete_queued_def by (intro queue_ok_update write_okI) (auto simp: input_ok_def)

lemma queue_ok_edit: "queue_ok d \<Longrightarrow> queue_ok (snd (update_queued_input u s i c p d))"
  unfolding update_queued_input_def
  by (auto intro!: queue_ok_update write_okI simp: input_ok_def split: option.splits)

lemma queue_ok_promote: "queue_ok d \<Longrightarrow> queue_ok (snd (promote_to_front u s i d))"
  unfolding promote_to_front_def Let_def
  by (auto intro!: queue_ok_update write_okI simp: input_ok_def split: option.splits)

lemma queue_ok_delete_session: "queue_ok d \<Longrightarrow> queue_ok (delete_queue_for_session u s d)"
  unfolding queue_ok_def rows_ok_def turns_ok_def delete_queue_for_session_def
  by (auto simp: list_all_iff distinct_map_filter)

lemma queue_ok_create:
  assumes ok: "queue_ok d" and made: "create_queued u (new_input i s c src v p) d = Some (r, d1)"
  shows "queue_ok d1"
proof -
  have d1: "d1 = d\<lparr>sq_inputs := sq_inputs d @ [r], sq_rows := sq_rows d + 1\<rparr>"
    and r: "qi_row r = sq_rows d" "qi_id r = i" "qi_status r = ''queued''" "input_ok r"
    and fresh: "i \<notin> qi_id ` set (sq_inputs d)"
    using made by (auto simp: create_queued_def new_input_def Let_def input_ok_def list_ex_iff split: if_splits)
  have rows: "rows_ok (sq_inputs d) (sq_rows d)" and turns: "turns_ok (sq_inputs d) (sq_rows d) (sq_turns d)"
    using ok by (simp_all add: queue_ok_def)
  have "rows_ok (sq_inputs d @ [r]) (sq_rows d + 1)"
    using rows r fresh unfolding rows_ok_def list_all_iff by (auto simp: less_Suc_eq)
  moreover have "turns_ok (sq_inputs d @ [r]) (sq_rows d + 1) (sq_turns d)"
    using turns r unfolding turns_ok_def list_all_iff by (auto simp: less_Suc_eq)
  ultimately show ?thesis unfolding d1 queue_ok_def by simp
qed

section \<open>Every step keeps it\<close>

lemma mark_dispatched:
  assumes "mark_queued_status i ''dispatched'' no_columns (Some ''queued'') d = (started, d1)"
  shows "started \<longleftrightarrow> (\<exists>r \<in> set (sq_inputs d). qi_id r = i \<and> qi_status r = ''queued'')"
    and "sq_rows d1 = sq_rows d" "sq_turns d1 = sq_turns d" "sq_drains d1 = sq_drains d"
    and "sq_inputs d1 = map (\<lambda>r. if qi_id r = i \<and> qi_status r = ''queued'' then r\<lparr>qi_status := ''dispatched'', qi_error := None,
           qi_message := None, qi_summary := None, qi_completed := None\<rparr> else r) (sq_inputs d)"
  using assms by (auto simp: mark_queued_status_def update_inputs_def no_columns_def list_ex_iff terminal_input_statuses_def)

lemma find_by_id:
  assumes "distinct (map qi_id rs)" "r \<in> set rs" "qi_id r = i"
  shows "List.find (\<lambda>x. qi_id x = i) rs = Some r"
proof -
  obtain q where q: "List.find (\<lambda>x. qi_id x = i) rs = Some q"
    using assms(2,3) by (cases "List.find (\<lambda>x. qi_id x = i) rs") (auto simp: find_None_iff)
  then have "q \<in> set rs" "qi_id q = i" by (auto simp: find_Some_iff)
  then show ?thesis using q assms by (metis distinct_map inj_on_def)
qed

lemma queue_ok_start:
  assumes ok: "queue_ok d" and mark: "mark_queued_status i ''dispatched'' no_columns (Some ''queued'') d = (True, d1)"
    and k: "k = (case List.find (\<lambda>r. qi_id r = i) (sq_inputs d) of None \<Rightarrow> n | Some r \<Rightarrow> qi_row r)"
  shows "queue_ok ((move_drain p s at d1)\<lparr>sq_turns := sq_turns d1 @ [(s, k)]\<rparr>)"
proof -
  note m = mark_dispatched [OF mark]
  obtain r where r: "r \<in> set (sq_inputs d)" "qi_id r = i" "qi_status r = ''queued''" using m(1) by blast
  have rows: "rows_ok (sq_inputs d) (sq_rows d)" and turns: "turns_ok (sq_inputs d) (sq_rows d) (sq_turns d)"
    using ok by (simp_all add: queue_ok_def)
  have kr: "k = qi_row r" using find_by_id [OF _ r(1,2)] rows k by (simp add: rows_ok_def)
  have new: "k < sq_rows d" "k \<notin> snd ` set (sq_turns d)"
    using r rows turns unfolding kr rows_ok_def turns_ok_def list_all_iff by auto
  have ok1: "queue_ok d1"
    using queue_ok_mark [OF ok, of "''dispatched''" i no_columns "Some ''queued''"] mark by simp
  have gone: "qi_status q \<noteq> ''queued''" if "q \<in> set (sq_inputs d1)" "qi_row q = k" for q
  proof -
    obtain q0 where q0: "q0 \<in> set (sq_inputs d)" and q: "q = (if qi_id q0 = i \<and> qi_status q0 = ''queued'' then
        q0\<lparr>qi_status := ''dispatched'', qi_error := None, qi_message := None, qi_summary := None, qi_completed := None\<rparr> else q0)"
      using \<open>q \<in> set (sq_inputs d1)\<close> unfolding m(5) by auto
    then have "qi_row q0 = qi_row r" using that(2) kr by (simp split: if_splits)
    then have "q0 = r" using rows q0 r(1) unfolding rows_ok_def distinct_map inj_on_def by blast
    then show ?thesis using q r by simp
  qed
  have "turns_ok (sq_inputs d1) (sq_rows d1) (sq_turns d1 @ [(s, k)])"
    using ok1 new gone unfolding queue_ok_def turns_ok_def m(2,3) list_all_iff by auto
  moreover have "sq_inputs (move_drain p s at d1) = sq_inputs d1" "sq_rows (move_drain p s at d1) = sq_rows d1"
    by (simp_all add: move_drain_def)
  ultimately show ?thesis using ok1 unfolding queue_ok_def by simp
qed

lemma queue_ok_judge:
  assumes "queue_ok d"
  shows "queue_ok (judge_head p s owner head v d)"
proof (cases v)
  case Clear
  obtain started d1 where m: "mark_queued_status (qi_id head) ''dispatched'' no_columns (Some ''queued'') d = (started, d1)"
    by fastforce
  have ok1: "queue_ok d1"
    using queue_ok_mark [OF assms, of "''dispatched''" "qi_id head" no_columns "Some ''queued''"] m by simp
  show ?thesis
  proof (cases started)
    case True
    then have m': "mark_queued_status (qi_id head) ''dispatched'' no_columns (Some ''queued'') d = (True, d1)" using m by simp
    show ?thesis
      unfolding judge_head_def Clear head_verdict.case m' prod.case Let_def not_True_eq_False if_False
      by (rule queue_ok_start [OF assms m' refl])
  next
    case False
    then show ?thesis using m ok1 by (simp add: judge_head_def Clear)
  qed
qed (use assms in \<open>auto simp: judge_head_def intro!: queue_ok_mark\<close>)

lemma queue_ok_drain_step: "queue_ok d \<Longrightarrow> queue_ok (drain_step p s news d)"
  unfolding drain_step_def
  by (simp split: option.splits drain_at.splits drain_news.splits add: queue_ok_judge queue_ok_complete)

lemma queue_ok_schedule_fold:
  "queue_ok d \<Longrightarrow> queue_ok (fold (resume_queued_drain p st) xs d)"
  by (induction xs arbitrary: d) (auto simp: resume_queued_drain_def split: option.splits)

lemma queue_ok_background:
  assumes "queue_ok d"
  shows "queue_ok (snd (enqueue_background p status it c d))"
  using assms queue_ok_create [OF assms]
  unfolding enqueue_background_def Let_def by (auto split: option.splits)

lemma queue_ok_enqueue: "queue_ok d \<Longrightarrow> queue_ok (snd (enqueue_input p u s st i c d))"
  unfolding enqueue_input_def by (auto dest: queue_ok_create split: option.splits)

lemma queue_ok_close_orphan: "queue_ok d \<Longrightarrow> queue_ok (close_orphan l rn p r d)"
  unfolding close_orphan_def by (auto intro!: queue_ok_mark)

lemma queue_ok_user_ops:
  assumes "queue_ok d"
  shows "queue_ok (snd (edit_queued u s i c d))" "queue_ok (snd (remove_queued u s i d))"
    "queue_ok (snd (resume_queue p u s st d))" "queue_ok (snd (steer_queued p u s i st l d))"
    "queue_ok (snd (wake_input p u s i st d))" "queue_ok (idle_kick l k d)"
proof -
  show "queue_ok (snd (edit_queued u s i c d))"
    using queue_ok_edit [OF assms] assms by (simp add: edit_queued_def split: option.splits)
  show "queue_ok (snd (remove_queued u s i d))"
    using queue_ok_delete [OF assms, of u s i] by (simp add: remove_queued_def split_def)
  show "queue_ok (snd (resume_queue p u s st d))"
    using assms by (simp add: resume_queue_def split: option.splits)
  show "queue_ok (snd (steer_queued p u s i st l d))"
  proof -
    obtain yes d1 where eq: "promote_to_front u s i d = (yes, d1)" by fastforce
    then have "queue_ok d1" using queue_ok_promote [OF assms, of u s i] by simp
    then show ?thesis using assms by (simp add: steer_queued_def Let_def eq split: option.splits)
  qed
  show "queue_ok (snd (wake_input p u s i st d))"
    using assms by (simp add: wake_input_def split: option.splits)
  show "queue_ok (idle_kick l k d)"
    using assms by (simp add: idle_kick_def)
qed

lemma queue_ok_step: "queue_ok d \<Longrightarrow> queue_ok (queue_step op d)"
  unfolding queue_step_def
  by (cases op)
    (auto simp: resume_queued_drains_def queue_ok_user_ops queue_ok_drain_step queue_ok_enqueue queue_ok_background
       queue_ok_delete_session queue_ok_schedule_fold queue_ok_close_orphan split: prod.splits)

interpretation sq: kept_by_steps queue_step queue_ok "\<lambda>_. True"
  by unfold_locales (rule queue_ok_step)

lemma queue_ok_run: "queue_ok d \<Longrightarrow> queue_ok (queue_run ops d)"
  unfolding queue_run_def by (rule sq.history_ok) (simp_all add: list_all_iff)

end
