(* ===== verification/QueueOrder.thy ===== *)
theory QueueOrder
  imports QueueFacts
begin

text \<open>
  The order in which inputs are started.  As long as nobody steers and no session is deleted, the
  numbers of the rows, their positions and the order of the turns agree, whichever processes
  drain.
\<close>

section \<open>The head of the queue\<close>

lemma sort_key_hd_least:
  assumes "sort_key f xs = x # ys" "y \<in> set xs"
  shows "f x \<le> f y"
proof -
  have "sorted (map f (x # ys))" unfolding assms(1) [symmetric] by (rule sorted_sort_key)
  moreover have "y \<in> set (x # ys)" using assms(2) unfolding assms(1) [symmetric] by simp
  ultimately show ?thesis by auto
qed

lemma peek_least:
  assumes "peek_next_queued s d = Some h"
  shows "h \<in> set (sq_inputs d)" "is_waiting s h"
    and "q \<in> set (sq_inputs d) \<Longrightarrow> is_waiting s q \<Longrightarrow> qi_position h \<le> qi_position q"
proof -
  obtain ys where o: "queue_order (filter (is_waiting s) (sq_inputs d)) = h # ys"
    using assms by (auto simp: peek_next_queued_def split: list.splits)
  have "h \<in> set (queue_order (filter (is_waiting s) (sq_inputs d)))" unfolding o by simp
  then show "h \<in> set (sq_inputs d)" "is_waiting s h" by (auto simp: queue_order_def)
  show "q \<in> set (sq_inputs d) \<Longrightarrow> is_waiting s q \<Longrightarrow> qi_position h \<le> qi_position q"
    by (rule sort_key_hd_least [OF o [unfolded queue_order_def]]) simp
qed

lemma peek_none: "peek_next_queued s d = None \<longleftrightarrow> (\<forall>q \<in> set (sq_inputs d). \<not> is_waiting s q)"
proof -
  have "peek_next_queued s d = None \<longleftrightarrow> queue_order (filter (is_waiting s) (sq_inputs d)) = []"
    by (simp add: peek_next_queued_def split: list.splits)
  also have "\<dots> \<longleftrightarrow> set (queue_order (filter (is_waiting s) (sq_inputs d))) = {}" by (simp only: set_empty)
  also have "\<dots> \<longleftrightarrow> (\<forall>q \<in> set (sq_inputs d). \<not> is_waiting s q)" by (auto simp: queue_order_def)
  finally show ?thesis .
qed

section \<open>The invariant\<close>

definition rows_in_order :: "queued_input list \<Rightarrow> bool" where
  "rows_in_order rs = (\<forall>r \<in> set rs. \<forall>q \<in> set rs. qi_session r = qi_session q \<and> qi_row r < qi_row q
     \<longrightarrow> qi_position r < qi_position q)"

definition row_key :: "queued_input \<Rightarrow> string \<times> nat \<times> string" where
  "row_key r = (qi_id r, qi_row r, qi_session r)"

definition least_waiting :: "queued_input list \<Rightarrow> string \<Rightarrow> nat \<Rightarrow> bool" where
  "least_waiting rs s k = (\<forall>q \<in> set rs. is_waiting s q \<longrightarrow> k \<le> qi_row q)"

definition head_ok :: "queued_input list \<Rightarrow> queue_drain \<Rightarrow> bool" where
  "head_ok rs x = (case dr_at x of
      AtHead owner h \<Rightarrow> qi_session h = dr_session x \<and> row_key h \<in> row_key ` set rs \<and> least_waiting rs (dr_session x) (qi_row h)
    | _ \<Rightarrow> True)"

definition heads_ok :: "queued_input list \<Rightarrow> queue_drain list \<Rightarrow> bool" where
  "heads_ok rs xs = list_all (head_ok rs) xs"

definition turns_in_order :: "(string \<times> nat) list \<Rightarrow> bool" where
  "turns_in_order = sorted_wrt (\<lambda>t u. fst t = fst u \<longrightarrow> snd t < snd u)"

definition turns_before :: "queued_input list \<Rightarrow> (string \<times> nat) list \<Rightarrow> bool" where
  "turns_before rs ts = (\<forall>t \<in> set ts. \<forall>q \<in> set rs. is_waiting (fst t) q \<longrightarrow> snd t < qi_row q)"

definition order_ok :: "queues \<Rightarrow> bool" where
  "order_ok d = (queue_ok d \<and> rows_in_order (sq_inputs d) \<and> heads_ok (sq_inputs d) (sq_drains d)
     \<and> turns_in_order (sq_turns d) \<and> turns_before (sq_inputs d) (sq_turns d))"

text \<open>The operations that keep the order: all but steering and the deletion of a session.\<close>

fun keeps_order :: "queue_op \<Rightarrow> bool" where
  "keeps_order (Steers _ _ _ _ _ _) = False"
| "keeps_order (DeletesSession _ _) = False"
| "keeps_order _ = True"

text \<open>A write that leaves keys and places alone and queues nothing.\<close>

definition places_kept :: "(queued_input \<Rightarrow> queued_input) \<Rightarrow> bool" where
  "places_kept f = (\<forall>r. row_key (f r) = row_key r \<and> qi_position (f r) = qi_position r
     \<and> (qi_status (f r) = ''queued'' \<longrightarrow> qi_status r = ''queued''))"

definition same_places :: "queues \<Rightarrow> queues \<Rightarrow> bool" where
  "same_places d d' = (sq_drains d' = sq_drains d \<and> sq_turns d' = sq_turns d
     \<and> (\<exists>f. places_kept f \<and> sq_inputs d' = map f (sq_inputs d)))"

lemma same_places_refl: "same_places d d"
  unfolding same_places_def by (auto intro!: exI [of _ "\<lambda>r. r"] simp: places_kept_def)

lemma same_places_update:
  assumes "\<And>r. row_key (f r) = row_key r" "\<And>r. qi_position (f r) = qi_position r"
    "\<And>r. qi_status (f r) = ''queued'' \<Longrightarrow> qi_status r = ''queued''"
  shows "same_places d (snd (update_inputs P f d))"
proof -
  have "places_kept (\<lambda>r. if P r then f r else r)"
    unfolding places_kept_def using assms by presburger
  then show ?thesis unfolding same_places_def update_inputs_def by auto
qed

lemma same_places_mark: "status \<noteq> ''queued'' \<Longrightarrow> same_places d (snd (mark_queued_status i status oc e d))"
  unfolding mark_queued_status_def by (rule same_places_update) (auto simp: row_key_def)

lemma same_places_rows:
  assumes "same_places d d'"
  shows "row_key ` set (sq_inputs d') = row_key ` set (sq_inputs d)"
    and "q \<in> set (sq_inputs d') \<Longrightarrow> is_waiting s q \<Longrightarrow>
      \<exists>r \<in> set (sq_inputs d). is_waiting s r \<and> qi_row r = qi_row q"
    and "rows_in_order (sq_inputs d) \<Longrightarrow> rows_in_order (sq_inputs d')"
proof -
  obtain f where f: "places_kept f" "sq_inputs d' = map f (sq_inputs d)"
    using assms unfolding same_places_def by blast
  have key: "row_key (f r) = row_key r" "qi_position (f r) = qi_position r"
    "qi_status (f r) = ''queued'' \<Longrightarrow> qi_status r = ''queued''" for r
    using f(1) unfolding places_kept_def by auto
  have part: "qi_row (f r) = qi_row r" "qi_session (f r) = qi_session r" for r
    using key(1) [of r] by (simp_all add: row_key_def)
  show "row_key ` set (sq_inputs d') = row_key ` set (sq_inputs d)"
    unfolding f(2) by (simp add: image_image key(1))
  show "q \<in> set (sq_inputs d') \<Longrightarrow> is_waiting s q \<Longrightarrow> \<exists>r \<in> set (sq_inputs d). is_waiting s r \<and> qi_row r = qi_row q"
    unfolding f(2) is_waiting_def using key(3) part by auto
  show "rows_in_order (sq_inputs d) \<Longrightarrow> rows_in_order (sq_inputs d')"
    unfolding f(2) rows_in_order_def using key(2) part by auto
qed

lemma least_waiting_places:
  assumes "same_places d d'" "least_waiting (sq_inputs d) s k"
  shows "least_waiting (sq_inputs d') s k"
  using same_places_rows(2) [OF assms(1)] assms(2) unfolding least_waiting_def by metis

lemma order_ok_places:
  assumes "order_ok d" "same_places d d'" "queue_ok d'"
  shows "order_ok d'"
proof -
  have eq: "sq_drains d' = sq_drains d" "sq_turns d' = sq_turns d" using assms(2) by (auto simp: same_places_def)
  have "head_ok (sq_inputs d') x" if "head_ok (sq_inputs d) x" for x
    using that least_waiting_places [OF assms(2)]
    unfolding head_ok_def same_places_rows(1) [OF assms(2)] by (auto split: drain_at.splits)
  then have "heads_ok (sq_inputs d') (sq_drains d)"
    using assms(1) unfolding order_ok_def heads_ok_def list_all_iff by blast
  moreover have "turns_before (sq_inputs d') (sq_turns d)"
    using assms(1) same_places_rows(2) [OF assms(2)] unfolding order_ok_def turns_before_def by metis
  ultimately show ?thesis
    using assms same_places_rows(3) [OF assms(2)] unfolding order_ok_def eq by blast
qed

text \<open>Fields that do not matter, and drains that hold no head.\<close>

lemma order_ok_other [simp]:
  "order_ok (d\<lparr>sq_paused := a\<rparr>) = order_ok d"
  "order_ok (d\<lparr>sq_clock := b\<rparr>) = order_ok d"
  "order_ok (d\<lparr>sq_kicks := e\<rparr>) = order_ok d"
  "order_ok (d\<lparr>sq_orphans := f\<rparr>) = order_ok d"
  "order_ok (d\<lparr>sq_interrupts := g\<rparr>) = order_ok d"
  by (simp_all add: order_ok_def)

lemma order_ok_move:
  assumes "order_ok d" "\<And>owner h. at = AtHead owner h \<Longrightarrow>
     qi_session h = s \<and> row_key h \<in> row_key ` set (sq_inputs d) \<and> least_waiting (sq_inputs d) s (qi_row h)"
  shows "order_ok (move_drain p s at d)"
proof -
  have "head_ok (sq_inputs d) (x\<lparr>dr_at := at\<rparr>)" if "dr_session x = s" for x
    using assms(2) that by (cases at) (auto simp: head_ok_def)
  then show ?thesis
    using assms(1) unfolding order_ok_def heads_ok_def move_drain_def by (auto simp: list_all_iff queue_ok_def)
qed

lemma order_ok_schedule [simp]: "order_ok d \<Longrightarrow> order_ok (schedule_drain p s w d)"
  by (simp add: order_ok_def schedule_drain_def heads_ok_def head_ok_def)

lemma order_ok_drop: "order_ok d \<Longrightarrow> order_ok (d\<lparr>sq_drains := filter P (sq_drains d)\<rparr>)"
  by (auto simp: order_ok_def heads_ok_def list_all_iff)

section \<open>The steps\<close>

lemma fold_max_upper:
  assumes "x \<in> set (p # ps)"
  shows "x \<le> fold max ps (p :: int)"
  unfolding Max.set_eq_fold [symmetric] using assms by (intro Max_ge) auto

lemma next_position_above:
  assumes "q \<in> set (sq_inputs d)" "qi_session q = s"
  shows "qi_position q < next_queue_position s d"
proof -
  have q: "qi_position q \<in> set (map qi_position (filter (\<lambda>r. qi_session r = s) (sq_inputs d)))"
    using assms by auto
  show ?thesis
  proof (cases "map qi_position (filter (\<lambda>r. qi_session r = s) (sq_inputs d))")
    case (Cons p ps)
    then have "qi_position q \<le> fold max ps p" using q by (intro fold_max_upper) simp
    then show ?thesis unfolding next_queue_position_def Cons by simp
  qed (use q in simp)
qed

lemma order_ok_create:
  assumes ok: "order_ok d" and made: "create_queued u (new_input i s c src v p) d = Some (r, d1)"
  shows "order_ok d1"
proof -
  have d1: "d1 = d\<lparr>sq_inputs := sq_inputs d @ [r], sq_rows := sq_rows d + 1\<rparr>"
    and r: "qi_row r = sq_rows d" "qi_session r = s" "qi_position r = next_queue_position s d"
    using made by (auto simp: create_queued_def new_input_def Let_def split: if_splits)
  have q: "queue_ok d" and ord: "rows_in_order (sq_inputs d)" and heads: "heads_ok (sq_inputs d) (sq_drains d)"
    and ts: "turns_in_order (sq_turns d)" and before: "turns_before (sq_inputs d) (sq_turns d)"
    using ok by (simp_all add: order_ok_def)
  have below: "qi_row x < sq_rows d" if "x \<in> set (sq_inputs d)" for x
    using q that by (simp add: queue_ok_def rows_ok_def list_all_iff)
  have turn_below: "snd t < sq_rows d" if "t \<in> set (sq_turns d)" for t
    using q that by (simp add: queue_ok_def turns_ok_def list_all_iff)
  have "rows_in_order (sq_inputs d @ [r])"
    unfolding rows_in_order_def
  proof (intro ballI impI)
    fix x y assume xy: "x \<in> set (sq_inputs d @ [r])" "y \<in> set (sq_inputs d @ [r])"
      and c: "qi_session x = qi_session y \<and> qi_row x < qi_row y"
    have "qi_row y \<le> sq_rows d" using xy(2) below [of y] r(1) by (cases "y = r") auto
    then have "x \<noteq> r" using c r(1) by auto
    then have x: "x \<in> set (sq_inputs d)" using xy(1) by simp
    show "qi_position x < qi_position y"
    proof (cases "y = r")
      case True
      then show ?thesis using next_position_above [OF x] c r by simp
    next
      case False
      then have "y \<in> set (sq_inputs d)" using xy(2) by simp
      then show ?thesis using ord x c unfolding rows_in_order_def by blast
    qed
  qed
  moreover have "head_ok (sq_inputs d @ [r]) x" if hx: "head_ok (sq_inputs d) x" for x
  proof (cases "dr_at x")
    case (AtHead owner h)
    then obtain y where y: "y \<in> set (sq_inputs d)" "row_key h = row_key y"
      using hx AtHead by (auto simp: head_ok_def)
    then have "qi_row h < sq_rows d" using below by (simp add: row_key_def)
    then show ?thesis using hx r AtHead by (auto simp: head_ok_def least_waiting_def)
  qed (simp_all add: head_ok_def)
  then have "heads_ok (sq_inputs d @ [r]) (sq_drains d)"
    using heads unfolding heads_ok_def list_all_iff by blast
  moreover have "turns_before (sq_inputs d @ [r]) (sq_turns d)"
    using before turn_below r unfolding turns_before_def by auto
  ultimately show ?thesis
    using queue_ok_create [OF q made] ts unfolding order_ok_def d1 by simp
qed

lemma same_places_writes:
  "same_places d (complete_input i e oc d)"
  "same_places d (snd (delete_queued u s i d))"
  "same_places d (snd (update_queued_input u s i c pol d))"
  "same_places d (close_orphan l rn p r d)"
proof -
  show "same_places d (complete_input i e oc d)"
    unfolding complete_input_def by (rule same_places_mark) (rule input_outcome_member)
  show "same_places d (snd (delete_queued u s i d))"
    unfolding delete_queued_def by (rule same_places_update) (simp_all add: row_key_def)
  show "same_places d (snd (update_queued_input u s i c pol d))"
    unfolding update_queued_input_def
    by (auto intro!: same_places_update same_places_refl simp: row_key_def split: option.splits)
  show "same_places d (close_orphan l rn p r d)"
    unfolding close_orphan_def by (auto intro: same_places_mark same_places_refl)
qed

lemma order_ok_start:
  assumes ok: "order_ok d" and mark: "mark_queued_status (qi_id h) ''dispatched'' no_columns (Some ''queued'') d = (True, d1)"
    and key: "qi_session h = s" "row_key h \<in> row_key ` set (sq_inputs d)" "least_waiting (sq_inputs d) s (qi_row h)"
    and k: "k = (case List.find (\<lambda>r. qi_id r = qi_id h) (sq_inputs d) of None \<Rightarrow> n | Some r \<Rightarrow> qi_row r)"
  shows "order_ok ((move_drain p s (AtTurn owner k i) d1)\<lparr>sq_turns := sq_turns d1 @ [(s, k)]\<rparr>)"
proof -
  note m = mark_dispatched [OF mark]
  have q: "queue_ok d" using ok by (simp add: order_ok_def)
  have rows: "distinct (map qi_id (sq_inputs d))" "distinct (map qi_row (sq_inputs d))"
    using q by (simp_all add: queue_ok_def rows_ok_def)
  obtain r where r: "r \<in> set (sq_inputs d)" "qi_id r = qi_id h" "qi_status r = ''queued''" using m(1) by blast
  obtain y where y: "y \<in> set (sq_inputs d)" "row_key y = row_key h" using key(2) by (auto simp: image_iff)
  have "y = r" using y r rows(1) unfolding distinct_map inj_on_def row_key_def by auto
  then have rk: "qi_row r = qi_row h" "qi_session r = s" using y key(1) by (auto simp: row_key_def)
  have kh: "k = qi_row h" using find_by_id [OF rows(1) r(1,2)] k rk by simp
  have wait: "is_waiting s r" using r rk by (simp add: is_waiting_def)
  have places: "same_places d d1"
    using same_places_mark [of "''dispatched''" d "qi_id h" no_columns "Some ''queued''"] mark by simp
  have ok1: "order_ok d1"
    by (rule order_ok_places [OF ok places]) (use queue_ok_mark [OF q, of "''dispatched''" "qi_id h" no_columns "Some ''queued''"] mark in simp)
  have moved: "order_ok (move_drain p s (AtTurn owner k i) d1)" by (rule order_ok_move [OF ok1]) simp
  have "queue_ok ((move_drain p s (AtTurn owner k i) d1)\<lparr>sq_turns := sq_turns d1 @ [(s, k)]\<rparr>)"
    by (rule queue_ok_start [OF q mark k])
  moreover have "turns_in_order (sq_turns d1 @ [(s, k)])"
    using ok r(1) wait unfolding m(3) order_ok_def turns_in_order_def turns_before_def kh rk(1) [symmetric]
    by (auto simp: sorted_wrt_append)
  moreover have "k < qi_row x" if x: "x \<in> set (sq_inputs d1)" "is_waiting s x" for x
  proof -
    obtain x0 where x0: "x0 \<in> set (sq_inputs d)" "is_waiting s x0" "qi_row x0 = qi_row x"
      using same_places_rows(2) [OF places x] by blast
    have "k \<le> qi_row x" using key(3) x0 kh unfolding least_waiting_def by auto
    moreover have "qi_row x \<noteq> k"
    proof
      assume same: "qi_row x = k"
      have "queue_ok ((move_drain p s (AtTurn owner k i) d1)\<lparr>sq_turns := sq_turns d1 @ [(s, k)]\<rparr>)" by fact
      then have "qi_status x \<noteq> ''queued''"
        using x(1) same unfolding queue_ok_def turns_ok_def list_all_iff by (auto simp: move_drain_def)
      then show False using x(2) by (simp add: is_waiting_def)
    qed
    ultimately show ?thesis by simp
  qed
  then have "turns_before (sq_inputs d1) (sq_turns d1 @ [(s, k)])"
    using ok1 unfolding order_ok_def turns_before_def by auto
  ultimately show ?thesis
    using moved unfolding order_ok_def by (simp add: move_drain_def)
qed

lemma order_ok_glue [simp]:
  "order_ok (set_queue_paused s v d) = order_ok d"
  "order_ok (later_kick p s u st d) = order_ok d"
  "order_ok (list_orphans p d) = order_ok d"
  "order_ok (pause_on_interrupt u s d) = order_ok d"
  by (simp_all add: set_queue_paused_def later_kick_def list_orphans_def pause_on_interrupt_def)

lemma order_ok_writes:
  assumes "order_ok d"
  shows "order_ok (complete_input i e oc d)" "order_ok (snd (delete_queued u s i d))"
    "order_ok (snd (update_queued_input u s i c pol d))" "order_ok (close_orphan l rn p r d)"
proof -
  have q: "queue_ok d" using assms by (simp add: order_ok_def)
  show "order_ok (complete_input i e oc d)"
    by (rule order_ok_places [OF assms same_places_writes(1) queue_ok_complete [OF q]])
  show "order_ok (snd (delete_queued u s i d))"
    by (rule order_ok_places [OF assms same_places_writes(2) queue_ok_delete [OF q]])
  show "order_ok (snd (update_queued_input u s i c pol d))"
    by (rule order_ok_places [OF assms same_places_writes(3) queue_ok_edit [OF q]])
  show "order_ok (close_orphan l rn p r d)"
    by (rule order_ok_places [OF assms same_places_writes(4) queue_ok_close_orphan [OF q]])
qed

lemma order_ok_mark:
  assumes "order_ok d" "status \<in> set input_statuses" "status \<noteq> ''queued''"
  shows "order_ok (snd (mark_queued_status i status oc e d))"
  using assms(1) by (rule order_ok_places [OF _ same_places_mark [OF assms(3)] queue_ok_mark])
    (use assms in \<open>simp_all add: order_ok_def\<close>)

lemma order_ok_judge:
  assumes ok: "order_ok d"
    and key: "qi_session h = s" "row_key h \<in> row_key ` set (sq_inputs d)" "least_waiting (sq_inputs d) s (qi_row h)"
  shows "order_ok (judge_head p s owner h v d)"
proof (cases v)
  case Clear
  obtain started d1 where m: "mark_queued_status (qi_id h) ''dispatched'' no_columns (Some ''queued'') d = (started, d1)"
    by fastforce
  show ?thesis
  proof (cases started)
    case True
    then have m': "mark_queued_status (qi_id h) ''dispatched'' no_columns (Some ''queued'') d = (True, d1)" using m by simp
    show ?thesis
      unfolding judge_head_def Clear head_verdict.case m' prod.case Let_def not_True_eq_False if_False
      by (rule order_ok_start [OF ok m' key refl])
  next
    case False
    have "order_ok d1"
      using order_ok_mark [OF ok, of "''dispatched''" "qi_id h" no_columns "Some ''queued''"] m by simp
    then show ?thesis using m False by (auto simp: judge_head_def Clear intro!: order_ok_move)
  qed
qed (use ok in \<open>auto simp: judge_head_def intro!: order_ok_move order_ok_mark\<close>)

lemma drain_of_member: "drain_of p s d = Some x \<Longrightarrow> x \<in> set (sq_drains d) \<and> dr_session x = s"
  by (auto simp: drain_of_def find_Some_iff)

lemma order_ok_drain_step:
  assumes ok: "order_ok d"
  shows "order_ok (drain_step p s news d)"
proof (cases "drain_of p s d")
  case (Some x)
  note x = drain_of_member [OF Some]
  have head: "qi_session h = s \<and> row_key h \<in> row_key ` set (sq_inputs d) \<and> least_waiting (sq_inputs d) s (qi_row h)"
    if "dr_at x = AtHead owner h" for owner h
    using ok x that unfolding order_ok_def heads_ok_def list_all_iff head_ok_def by fastforce
  have peek: "qi_session h = s \<and> row_key h \<in> row_key ` set (sq_inputs d) \<and> least_waiting (sq_inputs d) s (qi_row h)"
    if "peek_next_queued s d = Some h" for h
  proof -
    note l = peek_least [OF that]
    have "qi_row h \<le> qi_row q" if q: "q \<in> set (sq_inputs d)" "is_waiting s q" for q
    proof (rule ccontr)
      assume "\<not> qi_row h \<le> qi_row q"
      then have "qi_position q < qi_position h"
        using ok q l(1,2) unfolding order_ok_def rows_in_order_def is_waiting_def by auto
      then show False using l(3) [OF q] by simp
    qed
    then show ?thesis using l(1,2) by (auto simp: least_waiting_def is_waiting_def)
  qed
  show ?thesis
  proof (cases "dr_at x")
    case (AtTop owner)
    show ?thesis
      using ok peek
      by (auto simp: drain_step_def Some AtTop intro!: order_ok_move split: drain_news.splits option.splits)
  next
    case (AtHead owner h)
    show ?thesis
      using ok order_ok_judge [OF ok] head [OF AtHead] by (simp add: drain_step_def Some AtHead split: drain_news.splits)
  next
    case Spawned
    show ?thesis
      using ok
      by (auto simp: drain_step_def Some Spawned intro!: order_ok_move split: drain_news.splits option.splits)
  next
    case (AtTurn owner k i)
    show ?thesis
      using ok
      by (auto simp: drain_step_def Some AtTurn intro!: order_ok_move order_ok_writes split: drain_news.splits)
  next
    case Leaving
    show ?thesis
      using ok
      by (auto simp: drain_step_def Some Leaving intro!: order_ok_drop split: drain_news.splits)
  qed
qed (use ok in \<open>simp add: drain_step_def\<close>)

lemma order_ok_background:
  "order_ok d \<Longrightarrow> order_ok (snd (enqueue_background p status it c d))"
  using order_ok_create unfolding enqueue_background_def Let_def by (auto split: option.splits)

lemma order_ok_enqueue: "order_ok d \<Longrightarrow> order_ok (snd (enqueue_input p u s st i c d))"
  unfolding enqueue_input_def by (auto dest: order_ok_create split: option.splits)

lemma order_ok_resume_fold: "order_ok d \<Longrightarrow> order_ok (fold (resume_queued_drain p st) xs d)"
  by (induction xs arbitrary: d) (auto simp: resume_queued_drain_def split: option.splits)

lemma order_ok_user_ops:
  assumes "order_ok d"
  shows "order_ok (snd (edit_queued u s i c d))" "order_ok (snd (remove_queued u s i d))"
    "order_ok (snd (resume_queue p u s st d))" "order_ok (snd (wake_input p u s i st d))" "order_ok (idle_kick l k d)"
proof -
  show "order_ok (snd (edit_queued u s i c d))"
    using order_ok_writes(3) [OF assms] assms by (simp add: edit_queued_def split: option.splits)
  show "order_ok (snd (remove_queued u s i d))"
    using order_ok_writes(2) [OF assms, of u s i] by (simp add: remove_queued_def split_def)
qed (use assms in \<open>auto simp: resume_queue_def wake_input_def idle_kick_def split: option.splits\<close>)

lemma order_ok_step: "order_ok d \<Longrightarrow> keeps_order op \<Longrightarrow> order_ok (queue_step op d)"
  unfolding queue_step_def
  by (cases op)
    (auto simp: resume_queued_drains_def order_ok_user_ops order_ok_drain_step order_ok_enqueue order_ok_background
       order_ok_resume_fold order_ok_writes order_ok_drop split: prod.splits)

interpretation so: kept_by_steps queue_step order_ok keeps_order
  by unfold_locales (rule order_ok_step)

lemma order_ok_run: "order_ok d \<Longrightarrow> list_all keeps_order ops \<Longrightarrow> order_ok (queue_run ops d)"
  unfolding queue_run_def by (rule so.history_ok)

end
