(* ===== verification/QueueProperties.thy ===== *)
theory QueueProperties
  imports QueueOrder
begin

text \<open>
  The properties of the input queue, with concrete histories, and the histories on which it does not do what
  the code says.
\<close>

section \<open>How the rows evolve\<close>

text \<open>Rows are numbered on, a row is not queued again, and what starts was queued.\<close>

definition evolves :: "queues \<Rightarrow> queues \<Rightarrow> bool" where
  "evolves d d' = (sq_rows d \<le> sq_rows d'
     \<and> (\<forall>q \<in> set (sq_inputs d'). sq_rows d \<le> qi_row q
          \<or> (\<exists>r \<in> set (sq_inputs d). qi_row r = qi_row q \<and> (qi_status q = ''queued'' \<longrightarrow> qi_status r = ''queued'')))
     \<and> (\<exists>new. sq_turns d' = sq_turns d @ new
          \<and> (\<forall>t \<in> set new. \<exists>r \<in> set (sq_inputs d). qi_row r = snd t \<and> qi_status r = ''queued'')))"

lemma evolves_same:
  assumes "sq_rows d' = sq_rows d" "sq_inputs d' = sq_inputs d" "sq_turns d' = sq_turns d"
  shows "evolves d d'"
  unfolding evolves_def assms by auto

lemma evolves_refl [simp]: "evolves d d"
  by (rule evolves_same) simp_all

lemma evolves_cong:
  assumes "evolves d d'" "sq_rows d'' = sq_rows d'" "sq_inputs d'' = sq_inputs d'" "sq_turns d'' = sq_turns d'"
  shows "evolves d d''"
  using assms unfolding evolves_def by simp

lemma evolves_update:
  assumes "\<And>r. qi_row (f r) = qi_row r" "\<And>r. qi_status (f r) = ''queued'' \<Longrightarrow> qi_status r = ''queued''"
  shows "evolves d (snd (update_inputs P f d))"
proof -
  have "\<exists>r \<in> set (sq_inputs d). qi_row r = qi_row q \<and> (qi_status q = ''queued'' \<longrightarrow> qi_status r = ''queued'')"
    if qm: "q \<in> set (map (\<lambda>r. if P r then f r else r) (sq_inputs d))" for q
  proof -
    obtain r where r: "r \<in> set (sq_inputs d)" "q = (if P r then f r else r)" using qm by auto
    then show ?thesis using assms [of r] by (intro bexI [of _ r]) (auto split: if_splits)
  qed
  then show ?thesis unfolding evolves_def update_inputs_def by auto
qed

lemma evolves_mark: "status \<noteq> ''queued'' \<Longrightarrow> evolves d (snd (mark_queued_status i status oc e d))"
  unfolding mark_queued_status_def by (rule evolves_update) simp_all

lemma evolves_create:
  assumes "create_queued u row d = Some (r, d1)"
  shows "evolves d d1"
  using assms unfolding create_queued_def evolves_def Let_def by (auto split: if_splits)

lemma evolves_glue [simp]:
  "evolves d (set_queue_paused s v d') = evolves d d'"
  "evolves d (move_drain p s at d') = evolves d d'"
  "evolves d (schedule_drain p s w d') = evolves d d'"
  "evolves d (later_kick p s u st d') = evolves d d'"
  "evolves d (list_orphans p d') = evolves d d'"
  "evolves d (pause_on_interrupt u s d') = evolves d d'"
  "evolves d (d'\<lparr>sq_interrupts := g\<rparr>) = evolves d d'"
  "evolves d (d'\<lparr>sq_drains := c\<rparr>) = evolves d d'"
  by (simp_all add: evolves_def set_queue_paused_def move_drain_def schedule_drain_def later_kick_def list_orphans_def
      pause_on_interrupt_def)

lemma evolves_start:
  assumes q: "queue_ok d" and mark: "mark_queued_status i ''dispatched'' no_columns (Some ''queued'') d = (True, d1)"
    and k: "k = (case List.find (\<lambda>r. qi_id r = i) (sq_inputs d) of None \<Rightarrow> n | Some r \<Rightarrow> qi_row r)"
  shows "evolves d ((move_drain p s at d1)\<lparr>sq_turns := sq_turns d1 @ [(s, k)]\<rparr>)"
proof -
  note m = mark_dispatched [OF mark]
  obtain r where r: "r \<in> set (sq_inputs d)" "qi_id r = i" "qi_status r = ''queued''" using m(1) by blast
  have "k = qi_row r" using find_by_id [OF _ r(1,2)] q k by (simp add: queue_ok_def rows_ok_def)
  moreover have "evolves d d1"
    using evolves_mark [of "''dispatched''" d i no_columns "Some ''queued''"] mark by simp
  ultimately show ?thesis
    using r m(3) unfolding evolves_def by (auto simp: move_drain_def)
qed

lemma evolves_judge:
  assumes "queue_ok d"
  shows "evolves d (judge_head p s owner h v d)"
proof (cases v)
  case Clear
  obtain started d1 where m: "mark_queued_status (qi_id h) ''dispatched'' no_columns (Some ''queued'') d = (started, d1)"
    by fastforce
  show ?thesis
  proof (cases started)
    case True
    then have m': "mark_queued_status (qi_id h) ''dispatched'' no_columns (Some ''queued'') d = (True, d1)" using m by simp
    show ?thesis
      unfolding judge_head_def Clear head_verdict.case m' prod.case Let_def not_True_eq_False if_False
      by (rule evolves_start [OF assms m' refl])
  next
    case False
    have "evolves d d1"
      using evolves_mark [of "''dispatched''" d "qi_id h" no_columns "Some ''queued''"] m by simp
    then show ?thesis using m False by (simp add: judge_head_def Clear)
  qed
qed (auto simp: judge_head_def intro!: evolves_mark)

lemma evolves_writes:
  "evolves d (complete_input i e oc d)"
  "evolves d (snd (delete_queued u s i d))"
  "evolves d (snd (update_queued_input u s i c pol d))"
  "evolves d (snd (promote_to_front u s i d))"
  "evolves d (close_orphan l rn p r d)"
  "evolves d (delete_queue_for_session u s d)"
proof -
  show "evolves d (complete_input i e oc d)"
    unfolding complete_input_def by (rule evolves_mark) (rule input_outcome_member)
  show "evolves d (snd (delete_queued u s i d))"
    unfolding delete_queued_def by (rule evolves_update) simp_all
  show "evolves d (snd (update_queued_input u s i c pol d))"
    unfolding update_queued_input_def by (auto intro!: evolves_update split: option.splits)
  show "evolves d (snd (promote_to_front u s i d))"
    unfolding promote_to_front_def Let_def by (auto intro!: evolves_update split: option.splits)
  show "evolves d (close_orphan l rn p r d)"
    unfolding close_orphan_def by (auto intro: evolves_mark)
  show "evolves d (delete_queue_for_session u s d)"
    unfolding evolves_def delete_queue_for_session_def by auto
qed

lemma evolves_drain_step: "queue_ok d \<Longrightarrow> evolves d (drain_step p s news d)"
  unfolding drain_step_def
  by (simp split: option.splits drain_at.splits drain_news.splits add: evolves_judge evolves_writes)

lemma evolves_user_ops:
  "evolves d (snd (edit_queued u s i c d))" "evolves d (snd (remove_queued u s i d))"
  "evolves d (snd (resume_queue p u s st d))" "evolves d (snd (steer_queued p u s i st l d))"
  "evolves d (snd (wake_input p u s i st d))" "evolves d (idle_kick l k d)"
  "evolves d (snd (enqueue_input p u s st i c d))" "evolves d (snd (enqueue_background p st it b d))"
proof -
  show "evolves d (snd (edit_queued u s i c d))"
    by (simp add: edit_queued_def evolves_writes split: option.splits)
  show "evolves d (snd (remove_queued u s i d))"
    using evolves_writes(2) [of d u s i] by (simp add: remove_queued_def split_def)
  obtain yes d1 where eq: "promote_to_front u s i d = (yes, d1)" by fastforce
  then have "evolves d d1" using evolves_writes(4) [of d u s i] by simp
  then show "evolves d (snd (steer_queued p u s i st l d))"
    by (simp add: steer_queued_def Let_def eq split: option.splits)
  show "evolves d (snd (enqueue_input p u s st i c d))"
    unfolding enqueue_input_def by (auto dest: evolves_create split: option.splits)
  show "evolves d (snd (enqueue_background p st it b d))"
    unfolding enqueue_background_def Let_def by (auto dest: evolves_create split: option.splits)
qed (simp_all add: resume_queue_def wake_input_def idle_kick_def split: option.splits)

lemma evolves_resume_fold: "evolves d d' \<Longrightarrow> evolves d (fold (resume_queued_drain p st) xs d')"
  by (induction xs arbitrary: d') (auto simp: resume_queued_drain_def split: option.splits)

lemma evolves_from:
  assumes "evolves d' d''" "sq_rows d' = sq_rows d" "sq_inputs d' = sq_inputs d" "sq_turns d' = sq_turns d"
  shows "evolves d d''"
  using assms unfolding evolves_def by simp

lemma evolves_step: "queue_ok d \<Longrightarrow> evolves d (queue_step op d)"
proof (cases op)
  case (Kicks l n)
  then show ?thesis
    by (auto simp: queue_step_def intro!: evolves_from [OF evolves_user_ops(6)])
next
  case (ClosesOrphan n l rn)
  then show ?thesis
    by (auto simp: queue_step_def split: prod.splits intro!: evolves_from [OF evolves_writes(5)])
qed (auto simp: queue_step_def resume_queued_drains_def evolves_user_ops evolves_writes evolves_drain_step
    intro!: evolves_resume_fold evolves_same)

section \<open>Nothing starts twice\<close>

definition settled :: "nat \<Rightarrow> queues \<Rightarrow> bool" where
  "settled k d = (k < sq_rows d \<and> (\<forall>q \<in> set (sq_inputs d). qi_row q = k \<longrightarrow> qi_status q \<noteq> ''queued''))"

lemma settled_evolves:
  assumes "evolves d d'" "settled k d"
  shows "settled k d'"
proof -
  have k: "k < sq_rows d" and none: "\<And>q. q \<in> set (sq_inputs d) \<Longrightarrow> qi_row q = k \<Longrightarrow> qi_status q \<noteq> ''queued''"
    using assms(2) by (auto simp: settled_def)
  have "qi_status q \<noteq> ''queued''" if q: "q \<in> set (sq_inputs d')" "qi_row q = k" for q
  proof -
    have "\<not> sq_rows d \<le> qi_row q" using q(2) k by simp
    then obtain r where "r \<in> set (sq_inputs d)" "qi_row r = qi_row q" "qi_status q = ''queued'' \<longrightarrow> qi_status r = ''queued''"
      using assms(1) q(1) unfolding evolves_def by blast
    then show ?thesis using none q(2) by auto
  qed
  moreover have "k < sq_rows d'" using assms(1) k unfolding evolves_def by linarith
  ultimately show ?thesis unfolding settled_def by blast
qed

lemma settled_never_starts:
  assumes "queue_ok d" "settled k d"
  shows "settled k (queue_run ops d) \<and> (\<exists>new. sq_turns (queue_run ops d) = sq_turns d @ new \<and> k \<notin> snd ` set new)"
  using assms
proof (induction ops arbitrary: d)
  case (Cons op ops)
  let ?d = "queue_step op d"
  note ev = evolves_step [OF Cons.prems(1), of op]
  obtain new1 where n1: "sq_turns ?d = sq_turns d @ new1"
    and q1: "\<forall>t \<in> set new1. \<exists>r \<in> set (sq_inputs d). qi_row r = snd t \<and> qi_status r = ''queued''"
    using ev unfolding evolves_def by blast
  have "k \<notin> snd ` set new1" using q1 Cons.prems(2) unfolding settled_def by force
  moreover obtain new2 where "settled k (queue_run ops ?d)" "sq_turns (queue_run ops ?d) = sq_turns ?d @ new2" "k \<notin> snd ` set new2"
    using Cons.IH [OF queue_ok_step [OF Cons.prems(1)] settled_evolves [OF ev Cons.prems(2)]] by blast
  moreover have "queue_run (op # ops) d = queue_run ops ?d" by (simp add: queue_run_def)
  ultimately show ?case using n1 by auto
qed (simp add: queue_run_def)

text \<open>Property C35: whatever processes drain, crash, recover, cancel, edit or steer, and in whatever order, the
  turn of an input is started at most once, and never once it was cancelled, blocked or closed.\<close>
theorem inputs_start_at_most_once:
  assumes "queue_ok d" "r \<in> set (sq_inputs d)" "qi_status r \<noteq> ''queued''"
  shows "distinct (map snd (sq_turns (queue_run ops d)))
    \<and> (\<exists>new. sq_turns (queue_run ops d) = sq_turns d @ new \<and> qi_row r \<notin> snd ` set new)"
proof -
  have rows: "distinct (map qi_row (sq_inputs d))" "qi_row r < sq_rows d"
    using assms(1,2) by (auto simp: queue_ok_def rows_ok_def list_all_iff)
  have "q = r" if "q \<in> set (sq_inputs d)" "qi_row q = qi_row r" for q
    using rows(1) assms(2) that unfolding distinct_map inj_on_def by blast
  then have "settled (qi_row r) d" using rows(2) assms(3) unfolding settled_def by auto
  then show ?thesis
    using settled_never_starts [OF assms(1)] queue_ok_run [OF assms(1)] unfolding queue_ok_def turns_ok_def by blast
qed

text \<open>Property C36: unless somebody steers or deletes the session, the inputs of a session start in the order
  they were queued, however many processes drain it and whatever they hold in hand.\<close>
theorem inputs_start_in_order:
  assumes "order_ok d" "list_all keeps_order ops" "sq_turns (queue_run ops d) = xs @ (s, k) # ys @ (s, m) # zs"
  shows "k < m"
  using order_ok_run [OF assms(1,2)] assms(3) by (simp add: order_ok_def turns_in_order_def sorted_wrt_append)

lemma fold_min_lower:
  assumes "x \<in> set (p # ps)"
  shows "fold min ps (p :: int) \<le> x"
  unfolding Min.set_eq_fold [symmetric] using assms by (intro Min_le) auto

text \<open>An input that is still waiting when its owner sends it now is the next the queue hands
  out, and the queue is not paused.\<close>
theorem steered_input_is_next:
  assumes "queue_ok d" "get_queued user s i d = Some r" "qi_status r = ''queued''"
    and "steer_queued p user s i (Some st) lease_live d = (reply, d')"
  shows "(\<exists>h. peek_next_queued s d' = Some h \<and> qi_row h = qi_row r) \<and> \<not> queue_paused s d'"
proof -
  let ?ps = "map qi_position (filter (is_waiting s) (sq_inputs d))"
  define at where "at = (case ?ps of [] \<Rightarrow> 0 | p # ps \<Rightarrow> fold min ps p - 1)"
  have r: "r \<in> set (sq_inputs d)" "qi_id r = i" "qi_session r = s"
    using assms(2) by (auto simp: get_queued_def find_Some_iff)
  then have wait: "is_waiting s r" using assms(3) by (simp add: is_waiting_def)
  have least: "at < qi_position q" if "q \<in> set (sq_inputs d)" "is_waiting s q" for q
  proof (cases ?ps)
    case (Cons x xs)
    have "qi_position q \<in> set ?ps" using that by auto
    then have "fold min xs x \<le> qi_position q" unfolding Cons by (rule fold_min_lower)
    then show ?thesis unfolding at_def Cons by simp
  qed (use that in \<open>auto simp: filter_empty_conv\<close>)
  define d1 where "d1 = snd (promote_to_front user s i d)"
  have d1: "sq_inputs d1 = map (\<lambda>x. if qi_id x = i then x\<lparr>qi_position := at\<rparr> else x) (sq_inputs d)"
    and yes: "fst (promote_to_front user s i d)"
    using assms(2,3) r unfolding d1_def promote_to_front_def Let_def at_def [symmetric]
    by (auto simp: update_inputs_def list_ex_iff)
  have d': "sq_inputs d' = sq_inputs d1" "sq_paused d' = filter (\<lambda>x. x \<noteq> s) (sq_paused d1)"
    using assms(4) yes unfolding d1_def
    by (auto simp: steer_queued_def Let_def split_def set_queue_paused_def schedule_drain_def split: if_splits)
  have ids: "distinct (map qi_id (sq_inputs d))" using assms(1) by (simp add: queue_ok_def rows_ok_def)
  have rin: "r\<lparr>qi_position := at\<rparr> \<in> set (sq_inputs d')" unfolding d' d1 using r by force
  moreover have rw: "is_waiting s (r\<lparr>qi_position := at\<rparr>)" using wait by (simp add: is_waiting_def)
  ultimately obtain h where h: "peek_next_queued s d' = Some h" using peek_none [of s d'] by fastforce
  note l = peek_least [OF h]
  have "qi_position h \<le> at" using l(3) [OF rin rw] by simp
  obtain h0 where h0: "h0 \<in> set (sq_inputs d)" "h = (if qi_id h0 = i then h0\<lparr>qi_position := at\<rparr> else h0)"
    using l(1) unfolding d' d1 by auto
  have "qi_id h0 = i"
  proof (rule ccontr)
    assume "qi_id h0 \<noteq> i"
    then show False using least [of h0] h0 l(2) \<open>qi_position h \<le> at\<close> by auto
  qed
  then have "h0 = r" using ids h0(1) r unfolding distinct_map inj_on_def by auto
  then show ?thesis using h h0 by (auto simp: queue_paused_def d'(2))
qed

text \<open>Property C37: to append the same background input again, from any process, gives back the same receipt and
  leaves the table as it is; another text under the same id is refused.\<close>
theorem background_input_is_idempotent:
  assumes "enqueue_background p status in_task c d = (Inr r, d1)"
    and "st \<notin> {''cancelled'', ''archived'', ''terminated''}"
  shows "fst (enqueue_background p' (Some st) False c d1) = Inr r
    \<and> sq_inputs (snd (enqueue_background p' (Some st) False c d1)) = sq_inputs d1
    \<and> (t = bg_text c \<or> fst (enqueue_background p' (Some st) False (c\<lparr>bg_text := t\<rparr>) d1) = Inl InvalidInput)"
proof -
  let ?get = "get_queued (bg_user c) (bg_session c) (bg_id c)"
  have shape: "strip (bg_text c) \<noteq> []" "\<not> 36 < length (bg_id c)"
    and same: "same_work r (bg_text c) (bg_presentation c) (bg_policy c)"
    using assms(1) unfolding enqueue_background_def Let_def by (auto split: option.splits if_splits)
  have found: "?get d1 = Some r"
  proof (cases "?get d")
    case None
    then obtain d0 where d0: "create_queued (bg_user c) (new_input (bg_id c) (bg_session c) (bg_text c) ''background''
        (bg_presentation c) (bg_policy c)) d = Some (r, d0)" "sq_inputs d1 = sq_inputs d0"
      using assms(1) unfolding enqueue_background_def Let_def
      by (auto simp: schedule_drain_def split: option.splits if_splits)
    then have "sq_inputs d1 = sq_inputs d @ [r]" "qi_id r = bg_id c" "qi_session r = bg_session c" "qi_user r = bg_user c"
      by (auto simp: create_queued_def new_input_def Let_def split: if_splits)
    moreover have "List.find P (xs @ [x]) = Some x" if "List.find P xs = None" "P x" for P and xs :: "queued_input list" and x
      using that by (induction xs) (auto split: if_splits)
    ultimately show ?thesis using None unfolding get_queued_def by simp
  next
    case (Some r0)
    then have "r0 = r" "sq_inputs d1 = sq_inputs d"
      using assms(1) unfolding enqueue_background_def Let_def
      by (auto simp: schedule_drain_def split: option.splits if_splits)
    then show ?thesis using Some by (simp add: get_queued_def)
  qed
  have again: "enqueue_background p' (Some st) False c d1
      = (Inr r, if qi_status r = ''queued'' then schedule_drain p' (bg_session c) (Some (bg_user c)) d1 else d1)"
    using shape same found assms(2) by (simp add: enqueue_background_def)
  have "fst (enqueue_background p' (Some st) False (c\<lparr>bg_text := t\<rparr>) d1) = Inl InvalidInput" if "t \<noteq> bg_text c"
    using shape same found assms(2) that by (simp add: enqueue_background_def same_work_def)
  then show ?thesis using again by (auto simp: schedule_drain_def)
qed

end
