(* ===== verification/QueueWitnesses.thy ===== *)
theory QueueWitnesses
  imports QueueProperties
begin

text \<open>
  Histories of a queue at which the hypotheses of its properties hold, and three on which an input is lost,
  resurrected or closed with the wrong outcome.
\<close>

section \<open>Histories\<close>

definition empty_queues :: queues where
  "empty_queues = \<lparr>sq_inputs = [], sq_rows = 0, sq_paused = [], sq_clock = 100, sq_drains = [], sq_kicks = [],
     sq_orphans = [], sq_turns = [], sq_interrupts = []\<rparr>"

definition two_queued :: "queue_op list" where
  "two_queued = [Enqueues 1 ''u'' ''s'' (Some ''idle'') ''i1'' ''first'', Enqueues 1 ''u'' ''s'' (Some ''idle'') ''i2'' ''second'']"

definition drain_starts :: "queue_op list" where
  "drain_starts = [Kicks False 0, Drains 1 ''s'' (Admission None True True)]"

definition good_end :: turn_end where
  "good_end = \<lparr>te_final = ''idle'', te_error = None, te_message = ''completed''\<rparr>"

definition one_turn :: "queue_op list" where
  "one_turn = [Drains 1 ''s'' (Loops False), Drains 1 ''s'' (Verdict Clear),
     Drains 1 ''s'' (TurnEnds good_end (no_columns\<lparr>oc_summary := Some ''ok''\<rparr>))]"

theorem inputs_start_at_most_once_witness:
  "sq_turns (queue_run (one_turn @ [Crashes 1, BootsDrains 2 (\<lambda>_ _. Some ''idle'')])
     (queue_run (two_queued @ drain_starts @ one_turn) empty_queues)) = [(''s'', 0), (''s'', 1)]
   \<and> distinct (map snd (sq_turns (queue_run (one_turn @ [Crashes 1, BootsDrains 2 (\<lambda>_ _. Some ''idle'')])
     (queue_run (two_queued @ drain_starts @ one_turn) empty_queues))))"
proof -
  let ?d = "queue_run (two_queued @ drain_starts @ one_turn) empty_queues"
  have ok: "queue_ok ?d" by (rule queue_ok_run) code_simp
  have some: "sq_inputs ?d \<noteq> []" and r2: "qi_status (hd (sq_inputs ?d)) \<noteq> ''queued''" by code_simp+
  have r1: "hd (sq_inputs ?d) \<in> set (sq_inputs ?d)" using some by (rule hd_in_set)
  have "distinct (map snd (sq_turns (queue_run (one_turn @ [Crashes 1, BootsDrains 2 (\<lambda>_ _. Some ''idle'')]) ?d)))"
    using inputs_start_at_most_once [OF ok r1 r2] by blast
  moreover have "sq_turns (queue_run (one_turn @ [Crashes 1, BootsDrains 2 (\<lambda>_ _. Some ''idle'')]) ?d) = [(''s'', 0), (''s'', 1)]"
    by code_simp
  ultimately show ?thesis by blast
qed

lemma order_ok_empty: "order_ok empty_queues"
  by (simp add: order_ok_def empty_queues_def queue_ok_def rows_ok_def turns_ok_def rows_in_order_def heads_ok_def
      turns_in_order_def turns_before_def)

theorem inputs_start_in_order_witness:
  "sq_turns (queue_run (two_queued @ drain_starts @ one_turn @ one_turn) empty_queues) = [(''s'', 0), (''s'', 1)]
   \<and> (0 :: nat) < 1"
proof -
  have t: "sq_turns (queue_run (two_queued @ drain_starts @ one_turn @ one_turn) empty_queues) = [(''s'', 0), (''s'', 1)]"
    by code_simp
  have "list_all keeps_order (two_queued @ drain_starts @ one_turn @ one_turn)" by code_simp
  from inputs_start_in_order [OF order_ok_empty this, of "[]" "''s''" 0 "[]" 1 "[]"] t show ?thesis by simp
qed

theorem steered_input_is_next_witness:
  "map_option qi_row (peek_next_queued ''s''
     (snd (steer_queued 1 ''u'' ''s'' ''i2'' (Some ''running'') False (queue_run two_queued empty_queues)))) = Some 1
   \<and> map_option qi_row (peek_next_queued ''s'' (queue_run two_queued empty_queues)) = Some 0"
proof -
  let ?d = "queue_run two_queued empty_queues"
  have ok: "queue_ok ?d" by (rule queue_ok_run) code_simp
  have g: "map_option (\<lambda>r. (qi_status r, qi_row r)) (get_queued ''u'' ''s'' ''i2'' ?d) = Some (''queued'', 1)" by code_simp
  then obtain r where r: "get_queued ''u'' ''s'' ''i2'' ?d = Some r" "qi_status r = ''queued''" "qi_row r = 1" by auto
  have "steer_queued 1 ''u'' ''s'' ''i2'' (Some ''running'') False ?d
      = (fst (steer_queued 1 ''u'' ''s'' ''i2'' (Some ''running'') False ?d),
         snd (steer_queued 1 ''u'' ''s'' ''i2'' (Some ''running'') False ?d))" by simp
  from steered_input_is_next [OF ok r(1,2) this] r(3)
  have "map_option qi_row (peek_next_queued ''s''
     (snd (steer_queued 1 ''u'' ''s'' ''i2'' (Some ''running'') False ?d))) = Some 1" by auto
  moreover have "map_option qi_row (peek_next_queued ''s'' ?d) = Some 0" by code_simp
  ultimately show ?thesis by blast
qed

definition a_call :: background_call where
  "a_call = \<lparr>bg_user = ''u'', bg_session = ''s'', bg_id = ''run1'', bg_text = ''brief'', bg_presentation = None, bg_policy = ''p''\<rparr>"

theorem background_input_is_idempotent_witness:
  "fst (enqueue_background 2 (Some ''running'') False (a_call\<lparr>bg_text := ''other''\<rparr>)
     (snd (enqueue_background 1 (Some ''idle'') False a_call empty_queues))) = Inl InvalidInput
   \<and> length (sq_inputs (snd (enqueue_background 2 (Some ''running'') False a_call
     (snd (enqueue_background 1 (Some ''idle'') False a_call empty_queues))))) = 1"
proof -
  let ?r = "(new_input ''run1'' ''s'' ''brief'' ''background'' None ''p'')\<lparr>qi_user := ''u'', qi_created := 100\<rparr>"
  let ?d1 = "snd (enqueue_background 1 (Some ''idle'') False a_call empty_queues)"
  have "fst (enqueue_background 1 (Some ''idle'') False a_call empty_queues) = Inr ?r" by code_simp
  then have e: "enqueue_background 1 (Some ''idle'') False a_call empty_queues = (Inr ?r, ?d1)" by (simp add: prod_eq_iff)
  have one: "length (sq_inputs ?d1) = 1" by code_simp
  have "bg_text a_call = ''brief''" by (simp add: a_call_def)
  with background_input_is_idempotent [OF e, of "''running''" 2 "''other''"] one show ?thesis by simp
qed

section \<open>A wake-up that is lost\<close>

text \<open>
  A drain that has found the queue empty is in the set of active drains until it is out of its last wait.  An input that
  is queued in between does not wake another drain, because one is active, and the active one does
  not look again.  The same happens when the status was read while the turn was still
  running, but the input is inserted after the drain of that turn has gone.
\<close>

definition wake_lost :: "queue_op list" where
  "wake_lost = [AfterTurn 1 ''s'' ''u'', Drains 1 ''s'' (Admission None True True), Drains 1 ''s'' (Loops False),
     Enqueues 1 ''u'' ''s'' (Some ''idle'') ''i1'' ''hello'', Kicks False 0, Drains 1 ''s'' Exits]"

definition status_stale :: "queue_op list" where
  "status_stale = [AfterTurn 1 ''s'' ''u'', Drains 1 ''s'' (Admission None True True), Drains 1 ''s'' (Loops False),
     Drains 1 ''s'' Exits, Enqueues 1 ''u'' ''s'' (Some ''running'') ''i1'' ''hello'', Kicks False 0]"

lemma queued_input_left_behind:
  "(let d = queue_run wake_lost empty_queues in
      map_option qi_id (peek_next_queued ''s'' d) = Some ''i1'' \<and> sq_drains d = [] \<and> sq_kicks d = [] \<and> sq_paused d = [])
   \<and> (let d = queue_run status_stale empty_queues in
      map_option qi_id (peek_next_queued ''s'' d) = Some ''i1'' \<and> sq_drains d = [] \<and> sq_kicks d = [] \<and> sq_paused d = [])"
  by code_simp

section \<open>An outcome that is overwritten\<close>

definition orphan_race :: "queue_op list" where
  "orphan_race = [Enqueues 1 ''u'' ''s'' (Some ''idle'') ''i1'' ''hello''] @ drain_starts
     @ [Drains 1 ''s'' (Loops False), Drains 1 ''s'' (Verdict Clear), ListsOrphans 2,
        Drains 1 ''s'' (TurnEnds good_end (no_columns\<lparr>oc_summary := Some ''ok''\<rparr>)), Drains 1 ''s'' (Loops False), Drains 1 ''s'' Exits]"

lemma completed_input_is_cancelled:
  "map (\<lambda>r. (qi_status r, qi_summary r)) (sq_inputs (queue_run orphan_race empty_queues)) = [(''completed'', Some ''ok'')]
   \<and> map (\<lambda>r. (qi_status r, qi_summary r)) (sq_inputs (queue_run (orphan_race @ [ClosesOrphan 0 False False]) empty_queues))
     = [(''cancelled'', None)]"
  by code_simp

section \<open>A deleted input that comes back\<close>

definition deleted_then_blocked :: "queue_op list" where
  "deleted_then_blocked = [Enqueues 1 ''u'' ''s'' (Some ''idle'') ''i1'' ''hello''] @ drain_starts
     @ [Drains 1 ''s'' (Loops False), Removes ''u'' ''s'' ''i1'', Drains 1 ''s'' (Verdict (OverBudget ''budget''))]"

lemma deleted_input_is_listed_again:
  "map (\<lambda>r. (qi_id r, qi_status r)) (list_queued ''u'' ''s'' (queue_run deleted_then_blocked empty_queues))
   = [(''i1'', ''blocked'')]"
  by code_simp

end
