(* ===== verification/Operations.thy ===== *)
theory Operations
  imports JsonText HookEvents "HOL-Library.Product_Lexorder"
begin

text \<open>
  Operations of the host that wait for a user's consent: the rows of
  \<^verbatim>\<open>backend/valuz_agent/modules/operations/models.py\<close> and the service of \<^verbatim>\<open>service.py\<close>.  The registered
  handlers, the data \<open>'w\<close> they work on and the hash function are parameters; ids are what the generator gives.  Every request runs in
  one unit of work, which keeps what it did when it returns and nothing when it raises.
\<close>

section \<open>Rows\<close>

text \<open>What a proposal asks for, and what its digest covers.\<close>

record op_core =
  pc_type :: string
  pc_version :: int
  pc_project :: "string option"
  pc_actor_kind :: string
  pc_actor :: "string option"
  pc_session :: "string option"
  pc_tool_call :: "string option"
  pc_playbook_run :: "string option"
  pc_automation_run :: "string option"
  pc_targets :: "json list"
  pc_input :: json
  pc_preview :: json
  pc_revisions :: json
  pc_risk :: string
  pc_policy :: string

record op_proposal =
  pp_core :: op_core
  pp_key :: string
  pp_expires :: "int option"

record op_row =
  rw_id :: string
  rw_user :: string
  rw_core :: op_core
  rw_state :: string
  rw_hash :: string
  rw_key :: string
  rw_refs :: "json list"
  rw_result :: json
  rw_code :: "string option"
  rw_message :: "string option"
  rw_expires :: "int option"
  rw_superseded :: "string option"
  rw_historical :: bool
  rw_created :: int
  rw_updated :: int

record op_decision =
  od_id :: string
  od_user :: string
  od_operation :: string
  od_decision :: string
  od_by :: string
  od_hash :: string
  od_comment :: "string option"
  od_created :: int
  od_updated :: int

record 'w op_store =
  os_rows :: "op_row list"
  os_decisions :: "op_decision list"
  os_clock :: int
  os_world :: 'w

definition pending_op_states :: "string list" where
  "pending_op_states = [''proposed'', ''awaiting_confirmation'']"

definition supersedable_states :: "string list" where
  "supersedable_states = pending_op_states @ [''stale'']"

section \<open>Handlers\<close>

datatype op_exn = ValueErr string | LookupErr string | OtherErr string

text \<open>A handler gets the row and the decision of the user; it may write before it raises.\<close>

type_synonym 'w op_handler = "op_row \<Rightarrow> json \<Rightarrow> 'w \<Rightarrow> (op_exn + json list \<times> json) \<times> 'w"

text \<open>\<open>rg_rejects\<close> is the message of the validation error, if the schema has any for a payload.\<close>

record 'w registration =
  rg_handler :: "'w op_handler"
  rg_cancel :: "'w op_handler option"
  rg_ttl :: "int option"
  rg_rejects :: "json \<Rightarrow> string option"

type_synonym 'w op_registry = "string \<Rightarrow> int \<Rightarrow> 'w registration option"

definition registration_of :: "'w op_registry \<Rightarrow> op_core \<Rightarrow> 'w registration option" where
  "registration_of reg c = reg (pc_type c) (pc_version c)"

section \<open>Expiry and scope\<close>

definition apply_expiry :: "int \<Rightarrow> op_row \<Rightarrow> bool \<times> op_row" where
  "apply_expiry now r =
     (if rw_historical r then (False, r)
      else if rw_state r = ''expired'' then (True, r)
      else if rw_state r \<notin> set pending_op_states then (False, r)
      else (case rw_expires r of
          None \<Rightarrow> (False, r)
        | Some e \<Rightarrow> if now < e then (False, r)
            else (True, r\<lparr>rw_state := ''expired'', rw_code := Some ''OPERATION_EXPIRED'', rw_message := None\<rparr>)))"

definition target_identity :: "json \<Rightarrow> (string \<times> string) option" where
  "target_identity ref = (case ref of
     JDict kvs \<Rightarrow>
       let ident = py_or (dget kvs ''id'') (dget kvs ''slug'') in
       if \<not> truthy (dget kvs ''type'') \<or> \<not> truthy ident then None
       else Some (py_str (dget kvs ''type''), py_str ident)
   | _ \<Rightarrow> None)"

definition target_scope :: "json list \<Rightarrow> (string \<times> string) set option" where
  "target_scope refs = (case List.map_filter target_identity refs of [] \<Rightarrow> None | xs \<Rightarrow> Some (set xs))"

section \<open>The hash of a proposal\<close>

text \<open>\<^verbatim>\<open>json.dumps(\<dots>, ensure_ascii=False, separators=(",", ":"), sort_keys=True)\<close>.\<close>

definition raw_char :: "char \<Rightarrow> string" where
  "raw_char c = (case map_of short_escapes c of
       Some d \<Rightarrow> [json_back, d]
     | None \<Rightarrow> (let n = (of_char c :: nat) in
         if 32 \<le> n then [c]
         else [json_back, CHR ''u'', CHR ''0'', CHR ''0'', hex_digit (n div 16), hex_digit (n mod 16)]))"

definition raw_string :: "string \<Rightarrow> string" where
  "raw_string s = json_quote # concat (map raw_char s) @ [json_quote]"

fun compact_text :: "json \<Rightarrow> string" where
  "compact_text JNull = ''null''"
| "compact_text (JBool b) = (if b then ''true'' else ''false'')"
| "compact_text (JInt i) = str_int i"
| "compact_text (JFloat _ _ c s) = json_float (c # s)"
| "compact_text (JStr s) = raw_string s"
| "compact_text (JList xs) = ''['' @ join_with '','' (map compact_text xs) @ '']''"
| "compact_text (JDict kvs) = ''{'' @ join_with '','' (map (\<lambda>(k, v). raw_string k @ '':'' @ compact_text v) kvs) @ ''}''"

definition canonical_text :: "json \<Rightarrow> string" where
  "canonical_text v = compact_text (sort_json v)"

definition or_null :: "string option \<Rightarrow> json" where
  "or_null x = (case x of None \<Rightarrow> JNull | Some s \<Rightarrow> JStr s)"

text \<open>\<open>sha\<close> is the digest of the UTF-8 bytes of a text.\<close>

definition proposal_hash :: "(string \<Rightarrow> string) \<Rightarrow> op_core \<Rightarrow> string" where
  "proposal_hash sha c = sha (canonical_text (JDict
     [(''operation_type'', JStr (pc_type c)), (''operation_version'', JInt (pc_version c)),
      (''project_id'', or_null (pc_project c)), (''actor_kind'', JStr (pc_actor_kind c)),
      (''actor_id'', or_null (pc_actor c)), (''origin_session_id'', or_null (pc_session c)),
      (''origin_tool_call_id'', or_null (pc_tool_call c)), (''origin_playbook_run_id'', or_null (pc_playbook_run c)),
      (''origin_automation_run_id'', or_null (pc_automation_run c)), (''target_refs'', JList (pc_targets c)),
      (''input_payload'', pc_input c), (''preview'', pc_preview c), (''expected_revisions'', pc_revisions c),
      (''risk_level'', JStr (pc_risk c)), (''confirmation_policy'', JStr (pc_policy c))]))"

section \<open>Reads and writes\<close>

definition find_op :: "string \<Rightarrow> string \<Rightarrow> 'w op_store \<Rightarrow> op_row option" where
  "find_op user i d = List.find (\<lambda>r. rw_id r = i \<and> rw_user r = user) (os_rows d)"

definition find_by_idempotency :: "string \<Rightarrow> string \<Rightarrow> 'w op_store \<Rightarrow> op_row option" where
  "find_by_idempotency user key d = List.find (\<lambda>r. rw_user r = user \<and> rw_key r = key) (os_rows d)"

text \<open>A flush writes the rows that changed, and stamps them.\<close>

definition stamp :: "int \<Rightarrow> op_row \<Rightarrow> op_row \<Rightarrow> op_row" where
  "stamp now r r1 = (if r1 = r then r else r1\<lparr>rw_updated := now\<rparr>)"

definition flush_ops :: "(op_row \<Rightarrow> op_row) \<Rightarrow> 'w op_store \<Rightarrow> 'w op_store" where
  "flush_ops f d = d\<lparr>os_rows := map (\<lambda>r. stamp (os_clock d) r (f r)) (os_rows d)\<rparr>"

definition put_op :: "string \<Rightarrow> (op_row \<Rightarrow> op_row) \<Rightarrow> 'w op_store \<Rightarrow> 'w op_store" where
  "put_op i f = flush_ops (\<lambda>r. if rw_id r = i then f r else r)"

text \<open>The ids are primary keys: \<open>None\<close> when the one given is taken.\<close>

definition add_decision :: "op_row \<Rightarrow> string \<Rightarrow> string option \<Rightarrow> string \<Rightarrow> 'w op_store \<Rightarrow> 'w op_store option" where
  "add_decision r what comment k d =
     (if list_ex (\<lambda>x. od_id x = k) (os_decisions d) then None
      else Some (d\<lparr>os_decisions := os_decisions d @
        [\<lparr>od_id = k, od_user = rw_user r, od_operation = rw_id r, od_decision = what, od_by = rw_user r,
          od_hash = rw_hash r, od_comment = comment, od_created = os_clock d, od_updated = os_clock d\<rparr>]\<rparr>))"

definition integrity_error :: op_exn where
  "integrity_error = OtherErr ''IntegrityError''"

definition settle_expiry :: "string \<Rightarrow> 'w op_store \<Rightarrow> 'w op_store" where
  "settle_expiry i d = put_op i (\<lambda>r. snd (apply_expiry (os_clock d) r)) d"

text \<open>The row a decision is about: the owner's, not imported history, and as the user has reviewed it.\<close>

definition op_for_decision :: "string \<Rightarrow> string \<Rightarrow> string \<Rightarrow> 'w op_store \<Rightarrow> op_exn + op_row" where
  "op_for_decision user i expected d = (case find_op user i d of
     None \<Rightarrow> Inl (LookupErr ''operation_not_found'')
   | Some r \<Rightarrow>
       if rw_historical r then Inl (ValueErr ''operation_historical_only'')
       else if rw_hash r \<noteq> expected then Inl (ValueErr ''operation_proposal_hash_mismatch'')
       else Inr r)"

definition unit_of_work :: "('s \<Rightarrow> ('e + 'a) \<times> 's) \<Rightarrow> 's \<Rightarrow> ('e + 'a) \<times> 's" where
  "unit_of_work body d = (case body d of (Inl e, _) \<Rightarrow> (Inl e, d) | (Inr x, d1) \<Rightarrow> (Inr x, d1))"

section \<open>Proposing\<close>

definition superseded_row :: "string \<Rightarrow> op_row \<Rightarrow> op_row" where
  "superseded_row i r = r\<lparr>rw_state := ''superseded'', rw_superseded := Some i, rw_code := None, rw_message := None\<rparr>"

definition is_candidate :: "string \<Rightarrow> op_core \<Rightarrow> string \<Rightarrow> op_row \<Rightarrow> bool" where
  "is_candidate user c i r = (rw_user r = user \<and> pc_type (rw_core r) = pc_type c \<and> rw_state r \<in> set supersedable_states
     \<and> \<not> rw_historical r \<and> rw_id r \<noteq> i \<and> target_scope (pc_targets (rw_core r)) = target_scope (pc_targets c))"

definition supersede_replaced :: "string \<Rightarrow> op_core \<Rightarrow> string \<Rightarrow> 'w op_store \<Rightarrow> 'w op_store" where
  "supersede_replaced user c i d =
     (if target_scope (pc_targets c) = None then d
      else flush_ops (\<lambda>r. if \<not> is_candidate user c i r then r
        else (case apply_expiry (os_clock d) r of (expired, r1) \<Rightarrow> if expired then r1 else superseded_row i r1)) d)"

definition new_op :: "(string \<Rightarrow> string) \<Rightarrow> string \<Rightarrow> op_proposal \<Rightarrow> int option \<Rightarrow> string \<Rightarrow> int \<Rightarrow> op_row" where
  "new_op sha user p expires i now =
     \<lparr>rw_id = i, rw_user = user, rw_core = pp_core p,
      rw_state = (if pc_policy (pp_core p) \<in> {''confirm'', ''approval''} then ''awaiting_confirmation'' else ''proposed''),
      rw_hash = proposal_hash sha (pp_core p), rw_key = pp_key p, rw_refs = [], rw_result = JDict [], rw_code = None,
      rw_message = None, rw_expires = expires, rw_superseded = None, rw_historical = False,
      rw_created = now, rw_updated = now\<rparr>"

definition propose :: "(string \<Rightarrow> string) \<Rightarrow> 'w op_registry \<Rightarrow> string \<Rightarrow> op_proposal \<Rightarrow> string \<Rightarrow> 'w op_store
    \<Rightarrow> (op_exn + string) \<times> 'w op_store" where
  "propose sha reg user p i d =
     (case registration_of reg (pp_core p) of
        None \<Rightarrow> (Inl (LookupErr ''operation_type_unavailable''), d)
      | Some g \<Rightarrow>
      (case find_by_idempotency user (pp_key p) d of
        Some r \<Rightarrow>
          if rw_hash r \<noteq> proposal_hash sha (pp_core p) then (Inl (ValueErr ''operation_idempotency_conflict''), d)
          else (Inr (rw_id r), settle_expiry (rw_id r) d)
      | None \<Rightarrow>
      (case rg_rejects g (pc_input (pp_core p)) of
        Some m \<Rightarrow> (Inl (ValueErr m), d)
      | None \<Rightarrow>
          let expires = (case pp_expires p of Some e \<Rightarrow> Some e | None \<Rightarrow> map_option (\<lambda>ms. os_clock d + ms) (rg_ttl g))
          in if list_ex (\<lambda>r. rw_id r = i) (os_rows d) then (Inl integrity_error, d)
          else (Inr i, supersede_replaced user (pp_core p) i
            (d\<lparr>os_rows := os_rows d @ [new_op sha user p expires i (os_clock d)]\<rparr>)))))"

section \<open>Deciding\<close>

definition lower_ascii :: "char \<Rightarrow> char" where
  "lower_ascii c = (let n = (of_char c :: nat) in if 65 \<le> n \<and> n \<le> 90 then char_of (n + 32) else c)"

fun mentions :: "string \<Rightarrow> string \<Rightarrow> bool" where
  "mentions w [] = (w = [])"
| "mentions w (c # cs) = (take (length w) (c # cs) = w \<or> mentions w cs)"

definition request_changes :: "string \<Rightarrow> string \<Rightarrow> string \<Rightarrow> string \<Rightarrow> string \<Rightarrow> 'w op_store
    \<Rightarrow> (op_exn + string) \<times> 'w op_store" where
  "request_changes user i expected comment k d =
     (case op_for_decision user i expected d of
        Inl e \<Rightarrow> (Inl e, d)
      | Inr r0 \<Rightarrow>
      let d1 = settle_expiry i d; r = snd (apply_expiry (os_clock d) r0) in
      if rw_state r \<notin> set pending_op_states then (Inl (ValueErr (''operation_not_revisable:'' @ rw_state r)), d1)
      else (case add_decision r ''request_changes'' (Some comment) k d1 of
          None \<Rightarrow> (Inl integrity_error, d1)
        | Some d2 \<Rightarrow> (Inr i, d2)))"

text \<open>What a failed attempt leaves in the record.\<close>

definition failure_of :: "op_exn \<Rightarrow> string \<times> string \<times> string" where
  "failure_of e = (case e of
     ValueErr m \<Rightarrow> (if mentions ''stale'' (map lower_ascii m) then (''stale'', ''OPERATION_STALE'', m)
                    else (''failed'', ''OPERATION_FAILED'', m))
   | LookupErr m \<Rightarrow> (''stale'', ''OPERATION_TARGET_MISSING'', m)
   | OtherErr m \<Rightarrow> (''failed'', ''OPERATION_INTERNAL_ERROR'', m))"

text \<open>The attempt runs in a savepoint: validation and handler, whose writes are rolled back when it raises.\<close>

definition run_handler :: "'w registration \<Rightarrow> op_row \<Rightarrow> json \<Rightarrow> 'w \<Rightarrow> (op_exn + json list \<times> json) \<times> 'w" where
  "run_handler g r decision w = (case rg_rejects g (pc_input (rw_core r)) of
     Some m \<Rightarrow> (Inl (ValueErr m), w)
   | None \<Rightarrow> (case rg_handler g r decision w of
         (Inl e, _) \<Rightarrow> (Inl e, w)
       | (Inr x, w1) \<Rightarrow> (Inr x, w1)))"

definition executing_row :: "op_row \<Rightarrow> op_row" where
  "executing_row r = r\<lparr>rw_state := ''executing'', rw_code := None, rw_message := None\<rparr>"

definition settled_row :: "op_exn + json list \<times> json \<Rightarrow> op_row \<Rightarrow> op_row" where
  "settled_row res r = (case res of
     Inl e \<Rightarrow> (case failure_of e of (st, code, m) \<Rightarrow> r\<lparr>rw_state := st, rw_code := Some code, rw_message := Some m\<rparr>)
   | Inr (refs, v) \<Rightarrow> r\<lparr>rw_state := ''succeeded'', rw_refs := refs, rw_result := v\<rparr>)"

definition confirm :: "'w op_registry \<Rightarrow> string \<Rightarrow> string \<Rightarrow> string \<Rightarrow> string option \<times> json \<Rightarrow> string \<Rightarrow> 'w op_store
    \<Rightarrow> (op_exn + string) \<times> 'w op_store" where
  "confirm reg user i expected answer k d =
     (case op_for_decision user i expected d of
        Inl e \<Rightarrow> (Inl e, d)
      | Inr r0 \<Rightarrow>
      if rw_state r0 = ''succeeded'' then (Inr i, d)
      else (let d1 = settle_expiry i d; r = snd (apply_expiry (os_clock d) r0) in
      if rw_state r \<notin> set pending_op_states \<and> rw_state r \<noteq> ''failed''
      then (Inl (ValueErr (''operation_not_confirmable:'' @ rw_state r)), d1)
      else (case add_decision r ''approve'' (fst answer) k d1 of
        None \<Rightarrow> (Inl integrity_error, d1)
      | Some dk \<Rightarrow>
      let d2 = put_op i executing_row dk in
      (case registration_of reg (rw_core r) of
        None \<Rightarrow> (Inl (LookupErr ''operation_type_unavailable''), d2)
      | Some g \<Rightarrow>
          (case run_handler g (executing_row r) (snd answer) (os_world d2) of
             (res, w) \<Rightarrow> (Inr i, put_op i (settled_row res) (d2\<lparr>os_world := w\<rparr>)))))))"

text \<open>The clean-up of a cancelled operation runs in the same session without a savepoint; it cannot fail the cancel.\<close>

definition cancel_op :: "'w op_registry \<Rightarrow> string \<Rightarrow> string \<Rightarrow> string \<Rightarrow> string option \<Rightarrow> string \<Rightarrow> 'w op_store
    \<Rightarrow> (op_exn + string) \<times> 'w op_store" where
  "cancel_op reg user i expected comment k d =
     (case op_for_decision user i expected d of
        Inl e \<Rightarrow> (Inl e, d)
      | Inr r0 \<Rightarrow>
      if rw_state r0 = ''cancelled'' then (Inr i, d)
      else (let d1 = settle_expiry i d; r = snd (apply_expiry (os_clock d) r0) in
      if rw_state r \<notin> set pending_op_states then (Inl (ValueErr (''operation_not_cancellable:'' @ rw_state r)), d1)
      else (case add_decision r ''reject'' comment k d1 of
        None \<Rightarrow> (Inl integrity_error, d1)
      | Some dk \<Rightarrow>
      let d2 = put_op i (\<lambda>x. x\<lparr>rw_state := ''cancelled''\<rparr>) dk in
      (case registration_of reg (rw_core r) of
        None \<Rightarrow> (Inl (LookupErr ''operation_type_unavailable''), d2)
      | Some g \<Rightarrow> (Inr i, case rg_cancel g of None \<Rightarrow> d2
          | Some h \<Rightarrow> d2\<lparr>os_world := snd (h (r\<lparr>rw_state := ''cancelled''\<rparr>) (JDict []) (os_world d2))\<rparr>)))))"

section \<open>Reading\<close>

definition get_op :: "string \<Rightarrow> string \<Rightarrow> 'w op_store \<Rightarrow> (op_exn + string) \<times> 'w op_store" where
  "get_op user i d = (case find_op user i d of
     None \<Rightarrow> (Inl (LookupErr ''operation_not_found''), d) | Some r \<Rightarrow> (Inr i, settle_expiry i d))"

definition get_by_key :: "string \<Rightarrow> string \<Rightarrow> 'w op_store \<Rightarrow> string option \<times> 'w op_store" where
  "get_by_key user key d = (case find_by_idempotency user key d of
     None \<Rightarrow> (None, d) | Some r \<Rightarrow> (Some (rw_id r), settle_expiry (rw_id r) d))"

definition op_status :: "string \<Rightarrow> string list \<Rightarrow> 'w op_store \<Rightarrow> op_row list \<times> 'w op_store" where
  "op_status user ids d = (let d1 = flush_ops (\<lambda>r. if rw_user r = user \<and> rw_id r \<in> set ids
       then snd (apply_expiry (os_clock d) r) else r) d
     in (filter (\<lambda>r. rw_user r = user \<and> rw_id r \<in> set ids) (os_rows d1), d1))"

text \<open>\<open>ORDER BY created_at DESC, id DESC\<close>.\<close>

definition latest_first :: "('a \<Rightarrow> int) \<Rightarrow> ('a \<Rightarrow> string) \<Rightarrow> 'a list \<Rightarrow> 'a list" where
  "latest_first at key xs = rev (sort_key (\<lambda>x. (at x, key x)) xs)"

definition latest_decision :: "string \<Rightarrow> string \<Rightarrow> 'w op_store \<Rightarrow> op_decision option" where
  "latest_decision user i d = (case latest_first od_created od_id
       (filter (\<lambda>x. od_user x = user \<and> od_operation x = i) (os_decisions d)) of
     [] \<Rightarrow> None | x # _ \<Rightarrow> Some x)"

definition attempt_count :: "string \<Rightarrow> string \<Rightarrow> 'w op_store \<Rightarrow> nat" where
  "attempt_count user i d =
     length (filter (\<lambda>x. od_user x = user \<and> od_operation x = i \<and> od_decision x = ''approve'') (os_decisions d))"

record op_query =
  oq_types :: "string list"
  oq_project :: "string option"
  oq_session :: "string option"
  oq_limit :: int

definition selects :: "op_query \<Rightarrow> string \<Rightarrow> op_row \<Rightarrow> bool" where
  "selects q user r = (rw_user r = user
     \<and> (oq_types q = [] \<or> pc_type (rw_core r) \<in> set (oq_types q))
     \<and> (oq_project q = None \<or> pc_project (rw_core r) = oq_project q)
     \<and> (oq_session q = None \<or> pc_session (rw_core r) = oq_session q))"

text \<open>\<open>(created_at, id) < before\<close>.\<close>

definition comes_before :: "(int \<times> string) option \<Rightarrow> op_row \<Rightarrow> bool" where
  "comes_before before r = (case before of None \<Rightarrow> True
     | Some at \<Rightarrow> (rw_created r, rw_id r) < at)"

definition page_refusal :: "op_query \<Rightarrow> (int \<times> string) option \<Rightarrow> op_exn option" where
  "page_refusal q before =
     (if \<not> (1 \<le> oq_limit q \<and> oq_limit q \<le> 100) then Some (ValueErr ''operation_page_limit_invalid'')
      else if 32 < length (oq_types q) \<or> list_ex (\<lambda>t. length t < 1 \<or> 96 < length t) (oq_types q)
        then Some (ValueErr ''operation_page_types_invalid'')
      else (case before of None \<Rightarrow> None | Some (at, i) \<Rightarrow>
        if \<not> (0 \<le> at \<and> at < 2 ^ 63) \<or> length i < 1 \<or> 36 < length i
        then Some (ValueErr ''operation_page_position_invalid'') else None))"

definition list_page :: "string \<Rightarrow> op_query \<Rightarrow> (int \<times> string) option \<Rightarrow> 'w op_store
    \<Rightarrow> (op_exn + op_row list \<times> (int \<times> string) option) \<times> 'w op_store" where
  "list_page user q before d = (case page_refusal q before of
     Some e \<Rightarrow> (Inl e, d)
   | None \<Rightarrow>
      let limit = nat (oq_limit q);
          candidates = take (limit + 1) (latest_first rw_created rw_id
            (filter (\<lambda>r. selects q user r \<and> comes_before before r) (os_rows d)));
          rows = take limit candidates;
          d1 = flush_ops (\<lambda>r. if rw_id r \<in> rw_id ` set rows then snd (apply_expiry (os_clock d) r) else r) d
      in (Inr (map (\<lambda>r. snd (apply_expiry (os_clock d) r)) rows,
           if limit < length candidates then Some (rw_created (last rows), rw_id (last rows)) else None), d1))"

end
