(* ===== verification/OperationImport.thy ===== *)
theory OperationImport
  imports Operations
begin

text \<open>
  The import of operations and decisions another installation recorded
  (\<^verbatim>\<open>backend/valuz_agent/modules/operations/migration.py\<close>): what is inserted is history, never a permission.
  A record has the columns of its table; \<open>operation_step\<close> then puts all requests together.
\<close>

section \<open>Valid records\<close>

definition int64 :: "int \<Rightarrow> bool" where
  "int64 i = (- (2 ^ 63) \<le> i \<and> i < 2 ^ 63)"

definition fits :: "nat \<times> string option \<Rightarrow> bool" where
  "fits c = (case c of (n, None) \<Rightarrow> True | (n, Some s) \<Rightarrow> length s \<le> n)"

definition is_dict :: "json \<Rightarrow> bool" where
  "is_dict v = (case v of JDict _ \<Rightarrow> True | _ \<Rightarrow> False)"

text \<open>\<^verbatim>\<open>allow_nan=False\<close>.\<close>

fun finite_json :: "json \<Rightarrow> bool" where
  "finite_json (JFloat _ i _ _) = (i \<noteq> None)"
| "finite_json (JList xs) = list_all finite_json xs"
| "finite_json (JDict kvs) = list_all (\<lambda>(k, v). finite_json v) kvs"
| "finite_json v = True"

definition utf8_length :: "string \<Rightarrow> nat" where
  "utf8_length s = sum_list (map (\<lambda>c. if (of_char c :: nat) < 128 then 1 else 2) s)"

definition max_payload_bytes :: nat where
  "max_payload_bytes = 512 * 1024"

definition bounded_payload :: "json \<Rightarrow> op_exn option" where
  "bounded_payload v = (if \<not> finite_json v then Some (ValueErr ''Out of range float values are not JSON compliant'')
     else if max_payload_bytes < utf8_length (canonical_text v) then Some (ValueErr ''evidence_payload_too_large'')
     else None)"

definition int_or_null :: "int option \<Rightarrow> json" where
  "int_or_null x = (case x of None \<Rightarrow> JNull | Some i \<Rightarrow> JInt i)"

definition op_json :: "op_row \<Rightarrow> json" where
  "op_json r = (let c = rw_core r in JDict
     [(''id'', JStr (rw_id r)), (''user_id'', JStr (rw_user r)), (''project_id'', or_null (pc_project c)),
      (''operation_type'', JStr (pc_type c)), (''operation_version'', JInt (pc_version c)),
      (''actor_kind'', JStr (pc_actor_kind c)), (''actor_id'', or_null (pc_actor c)),
      (''origin_session_id'', or_null (pc_session c)), (''origin_tool_call_id'', or_null (pc_tool_call c)),
      (''origin_playbook_run_id'', or_null (pc_playbook_run c)),
      (''origin_automation_run_id'', or_null (pc_automation_run c)), (''target_refs'', JList (pc_targets c)),
      (''input_payload'', pc_input c), (''preview'', pc_preview c), (''expected_revisions'', pc_revisions c),
      (''risk_level'', JStr (pc_risk c)), (''confirmation_policy'', JStr (pc_policy c)), (''state'', JStr (rw_state r)),
      (''proposal_hash'', JStr (rw_hash r)), (''idempotency_key'', JStr (rw_key r)),
      (''canonical_result_refs'', JList (rw_refs r)), (''result_payload'', rw_result r),
      (''error_code'', or_null (rw_code r)), (''error_message'', or_null (rw_message r)),
      (''expires_at'', int_or_null (rw_expires r)), (''superseded_by_id'', or_null (rw_superseded r)),
      (''historical_only'', JBool (rw_historical r)), (''created_at'', JInt (rw_created r)),
      (''updated_at'', JInt (rw_updated r))])"

definition decision_json :: "op_decision \<Rightarrow> json" where
  "decision_json x = JDict
     [(''id'', JStr (od_id x)), (''user_id'', JStr (od_user x)), (''operation_id'', JStr (od_operation x)),
      (''decision'', JStr (od_decision x)), (''decided_by'', JStr (od_by x)), (''proposal_hash'', JStr (od_hash x)),
      (''comment'', or_null (od_comment x)), (''created_at'', JInt (od_created x)), (''updated_at'', JInt (od_updated x))]"

definition owner_refused :: "string \<Rightarrow> bool" where
  "owner_refused owner = (strip owner = [] \<or> 64 < length owner)"

definition op_columns :: "op_row \<Rightarrow> (nat \<times> string option) list" where
  "op_columns r = (let c = rw_core r in
     [(36, Some (rw_id r)), (64, Some (rw_user r)), (36, pc_project c), (96, Some (pc_type c)), (24, Some (pc_actor_kind c)),
      (128, pc_actor c), (36, pc_session c), (128, pc_tool_call c), (36, pc_playbook_run c), (36, pc_automation_run c),
      (16, Some (pc_risk c)), (24, Some (pc_policy c)), (24, Some (rw_state r)), (64, Some (rw_hash r)),
      (128, Some (rw_key r)), (96, rw_code r), (36, rw_superseded r)])"

definition operation_states :: "string list" where
  "operation_states = [''proposed'', ''awaiting_confirmation'', ''executing'', ''succeeded'', ''failed'', ''cancelled'',
     ''expired'', ''stale'', ''superseded'']"

definition op_enums_ok :: "op_row \<Rightarrow> bool" where
  "op_enums_ok r = (rw_state r \<in> set operation_states
     \<and> pc_risk (rw_core r) \<in> {''low'', ''material'', ''destructive'', ''external''}
     \<and> pc_actor_kind (rw_core r) \<in> {''user'', ''agent'', ''playbook'', ''automation'', ''system''}
     \<and> pc_policy (rw_core r) \<in> {''direct'', ''explicit_submit'', ''confirm'', ''approval'', ''preauthorized''})"

definition validate_operation :: "string \<Rightarrow> op_row \<Rightarrow> op_exn option" where
  "validate_operation owner r =
     (if owner_refused owner then Some (ValueErr ''operation_import_owner_required'')
      else (case bounded_payload (op_json r) of Some e \<Rightarrow> Some e | None \<Rightarrow>
      if rw_user r \<noteq> owner \<or> rw_id r = [] then Some (ValueErr ''operation_import_owner_mismatch'')
      else if \<not> list_all int64 [pc_version (rw_core r), rw_created r, rw_updated r]
          \<or> \<not> (case rw_expires r of None \<Rightarrow> True | Some e \<Rightarrow> int64 e)
          \<or> \<not> list_all fits (op_columns r)
          \<or> \<not> list_all is_dict [pc_input (rw_core r), pc_preview (rw_core r), pc_revisions (rw_core r), rw_result r]
        then Some (ValueErr ''operation_import_invalid_field'')
      else if length (rw_hash r) \<noteq> 64 then Some (ValueErr ''operation_import_hash_invalid'')
      else if pc_version (rw_core r) < 1 \<or> rw_key r = [] then Some (ValueErr ''operation_import_identity_invalid'')
      else if \<not> op_enums_ok r then Some (ValueErr ''operation_import_enum_invalid'')
      else if \<not> list_all is_dict (pc_targets (rw_core r) @ rw_refs r)
        then Some (ValueErr ''operation_import_invalid_reference'')
      else None))"

definition validate_decision :: "string \<Rightarrow> op_decision \<Rightarrow> op_exn option" where
  "validate_decision owner x =
     (if owner_refused owner then Some (ValueErr ''operation_import_owner_required'')
      else (case bounded_payload (decision_json x) of Some e \<Rightarrow> Some e | None \<Rightarrow>
      if od_user x \<noteq> owner \<or> od_id x = [] then Some (ValueErr ''operation_import_owner_mismatch'')
      else if \<not> list_all int64 [od_created x, od_updated x]
          \<or> \<not> list_all fits [(36, Some (od_id x)), (64, Some (od_user x)), (36, Some (od_operation x)),
                (24, Some (od_decision x)), (64, Some (od_by x)), (64, Some (od_hash x))]
        then Some (ValueErr ''operation_import_invalid_field'')
      else if length (od_hash x) \<noteq> 64 then Some (ValueErr ''operation_import_hash_invalid'')
      else if od_decision x \<notin> {''approve'', ''reject'', ''request_changes''}
        then Some (ValueErr ''operation_import_enum_invalid'')
      else None))"

section \<open>Importing\<close>

definition import_conflict :: op_exn where
  "import_conflict = ValueErr ''operation_import_identity_conflict''"

text \<open>Rows are compared column by column with Python's equality.\<close>

definition import_operation :: "op_row \<Rightarrow> 'w op_store \<Rightarrow> op_exn + 'w op_store" where
  "import_operation rec d = (case List.find (\<lambda>r. rw_id r = rw_id rec) (os_rows d) of
     Some r \<Rightarrow>
       (let comparison = (if rw_historical r then rec\<lparr>rw_historical := True\<rparr> else rec)
        in if \<not> py_eq (op_json r) (op_json comparison) then Inl import_conflict else Inr d)
   | None \<Rightarrow>
       if list_ex (\<lambda>r. rw_user r = rw_user rec \<and> rw_key r = rw_key rec) (os_rows d) then Inl import_conflict
       else Inr (d\<lparr>os_rows := os_rows d @ [rec\<lparr>rw_historical := True\<rparr>]\<rparr>))"

definition import_decision :: "string \<Rightarrow> op_decision \<Rightarrow> 'w op_store \<Rightarrow> op_exn + 'w op_store" where
  "import_decision owner rec d = (case List.find (\<lambda>x. od_id x = od_id rec) (os_decisions d) of
     Some x \<Rightarrow> if \<not> py_eq (decision_json x) (decision_json rec) then Inl import_conflict else Inr d
   | None \<Rightarrow> (case find_op owner (od_operation rec) d of
       None \<Rightarrow> Inl (ValueErr ''operation_import_decision_parent_mismatch'')
     | Some p \<Rightarrow>
         if rw_hash p \<noteq> od_hash rec then Inl (ValueErr ''operation_import_decision_parent_mismatch'')
         else if \<not> rw_historical p then Inl (ValueErr ''operation_import_live_decision_conflict'')
         else Inr (d\<lparr>os_decisions := os_decisions d @ [rec]\<rparr>)))"

text \<open>\<open>records\<close> are validated first; then all of them are imported or none.\<close>

definition import_batch :: "string \<Rightarrow> ('r \<Rightarrow> op_exn option) \<Rightarrow> ('r \<Rightarrow> 'w op_store \<Rightarrow> op_exn + 'w op_store)
    \<Rightarrow> 'r list \<Rightarrow> 'w op_store \<Rightarrow> (op_exn + unit) \<times> 'w op_store" where
  "import_batch owner refusal insert_one records d =
     (if owner_refused owner then (Inl (ValueErr ''operation_import_owner_required''), d)
      else if 100 < length records then (Inl (ValueErr ''operation_import_invalid_batch''), d)
      else (case List.map_filter refusal records of
        e # _ \<Rightarrow> (Inl e, d)
      | [] \<Rightarrow> (case rfold insert_one records d of Inl e \<Rightarrow> (Inl e, d) | Inr d1 \<Rightarrow> (Inr (), d1))))"

definition import_operations :: "string \<Rightarrow> op_row list \<Rightarrow> 'w op_store \<Rightarrow> (op_exn + unit) \<times> 'w op_store" where
  "import_operations owner = import_batch owner (validate_operation owner) import_operation"

definition import_decisions :: "string \<Rightarrow> op_decision list \<Rightarrow> 'w op_store \<Rightarrow> (op_exn + unit) \<times> 'w op_store" where
  "import_decisions owner = import_batch owner (validate_decision owner) (import_decision owner)"

section \<open>The whole\<close>

datatype op_request =
    OpProposes string op_proposal string
  | OpConfirms string string string "string option \<times> json" string
  | OpCancels string string string "string option" string
  | OpRevises string string string string string
  | OpGets string string
  | OpFinds string string
  | OpReads string "string list"
  | OpLists string op_query "(int \<times> string) option"
  | OpImports string "op_row list"
  | OpImportsDecisions string "op_decision list"
  | OpWaits int

text \<open>One request is one unit of work.\<close>

definition operation_step :: "(string \<Rightarrow> string) \<Rightarrow> 'w op_registry \<Rightarrow> op_request \<Rightarrow> 'w op_store \<Rightarrow> 'w op_store" where
  "operation_step sha reg q d = (case q of
     OpProposes user p i \<Rightarrow> snd (unit_of_work (propose sha reg user p i) d)
   | OpConfirms user i h answer k \<Rightarrow> snd (unit_of_work (confirm reg user i h answer k) d)
   | OpCancels user i h comment k \<Rightarrow> snd (unit_of_work (cancel_op reg user i h comment k) d)
   | OpRevises user i h comment k \<Rightarrow> snd (unit_of_work (request_changes user i h comment k) d)
   | OpGets user i \<Rightarrow> snd (unit_of_work (get_op user i) d)
   | OpFinds user key \<Rightarrow> snd (get_by_key user key d)
   | OpReads user ids \<Rightarrow> snd (op_status user ids d)
   | OpLists user query before \<Rightarrow> snd (unit_of_work (list_page user query before) d)
   | OpImports owner records \<Rightarrow> snd (unit_of_work (import_operations owner records) d)
   | OpImportsDecisions owner records \<Rightarrow> snd (unit_of_work (import_decisions owner records) d)
   | OpWaits ms \<Rightarrow> d\<lparr>os_clock := os_clock d + ms\<rparr>)"

abbreviation run_operations :: "(string \<Rightarrow> string) \<Rightarrow> 'w op_registry \<Rightarrow> op_request list \<Rightarrow> 'w op_store \<Rightarrow> 'w op_store" where
  "run_operations sha reg \<equiv> fold (operation_step sha reg)"

end
