(* ===== verification/OperationFacts.thy ===== *)
theory OperationFacts
  imports OperationImport Histories
begin

text \<open>
  What a request does to the rows of the operations: it keeps what was reviewed, moves the state of a row only along
  the lifecycle, and adds rows that wait for a decision or are history.
\<close>

section \<open>The lifecycle\<close>

definition operation_moves :: "(string \<times> string) list" where
  "operation_moves = List.product pending_op_states [''expired'', ''superseded'', ''cancelled'', ''succeeded'', ''failed'', ''stale'']
     @ [(''failed'', ''succeeded''), (''failed'', ''failed''), (''failed'', ''stale''), (''stale'', ''superseded'')]"

definition same_content :: "op_row \<Rightarrow> op_row \<Rightarrow> bool" where
  "same_content r s = (rw_id s = rw_id r \<and> rw_user s = rw_user r \<and> rw_core s = rw_core r \<and> rw_hash s = rw_hash r
     \<and> rw_key s = rw_key r \<and> rw_expires s = rw_expires r \<and> rw_historical s = rw_historical r \<and> rw_created s = rw_created r)"

definition row_step :: "op_row \<Rightarrow> op_row \<Rightarrow> bool" where
  "row_step r s = (same_content r s \<and> (s = r \<or> \<not> rw_historical r \<and> (rw_state r, rw_state s) \<in> set operation_moves))"

lemma row_step_refl [simp]: "row_step r r"
  by (simp add: row_step_def same_content_def)

lemma same_contentD [dest]:
  assumes "same_content r s"
  shows "rw_id s = rw_id r" "rw_user s = rw_user r" "rw_core s = rw_core r" "rw_hash s = rw_hash r" "rw_key s = rw_key r"
    "rw_historical s = rw_historical r" "rw_created s = rw_created r"
  using assms by (simp_all add: same_content_def)

lemma moves_iff: "(a, b) \<in> set operation_moves \<longleftrightarrow>
     a \<in> set pending_op_states \<and> b \<in> {''expired'', ''superseded'', ''cancelled'', ''succeeded'', ''failed'', ''stale''}
     \<or> a = ''failed'' \<and> b \<in> {''succeeded'', ''failed'', ''stale''} \<or> a = ''stale'' \<and> b = ''superseded''"
  by (auto simp: operation_moves_def)

lemma pending_simps [simp]:
  "''succeeded'' \<notin> set pending_op_states" "''failed'' \<notin> set pending_op_states" "''cancelled'' \<notin> set pending_op_states"
  "''superseded'' \<notin> set pending_op_states" "''expired'' \<notin> set pending_op_states" "''stale'' \<notin> set pending_op_states"
  "''executing'' \<notin> set pending_op_states"
  by (simp_all add: pending_op_states_def)

lemma row_step_final:
  assumes "row_step r s" and "rw_state r \<in> {''succeeded'', ''cancelled'', ''superseded'', ''expired''}"
  shows "s = r"
proof -
  have "rw_state r \<notin> set pending_op_states" "rw_state r \<noteq> ''failed''" "rw_state r \<noteq> ''stale''" using assms(2) by auto
  with assms(1) show ?thesis unfolding row_step_def moves_iff by simp
qed

lemma row_step_historical: "row_step r s \<Longrightarrow> rw_historical r \<Longrightarrow> s = r"
  by (simp add: row_step_def)

section \<open>Effects on the table\<close>

definition fresh_row :: "op_row \<Rightarrow> bool" where
  "fresh_row r = (rw_historical r \<or> rw_state r \<in> set pending_op_states)"

definition keys_ok :: "'w op_store \<Rightarrow> bool" where
  "keys_ok d = (distinct (map rw_id (os_rows d)) \<and> distinct (map (\<lambda>r. (rw_user r, rw_key r)) (os_rows d))
     \<and> distinct (map od_id (os_decisions d)))"

text \<open>Rows are rewritten in place and new ones appended.\<close>

definition op_effect :: "'w op_store \<Rightarrow> 'w op_store \<Rightarrow> (op_row \<Rightarrow> op_row) \<Rightarrow> op_row list \<Rightarrow> bool" where
  "op_effect d d1 f new = (os_rows d1 = map f (os_rows d) @ new \<and> (\<forall>r \<in> set (os_rows d). row_step r (f r))
     \<and> list_all fresh_row new \<and> keys_ok d1)"

lemma op_effect_same: "os_rows d1 = os_rows d \<Longrightarrow> keys_ok d1 \<Longrightarrow> op_effect d d1 id []"
  by (simp add: op_effect_def)

lemma row_step_keys:
  assumes "\<forall>r \<in> set rs. row_step r (f r)"
  shows "map rw_id (map f rs) = map rw_id rs" "map (\<lambda>r. (rw_user r, rw_key r)) (map f rs) = map (\<lambda>r. (rw_user r, rw_key r)) rs"
  using assms by (auto simp: row_step_def)

lemma op_effect_map:
  assumes "keys_ok d" "os_rows d1 = map f (os_rows d)" "\<forall>r \<in> set (os_rows d). row_step r (f r)"
    "distinct (map od_id (os_decisions d1))"
  shows "op_effect d d1 f []"
  using assms row_step_keys [OF assms(3)] by (simp add: op_effect_def keys_ok_def del: map_map)

text \<open>Looking up a row afterwards.\<close>

lemma find_map_keys:
  assumes "\<forall>r \<in> set rs. P (f r) = P r"
  shows "List.find P (map f rs) = map_option f (List.find P rs)"
  using assms by (induction rs) auto

lemma find_after:
  assumes "op_effect d d1 f new"
  shows "find_op user i d1 = (case find_op user i d of
     Some r \<Rightarrow> Some (f r) | None \<Rightarrow> List.find (\<lambda>r. rw_id r = i \<and> rw_user r = user) new)"
proof -
  have "\<forall>r \<in> set (os_rows d). (rw_id (f r) = i \<and> rw_user (f r) = user) = (rw_id r = i \<and> rw_user r = user)"
    using assms unfolding op_effect_def row_step_def same_content_def by metis
  then show ?thesis
    using assms unfolding find_op_def op_effect_def
    by (simp add: find_append find_map_keys split: option.split)
qed

lemma find_opD:
  assumes "find_op user i d = Some r"
  shows "r \<in> set (os_rows d)" "rw_id r = i" "rw_user r = user"
  using assms find_SomeD unfolding find_op_def by fastforce+

lemma found_rows:
  assumes "keys_ok d" "find_op user i d = Some r" "s \<in> set (os_rows d)"
  shows "rw_id s = i \<longleftrightarrow> s = r"
  using assms find_opD [OF assms(2)] unfolding keys_ok_def distinct_map by (auto dest: inj_onD)

lemma find_op_step:
  assumes "op_effect d d1 f new" "find_op user i d = Some r"
  shows "find_op user i d1 = Some (f r)" "row_step r (f r)"
  using assms find_after [OF assms(1)] find_opD(1) [OF assms(2)] by (auto simp: op_effect_def)

section \<open>Expiry\<close>

lemma expiry_cases:
  obtains (same) "snd (apply_expiry now r) = r"
  | (expires) "fst (apply_expiry now r)" "\<not> rw_historical r" "rw_state r \<in> set pending_op_states"
      "snd (apply_expiry now r) = r\<lparr>rw_state := ''expired'', rw_code := Some ''OPERATION_EXPIRED'', rw_message := None\<rparr>"
proof (cases "snd (apply_expiry now r) = r")
  case False
  then have "\<not> rw_historical r" "rw_state r \<in> set pending_op_states" "rw_state r \<noteq> ''expired''"
    by (auto simp: apply_expiry_def split: if_splits)
  moreover obtain e where "rw_expires r = Some e" "\<not> now < e"
    using False calculation by (auto simp: apply_expiry_def split: if_splits option.splits)
  ultimately show thesis by (intro expires) (simp_all add: apply_expiry_def)
qed (rule same)

lemma stamp_same [simp]: "stamp now r r = r"
  by (simp add: stamp_def)

text \<open>A write that changes the state, the outcome and the time stamp only.\<close>

lemma row_step_move:
  assumes "same_content r s" "\<not> rw_historical r" "(rw_state r, rw_state s) \<in> set operation_moves"
  shows "row_step r (stamp now r s)"
  using assms by (simp add: row_step_def stamp_def same_content_def)

lemma apply_expiry_step: "row_step r (stamp now r (snd (apply_expiry now r)))"
proof (cases rule: expiry_cases [of now r])
  case expires
  then show ?thesis by (intro row_step_move) (simp_all add: same_content_def moves_iff)
qed simp

lemma expired_state: "fst (apply_expiry now r) \<Longrightarrow> rw_state (snd (apply_expiry now r)) = ''expired''"
  by (simp add: apply_expiry_def split: if_split_asm option.split_asm)

lemma not_expired:
  assumes "rw_state (snd (apply_expiry now r)) \<in> set pending_op_states \<or> rw_state (snd (apply_expiry now r)) = ''failed''"
  shows "snd (apply_expiry now r) = r" "\<not> fst (apply_expiry now r)"
proof -
  show "snd (apply_expiry now r) = r" using assms by (cases rule: expiry_cases [of now r]) auto
  show "\<not> fst (apply_expiry now r)"
  proof
    assume "fst (apply_expiry now r)"
    then show False using assms by (simp add: expired_state)
  qed
qed

lemma put_op_rows:
  assumes "keys_ok d" "find_op user i d = Some r"
  shows "os_rows (put_op i f d) = map (\<lambda>s. if s = r then stamp (os_clock d) r (f r) else s) (os_rows d)"
  using found_rows [OF assms] by (auto simp: put_op_def flush_ops_def stamp_def)

lemma put_op_fields [simp]:
  "os_decisions (put_op i f d) = os_decisions d" "os_clock (put_op i f d) = os_clock d" "os_world (put_op i f d) = os_world d"
  by (simp_all add: put_op_def flush_ops_def)

lemma settle_effect:
  assumes "keys_ok d"
  shows "op_effect d (settle_expiry i d) (\<lambda>r. if rw_id r = i then stamp (os_clock d) r (snd (apply_expiry (os_clock d) r)) else r) []"
proof (rule op_effect_map [OF assms])
  show "os_rows (settle_expiry i d) = map (\<lambda>r. if rw_id r = i then stamp (os_clock d) r (snd (apply_expiry (os_clock d) r)) else r) (os_rows d)"
    by (auto simp: settle_expiry_def put_op_def flush_ops_def stamp_def)
  show "distinct (map od_id (os_decisions (settle_expiry i d)))" using assms by (simp add: settle_expiry_def keys_ok_def)
qed (simp add: apply_expiry_step)

lemma settle_id:
  assumes "keys_ok d" "find_op user i d = Some r" "snd (apply_expiry (os_clock d) r) = r"
  shows "settle_expiry i d = d"
proof -
  have "os_rows (settle_expiry i d) = os_rows d"
    unfolding settle_expiry_def put_op_rows [OF assms(1,2)] assms(3) by (simp add: stamp_def map_idI)
  then show ?thesis by (cases d) (simp add: settle_expiry_def put_op_def flush_ops_def)
qed

section \<open>Decisions\<close>

lemma op_for_decisionD:
  assumes "op_for_decision user i h d = Inr r"
  shows "find_op user i d = Some r" "\<not> rw_historical r" "rw_hash r = h"
  using assms by (simp_all add: op_for_decision_def split: option.splits if_splits)

lemma add_decisionD:
  assumes "add_decision r what c k d = Some d1"
  shows "os_rows d1 = os_rows d" "os_clock d1 = os_clock d" "os_world d1 = os_world d"
    "os_decisions d1 = os_decisions d @ [\<lparr>od_id = k, od_user = rw_user r, od_operation = rw_id r, od_decision = what,
       od_by = rw_user r, od_hash = rw_hash r, od_comment = c, od_created = os_clock d, od_updated = os_clock d\<rparr>]"
    "k \<notin> od_id ` set (os_decisions d)"
  using assms by (auto simp: add_decision_def list_ex_iff split: if_splits)

text \<open>What can be decided is as it was: it has not expired.\<close>

lemma still_pending:
  assumes "keys_ok d" "find_op user i d = Some r"
    "rw_state (snd (apply_expiry (os_clock d) r)) \<in> set pending_op_states
      \<or> rw_state (snd (apply_expiry (os_clock d) r)) = ''failed''"
  shows "snd (apply_expiry (os_clock d) r) = r" "\<not> fst (apply_expiry (os_clock d) r)" "settle_expiry i d = d"
  using not_expired [OF assms(3)] settle_id [OF assms(1,2)] by simp_all

lemma revise_result:
  assumes "keys_ok d" "request_changes user i h comment k d = (Inr x, d1)"
  obtains r where "find_op user i d = Some r" "\<not> rw_historical r" "rw_hash r = h" "rw_state r \<in> set pending_op_states"
    "add_decision r ''request_changes'' (Some comment) k d = Some d1"
proof -
  obtain r where r: "op_for_decision user i h d = Inr r"
    using assms(2) by (auto simp: request_changes_def split: sum.splits)
  note found = op_for_decisionD [OF r]
  have p: "rw_state (snd (apply_expiry (os_clock d) r)) \<in> set pending_op_states"
    using assms(2) r by (auto simp: request_changes_def Let_def split: if_splits)
  note same = still_pending [OF assms(1) found(1) disjI1 [OF p]]
  show thesis
    using assms(2) r p same by (intro that [OF found]) (auto simp: request_changes_def Let_def split: option.splits)
qed

lemma cancel_result:
  assumes "keys_ok d" "cancel_op reg user i h comment k d = (Inr x, d1)"
  obtains (again) r where "find_op user i d = Some r" "\<not> rw_historical r" "rw_hash r = h" "rw_state r = ''cancelled''" "d1 = d"
  | (cancels) r d2 w where "find_op user i d = Some r" "\<not> rw_historical r" "rw_hash r = h"
      "rw_state r \<in> set pending_op_states" "add_decision r ''reject'' comment k d = Some d2"
      "d1 = put_op i (\<lambda>x. x\<lparr>rw_state := ''cancelled''\<rparr>) d2\<lparr>os_world := w\<rparr>"
proof -
  obtain r where r: "op_for_decision user i h d = Inr r"
    using assms(2) by (auto simp: cancel_op_def split: sum.splits)
  note found = op_for_decisionD [OF r]
  show thesis
  proof (cases "rw_state r = ''cancelled''")
    case True
    with assms(2) r show thesis by (intro again [OF found]) (simp_all add: cancel_op_def)
  next
    case False
    have p: "rw_state (snd (apply_expiry (os_clock d) r)) \<in> set pending_op_states"
      using assms(2) r False by (auto simp: cancel_op_def Let_def split: if_splits)
    note same = still_pending [OF assms(1) found(1) disjI1 [OF p]]
    obtain d2 g where d2: "add_decision r ''reject'' comment k d = Some d2" and g: "registration_of reg (rw_core r) = Some g"
      using assms(2) r False p same by (auto simp: cancel_op_def Let_def split: option.splits)
    have "\<exists>w. d1 = put_op i (\<lambda>x. x\<lparr>rw_state := ''cancelled''\<rparr>) d2\<lparr>os_world := w\<rparr>"
    proof (cases "rg_cancel g")
      case None
      have "put_op i (\<lambda>x. x\<lparr>rw_state := ''cancelled''\<rparr>) d2
          = put_op i (\<lambda>x. x\<lparr>rw_state := ''cancelled''\<rparr>) d2\<lparr>os_world := os_world d2\<rparr>"
        by (simp add: put_op_def flush_ops_def)
      moreover have "d1 = put_op i (\<lambda>x. x\<lparr>rw_state := ''cancelled''\<rparr>) d2"
        using None assms(2) r False p same d2 g by (auto simp: cancel_op_def Let_def)
      ultimately have "d1 = put_op i (\<lambda>x. x\<lparr>rw_state := ''cancelled''\<rparr>) d2\<lparr>os_world := os_world d2\<rparr>" by metis
      then show ?thesis by blast
    next
      case (Some c)
      then show ?thesis using assms(2) r False p same d2 g by (auto simp: cancel_op_def Let_def)
    qed
    with p same d2 show thesis by (auto intro: cancels [OF found])
  qed
qed

lemma confirm_result:
  assumes "keys_ok d" "confirm reg user i h answer k d = (Inr x, d1)"
  obtains (again) r where "find_op user i d = Some r" "\<not> rw_historical r" "rw_hash r = h" "rw_state r = ''succeeded''" "d1 = d"
  | (attempt) r g res w d2 where "find_op user i d = Some r" "\<not> rw_historical r" "rw_hash r = h"
      "rw_state r \<in> set pending_op_states \<or> rw_state r = ''failed''" "\<not> fst (apply_expiry (os_clock d) r)"
      "registration_of reg (rw_core r) = Some g" "run_handler g (executing_row r) (snd answer) (os_world d) = (res, w)"
      "add_decision r ''approve'' (fst answer) k d = Some d2"
      "d1 = put_op i (settled_row res) (put_op i executing_row d2\<lparr>os_world := w\<rparr>)"
proof -
  obtain r where r: "op_for_decision user i h d = Inr r"
    using assms(2) by (auto simp: confirm_def split: sum.splits)
  note found = op_for_decisionD [OF r]
  show thesis
  proof (cases "rw_state r = ''succeeded''")
    case True
    with assms(2) r show thesis by (intro again [OF found]) (simp_all add: confirm_def)
  next
    case False
    have p: "rw_state (snd (apply_expiry (os_clock d) r)) \<in> set pending_op_states
        \<or> rw_state (snd (apply_expiry (os_clock d) r)) = ''failed''"
      using assms(2) r False by (auto simp: confirm_def Let_def split: if_splits)
    note same = still_pending [OF assms(1) found(1) p]
    have p': "rw_state r \<in> set pending_op_states \<or> rw_state r = ''failed''" using p same by simp
    obtain d2 g where d2: "add_decision r ''approve'' (fst answer) k d = Some d2" and g: "registration_of reg (rw_core r) = Some g"
      using assms(2) r False p' same by (auto simp: confirm_def Let_def split: option.splits if_splits)
    obtain res w where w: "run_handler g (executing_row r) (snd answer) (os_world d) = (res, w)" by fastforce
    have "d1 = put_op i (settled_row res) (put_op i executing_row d2\<lparr>os_world := w\<rparr>)"
      using assms(2) r False p' same d2 g w add_decisionD(3) [OF d2] by (auto simp: confirm_def Let_def)
    then show thesis by (rule attempt [OF found p' same(2) g w d2])
  qed
qed

end
