(* ===== verification/OperationTrace.thy ===== *)
theory OperationTrace
  imports OperationFacts
begin

text \<open>
  The effect of every request on the table, and which request may make an operation succeed: the confirmation of its
  owner, carrying the hash of what was reviewed.
\<close>

section \<open>Requests that make nothing succeed\<close>

definition quiet_effect :: "'w op_store \<Rightarrow> 'w op_store \<Rightarrow> bool" where
  "quiet_effect d d1 = (\<exists>f new. op_effect d d1 f new \<and> list_all rw_historical new
     \<and> (\<forall>r \<in> set (os_rows d). rw_state (f r) = ''succeeded'' \<longrightarrow> f r = r))"

lemma quiet_same: "os_rows d1 = os_rows d \<Longrightarrow> keys_ok d1 \<Longrightarrow> quiet_effect d d1"
  unfolding quiet_effect_def by (rule exI [of _ id]) (auto intro: op_effect_same)

lemma quiet_refl: "keys_ok d \<Longrightarrow> quiet_effect d d"
  by (rule quiet_same) simp_all

definition quiet_write :: "op_row \<Rightarrow> op_row \<Rightarrow> bool" where
  "quiet_write r s = (s = r \<or> same_content r s \<and> \<not> rw_historical r \<and> (rw_state r, rw_state s) \<in> set operation_moves
     \<and> rw_state s \<noteq> ''succeeded'')"

lemma quiet_write_refl [simp]: "quiet_write r r"
  by (simp add: quiet_write_def)

lemma quiet_write_step:
  assumes "quiet_write r s"
  shows "row_step r (stamp now r s)" "rw_state (stamp now r s) = ''succeeded'' \<longrightarrow> stamp now r s = r"
proof -
  show "row_step r (stamp now r s)" using assms by (auto simp: quiet_write_def row_step_move)
  show "rw_state (stamp now r s) = ''succeeded'' \<longrightarrow> stamp now r s = r"
    using assms by (auto simp: quiet_write_def stamp_def)
qed

lemma quiet_expiry: "quiet_write r (snd (apply_expiry now r))"
proof (cases rule: expiry_cases [of now r])
  case expires
  then show ?thesis by (simp add: quiet_write_def same_content_def moves_iff)
qed simp

lemma quiet_flush:
  assumes "keys_ok d" "os_rows d0 = os_rows d" "os_clock d0 = os_clock d" "distinct (map od_id (os_decisions d0))"
    and writes: "\<And>r. r \<in> set (os_rows d) \<Longrightarrow> quiet_write r (g r)"
  shows "quiet_effect d (flush_ops g d0)"
proof -
  let ?f = "\<lambda>r. stamp (os_clock d) r (g r)"
  have "op_effect d (flush_ops g d0) ?f []"
    using assms by (intro op_effect_map) (auto simp: flush_ops_def intro: quiet_write_step(1))
  moreover have "\<forall>r \<in> set (os_rows d). rw_state (?f r) = ''succeeded'' \<longrightarrow> ?f r = r"
    using writes quiet_write_step(2) by blast
  ultimately show ?thesis unfolding quiet_effect_def by (intro exI [of _ ?f] exI [of _ "[]"]) simp
qed

lemma quiet_settle:
  assumes "keys_ok d"
  shows "quiet_effect d (settle_expiry i d)"
  unfolding settle_expiry_def put_op_def
  using assms by (intro quiet_flush) (simp_all add: keys_ok_def quiet_expiry)

lemma keys_ok_world [simp]: "keys_ok (d\<lparr>os_world := w\<rparr>) = keys_ok d" "keys_ok (d\<lparr>os_clock := c\<rparr>) = keys_ok d"
  by (simp_all add: keys_ok_def)

lemma quiet_world [simp]: "quiet_effect d (d1\<lparr>os_world := w\<rparr>) = quiet_effect d d1"
  by (simp add: quiet_effect_def op_effect_def)

lemma keys_ok_decision: "keys_ok d \<Longrightarrow> add_decision r what c k d = Some d1 \<Longrightarrow> keys_ok d1"
  using add_decisionD [of r what c k d d1] by (simp add: keys_ok_def)

section \<open>Request by request\<close>

lemma revise_effect:
  assumes "keys_ok d" "request_changes user i h comment k d = (Inr x, d1)"
  shows "quiet_effect d d1"
proof -
  obtain r where a: "add_decision r ''request_changes'' (Some comment) k d = Some d1"
    using assms by (rule revise_result)
  show ?thesis by (rule quiet_same [OF add_decisionD(1) [OF a] keys_ok_decision [OF assms(1) a]])
qed

lemma cancel_effect:
  assumes "keys_ok d" "cancel_op reg user i h comment k d = (Inr x, d1)"
  shows "quiet_effect d d1"
  using assms(1,2)
proof (cases rule: cancel_result)
  case again
  with assms(1) show ?thesis by (simp add: quiet_refl)
next
  case (cancels r d2 w)
  have writes: "quiet_write s (if rw_id s = i then s\<lparr>rw_state := ''cancelled''\<rparr> else s)" if "s \<in> set (os_rows d)" for s
    using cancels(2,4) found_rows [OF assms(1) cancels(1) that]
    by (simp add: quiet_write_def same_content_def moves_iff)
  have "quiet_effect d (put_op i (\<lambda>x. x\<lparr>rw_state := ''cancelled''\<rparr>) d2)"
    unfolding put_op_def using assms(1) keys_ok_decision [OF assms(1) cancels(5)] add_decisionD [OF cancels(5)] writes
    by (intro quiet_flush) (simp_all add: keys_ok_def)
  with cancels(6) show ?thesis by simp
qed

lemma get_effect: "keys_ok d \<Longrightarrow> get_op user i d = (Inr x, d1) \<Longrightarrow> quiet_effect d d1"
  by (auto simp: get_op_def quiet_settle split: option.splits)

lemma key_effect: "keys_ok d \<Longrightarrow> quiet_effect d (snd (get_by_key user key d))"
  by (simp add: get_by_key_def quiet_settle quiet_refl split: option.split)

lemma status_effect: "keys_ok d \<Longrightarrow> quiet_effect d (snd (op_status user ids d))"
  unfolding op_status_def Let_def snd_conv by (intro quiet_flush) (simp_all add: keys_ok_def quiet_expiry)

lemma list_effect:
  assumes "keys_ok d" "list_page user q before d = (Inr x, d1)"
  shows "quiet_effect d d1"
proof -
  obtain S where "d1 = flush_ops (\<lambda>r. if rw_id r \<in> S then snd (apply_expiry (os_clock d) r) else r) d"
    using assms(2) by (auto simp: list_page_def Let_def split: option.splits)
  then show ?thesis using assms(1) by (simp add: quiet_flush keys_ok_def quiet_expiry)
qed

text \<open>A new proposal: it supersedes others, not itself.\<close>

lemma superseding_write:
  assumes "is_candidate user c i r"
  shows "quiet_write r (case apply_expiry now r of (e, r1) \<Rightarrow> if e then r1 else superseded_row i r1)"
proof (cases "fst (apply_expiry now r)")
  case True
  then show ?thesis using quiet_expiry [of r now] by (simp add: case_prod_beta)
next
  case False
  have "snd (apply_expiry now r) = r" using False by (cases rule: expiry_cases [of now r]) auto
  with False assms show ?thesis
    by (simp add: case_prod_beta quiet_write_def superseded_row_def same_content_def moves_iff is_candidate_def
        supersedable_states_def) blast
qed

definition superseding :: "string \<Rightarrow> op_core \<Rightarrow> string \<Rightarrow> int \<Rightarrow> op_row \<Rightarrow> op_row" where
  "superseding user c i now r = (if target_scope (pc_targets c) = None \<or> \<not> is_candidate user c i r then r
     else (case apply_expiry now r of (e, r1) \<Rightarrow> if e then r1 else superseded_row i r1))"

lemma supersede_replaced_flush: "supersede_replaced user c i d = flush_ops (superseding user c i (os_clock d)) d"
proof (cases "target_scope (pc_targets c) = None")
  case True
  then show ?thesis by (cases d) (simp add: supersede_replaced_def superseding_def flush_ops_def)
next
  case False
  then have "superseding user c i (os_clock d) = (\<lambda>r. if \<not> is_candidate user c i r then r
      else (case apply_expiry (os_clock d) r of (e, r1) \<Rightarrow> if e then r1 else superseded_row i r1))"
    by (auto simp: superseding_def)
  then show ?thesis unfolding supersede_replaced_def if_not_P [OF False] by simp
qed

lemma superseding_quiet: "quiet_write r (superseding user c i now r)"
  using superseding_write [of user c i r now] by (auto simp: superseding_def)

lemma propose_result:
  assumes "propose sha reg user p i d = (Inr x, d1)"
  obtains (again) r where "find_by_idempotency user (pp_key p) d = Some r" "rw_hash r = proposal_hash sha (pp_core p)"
      "x = rw_id r" "d1 = settle_expiry (rw_id r) d"
  | (created) e where "find_by_idempotency user (pp_key p) d = None" "i \<notin> rw_id ` set (os_rows d)" "x = i"
      "d1 = supersede_replaced user (pp_core p) i (d\<lparr>os_rows := os_rows d @ [new_op sha user p e i (os_clock d)]\<rparr>)"
proof -
  obtain g where g: "registration_of reg (pp_core p) = Some g"
    using assms by (auto simp: propose_def split: option.splits)
  show thesis
  proof (cases "find_by_idempotency user (pp_key p) d")
    case (Some r)
    then have "rw_hash r = proposal_hash sha (pp_core p)"
      using assms g by (simp add: propose_def split: if_splits)
    with assms g Some show thesis by (intro again) (auto simp: propose_def)
  next
    case None
    have ok: "rg_rejects g (pc_input (pp_core p)) = None"
      using assms g None by (simp add: propose_def split: option.splits)
    have "\<not> list_ex (\<lambda>r. rw_id r = i) (os_rows d)"
      using assms g None ok by (simp add: propose_def Let_def split: if_splits)
    with assms g None ok show thesis
      by (intro created) (auto simp: propose_def Let_def list_ex_iff)
  qed
qed

text \<open>Two live rows that ask for the same kind of operation on the same targets.\<close>

definition same_target :: "op_row \<Rightarrow> op_row \<Rightarrow> bool" where
  "same_target r s = (rw_user r = rw_user s \<and> pc_type (rw_core r) = pc_type (rw_core s)
     \<and> \<not> rw_historical r \<and> \<not> rw_historical s \<and> target_scope (pc_targets (rw_core s)) \<noteq> None
     \<and> target_scope (pc_targets (rw_core r)) = target_scope (pc_targets (rw_core s)))"

lemma superseding_settles:
  assumes "same_target r n" "rw_id r \<noteq> rw_id n"
  shows "rw_state (superseding (rw_user n) (rw_core n) (rw_id n) now r) \<notin> set pending_op_states"
proof (cases "rw_state r \<in> set supersedable_states")
  case True
  then have "superseding (rw_user n) (rw_core n) (rw_id n) now r
      = (case apply_expiry now r of (e, r1) \<Rightarrow> if e then r1 else superseded_row (rw_id n) r1)"
    using assms by (auto simp: superseding_def is_candidate_def same_target_def)
  then show ?thesis using expired_state [of now r] by (simp add: case_prod_beta superseded_row_def)
next
  case False
  then show ?thesis by (simp add: superseding_def is_candidate_def supersedable_states_def)
qed

lemma propose_effect:
  assumes "keys_ok d" "propose sha reg user p i d = (Inr x, d1)"
  obtains (quiet) "quiet_effect d d1"
  | (creates) f n where "op_effect d d1 f [n]" "\<forall>r \<in> set (os_rows d). rw_state (f r) = ''succeeded'' \<longrightarrow> f r = r"
      "\<forall>r \<in> set (os_rows d). same_target r n \<longrightarrow> rw_state (f r) \<notin> set pending_op_states"
  using assms(2)
proof (cases rule: propose_result)
  case again
  with assms(1) show ?thesis by (intro quiet) (simp add: quiet_settle)
next
  case (created e)
  let ?n = "new_op sha user p e i (os_clock d)"
  let ?f = "\<lambda>r. stamp (os_clock d) r (superseding user (pp_core p) i (os_clock d) r)"
  have n: "rw_id ?n = i" "rw_user ?n = user" "rw_key ?n = pp_key p" "rw_core ?n = pp_core p" by (simp_all add: new_op_def)
  have "superseding user (pp_core p) i (os_clock d) ?n = ?n"
    by (simp add: superseding_def is_candidate_def new_op_def)
  then have rows: "os_rows d1 = map ?f (os_rows d) @ [?n]"
    by (simp add: created supersede_replaced_flush flush_ops_def)
  have steps: "\<forall>r \<in> set (os_rows d). row_step r (?f r)"
    using quiet_write_step(1) [OF superseding_quiet] by blast
  have "(user, pp_key p) \<notin> (\<lambda>r. (rw_user r, rw_key r)) ` set (os_rows d)"
    using created(1) by (auto simp: find_by_idempotency_def find_None_iff)
  moreover have "os_decisions d1 = os_decisions d"
    by (simp add: created(4) supersede_replaced_flush flush_ops_def)
  moreover have "i \<notin> set (map rw_id (os_rows d))" using created(2) by simp
  ultimately have "keys_ok d1"
    using assms(1) row_step_keys [OF steps] n unfolding keys_ok_def rows map_append
    by (simp del: map_map set_map) (simp add: image_iff)
  moreover have "fresh_row ?n" by (simp add: fresh_row_def new_op_def pending_op_states_def)
  ultimately have effect: "op_effect d d1 ?f [?n]" using rows steps by (simp add: op_effect_def)
  have "\<forall>r \<in> set (os_rows d). rw_state (?f r) = ''succeeded'' \<longrightarrow> ?f r = r"
    using quiet_write_step(2) [OF superseding_quiet] by blast
  moreover have "\<forall>r \<in> set (os_rows d). same_target r ?n \<longrightarrow> rw_state (?f r) \<notin> set pending_op_states"
  proof (intro ballI impI)
    fix r assume r: "r \<in> set (os_rows d)" "same_target r ?n"
    then have "rw_id r \<noteq> rw_id ?n" using created(2) n by auto
    from superseding_settles [OF r(2) this, of "os_clock d"] n
    show "rw_state (?f r) \<notin> set pending_op_states" by (auto simp: stamp_def)
  qed
  ultimately show ?thesis by (rule creates [OF effect])
qed

section \<open>Imports\<close>

text \<open>A batch only appends: operations as history, decisions to history.\<close>

lemma import_batchD:
  assumes "import_batch owner refusal one records d = (Inr x, d1)"
  shows "rfold one records d = Inr d1"
  using assms by (auto simp: import_batch_def split: if_splits list.splits sum.splits)

definition appends :: "'w op_store \<Rightarrow> 'w op_store \<Rightarrow> bool" where
  "appends d d1 = (keys_ok d1 \<and> (\<exists>new. os_rows d1 = os_rows d @ new \<and> list_all rw_historical new))"

lemma appends_quiet:
  assumes "appends d d1"
  shows "quiet_effect d d1"
proof -
  obtain new where "os_rows d1 = os_rows d @ new" "list_all rw_historical new" "keys_ok d1"
    using assms by (auto simp: appends_def)
  moreover from this have "op_effect d d1 id new" by (simp add: op_effect_def fresh_row_def list_all_iff)
  ultimately show ?thesis unfolding quiet_effect_def by (intro exI [of _ id] exI [of _ new]) simp
qed

lemma appends_fold:
  assumes "rfold one rs d = Inr d1" "keys_ok d" "\<And>r d d1. one r d = Inr d1 \<Longrightarrow> keys_ok d \<Longrightarrow> appends d d1"
  shows "appends d d1"
proof (rule rfold_invariant [of one rs d d1 "appends d"])
  show "appends d d" using assms(2) by (simp add: appends_def)
  fix r s t assume "appends d s" "one r s = Inr t"
  then show "appends d t" using assms(3) [of r s t] by (fastforce simp: appends_def)
qed (rule assms(1))

lemma import_operation_appends: "import_operation r d = Inr d1 \<Longrightarrow> keys_ok d \<Longrightarrow> appends d d1"
  by (auto simp: import_operation_def Let_def appends_def keys_ok_def list_ex_iff find_None_iff
      split: option.splits if_splits) blast+

lemma import_decision_appends: "import_decision owner r d = Inr d1 \<Longrightarrow> keys_ok d \<Longrightarrow> appends d d1"
  by (auto simp: import_decision_def appends_def keys_ok_def find_None_iff split: option.splits if_splits) blast

lemma imports_effect:
  "import_operations owner rs d = (Inr x, d1) \<Longrightarrow> keys_ok d \<Longrightarrow> appends d d1"
  "import_decisions owner ds d = (Inr x, d1) \<Longrightarrow> keys_ok d \<Longrightarrow> appends d d1"
  unfolding import_operations_def import_decisions_def
  by (auto dest!: import_batchD intro: appends_fold import_operation_appends import_decision_appends)

section \<open>Confirmations\<close>

text \<open>The request \<open>q\<close> runs the handler of the operation \<open>r\<close> in \<open>d\<close>, which returns what \<open>s\<close> records and leaves \<open>w\<close>.\<close>

definition approves :: "'w op_registry \<Rightarrow> op_request \<Rightarrow> 'w op_store \<Rightarrow> op_row \<Rightarrow> op_row \<Rightarrow> 'w \<Rightarrow> bool" where
  "approves reg q d r s w = (case q of
     OpConfirms user i h answer k \<Rightarrow>
       find_op user i d = Some r \<and> rw_hash r = h \<and> \<not> rw_historical r
       \<and> (rw_state r \<in> set pending_op_states \<or> rw_state r = ''failed'') \<and> \<not> fst (apply_expiry (os_clock d) r)
       \<and> (case registration_of reg (rw_core r) of None \<Rightarrow> False | Some g \<Rightarrow>
           rg_rejects g (pc_input (rw_core r)) = None
           \<and> rg_handler g (executing_row r) (snd answer) (os_world d) = (Inr (rw_refs s, rw_result s), w))
   | _ \<Rightarrow> False)"

definition attempted_row :: "int \<Rightarrow> op_exn + json list \<times> json \<Rightarrow> op_row \<Rightarrow> op_row" where
  "attempted_row now res r = stamp now (stamp now r (executing_row r)) (settled_row res (stamp now r (executing_row r)))"

lemma put_twice_rows:
  assumes "\<And>r. rw_id (f r) = rw_id r"
  shows "os_rows (put_op i g (put_op i f d\<lparr>os_world := w\<rparr>)) = map (\<lambda>s. if rw_id s = i
    then stamp (os_clock d) (stamp (os_clock d) s (f s)) (g (stamp (os_clock d) s (f s))) else s) (os_rows d)"
  using assms by (auto simp: put_op_def flush_ops_def stamp_def)

lemma executing_id [simp]: "rw_id (executing_row r) = rw_id r"
  by (simp add: executing_row_def)

lemma failure_states: "fst (failure_of e) \<in> {''failed'', ''stale''}"
  by (simp add: failure_of_def split: op_exn.split)

lemma settled_content:
  "same_content r (settled_row res r)" "rw_state (settled_row res r) \<in> {''succeeded'', ''failed'', ''stale''}"
  "rw_state (settled_row res r) = ''succeeded'' \<longleftrightarrow> (\<exists>v. res = Inr v)"
  "res = Inr (refs, v) \<Longrightarrow> rw_refs (settled_row res r) = refs \<and> rw_result (settled_row res r) = v"
proof -
  obtain st code m where f: "failure_of (projl res) = (st, code, m)" by (cases "failure_of (projl res)")
  then have st: "st \<in> {''failed'', ''stale''}" using failure_states [of "projl res"] by simp
  show "same_content r (settled_row res r)" "rw_state (settled_row res r) \<in> {''succeeded'', ''failed'', ''stale''}"
    "rw_state (settled_row res r) = ''succeeded'' \<longleftrightarrow> (\<exists>v. res = Inr v)"
    using f st by (cases res; force simp: settled_row_def same_content_def)+
qed (simp add: settled_row_def)

lemma attempted_state: "rw_state (attempted_row now res r) \<in> {''succeeded'', ''failed'', ''stale''}"
proof -
  have "rw_state (stamp now a b) = rw_state b" for a b by (auto simp: stamp_def)
  then show ?thesis using settled_content(2) by (simp only: attempted_row_def)
qed

lemma attempted_step:
  assumes "\<not> rw_historical r" "rw_state r \<in> set pending_op_states \<or> rw_state r = ''failed''"
  shows "row_step r (attempted_row now res r)"
    "rw_state (attempted_row now res r) = ''succeeded'' \<longleftrightarrow> (\<exists>v. res = Inr v)"
    "res = Inr (refs, v) \<Longrightarrow> rw_refs (attempted_row now res r) = refs \<and> rw_result (attempted_row now res r) = v"
proof -
  let ?x = "stamp now r (executing_row r)"
  have x: "same_content r ?x" by (simp add: stamp_def executing_row_def same_content_def)
  have "settled_row res ?x \<noteq> ?x"
  proof -
    have "rw_state ?x = ''executing''"
    proof (cases "executing_row r = r")
      case True
      have "rw_state r = ''executing''" using arg_cong [OF True, of rw_state] by (simp add: executing_row_def)
      with assms(2) show ?thesis by simp
    qed (simp add: stamp_def executing_row_def)
    then show ?thesis using settled_content(2) [of res ?x] by auto
  qed
  then have row: "attempted_row now res r = settled_row res ?x\<lparr>rw_updated := now\<rparr>"
    by (simp add: attempted_row_def stamp_def)
  note s = settled_content(1) [of ?x res]
  have "same_content r (attempted_row now res r)" using x s row by (simp add: same_content_def)
  moreover have "(rw_state r, rw_state (attempted_row now res r)) \<in> set operation_moves"
    using assms(2) settled_content(2) [of res ?x] row by (auto simp: moves_iff)
  ultimately show "row_step r (attempted_row now res r)" using assms(1) by (simp add: row_step_def)
  show "rw_state (attempted_row now res r) = ''succeeded'' \<longleftrightarrow> (\<exists>v. res = Inr v)"
    using settled_content(3) row by simp
  show "rw_refs (attempted_row now res r) = refs \<and> rw_result (attempted_row now res r) = v" if "res = Inr (refs, v)"
    using settled_content(4) [OF that] row by simp
qed

section \<open>One open proposal per target\<close>

definition one_pending :: "'w op_store \<Rightarrow> bool" where
  "one_pending d = (\<forall>r \<in> set (os_rows d). \<forall>s \<in> set (os_rows d). same_target r s \<longrightarrow>
     rw_state r \<in> set pending_op_states \<longrightarrow> rw_state s \<in> set pending_op_states \<longrightarrow> r = s)"

lemma stays_pending:
  assumes "row_step r s" "rw_state s \<in> set pending_op_states"
  shows "s = r"
  using assms by (auto simp: row_step_def moves_iff)

lemma one_pending_old:
  assumes "op_effect d d1 f new" "one_pending d" "r \<in> set (os_rows d)" "s \<in> set (os_rows d)"
    "same_target (f r) (f s)" "rw_state (f r) \<in> set pending_op_states" "rw_state (f s) \<in> set pending_op_states"
  shows "f r = f s"
proof -
  have "f r = r" "f s = s" using assms stays_pending unfolding op_effect_def by blast+
  then show ?thesis using assms unfolding one_pending_def by metis
qed

lemma one_pending_kept:
  assumes f: "op_effect d d1 f new" "list_all rw_historical new" and "one_pending d"
  shows "one_pending d1"
proof -
  have rows: "set (os_rows d1) = f ` set (os_rows d) \<union> set new" using f(1) by (simp add: op_effect_def)
  have "\<not> same_target r s \<and> \<not> same_target s r" if "s \<in> set new" for r s
    using f(2) that by (auto simp: list_all_iff same_target_def)
  then show ?thesis using one_pending_old [OF f(1) assms(3)] unfolding one_pending_def rows by blast
qed

lemma one_pending_quiet: "quiet_effect d d1 \<Longrightarrow> one_pending d \<Longrightarrow> one_pending d1"
  unfolding quiet_effect_def by (blast intro: one_pending_kept)

lemma one_pending_propose:
  assumes "keys_ok d" "one_pending d" "propose sha reg user p i d = (Inr x, d1)"
  shows "one_pending d1"
  using assms(1,3)
proof (cases rule: propose_effect)
  case quiet
  then show ?thesis using assms(2) by (rule one_pending_quiet)
next
  case (creates f n)
  have rows: "set (os_rows d1) = insert n (f ` set (os_rows d))" using creates(1) by (simp add: op_effect_def)
  have swap: "same_target a b \<Longrightarrow> same_target b a" for a b by (auto simp: same_target_def)
  have new: "rw_state (f r) \<notin> set pending_op_states" if "r \<in> set (os_rows d)" "same_target (f r) n \<or> same_target n (f r)" for r
  proof
    assume p: "rw_state (f r) \<in> set pending_op_states"
    have "f r = r" using creates(1) that(1) p stays_pending unfolding op_effect_def by blast
    with that p creates(3) swap show False by metis
  qed
  show ?thesis
    using one_pending_old [OF creates(1) assms(2)] new unfolding one_pending_def rows by blast
qed

end
