(* ===== verification/OperationProperties.thy ===== *)
theory OperationProperties
  imports OperationTrace
begin

text \<open>
  The histories of the operations: the lifecycle of a row, the trace behind a success, and the attempts a record keeps.
\<close>

section \<open>One request\<close>

definition succeeds_by :: "'w op_registry \<Rightarrow> op_request \<Rightarrow> 'w op_store \<Rightarrow> 'w op_store \<Rightarrow> op_row \<Rightarrow> op_row \<Rightarrow> bool" where
  "succeeds_by reg q d d1 r s = (rw_state s = ''succeeded'' \<longrightarrow> s = r \<or> approves reg q d r s (os_world d1))"

definition step_effect :: "'w op_registry \<Rightarrow> op_request \<Rightarrow> 'w op_store \<Rightarrow> 'w op_store \<Rightarrow> bool" where
  "step_effect reg q d d1 = (\<exists>f new. op_effect d d1 f new
     \<and> (\<forall>user i r. find_op user i d = Some r \<longrightarrow> succeeds_by reg q d d1 r (f r))
     \<and> (one_pending d \<longrightarrow> one_pending d1))"

lemma quiet_step_effect:
  assumes "quiet_effect d d1"
  shows "step_effect reg q d d1"
proof -
  obtain f new where "op_effect d d1 f new" "\<forall>r \<in> set (os_rows d). rw_state (f r) = ''succeeded'' \<longrightarrow> f r = r"
    using assms unfolding quiet_effect_def by blast
  then show ?thesis unfolding step_effect_def succeeds_by_def by (meson assms find_opD(1) one_pending_quiet)
qed

lemma propose_step_effect:
  assumes "keys_ok d" "propose sha reg user p i d = (Inr x, d1)"
  shows "step_effect reg q d d1"
  using assms
proof (cases rule: propose_effect)
  case quiet
  then show ?thesis by (rule quiet_step_effect)
next
  case (creates f n)
  then show ?thesis unfolding step_effect_def succeeds_by_def
    by (meson assms find_opD(1) one_pending_propose)
qed

lemma attempt_rows:
  assumes "keys_ok d" "find_op user i d = Some r" "\<not> rw_historical r"
    "rw_state r \<in> set pending_op_states \<or> rw_state r = ''failed''" "add_decision r what c k d = Some d2"
  shows "op_effect d (put_op i (settled_row res) (put_op i executing_row d2\<lparr>os_world := w\<rparr>))
    (\<lambda>s. if s = r then attempted_row (os_clock d) res r else s) []"
proof -
  let ?d1 = "put_op i (settled_row res) (put_op i executing_row d2\<lparr>os_world := w\<rparr>)"
  note d2 = add_decisionD [OF assms(5)]
  have "os_rows ?d1 = map (\<lambda>s. if rw_id s = i then attempted_row (os_clock d) res s else s) (os_rows d)"
    by (subst put_twice_rows) (simp_all add: d2 attempted_row_def)
  also have "\<dots> = map (\<lambda>s. if s = r then attempted_row (os_clock d) res r else s) (os_rows d)"
    using found_rows [OF assms(1,2)] by auto
  finally show ?thesis
    using attempted_step(1) [OF assms(3,4)] keys_ok_decision [OF assms(1,5)]
    by (intro op_effect_map [OF assms(1)]) (auto simp: keys_ok_def)
qed

lemma confirm_effect:
  assumes ok: "keys_ok d" and run: "confirm reg user i h answer k d = (Inr x, d1)"
  shows "step_effect reg (OpConfirms user i h answer k) d d1"
  using ok run
proof (cases rule: confirm_result)
  case again
  with ok show ?thesis by (simp add: quiet_step_effect quiet_refl)
next
  case (attempt r g res w d2)
  let ?f = "\<lambda>s. if s = r then attempted_row (os_clock d) res r else s"
  have effect: "op_effect d d1 ?f []"
    unfolding attempt(9) using ok attempt(1,2,4,8) by (rule attempt_rows)
  have "succeeds_by reg (OpConfirms user i h answer k) d d1 s (?f s)" for s
  proof (cases "s = r \<and> (\<exists>v. res = Inr v)")
    case True
    then obtain refs v where res: "res = Inr (refs, v)" by auto
    have "rg_rejects g (pc_input (rw_core r)) = None" "rg_handler g (executing_row r) (snd answer) (os_world d) = (Inr (refs, v), w)"
      using attempt(7) res by (auto simp: run_handler_def executing_row_def split: option.splits prod.splits sum.splits)
    moreover have "os_world d1 = w" by (simp add: attempt(9))
    ultimately show ?thesis
      using True attempt attempted_step(3) [OF attempt(2,4) res] by (simp add: succeeds_by_def approves_def)
  next
    case False
    then show ?thesis using attempted_step(2) [OF attempt(2,4)] by (auto simp: succeeds_by_def)
  qed
  moreover have "one_pending d \<longrightarrow> one_pending d1" using one_pending_kept [OF effect] by simp
  ultimately show ?thesis using effect unfolding step_effect_def by blast
qed

lemma unit_of_work_snd: "snd (unit_of_work body d) = (case body d of (Inl e, d1) \<Rightarrow> d | (Inr x, d1) \<Rightarrow> d1)"
  by (simp add: unit_of_work_def split: prod.split sum.split)

lemma committed:
  assumes "step_effect reg q d d" "\<And>x d1. body d = (Inr x, d1) \<Longrightarrow> step_effect reg q d d1"
  shows "step_effect reg q d (snd (unit_of_work body d))"
  using assms unfolding unit_of_work_snd by (auto split: prod.split sum.split)

lemma committed_quiet:
  assumes "keys_ok d" "\<And>x d1. body d = (Inr x, d1) \<Longrightarrow> quiet_effect d d1"
  shows "step_effect reg q d (snd (unit_of_work body d))"
  using assms by (intro committed quiet_step_effect quiet_refl) simp_all

lemma operation_step_effect:
  assumes "keys_ok d"
  shows "step_effect reg q d (operation_step sha reg q d)"
proof (cases q)
  case (OpConfirms user i h answer k)
  have "step_effect reg q d (snd (unit_of_work (confirm reg user i h answer k) d))"
    unfolding OpConfirms by (rule committed [OF quiet_step_effect [OF quiet_refl [OF assms]] confirm_effect [OF assms]])
  then show ?thesis by (simp add: OpConfirms operation_step_def)
next
  case (OpFinds user key)
  with assms show ?thesis by (simp add: operation_step_def quiet_step_effect key_effect)
next
  case (OpReads user ids)
  with assms show ?thesis by (simp add: operation_step_def quiet_step_effect status_effect)
next
  case (OpWaits ms)
  with assms show ?thesis by (simp add: operation_step_def quiet_step_effect quiet_same)
next
  case (OpProposes user p i)
  then show ?thesis
    by (simp add: operation_step_def)
      (rule committed [OF quiet_step_effect [OF quiet_refl [OF assms]] propose_step_effect [OF assms]])
next
  case (OpCancels user i h comment k)
  then show ?thesis
    by (simp add: operation_step_def) (rule committed_quiet [OF assms cancel_effect [OF assms]])
next
  case (OpRevises user i h comment k)
  then show ?thesis
    by (simp add: operation_step_def) (rule committed_quiet [OF assms revise_effect [OF assms]])
next
  case (OpGets user i)
  then show ?thesis
    by (simp add: operation_step_def) (rule committed_quiet [OF assms get_effect [OF assms]])
next
  case (OpLists user qu before)
  then show ?thesis
    by (simp add: operation_step_def) (rule committed_quiet [OF assms list_effect [OF assms]])
next
  case (OpImports owner rs)
  then show ?thesis
    by (simp add: operation_step_def) (rule committed_quiet [OF assms appends_quiet [OF imports_effect(1) [OF _ assms]]])
next
  case (OpImportsDecisions owner rs)
  then show ?thesis
    by (simp add: operation_step_def) (rule committed_quiet [OF assms appends_quiet [OF imports_effect(2) [OF _ assms]]])
qed

definition operations_ok :: "'w op_store \<Rightarrow> bool" where
  "operations_ok d = (keys_ok d \<and> one_pending d)"

interpretation op: kept_by_steps "operation_step sha reg" operations_ok "\<lambda>q. True" for sha reg
proof
  fix d :: "'a op_store" and q
  assume "operations_ok d"
  then show "operations_ok (operation_step sha reg q d)"
    using operation_step_effect [of d reg q sha] unfolding operations_ok_def step_effect_def op_effect_def by blast
qed

lemma ok_after: "operations_ok d \<Longrightarrow> operations_ok (run_operations sha reg qs d)"
  by (rule op.history_ok) (simp_all add: list_all_iff)

lemma keys_of_ok: "operations_ok d \<Longrightarrow> keys_ok d"
  by (simp add: operations_ok_def)

section \<open>Histories\<close>

lemma moves_trans:
  assumes "row_step r s"
  shows "(rw_state r, rw_state s) \<in> (set operation_moves)\<^sup>*"
  using assms by (auto simp: row_step_def)

lemma same_content_trans: "same_content r s \<Longrightarrow> same_content s t \<Longrightarrow> same_content r t"
  by (simp add: same_content_def)

lemma row_after_request:
  assumes "keys_ok d" "find_op user i d = Some r"
  obtains s where "find_op user i (operation_step sha reg q d) = Some s" "row_step r s"
    "succeeds_by reg q d (operation_step sha reg q d) r s"
proof -
  obtain f new where f: "op_effect d (operation_step sha reg q d) f new"
      "\<forall>user i r. find_op user i d = Some r \<longrightarrow> succeeds_by reg q d (operation_step sha reg q d) r (f r)"
    using operation_step_effect [OF assms(1)] unfolding step_effect_def by blast
  show thesis using f(2) assms(2) by (intro that [OF find_op_step [OF f(1) assms(2)]]) blast
qed

lemma new_row_waits:
  assumes "keys_ok d" "find_op user i d = None" "find_op user i (operation_step sha reg q d) = Some s"
  shows "fresh_row s"
proof -
  obtain f new where f: "op_effect d (operation_step sha reg q d) f new"
    using operation_step_effect [OF assms(1)] unfolding step_effect_def by blast
  have "s \<in> set new" using assms(2,3) find_after [OF f, of user i] by (auto dest: find_SomeD)
  then show ?thesis using f by (auto simp: op_effect_def list_all_iff)
qed

lemma run_snoc [simp]: "run_operations sha reg (qs @ [q]) d = operation_step sha reg q (run_operations sha reg qs d)"
  by simp

lemma row_lifecycle:
  assumes "operations_ok d" "find_op user i d = Some r"
  shows "\<exists>s. find_op user i (run_operations sha reg qs d) = Some s \<and> same_content r s
    \<and> (rw_state r, rw_state s) \<in> (set operation_moves)\<^sup>*
    \<and> (rw_historical r \<or> rw_state r \<in> {''succeeded'', ''cancelled'', ''superseded'', ''expired''} \<longrightarrow> s = r)"
proof (induction qs rule: rev_induct)
  case Nil
  then show ?case using assms(2) by (simp add: same_content_def)
next
  case (snoc q qs)
  then obtain s where s: "find_op user i (run_operations sha reg qs d) = Some s" "same_content r s"
      "(rw_state r, rw_state s) \<in> (set operation_moves)\<^sup>*"
      "rw_historical r \<or> rw_state r \<in> {''succeeded'', ''cancelled'', ''superseded'', ''expired''} \<longrightarrow> s = r"
    by blast
  obtain t where t: "find_op user i (run_operations sha reg (qs @ [q]) d) = Some t" "row_step s t"
    using row_after_request [OF keys_of_ok [OF ok_after [OF assms(1)]] s(1)] unfolding run_snoc by blast
  have "same_content r t" using s(2) t(2) same_content_trans unfolding row_step_def by blast
  moreover have "(rw_state r, rw_state t) \<in> (set operation_moves)\<^sup>*" using s(3) moves_trans [OF t(2)] by (rule rtrancl_trans)
  moreover have "rw_historical r \<or> rw_state r \<in> {''succeeded'', ''cancelled'', ''superseded'', ''expired''} \<longrightarrow> t = r"
    using s(4) row_step_final [OF t(2)] row_step_historical [OF t(2)] by blast
  ultimately show ?case using t(1) by blast
qed

lemma success_trace:
  assumes "operations_ok d" "find_op user i d = None"
  shows "find_op user i (run_operations sha reg qs d) = Some s \<Longrightarrow> rw_state s = ''succeeded'' \<Longrightarrow> \<not> rw_historical s \<Longrightarrow>
    \<exists>earlier q later r. qs = earlier @ q # later
      \<and> approves reg q (run_operations sha reg earlier d) r s (os_world (run_operations sha reg (earlier @ [q]) d))
      \<and> same_content r s"
proof (induction qs rule: rev_induct)
  case Nil
  then show ?case using assms(2) by simp
next
  case (snoc q qs)
  let ?d = "run_operations sha reg qs d"
  note ok = keys_of_ok [OF ok_after [OF assms(1), of sha reg qs]]
  have after: "find_op user i (operation_step sha reg q ?d) = Some s" using snoc.prems(1) by simp
  show ?case
  proof (cases "find_op user i ?d")
    case None
    from new_row_waits [OF ok None after] snoc.prems(2,3) show ?thesis by (simp add: fresh_row_def)
  next
    case (Some r)
    have s: "row_step r s" "succeeds_by reg q ?d (operation_step sha reg q ?d) r s"
      using row_after_request [OF ok Some, of sha reg q] after by (metis option.inject)+
    show ?thesis
    proof (cases "s = r")
      case True
      then obtain earlier q' later r' where "qs = earlier @ q' # later"
          "approves reg q' (run_operations sha reg earlier d) r' s (os_world (run_operations sha reg (earlier @ [q']) d))"
          "same_content r' s"
        using snoc.IH snoc.prems(2,3) Some by blast
      then show ?thesis by (intro exI [of _ earlier] exI [of _ q'] exI [of _ "later @ [q]"] exI [of _ r']) simp
    next
      case False
      then have "approves reg q ?d r s (os_world (operation_step sha reg q ?d))"
        using s(2) snoc.prems(2) by (simp add: succeeds_by_def)
      then show ?thesis using s(1) unfolding row_step_def
        by (intro exI [of _ qs] exI [of _ q] exI [of _ "[]"] exI [of _ r]) simp
    qed
  qed
qed

end
