(* ===== verification/OperationPages.thy ===== *)
theory OperationPages
  imports OperationProperties "HOL-Library.Multiset"
begin

text \<open>
  Reading the operations page by page: following the position each page returns lists every selected operation once,
  newest first, although the reads themselves write the expiries they find.
\<close>

section \<open>Positions\<close>

definition position :: "op_row \<Rightarrow> int \<times> string" where
  "position r = (rw_created r, rw_id r)"

definition listing :: "string \<Rightarrow> op_query \<Rightarrow> 'w op_store \<Rightarrow> (int \<times> string) list" where
  "listing user q d = map position (latest_first rw_created rw_id (filter (selects q user) (os_rows d)))"

definition earlier_than :: "(int \<times> string) option \<Rightarrow> int \<times> string \<Rightarrow> bool" where
  "earlier_than before x = (case before of None \<Rightarrow> True | Some b \<Rightarrow> x < b)"

lemma comes_before_position: "comes_before b r = earlier_than b (position r)"
  by (simp add: comes_before_def earlier_than_def position_def split: option.split)

lemma map_sort_key: "map k (sort_key k xs) = sort (map k xs)"
  by (rule properties_for_sort [symmetric]) simp_all

lemma positions_sorted: "map position (latest_first rw_created rw_id rs) = rev (sort (map position rs))"
proof -
  have k: "(\<lambda>r. (rw_created r, rw_id r)) = position" by (auto simp: position_def)
  show ?thesis unfolding latest_first_def k by (simp add: rev_map [symmetric] map_sort_key)
qed

lemma listing_sort: "listing user q d = rev (sort (map position (filter (selects q user) (os_rows d))))"
  by (simp add: listing_def positions_sorted)

lemma listing_decreasing:
  assumes "keys_ok d"
  shows "sorted_wrt (>) (listing user q d)"
proof -
  have "distinct (map position (filter (selects q user) (os_rows d)))"
    using assms unfolding keys_ok_def distinct_map by (auto simp: inj_on_def position_def)
  then have "sorted_wrt (<) (sort (map position (filter (selects q user) (os_rows d))))"
    by (simp add: strict_sorted_iff)
  then show ?thesis by (simp add: listing_sort sorted_wrt_rev strict_sorted_iff)
qed

section \<open>One page\<close>

lemma candidates_positions:
  "map position (latest_first rw_created rw_id (filter (\<lambda>r. selects q user r \<and> comes_before b r) (os_rows d)))
   = filter (earlier_than b) (listing user q d)"
proof -
  have "map position (filter (\<lambda>r. selects q user r \<and> comes_before b r) (os_rows d))
      = filter (earlier_than b) (map position (filter (selects q user) (os_rows d)))"
    by (simp add: filter_map comp_def comes_before_position conj_commute)
  then show ?thesis unfolding positions_sorted listing_sort by (simp only: filter_sort rev_filter [symmetric])
qed

lemma list_page_positions:
  assumes "page_refusal q b = None" "list_page user q b d = (res, d1)"
  shows "\<exists>rows next. res = Inr (rows, next) \<and> (let F = filter (earlier_than b) (listing user q d); n = nat (oq_limit q) in
    map position rows = take n F \<and> next = (if n < length F then Some (last (take n F)) else None))"
proof -
  define n where "n = nat (oq_limit q)"
  define C where "C = latest_first rw_created rw_id (filter (\<lambda>r. selects q user r \<and> comes_before b r) (os_rows d))"
  define F where "F = filter (earlier_than b) (listing user q d)"
  have F: "map position C = F" unfolding C_def F_def by (rule candidates_positions)
  then have len: "length F = length C" by auto
  have n: "1 \<le> n" using assms(1) by (simp add: page_refusal_def n_def split: if_splits)
  have same: "position (snd (apply_expiry now r)) = position r" for now r
    by (cases rule: expiry_cases [of now r]) (simp_all add: position_def)
  have take: "take n (take (n + 1) C) = take n C" by (simp add: min_def)
  let ?rows = "map (\<lambda>r. snd (apply_expiry (os_clock d) r)) (take n C)"
  let ?next = "if n < length C then Some (rw_created (last (take n C)), rw_id (last (take n C))) else None"
  have "res = Inr (?rows, ?next)"
    using assms unfolding list_page_def n_def [symmetric] C_def [symmetric] Let_def take
    by (auto simp: min_def split: if_splits)
  moreover have "map position ?rows = take n F"
    by (simp add: same comp_def flip: F) (simp add: take_map)
  moreover have "?next = (if n < length F then Some (last (take n F)) else None)"
  proof (cases "n < length C")
    case True
    then have "take n C \<noteq> []" using n by auto
    then have "last (take n F) = position (last (take n C))" by (simp flip: F add: take_map last_map)
    with True len show ?thesis by (simp add: position_def)
  qed (simp add: len)
  ultimately show ?thesis unfolding n_def [symmetric] F_def [symmetric] Let_def by blast
qed

lemma list_page_listing:
  assumes "list_page user q b d = (Inr x, d1)" "keys_ok d"
  shows "listing user q' d1 = listing user q' d" "keys_ok d1" "os_rows d1 = [] \<longleftrightarrow> os_rows d = []"
proof -
  obtain S where d1: "d1 = flush_ops (\<lambda>r. if rw_id r \<in> S then snd (apply_expiry (os_clock d) r) else r) d"
    using assms(1) by (auto simp: list_page_def Let_def split: option.splits)
  let ?f = "\<lambda>r. stamp (os_clock d) r (if rw_id r \<in> S then snd (apply_expiry (os_clock d) r) else r)"
  have step: "row_step r (?f r)" for r by (simp add: apply_expiry_step)
  have same: "position (?f r) = position r" "selects q' user (?f r) = selects q' user r" for r
    using step [of r] by (auto simp: row_step_def same_content_def position_def selects_def)
  have rows: "os_rows d1 = map ?f (os_rows d)" by (simp add: d1 flush_ops_def)
  then show "listing user q' d1 = listing user q' d"
    by (simp add: listing_sort filter_map comp_def same del: if_split)
  show "os_rows d1 = [] \<longleftrightarrow> os_rows d = []" using rows by simp
  have "op_effect d d1 ?f []"
    using rows step assms(2) by (intro op_effect_map) (auto simp: d1 flush_ops_def keys_ok_def)
  then show "keys_ok d1" by (simp add: op_effect_def)
qed

section \<open>All pages\<close>

text \<open>A reader follows the positions for at most \<open>n\<close> pages and notes the positions of the rows it is given.\<close>

primrec walk_pages :: "string \<Rightarrow> op_query \<Rightarrow> nat \<Rightarrow> (int \<times> string) option \<Rightarrow> 'w op_store \<Rightarrow> (int \<times> string) list" where
  "walk_pages user q 0 before d = []"
| "walk_pages user q (Suc n) before d = (case list_page user q before d of
     (Inl e, _) \<Rightarrow> []
   | (Inr (rows, next), d1) \<Rightarrow> map position rows @
       (case next of None \<Rightarrow> [] | Some b \<Rightarrow> walk_pages user q n (Some b) d1))"

lemma last_take_in: "0 < n \<Longrightarrow> n < length F \<Longrightarrow> last (take n F) \<in> set F"
  by (rule in_set_takeD [OF last_in_set]) auto

lemma after_take:
  assumes "sorted_wrt (>) (F :: ('a :: linorder) list)" "0 < n" "n < length F"
  shows "filter (\<lambda>x. x < last (take n F)) F = drop n F"
proof -
  have split: "F = take n F @ drop n F" by simp
  have ne: "take n F \<noteq> []" using assms by auto
  have parts: "sorted_wrt (>) (take n F)" "\<And>x y. x \<in> set (take n F) \<Longrightarrow> y \<in> set (drop n F) \<Longrightarrow> y < x"
    using assms(1) sorted_wrt_append [of "(>)" "take n F" "drop n F"] by auto
  have "last (take n F) \<in> set (take n F)" using ne by (rule last_in_set)
  moreover have "\<not> x < last (take n F)" if x: "x \<in> set (take n F)" for x
  proof -
    have "take n F = butlast (take n F) @ [last (take n F)]" using ne by simp
    then have "x \<in> set (butlast (take n F)) \<or> x = last (take n F)"
      "\<forall>y \<in> set (butlast (take n F)). last (take n F) < y"
      using parts(1) x sorted_wrt_append [of "(>)" "butlast (take n F)" "[last (take n F)]"]
      by (metis Un_iff empty_iff list.set(1,2) insert_iff set_append, simp)
    then have "x = last (take n F) \<or> last (take n F) < x" by blast
    then show ?thesis by auto
  qed
  ultimately have "filter (\<lambda>x. x < last (take n F)) (take n F) = []" "filter (\<lambda>x. x < last (take n F)) (drop n F) = drop n F"
    using parts(2) by (auto simp: filter_empty_conv filter_id_conv)
  then show ?thesis by (subst split) (simp only: filter_append append_Nil)
qed

lemma next_page:
  assumes "sorted_wrt (>) K" "F = filter (earlier_than b) K" "0 < n" "n < length F"
  shows "filter (earlier_than (Some (last (take n F)))) K = drop n F"
proof -
  let ?l = "last (take n F)"
  have "?l \<in> set F" using assms(3,4) by (rule last_take_in)
  then have l: "earlier_than b ?l" using assms(2) by simp
  have "earlier_than (Some ?l) x = (earlier_than b x \<and> x < ?l)" for x
    using l by (auto simp: earlier_than_def split: option.splits)
  then have "filter (earlier_than (Some ?l)) K = filter (\<lambda>x. x < ?l) F"
    by (simp add: assms(2)) (metis conj_commute)
  moreover have "sorted_wrt (>) F" unfolding assms(2) using assms(1) by (rule sorted_wrt_filter)
  ultimately show ?thesis using after_take assms(3,4) by metis
qed

text \<open>The columns hold times and ids that a position may carry.\<close>

definition positions_fit :: "'w op_store \<Rightarrow> bool" where
  "positions_fit d = list_all (\<lambda>r. 0 \<le> rw_created r \<and> rw_created r < 2 ^ 63 \<and> 1 \<le> length (rw_id r) \<and> length (rw_id r) \<le> 36)
     (os_rows d)"

lemma listing_fits:
  assumes "positions_fit d" "x \<in> set (listing user q d)" "page_refusal q None = None"
  shows "page_refusal q (Some x) = None"
proof -
  obtain r where "r \<in> set (os_rows d)" "x = position r" using assms(2) by (auto simp: listing_sort)
  then show ?thesis
    using assms(1,3) by (auto simp: positions_fit_def list_all_iff position_def page_refusal_def split: if_splits)
qed

lemma walk_rest:
  assumes "keys_ok d" "page_refusal q b = None" "page_refusal q None = None"
    and "\<And>x. x \<in> set (listing user q d) \<Longrightarrow> page_refusal q (Some x) = None"
    and "length (filter (earlier_than b) (listing user q d)) < n"
  shows "walk_pages user q n b d = filter (earlier_than b) (listing user q d)"
  using assms
proof (induction n arbitrary: b d)
  case (Suc n)
  let ?F = "filter (earlier_than b) (listing user q d)" and ?l = "nat (oq_limit q)"
  obtain res d1 where page: "list_page user q b d = (res, d1)" by fastforce
  obtain rows nxt where r: "res = Inr (rows, nxt)" "map position rows = take ?l ?F"
      "nxt = (if ?l < length ?F then Some (last (take ?l ?F)) else None)"
    using list_page_positions [OF Suc.prems(2) page] by (auto simp: Let_def)
  have l: "0 < ?l" using Suc.prems(3) by (simp add: page_refusal_def split: if_splits)
  show ?case
  proof (cases "?l < length ?F")
    case False
    then show ?thesis using page r by simp
  next
    case True
    note same = list_page_listing [OF page [unfolded r(1)] Suc.prems(1)]
    let ?b = "Some (last (take ?l ?F))"
    have rest: "filter (earlier_than ?b) (listing user q d) = drop ?l ?F"
      using listing_decreasing [OF Suc.prems(1)] l True by (intro next_page) simp_all
    have "last (take ?l ?F) \<in> set ?F" using l True by (rule last_take_in)
    then have "page_refusal q ?b = None" using Suc.prems(4) by simp
    moreover have "length (drop ?l ?F) < n" using Suc.prems(5) l True by simp
    ultimately have "walk_pages user q n ?b d1 = drop ?l ?F"
      using Suc.IH [OF same(2), of ?b] Suc.prems(3,4) unfolding same(1) rest by blast
    then show ?thesis using page r True by simp
  qed
qed simp

text \<open>Property C40: A reader that follows the positions list_page returns, for more pages than there are operations, is given
  every operation of its query once, newest first, whatever the size of a page and although reading writes the expiries
  it finds.\<close>
theorem pages_list_everything:
  assumes "operations_ok d" "positions_fit d" "page_refusal q None = None" "length (os_rows d) < n"
  shows "walk_pages user q n None d = map position (latest_first rw_created rw_id (filter (selects q user) (os_rows d)))"
proof -
  have "length (listing user q d) \<le> length (os_rows d)" by (simp add: listing_sort)
  moreover have all: "filter (earlier_than None) (listing user q d) = listing user q d" by (simp add: earlier_than_def)
  ultimately have "walk_pages user q n None d = listing user q d"
    using walk_rest [OF keys_of_ok [OF assms(1)] assms(3,3), of user n] listing_fits [OF assms(2) _ assms(3)] assms(4)
    unfolding all by simp
  then show ?thesis by (simp add: listing_def)
qed

end
