(* ===== verification/OperationWitnesses.thy ===== *)
theory OperationWitnesses
  imports OperationPages
begin

text \<open>
  The properties of the operations, and a small installation on which they apply: one registered kind of operation whose
  handler counts, fails for one answer and may fail after it has written.
\<close>

section \<open>An installation\<close>

definition count_handler :: "nat op_handler" where
  "count_handler r decision w = (if decision = JStr ''no'' then (Inl (ValueErr ''target is Stale''), w + 7)
     else (Inr ([JDict [(''id'', JStr ''t1'')]], JInt (int w)), w + 1))"

definition count_registry :: "nat op_registry" where
  "count_registry t v = (if t = ''skill.save'' \<and> v = 1
     then Some \<lparr>rg_handler = count_handler, rg_cancel = None, rg_ttl = Some 1000, rg_rejects = (\<lambda>v. None)\<rparr> else None)"

definition save_core :: "json \<Rightarrow> op_core" where
  "save_core v = \<lparr>pc_type = ''skill.save'', pc_version = 1, pc_project = None, pc_actor_kind = ''agent'', pc_actor = None,
     pc_session = Some ''s1'', pc_tool_call = None, pc_playbook_run = None, pc_automation_run = None,
     pc_targets = [JDict [(''type'', JStr ''skill''), (''slug'', JStr ''notes'')]], pc_input = v, pc_preview = JDict [],
     pc_revisions = JDict [], pc_risk = ''material'', pc_policy = ''confirm''\<rparr>"

definition save_proposal :: "string \<Rightarrow> json \<Rightarrow> op_proposal" where
  "save_proposal key v = \<lparr>pp_core = save_core v, pp_key = key, pp_expires = None\<rparr>"

definition empty_operations :: "nat op_store" where
  "empty_operations = \<lparr>os_rows = [], os_decisions = [], os_clock = 100, os_world = 0\<rparr>"

abbreviation short_sha :: "string \<Rightarrow> string" where
  "short_sha \<equiv> (\<lambda>s. take 8 (rev s))"

definition save_hash :: "json \<Rightarrow> string" where
  "save_hash v = proposal_hash short_sha (save_core v)"

lemma empty_operations_ok: "operations_ok empty_operations"
  by (simp add: operations_ok_def keys_ok_def one_pending_def empty_operations_def)

section \<open>Properties\<close>

text \<open>Property C11: An operation that succeeded was confirmed: some earlier request of its owner named its hash while it waited
  for a decision or had failed, its handler ran on the content that was reviewed, and what the handler returned and left is
  what the record and the data hold.\<close>
theorem approved_success_traces_back:
  assumes "operations_ok d" "find_op user i d = None"
    and "find_op user i (run_operations sha reg qs d) = Some s" "rw_state s = ''succeeded''" "\<not> rw_historical s"
  shows "\<exists>earlier q later r. qs = earlier @ q # later
    \<and> approves reg q (run_operations sha reg earlier d) r s (os_world (run_operations sha reg (earlier @ [q]) d))
    \<and> same_content r s"
  using assms by (rule success_trace)

definition success_history :: "op_request list" where
  "success_history = [OpProposes ''u'' (save_proposal ''k1'' (JDict [])) ''o1'',
     OpConfirms ''u'' ''o1'' (save_hash (JDict [])) (None, JStr ''no'') ''d1'',
     OpProposes ''u'' (save_proposal ''k2'' (JList [])) ''o2'', OpWaits 5,
     OpConfirms ''u'' ''o2'' (save_hash (JList [])) (None, JNull) ''d2'']"

lemma approved_success_traces_back_witness:
  "\<exists>earlier q later r. success_history = earlier @ q # later
    \<and> approves count_registry q (run_operations short_sha count_registry earlier empty_operations) r
        (the (find_op ''u'' ''o2'' (run_operations short_sha count_registry success_history empty_operations)))
        (os_world (run_operations short_sha count_registry (earlier @ [q]) empty_operations))
    \<and> same_content r (the (find_op ''u'' ''o2'' (run_operations short_sha count_registry success_history empty_operations)))"
proof (rule approved_success_traces_back [OF empty_operations_ok])
  show "find_op ''u'' ''o2'' empty_operations = None" by code_simp
  show "find_op ''u'' ''o2'' (run_operations short_sha count_registry success_history empty_operations)
      = Some (the (find_op ''u'' ''o2'' (run_operations short_sha count_registry success_history empty_operations)))"
    by code_simp
  show "rw_state (the (find_op ''u'' ''o2'' (run_operations short_sha count_registry success_history empty_operations))) = ''succeeded''"
    by code_simp
  show "\<not> rw_historical (the (find_op ''u'' ''o2'' (run_operations short_sha count_registry success_history empty_operations)))"
    by code_simp
qed

text \<open>Whatever requests follow, an operation keeps the content that was reviewed, its state moves along the lifecycle only,
  and a finished or imported one never changes again.\<close>
theorem operation_lifecycle:
  assumes "operations_ok d" "find_op user i d = Some r"
  shows "\<exists>s. find_op user i (run_operations sha reg qs d) = Some s \<and> same_content r s
    \<and> (rw_state r, rw_state s) \<in> (set operation_moves)\<^sup>*
    \<and> (rw_historical r \<or> rw_state r \<in> {''succeeded'', ''cancelled'', ''superseded'', ''expired''} \<longrightarrow> s = r)"
  using assms by (rule row_lifecycle)

text \<open>Property C38: At any time at most one proposal of a user waits for a decision on the same kind of operation and the same
  targets: a newer one supersedes what it replaces.  (Each request is one unit of work; two proposals at once are not
  interleaved.)\<close>
theorem one_open_proposal_per_target:
  assumes "operations_ok d"
    and "r \<in> set (os_rows (run_operations sha reg qs d))" "s \<in> set (os_rows (run_operations sha reg qs d))"
    and "same_target r s" "rw_state r \<in> set pending_op_states" "rw_state s \<in> set pending_op_states"
  shows "r = s"
  using assms ok_after [OF assms(1), of sha reg qs] by (simp add: operations_ok_def one_pending_def)

definition superseding_history :: "op_request list" where
  "superseding_history = [OpProposes ''u'' (save_proposal ''k1'' (JDict [])) ''o1'',
     OpRevises ''u'' ''o1'' (save_hash (JDict [])) ''shorter'' ''d1'', OpProposes ''u'' (save_proposal ''k2'' (JList [])) ''o2'']"

lemma one_open_proposal_per_target_witness:
  "the (find_op ''u'' ''o2'' (run_operations short_sha count_registry superseding_history empty_operations))
   = last (os_rows (run_operations short_sha count_registry superseding_history empty_operations))"
proof (rule one_open_proposal_per_target [OF empty_operations_ok])
  let ?d = "run_operations short_sha count_registry superseding_history empty_operations"
  have "find_op ''u'' ''o2'' ?d = Some (the (find_op ''u'' ''o2'' ?d))" by code_simp
  then show "the (find_op ''u'' ''o2'' ?d) \<in> set (os_rows ?d)" by (rule find_opD)
  have "os_rows ?d \<noteq> []" by code_simp
  then show "last (os_rows ?d) \<in> set (os_rows ?d)" by (rule last_in_set)
  show "same_target (the (find_op ''u'' ''o2'' ?d)) (last (os_rows ?d))" by code_simp
  show "rw_state (the (find_op ''u'' ''o2'' ?d)) \<in> set pending_op_states" by code_simp
  show "rw_state (last (os_rows ?d)) \<in> set pending_op_states" by code_simp
qed

text \<open>A proposal that waits for a decision although its time is over.\<close>

definition overran :: "'w op_store \<Rightarrow> op_row \<Rightarrow> bool" where
  "overran d r \<longleftrightarrow> rw_state r \<in> set pending_op_states
     \<and> (case rw_expires r of None \<Rightarrow> False | Some e \<Rightarrow> e \<le> os_clock d)"

lemma expiry_of_overran:
  assumes "\<not> rw_historical r" "overran d r"
  shows "apply_expiry (os_clock d) r
    = (True, r\<lparr>rw_state := ''expired'', rw_code := Some ''OPERATION_EXPIRED'', rw_message := None\<rparr>)"
    and "rw_state r \<noteq> ''expired''"
proof -
  show n: "rw_state r \<noteq> ''expired''" using assms(2) by (auto simp: overran_def pending_op_states_def)
  show "apply_expiry (os_clock d) r
    = (True, r\<lparr>rw_state := ''expired'', rw_code := Some ''OPERATION_EXPIRED'', rw_message := None\<rparr>)"
    using assms n by (simp add: overran_def apply_expiry_def split: option.splits)
qed

lemma expiry_of_others: "\<not> overran d r \<Longrightarrow> snd (apply_expiry (os_clock d) r) = r"
  by (cases "rw_expires r") (auto simp: overran_def apply_expiry_def)

lemma expired_is_over: "''expired'' \<notin> set pending_op_states" "''executing'' \<notin> set pending_op_states"
  by (simp_all add: pending_op_states_def)

lemma rewritten_row:
  assumes "keys_ok d" "find_op user i d = Some r" "f r \<noteq> r"
  shows "os_rows (put_op i f d) = map (\<lambda>x. if x = r then (f r)\<lparr>rw_updated := os_clock d\<rparr> else x) (os_rows d)"
  unfolding put_op_rows [OF assms(1,2)] using assms(3) by (simp add: stamp_def)

text \<open>What a refused confirmation leaves in the session it ran in.\<close>

lemma confirm_refused:
  assumes keys: "keys_ok d" and run: "confirm reg user i h answer k d = (Inl e, d1)"
  shows "os_world d1 = os_world d \<and>
    (d1 = d \<and> (\<forall>r. find_op user i d = Some r \<longrightarrow> \<not> rw_historical r \<longrightarrow> rw_hash r = h \<longrightarrow> \<not> overran d r)
     \<or> (\<exists>r. find_op user i d = Some r \<and> \<not> rw_historical r \<and> rw_hash r = h \<and>
         (overran d r \<and> e = ValueErr ''operation_not_confirmable:expired''
            \<and> os_rows d1 = map (\<lambda>x. if x = r then r\<lparr>rw_state := ''expired'', rw_code := Some ''OPERATION_EXPIRED'',
                 rw_message := None, rw_updated := os_clock d\<rparr> else x) (os_rows d)
            \<and> os_decisions d1 = os_decisions d
          \<or> \<not> overran d r \<and> registration_of reg (rw_core r) = None \<and> e = LookupErr ''operation_type_unavailable''
            \<and> os_rows d1 = map (\<lambda>x. if x = r then r\<lparr>rw_state := ''executing'', rw_code := None,
                 rw_message := None, rw_updated := os_clock d\<rparr> else x) (os_rows d))))"
proof (cases "op_for_decision user i h d")
  case (Inl e0)
  with run have "d1 = d" by (simp add: confirm_def)
  moreover have "\<forall>r. find_op user i d = Some r \<longrightarrow> \<not> rw_historical r \<longrightarrow> rw_hash r \<noteq> h"
    using Inl by (auto simp: op_for_decision_def split: option.splits if_splits)
  ultimately show ?thesis by blast
next
  case (Inr r)
  note found = op_for_decisionD [OF Inr]
  have unfinished: "rw_state r \<noteq> ''succeeded''" using run Inr by (auto simp: confirm_def)
  show ?thesis
  proof (cases "overran d r")
    case True
    note exp = expiry_of_overran [OF found(2) True]
    have res: "e = ValueErr ''operation_not_confirmable:expired''" "d1 = settle_expiry i d"
      using run Inr unfinished exp expired_is_over by (auto simp: confirm_def Let_def)
    have "rw_state (snd (apply_expiry (os_clock d) r)) = ''expired''" by (simp add: exp(1))
    with exp(2) have "snd (apply_expiry (os_clock d) r) \<noteq> r" by metis
    from rewritten_row [where f = "\<lambda>x. snd (apply_expiry (os_clock d) x)", OF keys found(1) this] exp res(2)
    have "os_rows d1 = map (\<lambda>x. if x = r then r\<lparr>rw_state := ''expired'', rw_code := Some ''OPERATION_EXPIRED'',
        rw_message := None, rw_updated := os_clock d\<rparr> else x) (os_rows d)"
      by (simp add: settle_expiry_def)
    moreover have "os_world d1 = os_world d" "os_decisions d1 = os_decisions d"
      using res(2) by (simp_all add: settle_expiry_def)
    ultimately show ?thesis using found True res(1) by blast
  next
    case False
    have same: "snd (apply_expiry (os_clock d) r) = r" by (rule expiry_of_others [OF False])
    have settled: "settle_expiry i d = d" by (rule settle_id [OF keys found(1) same])
    have fine: "\<forall>x. find_op user i d = Some x \<longrightarrow> \<not> overran d x" using found(1) False by simp
    show ?thesis
    proof (cases "d1 = d")
      case True
      with fine show ?thesis by simp
    next
      case moved: False
      have open_row: "rw_state r \<in> set pending_op_states \<or> rw_state r = ''failed''"
        using run Inr unfinished same settled moved by (auto simp: confirm_def Let_def split: if_splits)
      obtain dk where dk: "add_decision r ''approve'' (fst answer) k d = Some dk"
        using run Inr unfinished same settled moved open_row
        by (auto simp: confirm_def Let_def split: option.splits)
      have res: "registration_of reg (rw_core r) = None" "e = LookupErr ''operation_type_unavailable''"
        "d1 = put_op i executing_row dk"
        using run Inr unfinished same settled open_row dk
        by (auto simp: confirm_def Let_def split: option.splits prod.splits)
      note added = add_decisionD [OF dk]
      have keys': "put_op i executing_row dk = put_op i executing_row d\<lparr>os_decisions := os_decisions dk\<rparr>"
        using added(1-3) by (cases d; cases dk) (simp add: put_op_def flush_ops_def)
      have "executing_row r \<noteq> r"
      proof
        assume "executing_row r = r"
        moreover have "rw_state (executing_row r) = ''executing''" by (simp add: executing_row_def)
        ultimately have "rw_state r = ''executing''" by simp
        with open_row expired_is_over show False by auto
      qed
      from rewritten_row [where f = executing_row, OF keys found(1) this] res(3) keys'
      have "os_rows d1 = map (\<lambda>x. if x = r then r\<lparr>rw_state := ''executing'', rw_code := None,
          rw_message := None, rw_updated := os_clock d\<rparr> else x) (os_rows d)"
        by (simp add: executing_row_def)
      moreover have "os_world d1 = os_world d" using res(3) added(3) by simp
      ultimately show ?thesis using found False res(1,2) by blast
    qed
  qed
qed

lemma confirm_returned:
  assumes "operations_ok d" and c: "confirm reg user i h answer k d = (Inr x, d1)"
  shows "\<exists>r s. find_op user i d = Some r \<and> find_op user i d1 = Some s \<and> rw_hash r = h \<and> \<not> rw_historical r
        \<and> (if rw_state r = ''succeeded'' then d1 = d
           else (rw_state r \<in> set pending_op_states \<or> rw_state r = ''failed'') \<and> \<not> overran d r
             \<and> attempt_count user i d1 = attempt_count user i d + 1
             \<and> (if rw_state s = ''succeeded'' then approves reg (OpConfirms user i h answer k) d r s (os_world d1)
                else rw_state s \<in> {''failed'', ''stale''} \<and> os_world d1 = os_world d))"
proof -
  have keys: "keys_ok d" using assms(1) by (rule keys_of_ok)
  from keys c show ?thesis
  proof (cases rule: confirm_result)
    case (again r)
    then show ?thesis by simp
  next
    case (attempt r g rs w d2)
    have fits: "\<not> overran d r" using attempt(2,5) expiry_of_overran(1) by fastforce
    let ?s = "attempted_row (os_clock d) rs r"
    have "op_effect d d1 (\<lambda>s. if s = r then ?s else s) []"
      unfolding attempt(9) using keys attempt(1,2,4,8) by (rule attempt_rows)
    from find_op_step(1) [OF this attempt(1)] have s: "find_op user i d1 = Some ?s" by simp
    have state: "rw_state ?s = ''succeeded'' \<longleftrightarrow> (\<exists>v. rs = Inr v)" "rw_state ?s \<in> {''succeeded'', ''failed'', ''stale''}"
      using attempted_step(2) [OF attempt(2,4)] attempted_state by blast+
    have count: "attempt_count user i d1 = attempt_count user i d + 1"
      using add_decisionD(4) [OF attempt(8)] find_opD(2,3) [OF attempt(1)] by (simp add: attempt(9) attempt_count_def)
    have w: "os_world d1 = w" by (simp add: attempt(9))
    show ?thesis
    proof (cases rs)
      case (Inl e)
      then have "w = os_world d" using attempt(7) by (auto simp: run_handler_def split: option.splits prod.splits sum.splits)
      then show ?thesis using Inl attempt(1-4) fits s state count w by auto
    next
      case R: (Inr v)
      obtain refs val where v: "rs = Inr (refs, val)" using R by (cases v) simp
      note recorded = attempted_step(3) [OF attempt(2,4) v]
      have "rg_rejects g (pc_input (rw_core r)) = None" "rg_handler g (executing_row r) (snd answer) (os_world d) = (Inr (refs, val), w)"
        using attempt(7) v by (auto simp: run_handler_def executing_row_def split: option.splits prod.splits sum.splits)
      then have "approves reg (OpConfirms user i h answer k) d r ?s (os_world d1)"
        using attempt(1-6) w recorded by (simp add: approves_def v)
      then show ?thesis using R attempt(1-4) fits s state count by auto
    qed
  qed
qed

text \<open>Property C39: A confirmation touches the data only when it succeeds.  One that raises leaves the data alone: it
  changed nothing at all; or the proposal had run out of time, and the row now says it expired; or the kind of operation is
  not registered, and the row is left executing for the caller to roll back.  One that returns found the operation done, or
  found it waiting (or failed) within its time and with the hash the user reviewed, counted one more attempt, and either it
  succeeded and the data are as the handler left them, or the failure is on record and the data are untouched.\<close>
theorem confirm_all_or_nothing:
  assumes "operations_ok d" and run: "confirm reg user i h answer k d = (res, d1)"
  shows "case res of
      Inl e \<Rightarrow> os_world d1 = os_world d \<and>
        (d1 = d \<and> (\<forall>r. find_op user i d = Some r \<longrightarrow> \<not> rw_historical r \<longrightarrow> rw_hash r = h \<longrightarrow> \<not> overran d r)
         \<or> (\<exists>r. find_op user i d = Some r \<and> \<not> rw_historical r \<and> rw_hash r = h \<and>
             (overran d r \<and> e = ValueErr ''operation_not_confirmable:expired''
                \<and> os_rows d1 = map (\<lambda>x. if x = r then r\<lparr>rw_state := ''expired'', rw_code := Some ''OPERATION_EXPIRED'',
                     rw_message := None, rw_updated := os_clock d\<rparr> else x) (os_rows d)
                \<and> os_decisions d1 = os_decisions d
              \<or> \<not> overran d r \<and> registration_of reg (rw_core r) = None \<and> e = LookupErr ''operation_type_unavailable''
                \<and> os_rows d1 = map (\<lambda>x. if x = r then r\<lparr>rw_state := ''executing'', rw_code := None,
                     rw_message := None, rw_updated := os_clock d\<rparr> else x) (os_rows d))))
    | Inr x \<Rightarrow> (\<exists>r s. find_op user i d = Some r \<and> find_op user i d1 = Some s \<and> rw_hash r = h \<and> \<not> rw_historical r
        \<and> (if rw_state r = ''succeeded'' then d1 = d
           else (rw_state r \<in> set pending_op_states \<or> rw_state r = ''failed'') \<and> \<not> overran d r
             \<and> attempt_count user i d1 = attempt_count user i d + 1
             \<and> (if rw_state s = ''succeeded'' then approves reg (OpConfirms user i h answer k) d r s (os_world d1)
                else rw_state s \<in> {''failed'', ''stale''} \<and> os_world d1 = os_world d)))"
proof (cases res)
  case (Inl e)
  with run have "confirm reg user i h answer k d = (Inl e, d1)" by simp
  from confirm_refused [OF keys_of_ok [OF assms(1)] this] show ?thesis unfolding Inl sum.case .
next
  case (Inr x)
  then have c: "confirm reg user i h answer k d = (Inr x, d1)" using run by simp
  show ?thesis
    unfolding Inr sum.case using confirm_returned [OF assms(1) c] .
qed

definition confirmed_history :: "op_request list" where
  "confirmed_history = [OpProposes ''u'' (save_proposal ''k1'' (JDict [])) ''o1'']"

lemma confirm_all_or_nothing_witness:
  "os_world (snd (confirm count_registry ''u'' ''o1'' (save_hash (JDict [])) (None, JStr ''no'') ''d1''
      (run_operations short_sha count_registry confirmed_history empty_operations)))
    = os_world (run_operations short_sha count_registry confirmed_history empty_operations)
   \<and> rw_state (the (find_op ''u'' ''o1'' (snd (confirm count_registry ''u'' ''o1'' (save_hash (JDict [])) (None, JStr ''no'') ''d1''
      (run_operations short_sha count_registry confirmed_history empty_operations))))) = ''stale''"
proof -
  let ?d = "run_operations short_sha count_registry confirmed_history empty_operations"
  let ?w = "confirm count_registry ''u'' ''o1'' (save_hash (JDict [])) (None, JStr ''no'') ''d1'' ?d"
  have ok: "operations_ok ?d" using empty_operations_ok by (rule ok_after)
  have res: "fst ?w = Inr ''o1''" by code_simp
  have stale: "rw_state (the (find_op ''u'' ''o1'' (snd ?w))) = ''stale''" by code_simp
  have waits: "map_option rw_state (find_op ''u'' ''o1'' ?d) = Some ''awaiting_confirmation''" by code_simp
  have "?w = (Inr ''o1'', snd ?w)" using res by (metis prod.collapse)
  from confirm_all_or_nothing [OF ok this] stale waits show ?thesis by auto
qed

definition one_row_query :: op_query where
  "one_row_query = \<lparr>oq_types = [''skill.save''], oq_project = None, oq_session = Some ''s1'', oq_limit = 1\<rparr>"

lemma pages_list_everything_witness:
  "walk_pages ''u'' one_row_query 3 None (run_operations short_sha count_registry success_history empty_operations)
   = map position (latest_first rw_created rw_id (filter (selects one_row_query ''u'')
       (os_rows (run_operations short_sha count_registry success_history empty_operations))))"
proof (rule pages_list_everything [OF ok_after [OF empty_operations_ok]])
  let ?d = "run_operations short_sha count_registry success_history empty_operations"
  show "positions_fit ?d" by code_simp
  show "page_refusal one_row_query None = None" by code_simp
  show "length (os_rows ?d) < 3" by code_simp
qed

section \<open>Where the code departs from its comments\<close>

text \<open>The refusal of an expired proposal is not durable: the error that reports it undoes the write of the expiry.\<close>

lemma expired_refusal_is_forgotten:
  defines "d \<equiv> run_operations short_sha count_registry (confirmed_history @ [OpWaits 2000]) empty_operations"
  shows "fst (unit_of_work (confirm count_registry ''u'' ''o1'' (save_hash (JDict [])) (None, JNull) ''d1'') d)
      = Inl (ValueErr ''operation_not_confirmable:expired'')
    \<and> map rw_state (os_rows (operation_step short_sha count_registry
        (OpConfirms ''u'' ''o1'' (save_hash (JDict [])) (None, JNull) ''d1'') d)) = [''awaiting_confirmation'']"
  unfolding d_def by code_simp

text \<open>The clean-up of a cancelled operation writes in the transaction of the record: what it did before it failed is kept.\<close>

definition cleaning_registry :: "nat op_registry" where
  "cleaning_registry t v = map_option (\<lambda>g. g\<lparr>rg_cancel := Some (\<lambda>r x w. (Inl (OtherErr ''disk''), w + 3))\<rparr>) (count_registry t v)"

lemma failed_cleanup_is_kept:
  "os_world (run_operations short_sha cleaning_registry
     (confirmed_history @ [OpCancels ''u'' ''o1'' (save_hash (JDict [])) None ''d1'']) empty_operations) = 3
   \<and> map rw_state (os_rows (run_operations short_sha cleaning_registry
     (confirmed_history @ [OpCancels ''u'' ''o1'' (save_hash (JDict [])) None ''d1'']) empty_operations)) = [''cancelled'']"
  by code_simp

end
