(* ===== verification/Spec2Isabelle.thy ===== *)
theory Spec2Isabelle
  imports HookGates ApprovalProperties ActorProperties StreamProperties DispatchWitnesses Notifier AutoFindings QueueWitnesses OperationWitnesses
begin

text \<open>
  A model of six parts of Valuz: the multi-agent task engine
  (\<^verbatim>\<open>backend/valuz_agent/modules/tasks\<close>) with the execution lease under it
  (\<^verbatim>\<open>backend/valuz_agent/infra/execution_lease.py\<close>); the control plane of the agent kernel,
  that is its hook bus (\<^verbatim>\<open>backend/kernel/src/core/hooks\<close>) and its approvals
  (\<^verbatim>\<open>backend/kernel/src/core\<close>, \<^verbatim>\<open>backend/kernel/src/runtimes\<close>); the way of an event from a
  running turn to the log, the session's listeners and the browser; the automations
  (\<^verbatim>\<open>backend/valuz_agent/modules/automations\<close>); the queue of inputs of a chat session
  (\<^verbatim>\<open>backend/valuz_agent/modules/sessions\<close>); and the operations that wait for a user's consent
  (\<^verbatim>\<open>backend/valuz_agent/modules/operations\<close>).

  The task engine.  A task is a row with a status, a plan (a DAG of subtasks kept as a JSON
  column with a version), a log of events and a list of runs: one lead run and the member
  runs the lead dispatches.  Every process runs the same code against one database; actor
  loops drive the sessions, a mailbox table carries the messages between them, a lease table
  says which process may drive a session, and a watchdog and boot recovery take over what a
  dead process left behind.

  The kernel.  A session drives an agent runtime.  Before a tool runs, the runtime asks the
  hook bus: handlers of several owners form a chain around the tool, each may answer, change
  the event, ask the handlers below or fail, and required guards decide whether a run may
  start at all.  A tool that needs the user's consent becomes a request in the session's
  event log; an answer settles it, may leave a rule for later calls, and after a restart a
  sweep closes what nobody can answer any more.

  The streams.  What a runtime says passes a chain of sinks: deltas are merged, events are
  written to the log, stamped and broadcast on the session's bus, which remembers the open
  text of the turn for those who join late.  The browser follows a merge of the log, read in
  pages, with the live bus.

  The automations.  An automation is a row with a trigger (cron, interval, events or by hand), and each
  firing is a row of its runs.  A tick queues runs of what is due, deliveries and requests queue
  others, one worker starts the queued runs in turn, and what it starts (the turn of a session, a
  task, a program) ends the run later and moves the schedule.  Boot settles what a dead process left,
  and a monitor pauses what keeps failing.

  The input queue.  What is said to a session that is busy becomes a row of a table; drains, one per
  process and session, start the rows in turn under a lease, record how their turns end, and can be
  paused; users edit, delete and promote rows, automations append them under ids of their own, and a
  recovery closes the rows of processes that died.

  The operations.  What an agent wants to change in the product is first a proposal: a row with its
  content, the hash of it, a time it expires at.  The user confirms, cancels or asks for changes, naming
  the hash of what was shown; a confirmation runs the registered handler in a savepoint and records how it
  ended; a newer proposal for the same targets supersedes the one that waits; rows of another installation
  are imported as history.

  The state.  The record \<open>store\<close> holds the tables (\<open>tasks\<close>, \<open>events\<close>, \<open>runs\<close>, \<open>mailbox\<close>)
  and one log per effect the code sends elsewhere (rung doorbells, synced plan files, spawned
  actors, announcements, notices, review candidates, interrupts).  The lease table is a map
  of its own.  A method of the code is a function from its arguments and the store to its
  outcome and the store; an exception is a constructor of an error type.  A hook handler is
  a \<open>program\<close>, the tree of its awaits over a world of any type, so a chain is a function of
  handlers, event and world; the approval desk is the record \<open>desk\<close> of a runtime's futures,
  the event log and the rules.  A sink is a function from an event and its state to whether it
  took the event and the new state, so a chain of sinks is their composition.  The record \<open>autos\<close>
  holds the rows of the automations and their runs with the queue, the active set and the pending
  turns of the runner, the record \<open>queues\<close> the rows of the input queue with the drains of all processes, and the record
  \<open>op_store\<close> the operations and decisions with the data the handlers work on.

  Concurrency.  The code commits after every statement and awaits between them, so other
  writers act between a read and the write it guards.  A definition takes what they do as
  functions from stores to stores: \<open>intf\<close> between a read and its conditional write,
  \<open>between\<close> between two units of work, \<open>env\<close> one per round of a retry loop.  Theorems hold
  for all of them, or for those that keep what a hypothesis names (the ids of the tasks, or
  that a plan never changes without its version).  Interleavings of whole operations are
  step relations (\<open>plan_writers\<close>, \<open>mail_step\<close>, \<open>lease_step\<close>), or a function of a list of
  operations (\<open>auto_step\<close>, \<open>queue_step\<close>, and \<open>operation_step\<close>, one unit of work per request), where a turn that waits is a value of the state, so anything may
  happen before it goes on.

  The theories, in the order of the code's layers:

  \<^item> \<open>Histories\<close>: the interface \<open>kept_by_steps\<close> between a step and an invariant, interpreted on the
    automations, on the input queue and on the operations.
  \<^item> \<open>Prelude\<close>, \<open>PyJson\<close>: results with errors, updates of rows, and the Python values of a
    parsed JSON document with the built-ins the code applies to them.
  \<^item> \<open>Plan\<close>, \<open>PlanDag\<close>, \<open>PlanFacts\<close> (\<^verbatim>\<open>plan.py\<close>): the plan, its three-colour search for cycles
    shown equivalent to acyclicity, the validity invariant, the node transitions, progress
    and the JSON round trip.
  \<^item> \<open>TaskState\<close> (\<^verbatim>\<open>task_state.py\<close>, \<^verbatim>\<open>member_state.py\<close>): the status machine and the
    reconciliation of a dead member.
  \<^item> \<open>Store\<close>, \<open>StoreFacts\<close> (\<^verbatim>\<open>models.py\<close>, \<^verbatim>\<open>datastore.py\<close>): the rows, the status door, the plan
    compare-and-swap, the event log with its retries.
  \<^item> \<open>Mailbox\<close> (\<^verbatim>\<open>mailbox_store.py\<close>), \<open>Messaging\<close> (\<^verbatim>\<open>messaging.py\<close>).
  \<^item> \<open>Planning\<close>, \<open>PlanningFacts\<close> (\<^verbatim>\<open>planning.py\<close>, \<^verbatim>\<open>plan_render.py\<close>), \<open>PlanWriters\<close> (the
    interface \<open>versioned_document\<close> of a versioned document, interpreted on the plan column),
    \<open>PlanAccess\<close> (\<^verbatim>\<open>gate.py\<close>, \<^verbatim>\<open>plan_commands.py\<close>).
  \<^item> \<open>Lease\<close>, \<open>LeaseFacts\<close> (\<^verbatim>\<open>execution_lease.py\<close>, \<^verbatim>\<open>lease.py\<close>): the interface \<open>fenced_cell\<close>,
    interpreted on the lease table, and mutual exclusion proved inside it.
  \<^item> \<open>Terminal\<close>, \<open>TerminalFacts\<close> (\<^verbatim>\<open>events.py\<close>, \<^verbatim>\<open>finalization.py\<close>), \<open>Lifecycle\<close>,
    \<open>LifecycleFacts\<close> (\<^verbatim>\<open>provenance.py\<close>, \<^verbatim>\<open>lifecycle.py\<close>, \<^verbatim>\<open>launcher.py\<close>), \<open>Recovery\<close>,
    \<open>RecoveryFacts\<close> (\<^verbatim>\<open>recovery.py\<close>).
  \<^item> \<open>Members\<close>, \<open>AwaitMembers\<close>, \<open>MemberFacts\<close> (\<^verbatim>\<open>member_probe.py\<close>, \<^verbatim>\<open>coordination.py\<close>): the
    heartbeat of member runs, and the wait in which a lead collects their reports.
  \<^item> \<open>Actor\<close>, \<open>ActorFacts\<close>, \<open>ActorProperties\<close> (\<^verbatim>\<open>actor_runner.py\<close>, \<^verbatim>\<open>turn_driver.py\<close>): the loop
    that drives one session turn by turn, and how it ends.
  \<^item> \<open>Dispatch\<close>, \<open>DispatchFacts\<close> (\<^verbatim>\<open>dispatcher.py\<close>, \<^verbatim>\<open>task_worktree.py\<close>): from a node of the plan to a
    running member; \<open>Purge\<close> (\<^verbatim>\<open>purge.py\<close>, the sweep of \<^verbatim>\<open>boot/steps.py\<close>): what deleting tasks leaves;
    \<open>Notifier\<close> (\<^verbatim>\<open>notifier.py\<close>): the doorbell, which loses no ring.
  \<^item> \<open>Witnesses\<close>, \<open>TaskWitnesses\<close>, \<open>DispatchWitnesses\<close>: a sample task and, for every property with hypotheses, an
    input at which they hold.

  \<^item> \<open>HookEvents\<close>, \<open>HookMatcher\<close>, \<open>HookChain\<close>, \<open>HookRegistry\<close> (\<^verbatim>\<open>hooks/events.py\<close>, \<^verbatim>\<open>matcher.py\<close>,
    \<^verbatim>\<open>chain.py\<close>, \<^verbatim>\<open>registry.py\<close>) and \<open>HookBuiltins\<close> (\<^verbatim>\<open>tool_identity.py\<close>, \<^verbatim>\<open>builtin\<close>, \<^verbatim>\<open>toolkit.py\<close>,
    \<^verbatim>\<open>runtime_support.py\<close>).  \<open>HookChainFacts\<close> has the interface \<open>chain_filter\<close> between what one
    handler may pass on and what the whole chain does; \<open>HookProperties\<close> and \<open>HookGates\<close> show
    what the bus, the gates and the runtime guard promise.
  \<^item> \<open>JsonText\<close> (the text \<^verbatim>\<open>json.dumps\<close> writes, shown injective), \<open>ApprovalRules\<close>
    (\<^verbatim>\<open>approval_rule_matcher.py\<close>, \<^verbatim>\<open>rule_canonicalize.py\<close>, \<^verbatim>\<open>session_approval_cache.py\<close>, with the
    interface \<open>approval_matcher\<close> interpreted on both matchers), \<open>ApprovalDesk\<close> (the runtimes'
    requests, timeouts and interrupts), \<open>ApprovalSubmit\<close> (\<open>submit_action\<close> and the restart
    sweep), \<open>ApprovalFacts\<close>, \<open>ApprovalProperties\<close>.

  \<^item> \<open>LiveEvents\<close> (\<^verbatim>\<open>database_sink.py\<close>, \<^verbatim>\<open>persist_then_broadcast_sink.py\<close>), \<open>Coalesce\<close>
    (\<^verbatim>\<open>delta_coalescing_sink.py\<close>), \<open>LivePartial\<close> (\<^verbatim>\<open>live_partial.py\<close>, against the specification
    \<open>unsealed\<close> of what is still open), \<open>SessionBus\<close> (\<^verbatim>\<open>session_bus.py\<close>), \<open>ReplyText\<close>
    (\<^verbatim>\<open>reply_text.py\<close>), \<open>EventStream\<close>, \<open>EventStreamFacts\<close> (\<^verbatim>\<open>event_sse_adapter.py\<close>) and
    \<open>StreamProperties\<close>.

  \<^item> \<open>AutoStore\<close> (\<^verbatim>\<open>models.py\<close>, \<^verbatim>\<open>datastore.py\<close>, \<^verbatim>\<open>triggers.py\<close>), \<open>AutoService\<close> (\<^verbatim>\<open>service.py\<close>,
    \<^verbatim>\<open>failure_monitor.py\<close>), \<open>AutoRunner\<close> (\<^verbatim>\<open>in_process_runner.py\<close>); \<open>AutoFacts\<close> has the invariant of
    the tables under every step, \<open>AutoSchedule\<close> what the tick, the boot and the monitor come to,
    \<open>AutoProperties\<close> the properties and \<open>AutoFindings\<close> the schedules on which the code departs from its
    comments.
  \<^item> \<open>InputQueue\<close> (\<^verbatim>\<open>sessions/datastore.py\<close>, \<^verbatim>\<open>input_receipts.py\<close>), \<open>QueueDrain\<close>
    (\<^verbatim>\<open>run_orchestrator.py\<close>, \<^verbatim>\<open>service.py\<close>, \<^verbatim>\<open>facade/sessions.py\<close>, \<^verbatim>\<open>recovery.py\<close>); \<open>QueueFacts\<close> has the
    invariant of the table and of the turns started, \<open>QueueOrder\<close> the order of the turns,
    \<open>QueueProperties\<close> the properties and \<open>QueueWitnesses\<close> concrete histories, three of them showing a defect.
  \<^item> \<open>Operations\<close> (\<^verbatim>\<open>operations/service.py\<close>, \<^verbatim>\<open>registry.py\<close>, \<^verbatim>\<open>models.py\<close>), \<open>OperationImport\<close>
    (\<^verbatim>\<open>migration.py\<close>, and all requests together); \<open>OperationFacts\<close> has the lifecycle of a row,
    \<open>OperationTrace\<close> the effect of each request and the request behind a success, \<open>OperationProperties\<close> the
    histories, \<open>OperationPages\<close> the reading page by page and \<open>OperationWitnesses\<close> the properties on a small
    installation, with two departures of the code from its comments.

  Bounds.  The depth-first search takes one more than the number of nodes as fuel, and \<open>PlanDag\<close> shows that
  it is never used up.  The retry loops (\<open>plan_cas_retries\<close>, \<open>lock_retry_attempts\<close>) have the
  code's own bounds, as have the handlers' budgets (\<open>default_budget\<close>, in seconds) and the number of markers a pending is looked for in.  Integers are Python's, that is \<open>int\<close>.

  Parameters.  What lies outside the modelled files is an argument: the kernel's session
  states and stop reasons, manifests of finished members, provider resolution, the message
  catalogue, the memory scheduler, the regular expressions of a matcher, the ids of
  registrations and events, the tools themselves, the turns an actor runs and what each of its
  waits meets, what the resolver finds for a member, the reading of a cron expression, the answers of run guards and
  the receipts of session inputs, the statuses of sessions and leases a drain meets, whether a sink takes an event, the pages a reader of the log is given, the table
  that renames a session's events for the browser, the clock of a lease operation and whether the database
  answers it, the handlers of operations with the schemas of their payloads, and the hash function of proposals.

  Atomicity.  What the code does between two awaits of the database is one step, with these
  exceptions, where the model is coarser than the code: \<open>propose\<close> and the other requests on
  operations are one unit of work each, so two proposals at once are not interleaved;
  \<open>create_queued\<close> reads the position and inserts the row in one step; and the claim of a
  message (\<open>drain_one\<close>) either takes effect and is answered or does neither, so a claim whose
  answer is lost is not modelled.  A patch of the plan that names a method of the node
  (\<open>MemberOverwrite\<close>) is an error of its own rather than a node with a broken method.

  Not modelled: Python's recursion limit, which a chain of about a thousand dependent nodes
  meets in \<open>validate\<close>; the paged list queries and title lookups of \<^verbatim>\<open>datastore.py\<close>, removal of a
  task's worktree, the reset of a session's mode, log output; of the hooks the command
  registry, remote handlers, overlays and the settings-file hooks; the approvals of the
  Codex runtime; of the actor loop the hint texts; of the streams the renaming table, the turn windows
  the browser pages back with and the search for a session's kernel; of the automations their creation,
  editing and preview, contracts, prompts, playbook rows, the program runner, the replay of a retry
  under a given id and the upstream monitors of events; of the sessions everything but their input
  queue; of the operations the handlers that skills, playbooks and plugins register; and the other parts of the
  backend, the command-line client and the user interface.
\<close>

end
